(* ===== verification/Prelude.thy ===== *)
theory Prelude
  imports Main "HOL-Library.Word" "HOL-Library.AList"
begin

text \<open>
  Shared vocabulary of the development: byte strings and fixed-width keys, the
  Go clock, Go errors as values, and the state-and-error computations in which
  every operation with effects is written.  The weakest-precondition operator
  at the end carries the proofs about such computations: its equations are
  collected in \<open>wp\<close>.
\<close>

unbundle bit_operations_syntax

named_theorems wp \<open>equations that push a weakest precondition through a computation\<close>

section \<open>Bytes and fixed-width integers\<close>

type_synonym byte = "8 word"
type_synonym bytes = "byte list"

text \<open>
  A \<^verbatim>\<open>wgtypes.Key\<close> and a SHA-256 sum are arrays of 32 bytes and a session
  identifier is an array of 16.  They are words of 256 and 128 bits, read big
  endian, so \<^verbatim>\<open>bytes.Compare\<close> on two keys is the unsigned order of the words
  (\<open>be_bytes_less\<close> below) and the zero value of the array is the word 0.
\<close>

type_synonym wgkey = "256 word"
type_synonym hash = "256 word"
type_synonym sid = "128 word"

fun be_bytes :: "nat \<Rightarrow> 'a::len word \<Rightarrow> bytes" where
  "be_bytes 0 x = []"
| "be_bytes (Suc n) x = be_bytes n (drop_bit 8 x) @ [ucast x]"

definition be_word :: "bytes \<Rightarrow> 'a::len word" where
  "be_word bs = foldl (\<lambda>a b. push_bit 8 a OR ucast b) 0 bs"

section \<open>The Go clock\<close>

text \<open>
  A \<^verbatim>\<open>time.Time\<close> is the number of nanoseconds after Go's zero time, so
  \<^verbatim>\<open>IsZero\<close> is equality with 0; a \<^verbatim>\<open>time.Duration\<close> is a signed 64-bit count
  of nanoseconds.  \<^verbatim>\<open>Time.Sub\<close> saturates at the ends of that range instead of
  wrapping, while subtraction of two durations wraps.
\<close>

type_synonym time = int
type_synonym duration = int

definition maxDuration :: duration where "maxDuration = 2 ^ 63 - 1"
definition minDuration :: duration where "minDuration = - (2 ^ 63)"

definition timeSub :: "time \<Rightarrow> time \<Rightarrow> duration" where
  "timeSub t u = max minDuration (min maxDuration (t - u))"

definition int64 :: "int \<Rightarrow> int" where
  "int64 x = (x + 2 ^ 63) mod 2 ^ 64 - 2 ^ 63"

abbreviation millisecond :: duration where "millisecond \<equiv> 1000000"
abbreviation second :: duration where "second \<equiv> 1000000000"
abbreviation minute :: duration where "minute \<equiv> 60000000000"

section \<open>Errors and computations\<close>

text \<open>
  \<^verbatim>\<open>errors.New\<close>, \<^verbatim>\<open>fmt.Errorf\<close> with \<^verbatim>\<open>%w\<close> and \<^verbatim>\<open>errors.Join\<close>; a nil error is
  \<open>None\<close>.
\<close>

datatype error = Msg string | Wrap string error | Joined error error

fun joinErr :: "error option \<Rightarrow> error option \<Rightarrow> error option" where
  "joinErr None b = b"
| "joinErr a None = a"
| "joinErr (Some a) (Some b) = Some (Joined a b)"

text \<open>
  A Go function with effects maps a state to a result and a state.  An error
  return keeps every change made before it, as in Go.
\<close>

type_synonym ('s, 'a) eff = "'s \<Rightarrow> (error + 'a) \<times> 's"

definition returnE :: "'a \<Rightarrow> ('s, 'a) eff" where
  "returnE a s = (Inr a, s)"

definition throwE :: "error \<Rightarrow> ('s, 'a) eff" where
  "throwE e s = (Inl e, s)"

definition bindE :: "('s, 'a) eff \<Rightarrow> ('a \<Rightarrow> ('s, 'b) eff) \<Rightarrow> ('s, 'b) eff" where
  "bindE m f s = (case m s of (Inl e, s') \<Rightarrow> (Inl e, s') | (Inr a, s') \<Rightarrow> f a s')"

definition thenE :: "('s, 'a) eff \<Rightarrow> ('s, 'b) eff \<Rightarrow> ('s, 'b) eff" where
  "thenE m n = bindE m (\<lambda>_. n)"

definition tryE :: "('s, 'a) eff \<Rightarrow> ('s, error + 'a) eff" where
  "tryE m s = (case m s of (r, s') \<Rightarrow> (Inr r, s'))"

definition getsE :: "('s \<Rightarrow> 'a) \<Rightarrow> ('s, 'a) eff" where
  "getsE f s = (Inr (f s), s)"

definition modifyE :: "('s \<Rightarrow> 's) \<Rightarrow> ('s, unit) eff" where
  "modifyE f s = (Inr (), f s)"

definition failIf :: "bool \<Rightarrow> error \<Rightarrow> ('s, unit) eff" where
  "failIf b e = (if b then throwE e else returnE ())"

text \<open>\<^verbatim>\<open>errors.Join(m(), n())\<close>: both run, and either error is returned.\<close>

definition bothE :: "('s, unit) eff \<Rightarrow> ('s, unit) eff \<Rightarrow> ('s, unit) eff" where
  "bothE m n = bindE (tryE m) (\<lambda>a. bindE (tryE n) (\<lambda>b. case a of
      Inr _ \<Rightarrow> (case b of Inr _ \<Rightarrow> returnE () | Inl e \<Rightarrow> throwE e)
    | Inl e \<Rightarrow> (case b of Inr _ \<Rightarrow> throwE e | Inl e' \<Rightarrow> throwE (Joined e e'))))"

fun forE :: "'a list \<Rightarrow> ('a \<Rightarrow> ('s, unit) eff) \<Rightarrow> ('s, unit) eff" where
  "forE [] f = returnE ()"
| "forE (x # xs) f = thenE (f x) (forE xs f)"

text \<open>A computation on a part of the state, given by how that part is read and replaced.\<close>

definition through :: "('s \<Rightarrow> 'w) \<Rightarrow> ('w \<Rightarrow> 's \<Rightarrow> 's) \<Rightarrow> ('w \<Rightarrow> 'a \<times> 'w) \<Rightarrow> 's \<Rightarrow> 'a \<times> 's" where
  "through get put m s = (case m (get s) of (r, w) \<Rightarrow> (r, put w s))"

definition putFst :: "'w \<Rightarrow> 'w \<times> 'l \<Rightarrow> 'w \<times> 'l" where
  "putFst w s = (w, snd s)"

abbreviation inFst :: "('w \<Rightarrow> 'a \<times> 'w) \<Rightarrow> 'w \<times> 'l \<Rightarrow> 'a \<times> ('w \<times> 'l)" where
  "inFst \<equiv> through fst putFst"

lemma through_result: "through get put m s = (r, s') \<Longrightarrow> \<exists>w. m (get s) = (r, w) \<and> s' = put w s"
  by (auto simp: through_def split: prod.splits)

lemma snd_through: "snd (through get put m s) = put (snd (m (get s))) s"
  by (simp add: through_def split: prod.split)

definition wpE :: "('s, 'a) eff \<Rightarrow> ('a \<Rightarrow> 's \<Rightarrow> bool) \<Rightarrow> (error \<Rightarrow> 's \<Rightarrow> bool) \<Rightarrow> 's \<Rightarrow> bool" where
  "wpE m Q E s = (case m s of (Inl e, s') \<Rightarrow> E e s' | (Inr a, s') \<Rightarrow> Q a s')"

section \<open>Lemmas on words and bytes\<close>

lemma length_be_bytes [simp]: "length (be_bytes n x) = n"
  by (induction n arbitrary: x) auto

lemma be_word_Nil [simp]: "be_word [] = 0"
  by (simp add: be_word_def)

lemma be_word_snoc [simp]: "be_word (bs @ [b]) = push_bit 8 (be_word bs) OR ucast b"
  by (simp add: be_word_def)

lemma be_word_be_bytes:
  "be_word (be_bytes n (x :: 'a::len word)) = (take_bit (8 * n) x :: 'a word)"
proof (induction n arbitrary: x)
  case 0
  then show ?case by simp
next
  case (Suc n)
  have "be_word (be_bytes (Suc n) x) = push_bit 8 (take_bit (8 * n) (drop_bit 8 x)) OR ucast (ucast x :: byte)"
    by (simp add: Suc.IH)
  also have "\<dots> = take_bit (8 * Suc n) x"
    by (rule bit_word_eqI)
      (auto simp: bit_push_bit_iff bit_take_bit_iff bit_drop_bit_eq bit_or_iff bit_ucast_iff)
  finally show ?case .
qed

lemma bit_be_word_less: "bit (be_word bs :: 'a::len word) i \<Longrightarrow> i < 8 * length bs"
proof (induction bs arbitrary: i rule: rev_induct)
  case Nil
  then show ?case by simp
next
  case (snoc b bs)
  from snoc.prems consider "8 \<le> i" "bit (be_word bs :: 'a word) (i - 8)" | "bit b i"
    by (auto simp: bit_push_bit_iff bit_or_iff bit_ucast_iff)
  then show ?case
  proof cases
    case 1
    with snoc.IH[of "i - 8"] show ?thesis by auto
  next
    case 2
    then show ?thesis by (auto dest: bit_imp_le_length)
  qed
qed

lemma be_bytes_be_word:
  "8 * length bs \<le> LENGTH('a) \<Longrightarrow> be_bytes (length bs) (be_word bs :: 'a::len word) = bs"
proof (induction bs rule: rev_induct)
  case Nil
  then show ?case by simp
next
  case (snoc b bs)
  let ?w = "push_bit 8 (be_word bs) OR ucast b :: 'a word"
  have tail: "drop_bit 8 ?w = be_word bs"
    by (rule bit_word_eqI)
      (use snoc.prems in \<open>auto simp: bit_push_bit_iff bit_drop_bit_eq bit_or_iff bit_ucast_iff
        dest: bit_imp_le_length bit_be_word_less\<close>)
  have last: "(ucast ?w :: byte) = b"
    by (rule bit_word_eqI)
      (use snoc.prems in \<open>auto simp: bit_push_bit_iff bit_or_iff bit_ucast_iff dest: bit_imp_le_length\<close>)
  have "be_bytes (length bs) (be_word bs :: 'a word) = bs"
    using snoc by simp
  then show ?case
    by (simp only: length_append_singleton be_bytes.simps be_word_snoc tail last)
qed

lemma be_bytes_inject:
  "8 * n = LENGTH('a) \<Longrightarrow> be_bytes n (x :: 'a::len word) = be_bytes n y \<longleftrightarrow> x = y"
  by (metis be_word_be_bytes take_bit_word_eq_self order_refl)

lemma lexord_snoc:
  "length u = length v \<Longrightarrow> (u @ [a], v @ [b]) \<in> lexord r \<longleftrightarrow> (u, v) \<in> lexord r \<or> u = v \<and> (a, b) \<in> r"
  by (induction u v rule: list_induct2) auto

lemma be_bytes_mod:
  fixes x y :: "'a::len word"
  shows "be_bytes n x = be_bytes n y \<longleftrightarrow> unat x mod 2 ^ (8 * n) = unat y mod 2 ^ (8 * n)"
    and "(be_bytes n x, be_bytes n y) \<in> lexord {(a, b). a < b} \<longleftrightarrow> unat x mod 2 ^ (8 * n) < unat y mod 2 ^ (8 * n)"
proof (induction n arbitrary: x y)
  case (Suc n)
  have split: "unat z mod 2 ^ (8 * Suc n) = 256 * (unat (drop_bit 8 z) mod 2 ^ (8 * n)) + unat (ucast z :: byte)" for z :: "'a word"
    using mod_mult2_eq[of "unat z" 256 "2 ^ (8 * n)"] by (simp add: unat_drop_bit_eq drop_bit_eq_div[of 8 "unat z"] unsigned_ucast_eq take_bit_eq_mod power_add)
  have less: "unat (ucast z :: byte) < 256" for z :: "'a word" using unsigned_less[of "ucast z :: byte"] by simp
  have digits: "256 * q + r = 256 * q' + r' \<longleftrightarrow> q = q' \<and> r = r'" "256 * q + r < 256 * q' + r' \<longleftrightarrow> q < q' \<or> q = q' \<and> r < r'"
    if "r < 256" "r' < 256" for q q' r r' :: nat
    using that by (cases q q' rule: linorder_cases; auto)+
  { case 1
    show ?case
      unfolding split digits(1)[OF less less] using Suc(1)[of "drop_bit 8 x" "drop_bit 8 y"]
      by (simp add: word_unat_eq_iff[of "ucast x :: byte"])
  next
    case 2
    show ?case
      unfolding split digits(2)[OF less less] using Suc[of "drop_bit 8 x" "drop_bit 8 y"]
      by (simp add: lexord_snoc word_less_nat_alt[of "ucast x :: byte"])
  }
qed simp_all

text \<open>The order of keys is the byte order of \<^verbatim>\<open>bytes.Compare\<close>.\<close>

lemma be_bytes_less:
  "8 * n = LENGTH('a) \<Longrightarrow> (be_bytes n (x :: 'a::len word), be_bytes n y) \<in> lexord {(a, b). a < b} \<longleftrightarrow> x < y"
  using unsigned_less[of x] unsigned_less[of y] by (simp add: be_bytes_mod(2) word_less_nat_alt[of x y])

section \<open>Lemmas on association lists\<close>

lemma delete_update_same [simp]: "AList.delete k (AList.update k v al) = AList.delete k al"
  by (induction al) auto

lemma update_absent: "map_of al k = None \<Longrightarrow> AList.update k v al = al @ [(k, v)]"
  by (induction al) (auto split: if_splits)

lemma set_update_cases: "e \<in> set (AList.update k v al) \<Longrightarrow> e = (k, v) \<or> e \<in> set al"
  by (induction al) (auto split: if_splits)

lemma keys_update: "fst ` set (AList.update k v al) = insert k (fst ` set al)"
  by (simp add: AList.dom_update)

section \<open>Lemmas on the clock\<close>

lemma int64_exact: "minDuration \<le> x \<Longrightarrow> x \<le> maxDuration \<Longrightarrow> int64 x = x"
  by (simp add: int64_def minDuration_def maxDuration_def)

section \<open>Lemmas on computations\<close>

lemma wpE_returnE [wp]: "wpE (returnE a) Q E s \<longleftrightarrow> Q a s"
  by (simp add: wpE_def returnE_def)

lemma wpE_throwE [wp]: "wpE (throwE e) Q E s \<longleftrightarrow> E e s"
  by (simp add: wpE_def throwE_def)

lemma wpE_bindE [wp]: "wpE (bindE m f) Q E s \<longleftrightarrow> wpE m (\<lambda>a. wpE (f a) Q E) E s"
  by (simp add: wpE_def bindE_def split: prod.split sum.split)

lemma wpE_thenE [wp]: "wpE (thenE m n) Q E s \<longleftrightarrow> wpE m (\<lambda>_. wpE n Q E) E s"
  by (simp add: thenE_def wp)

lemma wpE_tryE [wp]: "wpE (tryE m) Q E s \<longleftrightarrow> wpE m (\<lambda>a. Q (Inr a)) (\<lambda>e. Q (Inl e)) s"
  by (simp add: wpE_def tryE_def split: prod.split sum.split)

lemma wpE_getsE [wp]: "wpE (getsE f) Q E s \<longleftrightarrow> Q (f s) s"
  by (simp add: wpE_def getsE_def)

lemma wpE_modifyE [wp]: "wpE (modifyE f) Q E s \<longleftrightarrow> Q () (f s)"
  by (simp add: wpE_def modifyE_def)

lemma wpE_failIf [wp]: "wpE (failIf b e) Q E s \<longleftrightarrow> (if b then E e s else Q () s)"
  by (simp add: failIf_def wp)

lemma wpE_if [wp]: "wpE (if b then m else n) Q E s \<longleftrightarrow> (if b then wpE m Q E s else wpE n Q E s)"
  by simp

lemma wpE_Let [wp]: "wpE (let x = v in m x) Q E s \<longleftrightarrow> wpE (m v) Q E s"
  by simp

lemma wpE_case_option [wp]:
  "wpE (case x of None \<Rightarrow> m | Some a \<Rightarrow> n a) Q E s \<longleftrightarrow>
    (case x of None \<Rightarrow> wpE m Q E s | Some a \<Rightarrow> wpE (n a) Q E s)"
  by (cases x) auto

lemma wpE_case_prod [wp]:
  "wpE (case x of (a, b) \<Rightarrow> m a b) Q E s \<longleftrightarrow> (case x of (a, b) \<Rightarrow> wpE (m a b) Q E s)"
  by (cases x) auto

lemma wpE_case_sum [wp]:
  "wpE (case x of Inl a \<Rightarrow> m a | Inr b \<Rightarrow> n b) Q E s \<longleftrightarrow>
    (case x of Inl a \<Rightarrow> wpE (m a) Q E s | Inr b \<Rightarrow> wpE (n b) Q E s)"
  by (cases x) auto

lemma wpE_mono:
  "wpE m Q E s \<Longrightarrow> (\<And>a s. Q a s \<Longrightarrow> Q' a s) \<Longrightarrow> (\<And>e s. E e s \<Longrightarrow> E' e s) \<Longrightarrow> wpE m Q' E' s"
  by (auto simp: wpE_def split: prod.splits sum.splits)

lemma wpE_True [simp]: "wpE m (\<lambda>_ _. True) (\<lambda>_ _. True) s"
  by (auto simp: wpE_def split: prod.split sum.split)

lemma wpE_any: "(\<And>a s'. Q a s') \<Longrightarrow> (\<And>e s'. E e s') \<Longrightarrow> wpE m Q E s"
  by (simp add: wpE_def split: prod.split sum.split)

lemma wpE_conj:
  "wpE m Q E s \<Longrightarrow> wpE m Q' E' s \<Longrightarrow> wpE m (\<lambda>a s. Q a s \<and> Q' a s) (\<lambda>e s. E e s \<and> E' e s) s"
  by (auto simp: wpE_def split: prod.splits sum.splits)

text \<open>A result of a run satisfies the matching postcondition.\<close>

lemma wpE_InrD: "wpE m Q E s \<Longrightarrow> m s = (Inr a, s') \<Longrightarrow> Q a s'"
  by (simp add: wpE_def)

lemma wpE_InlD: "wpE m Q E s \<Longrightarrow> m s = (Inl e, s') \<Longrightarrow> E e s'"
  by (simp add: wpE_def)

lemma wpE_forE_inv:
  assumes "\<And>x s. x \<in> set xs \<Longrightarrow> I s \<Longrightarrow> wpE (f x) (\<lambda>_. I) E s" and "I s"
  shows "wpE (forE xs f) (\<lambda>_. I) E s"
  using assms
proof (induction xs arbitrary: s)
  case Nil
  then show ?case by (simp add: wp)
next
  case (Cons x xs)
  have "wpE (f x) (\<lambda>_. I) E s" by (rule Cons.prems) (simp_all add: Cons.prems)
  then have "wpE (f x) (\<lambda>_. wpE (forE xs f) (\<lambda>_. I) E) E s"
    by (rule wpE_mono) (auto intro!: Cons.IH intro: Cons.prems)
  then show ?case by (simp add: wp)
qed

end
