(* ===== verification/Netip.thy ===== *)
theory Netip
  imports Prelude
begin

text \<open>
  The parts of Go's \<^verbatim>\<open>net/netip\<close> the daemon relies on: addresses with their
  classification, address prefixes, and address-port pairs.  An IPv6 address
  carries its zone (empty when it has none); the invalid zero address is
  \<open>NoAddr\<close>, the zero prefix has length \<open>-1\<close>.  The classification predicates
  unmap an IPv4-mapped IPv6 address first, as the library does.
\<close>

section \<open>Addresses\<close>

datatype addr = NoAddr | V4 "32 word" | V6 "128 word" string

fun is4 :: "addr \<Rightarrow> bool" where
  "is4 (V4 _) = True"
| "is4 _ = False"

fun is6 :: "addr \<Rightarrow> bool" where
  "is6 (V6 _ _) = True"
| "is6 _ = False"

fun is4In6 :: "addr \<Rightarrow> bool" where
  "is4In6 (V6 w _) = (drop_bit 32 w = 0xffff)"
| "is4In6 _ = False"

fun unmap :: "addr \<Rightarrow> addr" where
  "unmap (V6 w z) = (if drop_bit 32 w = 0xffff then V4 (ucast w) else V6 w z)"
| "unmap a = a"

fun zone :: "addr \<Rightarrow> string" where
  "zone (V6 _ z) = z"
| "zone _ = []"

fun withZone :: "string \<Rightarrow> addr \<Rightarrow> addr" where
  "withZone z (V6 w _) = V6 w z"
| "withZone z a = a"

fun bitLen :: "addr \<Rightarrow> int" where
  "bitLen NoAddr = 0"
| "bitLen (V4 _) = 32"
| "bitLen (V6 _ _) = 128"

definition isUnspecified :: "addr \<Rightarrow> bool" where
  "isUnspecified a \<longleftrightarrow> a = V4 0 \<or> a = V6 0 []"

definition isLoopback :: "addr \<Rightarrow> bool" where
  "isLoopback a = (case unmap a of
      NoAddr \<Rightarrow> False
    | V4 w \<Rightarrow> drop_bit 24 w = 127
    | V6 w _ \<Rightarrow> w = 1)"

definition isMulticast :: "addr \<Rightarrow> bool" where
  "isMulticast a = (case unmap a of
      NoAddr \<Rightarrow> False
    | V4 w \<Rightarrow> drop_bit 28 w = 0xe
    | V6 w _ \<Rightarrow> drop_bit 120 w = 0xff)"

definition isLinkLocalUnicast :: "addr \<Rightarrow> bool" where
  "isLinkLocalUnicast a = (case unmap a of
      NoAddr \<Rightarrow> False
    | V4 w \<Rightarrow> drop_bit 16 w = 0xa9fe
    | V6 w _ \<Rightarrow> drop_bit 118 w = 0x3fa)"

definition isLinkLocalMulticast :: "addr \<Rightarrow> bool" where
  "isLinkLocalMulticast a = (case unmap a of
      NoAddr \<Rightarrow> False
    | V4 w \<Rightarrow> drop_bit 8 w = 0xe00000
    | V6 w _ \<Rightarrow> drop_bit 112 w AND 0xff0f = 0xff02)"

definition isGlobalUnicast :: "addr \<Rightarrow> bool" where
  "isGlobalUnicast a = (let b = unmap a in
      b \<noteq> NoAddr \<and> b \<noteq> V4 0 \<and> b \<noteq> V4 0xffffffff \<and> b \<noteq> V6 0 [] \<and>
      \<not> isLoopback b \<and> \<not> isMulticast b \<and> \<not> isLinkLocalUnicast b)"

section \<open>Prefixes\<close>

datatype prefix = Prefix (pAddr: addr) (pBits: int)

definition prefixFrom :: "addr \<Rightarrow> int \<Rightarrow> prefix" where
  "prefixFrom a b = Prefix (withZone [] a) (if a \<noteq> NoAddr \<and> 0 \<le> b \<and> b \<le> bitLen a then b else - 1)"

definition pValid :: "prefix \<Rightarrow> bool" where
  "pValid p \<longleftrightarrow> 0 \<le> pBits p"

text \<open>
  \<^verbatim>\<open>Prefix.Masked\<close> clears the host bits and gives the zero prefix for an invalid
  one; \<^verbatim>\<open>Prefix.Contains\<close> rejects an address with a zone or of the other family.
\<close>

fun masked :: "prefix \<Rightarrow> prefix" where
  "masked (Prefix (V4 w) b) =
    (if 0 \<le> b \<and> b \<le> 32 then Prefix (V4 (push_bit (nat (32 - b)) (drop_bit (nat (32 - b)) w))) b
     else Prefix NoAddr (- 1))"
| "masked (Prefix (V6 w z) b) =
    (if 0 \<le> b \<and> b \<le> 128 then Prefix (V6 (push_bit (nat (128 - b)) (drop_bit (nat (128 - b)) w)) []) b
     else Prefix NoAddr (- 1))"
| "masked (Prefix NoAddr b) = Prefix NoAddr (- 1)"

fun contains :: "prefix \<Rightarrow> addr \<Rightarrow> bool" where
  "contains (Prefix (V4 n) b) (V4 w) =
    (0 \<le> b \<and> drop_bit (nat (32 - b)) (n XOR w) = 0)"
| "contains (Prefix (V6 n _) b) (V6 w z) =
    (0 \<le> b \<and> z = [] \<and> drop_bit (nat (128 - b)) (n XOR w) = 0)"
| "contains _ _ = False"

text \<open>The prefix of a single host, as \<^verbatim>\<open>netip.PrefixFrom(ip, ip.BitLen())\<close>.\<close>

definition hostPrefix :: "addr \<Rightarrow> prefix" where
  "hostPrefix a = prefixFrom a (bitLen a)"

text \<open>An \<^verbatim>\<open>netip.AddrPort\<close>; it is valid when its address is.\<close>

type_synonym addrPort = "addr \<times> 16 word"

abbreviation apAddr :: "addrPort \<Rightarrow> addr" where "apAddr \<equiv> fst"
abbreviation apPort :: "addrPort \<Rightarrow> 16 word" where "apPort \<equiv> snd"

section \<open>Lemmas\<close>

lemma bitLen_nonneg [simp]: "0 \<le> bitLen a"
  by (cases a) auto

lemma zone_withZone [simp]: "is6 a \<Longrightarrow> zone (withZone z a) = z"
  by (cases a) auto

lemma is6_withZone [simp]: "is6 (withZone z a) = is6 a"
  by (cases a) auto

lemma is4_withZone [simp]: "is4 (withZone z a) = is4 a"
  by (cases a) auto

lemma withZone_twice [simp]: "withZone y (withZone z a) = withZone y a"
  by (cases a) auto

lemma xor_0_iff [simp]: "a XOR b = 0 \<longleftrightarrow> a = (b :: 'a::len word)"
  by (auto simp: bit_eq_iff bit_xor_iff)

lemma drop_bit_xor_0_iff:
  "drop_bit n (a XOR b) = 0 \<longleftrightarrow> drop_bit n a = drop_bit n (b :: 'a::len word)"
  by (simp add: drop_bit_xor)

lemma drop_push_drop [simp]: "drop_bit n (push_bit n (drop_bit n w)) = drop_bit n (w :: 'a::len word)"
  by (rule bit_word_eqI) (auto simp: bit_drop_bit_eq bit_push_bit_iff dest: bit_imp_le_length)

lemma contains_hostPrefix [simp]:
  "contains (hostPrefix a) b \<longleftrightarrow> a \<noteq> NoAddr \<and> zone b = [] \<and> b = withZone [] a"
  by (cases a; cases b) (auto simp: hostPrefix_def prefixFrom_def)

lemma hostPrefix_bits [simp]: "a \<noteq> NoAddr \<Longrightarrow> pBits (hostPrefix a) = bitLen a"
  by (simp add: hostPrefix_def prefixFrom_def)

lemma contains_bits: "contains p a \<Longrightarrow> 0 \<le> pBits p"
  by (cases "(p, a)" rule: contains.cases) auto

lemma masked_contains [simp]:
  "pBits p \<le> bitLen (pAddr p) \<Longrightarrow> contains (masked p) a = contains p a"
  by (cases "(p, a)" rule: contains.cases)
    (auto simp: drop_bit_xor_0_iff)

end
