(* ===== verification/Network.thy ===== *)
theory Network
  imports Netip "HOL-Library.Multiset" "HOL-Library.List_Lexorder" "HOL-Library.Char_ord"
begin

text \<open>
  The underlay network of \<^verbatim>\<open>network.go\<close>: which interfaces and addresses are
  used, where a datagram may go, what is made of a received one, and the
  reconciliation of multicast memberships.  Sockets and the interface table are
  parameters; the decisions are defined here.
\<close>

section \<open>Interfaces and links\<close>

record linkAddr =
  lkIndex :: int
  lkName :: string
  lkPrefix :: prefix
  lkBroadcast :: addr
  lkMulticast :: bool

record iface =
  ifIndex :: int
  ifName :: string
  ifUp :: bool
  ifBroadcast :: bool
  ifLoopback :: bool
  ifPointToPoint :: bool
  ifMulticast :: bool

record interfaceState =
  isIface :: iface
  isPrefixes :: "prefix list"

definition noLink :: linkAddr where
  "noLink = \<lparr>lkIndex = 0, lkName = [], lkPrefix = Prefix NoAddr (- 1), lkBroadcast = NoAddr, lkMulticast = False\<rparr>"

definition usableLinkAddress :: "addr \<Rightarrow> bool" where
  "usableLinkAddress a \<longleftrightarrow> \<not> is4In6 a \<and> (isGlobalUnicast a \<or> isLinkLocalUnicast a \<or> isLoopback a)"

text \<open>Shifting all ones right by the prefix length gives the host part.\<close>

fun broadcastAddress :: "prefix \<Rightarrow> addr" where
  "broadcastAddress (Prefix (V4 w) b) =
    (if b < 0 \<or> b > 30 then NoAddr else V4 (w OR drop_bit (nat b) (- 1)))"
| "broadcastAddress _ = NoAddr"

definition addressedLink :: "iface \<Rightarrow> prefix \<Rightarrow> linkAddr" where
  "addressedLink i p = \<lparr>lkIndex = ifIndex i, lkName = ifName i, lkPrefix = p,
     lkBroadcast = (if ifBroadcast i then broadcastAddress p else NoAddr), lkMulticast = ifMulticast i\<rparr>"

definition selectInterface :: "(string \<Rightarrow> bool) \<Rightarrow> iface \<Rightarrow> string list \<Rightarrow> string list \<Rightarrow> string \<Rightarrow> bool" where
  "selectInterface physical i incl excl wgName \<longleftrightarrow>
    (if \<not> ifUp i \<or> ifName i = wgName \<or> ifName i \<in> set excl then False
     else if incl \<noteq> [] then ifName i \<in> set incl
     else \<not> ifLoopback i \<and> \<not> ifPointToPoint i \<and> physical (ifName i))"

fun findTunnel :: "(int \<Rightarrow> string) \<Rightarrow> iface \<Rightarrow> string \<Rightarrow> addr \<Rightarrow> prefix list \<Rightarrow> linkAddr option" where
  "findTunnel itoa i name address [] = None"
| "findTunnel itoa i name address (p # ps) =
    (if pAddr p = withZone [] address \<and> usableLinkAddress address \<and>
        (zone address = [] \<or> zone address = name \<or> zone address = itoa (ifIndex i))
     then Some (addressedLink i p) else findTunnel itoa i name address ps)"

definition tunnelLink :: "(int \<Rightarrow> string) \<Rightarrow> string \<Rightarrow> addr \<Rightarrow> error + interfaceState \<Rightarrow> error + linkAddr" where
  "tunnelLink itoa name address state = (case state of
      Inl e \<Rightarrow> Inl e
    | Inr st \<Rightarrow>
        if \<not> ifUp (isIface st) then Inl (Msg ''interface is down'')
        else (case findTunnel itoa (isIface st) name address (isPrefixes st) of
            None \<Rightarrow> Inl (Msg ''local tunnel address is not assigned'')
          | Some l \<Rightarrow> Inr l))"

section \<open>Sending and receiving datagrams\<close>

record membership =
  mbIndex :: int
  mbName :: string
  mbGroup :: addr

record datagram =
  paData :: bytes
  paSource :: addrPort
  paDestination :: addr
  paIfIndex :: int

record udpNetwork =
  unV4 :: bool
  unV6 :: bool
  unInclude :: "string list"
  unExclude :: "string list"
  unGroups :: "addr list"
  unWgName :: string
  unIncoming :: "datagram list"
  unDone :: bool
  unJoined :: "(membership \<times> prefix list) list"
  unCloseErr :: "error option"

definition networkDatagramLimit :: nat where "networkDatagramLimit = 1200"

definition badDatagram :: "bytes \<Rightarrow> addrPort \<Rightarrow> linkAddr \<Rightarrow> bool" where
  "badDatagram data destination link \<longleftrightarrow>
    (let source = pAddr (lkPrefix link); target = apAddr destination in
     data = [] \<or> length data > networkDatagramLimit \<or> target = NoAddr \<or> apPort destination = 0 \<or>
     \<not> pValid (lkPrefix link) \<or> \<not> usableLinkAddress source \<or> lkIndex link \<le> 0 \<or>
     isUnspecified target \<or> is4In6 target \<or> is4 source \<noteq> is4 target)"

text \<open>
  What \<open>Send\<close> decides before it writes: the destination handed to the socket (on
  Linux without its zone), or an error.  \<open>unV4\<close> and \<open>unV6\<close> say which sockets are
  open; \<open>itoa\<close> is \<^verbatim>\<open>strconv.Itoa\<close>.
\<close>

definition sendTarget :: "(int \<Rightarrow> string) \<Rightarrow> bool \<Rightarrow> udpNetwork \<Rightarrow> bytes \<Rightarrow> addrPort \<Rightarrow> linkAddr \<Rightarrow> error + addrPort" where
  "sendTarget itoa linux n data destination link =
    (let target = apAddr destination; z = itoa (lkIndex link) in
     if unDone n then Inl (Msg ''use of closed network connection'')
     else if badDatagram data destination link then Inl (Msg ''invalid UDP packet, destination, or source link'')
     else if zone target \<noteq> [] \<and> zone target \<noteq> lkName link \<and> zone target \<noteq> z
       then Inl (Msg ''destination zone differs from source interface'')
     else let dest = (if is6 target \<and> linux then (withZone [] target, apPort destination)
                      else if is6 target \<and> (isLinkLocalUnicast target \<or> isLinkLocalMulticast target)
                        then (withZone z target, apPort destination)
                      else destination)
          in if is4 target \<and> unV4 n \<or> is6 target \<and> unV6 n then Inr dest
             else Inl (Msg ''UDP address family is unavailable''))"

definition Send :: "(int \<Rightarrow> string) \<Rightarrow> bool \<Rightarrow> (bool \<Rightarrow> bytes \<Rightarrow> addr \<Rightarrow> int \<Rightarrow> addrPort \<Rightarrow> 'w \<Rightarrow> error option \<times> 'w) \<Rightarrow>
    udpNetwork \<Rightarrow> bytes \<Rightarrow> addrPort \<Rightarrow> linkAddr \<Rightarrow> 'w \<Rightarrow> error option \<times> 'w" where
  "Send itoa linux write n data destination link w =
    (case sendTarget itoa linux n data destination link of
       Inl e \<Rightarrow> (Some e, w)
     | Inr dest \<Rightarrow> write (is4 (apAddr destination)) data (pAddr (lkPrefix link)) (lkIndex link) dest w)"

text \<open>
  What a socket read reports: an error (temporary or not), or a datagram cut
  to one byte more than the limit, with the destination address if the control
  message had one, the interface index and the source.
\<close>

datatype readResult =
    ReadError bool
  | Read bytes "addr option" int addrPort

datatype receiverNext = ReceiverReturns | ReceiverSleeps | ReceiverCloses | ReceiverReads

definition incomingLimit :: nat where "incomingLimit = 64"

definition acceptDatagram :: "(int \<Rightarrow> string) \<Rightarrow> bytes \<Rightarrow> addr option \<Rightarrow> int \<Rightarrow> addrPort \<Rightarrow> datagram option" where
  "acceptDatagram itoa data dst index source =
    (case dst of
       None \<Rightarrow> None
     | Some d \<Rightarrow>
         if length data > networkDatagramLimit \<or> index \<le> 0 then None
         else let a = unmap (apAddr source);
                  a' = (if isLinkLocalUnicast a \<and> is6 a then withZone (itoa index) a else a)
              in Some \<lparr>paData = data, paSource = (a', apPort source), paDestination = unmap d, paIfIndex = index\<rparr>)"

text \<open>One turn of the receive loop: the queue it leaves and what it does next.\<close>

definition receiveTurn :: "(int \<Rightarrow> string) \<Rightarrow> udpNetwork \<Rightarrow> readResult \<Rightarrow> udpNetwork \<times> receiverNext" where
  "receiveTurn itoa n r = (case r of
      ReadError temporary \<Rightarrow>
        (n, if unDone n then ReceiverReturns else if temporary then ReceiverSleeps else ReceiverCloses)
    | Read data dst index source \<Rightarrow> (case acceptDatagram itoa data dst index source of
        None \<Rightarrow> (n, ReceiverReads)
      | Some p \<Rightarrow>
          (if length (unIncoming n) < incomingLimit then n\<lparr>unIncoming := unIncoming n @ [p]\<rparr> else n, ReceiverReads)))"

section \<open>Links and multicast memberships\<close>

definition addWanted :: "membership \<Rightarrow> prefix \<Rightarrow> (membership \<times> prefix list) list \<Rightarrow> (membership \<times> prefix list) list" where
  "addWanted k p w = AList.update k ((case map_of w k of None \<Rightarrow> [] | Some ps \<Rightarrow> ps) @ [p]) w"

definition joins :: "udpNetwork \<Rightarrow> linkAddr \<Rightarrow> addr \<Rightarrow> bool" where
  "joins n l g \<longleftrightarrow> lkMulticast l \<and> is4 g = is4 (pAddr (lkPrefix l)) \<and> (is4 g \<and> unV4 n \<or> is6 g \<and> unV6 n)"

definition linkStep :: "udpNetwork \<Rightarrow> iface \<Rightarrow> prefix \<Rightarrow> linkAddr list \<times> (membership \<times> prefix list) list \<Rightarrow>
    linkAddr list \<times> (membership \<times> prefix list) list" where
  "linkStep n i p acc = (case acc of (links, wanted) \<Rightarrow>
     if \<not> usableLinkAddress (pAddr p) then (links, wanted)
     else let l = addressedLink i p in
       (links @ [l],
        fold (\<lambda>g w. if joins n l g then addWanted \<lparr>mbIndex = ifIndex i, mbName = ifName i, mbGroup = g\<rparr> p w else w)
          (unGroups n) wanted))"

definition scanLinks :: "(string \<Rightarrow> bool) \<Rightarrow> (prefix \<Rightarrow> string) \<Rightarrow> udpNetwork \<Rightarrow> interfaceState list \<Rightarrow>
    linkAddr list \<times> (membership \<times> prefix list) list" where
  "scanLinks physical text n interfaces =
     fold (\<lambda>st acc. if selectInterface physical (isIface st) (unInclude n) (unExclude n) (unWgName n)
                   then fold (linkStep n (isIface st)) (sort_key text (isPrefixes st)) acc else acc)
       interfaces ([], [])"

text \<open>
  Memberships whose addresses changed are left (an error is ignored), then the
  missing ones are joined; only a successful join is recorded.  \<open>leave\<close> and \<open>join\<close>
  are the socket calls of \<open>groupMembership\<close>, and \<open>order\<close> is the order in which Go
  happens to iterate over a map.
\<close>

fun leaveStale :: "(membership \<Rightarrow> 'w \<Rightarrow> 'w) \<Rightarrow> (membership \<times> prefix list) list \<Rightarrow> (membership \<times> prefix list) list \<Rightarrow>
    'w \<Rightarrow> (membership \<times> prefix list) list \<times> 'w" where
  "leaveStale leave wanted [] w = ([], w)"
| "leaveStale leave wanted ((k, ps) # joined) w =
    (if ps \<noteq> (case map_of wanted k of None \<Rightarrow> [] | Some qs \<Rightarrow> qs) then leaveStale leave wanted joined (leave k w)
     else case leaveStale leave wanted joined w of (js, w') \<Rightarrow> ((k, ps) # js, w'))"

fun joinMissing :: "(membership \<Rightarrow> 'w \<Rightarrow> error option \<times> 'w) \<Rightarrow> (membership \<times> prefix list) list \<Rightarrow>
    (membership \<times> prefix list) list \<Rightarrow> 'w \<Rightarrow> (membership \<times> prefix list) list \<times> 'w" where
  "joinMissing join [] joined w = (joined, w)"
| "joinMissing join ((k, ps) # wanted) joined w =
    (if map_of joined k \<noteq> None then joinMissing join wanted joined w
     else case join k w of
         (None, w') \<Rightarrow> joinMissing join wanted (AList.update k ps joined) w'
       | (Some _, w') \<Rightarrow> joinMissing join wanted joined w')"

definition Links :: "(string \<Rightarrow> bool) \<Rightarrow> (prefix \<Rightarrow> string) \<Rightarrow>
    ((membership \<times> prefix list) list \<Rightarrow> (membership \<times> prefix list) list) \<Rightarrow> (membership \<Rightarrow> 'w \<Rightarrow> 'w) \<Rightarrow>
    (membership \<Rightarrow> 'w \<Rightarrow> error option \<times> 'w) \<Rightarrow> error + interfaceState list \<Rightarrow> udpNetwork \<Rightarrow> 'w \<Rightarrow>
    (error + linkAddr list) \<times> udpNetwork \<times> 'w" where
  "Links physical text order leave join interfaces n w =
    (if unDone n then (Inl (Msg ''use of closed network connection''), n, w)
     else case interfaces of
         Inl e \<Rightarrow> (Inl e, n, w)
       | Inr sts \<Rightarrow> (case scanLinks physical text n sts of (links, wanted) \<Rightarrow>
           (case leaveStale leave wanted (order (unJoined n)) w of (kept, w1) \<Rightarrow>
            (case joinMissing join (order wanted) kept w1 of (joined, w2) \<Rightarrow>
              (Inr links, n\<lparr>unJoined := joined\<rparr>, w2)))))"

section \<open>Opening and closing\<close>

definition badGroup :: "addr \<Rightarrow> bool" where
  "badGroup g \<longleftrightarrow> \<not> isMulticast g \<or> is4In6 g \<or> zone g \<noteq> []"

definition initialNetwork :: "string list \<Rightarrow> string list \<Rightarrow> addr list \<Rightarrow> string \<Rightarrow> udpNetwork" where
  "initialNetwork incl excl gs wgName = \<lparr>unV4 = False, unV6 = False, unInclude = incl, unExclude = excl,
     unGroups = gs, unWgName = wgName, unIncoming = [], unDone = False, unJoined = [], unCloseErr = None\<rparr>"

text \<open>
  \<open>listen\<close> opens a socket of a family on a port, sets its options (closing it if
  one fails) and returns the local port, which the second family reuses.
\<close>

definition openFamily :: "(bool \<Rightarrow> int \<Rightarrow> 'w \<Rightarrow> (error + int) \<times> 'w) \<Rightarrow> bool \<Rightarrow>
    udpNetwork \<times> int \<times> error option \<times> 'w \<Rightarrow> udpNetwork \<times> int \<times> error option \<times> 'w" where
  "openFamily listen v4 st = (case st of (n, port, err, w) \<Rightarrow> (case listen v4 port w of
      (Inr p, w') \<Rightarrow> (if v4 then n\<lparr>unV4 := True\<rparr> else n\<lparr>unV6 := True\<rparr>, p, err, w')
    | (Inl e, w') \<Rightarrow> (n, port, joinErr err (Some (Wrap (if v4 then ''udp4'' else ''udp6'') e)), w')))"

definition closeNetwork :: "(bool \<Rightarrow> 'w \<Rightarrow> error option \<times> 'w) \<Rightarrow> udpNetwork \<Rightarrow> 'w \<Rightarrow> error option \<times> udpNetwork \<times> 'w" where
  "closeNetwork shut n w =
    (if unDone n then (unCloseErr n, n, w)
     else case (if unV4 n then shut True w else (None, w)) of (e4, w1) \<Rightarrow>
       (case (if unV6 n then shut False w1 else (None, w1)) of (e6, w2) \<Rightarrow>
         (let e = joinErr (joinErr (unCloseErr n) e4) e6 in (e, n\<lparr>unDone := True, unCloseErr := e\<rparr>, w2))))"

definition openNetwork :: "(bool \<Rightarrow> int \<Rightarrow> 'w \<Rightarrow> (error + int) \<times> 'w) \<Rightarrow> (bool \<Rightarrow> 'w \<Rightarrow> error option \<times> 'w) \<Rightarrow>
    ('w \<Rightarrow> error option \<times> 'w) \<Rightarrow> (udpNetwork \<Rightarrow> 'w \<Rightarrow> (error + linkAddr list) \<times> udpNetwork \<times> 'w) \<Rightarrow>
    int \<Rightarrow> string list \<Rightarrow> string list \<Rightarrow> addr list \<Rightarrow> string \<Rightarrow> 'w \<Rightarrow> (error option + udpNetwork) \<times> 'w" where
  "openNetwork listen shut watch links port incl excl gs wgName w =
    (if list_ex badGroup gs then (Inl (Some (Msg ''invalid multicast group'')), w)
     else case openFamily listen False (openFamily listen True (initialNetwork incl excl gs wgName, port, None, w)) of
       (n, _, setupErr, w1) \<Rightarrow>
         if \<not> unV4 n \<and> \<not> unV6 n then (Inl setupErr, snd (snd (closeNetwork shut n w1)))
         else (case watch w1 of
             (Some e, w2) \<Rightarrow> (Inl (Some e), snd (snd (closeNetwork shut n w2)))
           | (None, w2) \<Rightarrow> (case links n w2 of
               (Inl e, n', w3) \<Rightarrow> (Inl (Some e), snd (snd (closeNetwork shut n' w3)))
             | (Inr _, n', w3) \<Rightarrow> (Inr n', w3))))"

section \<open>Links are the usable addresses of the selected interfaces\<close>

text \<open>
  What a refresh should find: the links, and for a membership key the prefixes
  for which it is wanted.  \<open>socketFor\<close> says that the socket a key is joined on is
  open, so that \<open>groupMembership\<close> never uses a missing one.
\<close>

definition selectedStates :: "(string \<Rightarrow> bool) \<Rightarrow> udpNetwork \<Rightarrow> interfaceState list \<Rightarrow> interfaceState list" where
  "selectedStates physical n sts =
     filter (\<lambda>st. selectInterface physical (isIface st) (unInclude n) (unExclude n) (unWgName n)) sts"

definition usablePrefixes :: "(prefix \<Rightarrow> string) \<Rightarrow> interfaceState \<Rightarrow> prefix list" where
  "usablePrefixes text st = filter (\<lambda>p. usableLinkAddress (pAddr p)) (sort_key text (isPrefixes st))"

definition linkKeys :: "udpNetwork \<Rightarrow> iface \<Rightarrow> prefix \<Rightarrow> membership list" where
  "linkKeys n i p = map (\<lambda>g. \<lparr>mbIndex = ifIndex i, mbName = ifName i, mbGroup = g\<rparr>)
     (filter (joins n (addressedLink i p)) (unGroups n))"

definition wantedFor :: "(string \<Rightarrow> bool) \<Rightarrow> (prefix \<Rightarrow> string) \<Rightarrow> udpNetwork \<Rightarrow> interfaceState list \<Rightarrow> membership \<Rightarrow> prefix list" where
  "wantedFor physical text n sts k =
     concat (map (\<lambda>st. concat (map (\<lambda>p. map (\<lambda>_. p) (filter ((=) k) (linkKeys n (isIface st) p))) (usablePrefixes text st)))
       (selectedStates physical n sts))"

definition socketFor :: "udpNetwork \<Rightarrow> membership \<Rightarrow> bool" where
  "socketFor n k \<longleftrightarrow> is4 (mbGroup k) \<and> unV4 n \<or> is6 (mbGroup k) \<and> unV6 n"

definition membershipsOK :: "udpNetwork \<Rightarrow> (membership \<times> prefix list) list \<Rightarrow> bool" where
  "membershipsOK n js \<longleftrightarrow> distinct (map fst js) \<and> (\<forall>(k, ps) \<in> set js. ps \<noteq> [] \<and> socketFor n k)"

definition listed :: "(membership \<times> prefix list) list \<Rightarrow> membership \<Rightarrow> prefix list" where
  "listed js k = (case map_of js k of None \<Rightarrow> [] | Some ps \<Rightarrow> ps)"

lemma membershipsOK_Nil [simp]: "membershipsOK n []"
  by (simp add: membershipsOK_def)

lemma listed_addWanted: "listed (addWanted k p w) k' = listed w k' @ (if k = k' then [p] else [])"
  by (auto simp: listed_def addWanted_def AList.update_conv')

lemma membershipsOK_addWanted:
  "membershipsOK n w \<Longrightarrow> socketFor n k \<Longrightarrow> membershipsOK n (addWanted k p w)"
  by (auto simp: membershipsOK_def addWanted_def AList.distinct_update dest!: set_update_cases)

lemma linkStep_eq:
  "linkStep n i p (links, w) =
    (if usableLinkAddress (pAddr p)
     then (links @ [addressedLink i p], fold (\<lambda>k. addWanted k p) (linkKeys n i p) w) else (links, w))"
proof -
  have "fold (\<lambda>g w. if joins n l g then addWanted \<lparr>mbIndex = ifIndex i, mbName = ifName i, mbGroup = g\<rparr> p w else w) gs w =
      fold (\<lambda>k. addWanted k p) (map (\<lambda>g. \<lparr>mbIndex = ifIndex i, mbName = ifName i, mbGroup = g\<rparr>) (filter (joins n l) gs)) w"
    for l gs w
    by (induction gs arbitrary: w) auto
  then show ?thesis
    by (simp add: linkStep_def linkKeys_def Let_def)
qed

lemma fold_addWanted:
  "listed (fold (\<lambda>k. addWanted k p) ks w) k' = listed w k' @ map (\<lambda>_. p) (filter ((=) k') ks)"
  by (induction ks arbitrary: w) (auto simp: listed_addWanted)

lemma fold_addWanted_OK:
  "membershipsOK n w \<Longrightarrow> \<forall>k \<in> set ks. socketFor n k \<Longrightarrow> membershipsOK n (fold (\<lambda>k. addWanted k p) ks w)"
  by (induction ks arbitrary: w) (auto simp: membershipsOK_addWanted)

lemma linkKeys_socket: "k \<in> set (linkKeys n i p) \<Longrightarrow> socketFor n k"
  by (auto simp: linkKeys_def joins_def socketFor_def)

lemma fold_linkStep:
  assumes "fold (linkStep n i) ps (links, w) = (links', w')"
  shows "links' = links @ map (addressedLink i) (filter (\<lambda>p. usableLinkAddress (pAddr p)) ps) \<and>
    (membershipsOK n w \<longrightarrow> membershipsOK n w') \<and>
    listed w' k = listed w k @
      concat (map (\<lambda>p. map (\<lambda>_. p) (filter ((=) k) (linkKeys n i p))) (filter (\<lambda>p. usableLinkAddress (pAddr p)) ps))"
  using assms
proof (induction ps arbitrary: links w)
  case (Cons p ps)
  from Cons.prems have run: "fold (linkStep n i) ps (linkStep n i p (links, w)) = (links', w')" by simp
  show ?case
  proof (cases "usableLinkAddress (pAddr p)")
    case True
    with run have "fold (linkStep n i) ps
        (links @ [addressedLink i p], fold (\<lambda>k. addWanted k p) (linkKeys n i p) w) = (links', w')"
      by (simp add: linkStep_eq)
    from Cons.IH[OF this] show ?thesis
      using True by (simp add: fold_addWanted fold_addWanted_OK linkKeys_socket)
  next
    case False
    with run Cons.IH[of links w] show ?thesis by (simp add: linkStep_eq)
  qed
qed simp

lemma fold_scan:
  assumes "fold (\<lambda>st acc. if selectInterface physical (isIface st) (unInclude n) (unExclude n) (unWgName n)
      then fold (linkStep n (isIface st)) (sort_key text (isPrefixes st)) acc else acc) sts (links, w) = (links', w')"
  shows "links' = links @ concat (map (\<lambda>st. map (addressedLink (isIface st)) (usablePrefixes text st))
      (selectedStates physical n sts)) \<and>
    (membershipsOK n w \<longrightarrow> membershipsOK n w') \<and>
    listed w' k = listed w k @ wantedFor physical text n sts k"
  using assms
proof (induction sts arbitrary: links w)
  case Nil
  then show ?case by (simp add: wantedFor_def selectedStates_def)
next
  case (Cons st sts)
  show ?case
  proof (cases "selectInterface physical (isIface st) (unInclude n) (unExclude n) (unWgName n)")
    case True
    obtain l1 w1 where step: "fold (linkStep n (isIface st)) (sort_key text (isPrefixes st)) (links, w) = (l1, w1)"
      by (metis surj_pair)
    from Cons.prems True step Cons.IH[of l1 w1] fold_linkStep[OF step, of k] show ?thesis
      by (simp add: wantedFor_def selectedStates_def usablePrefixes_def)
  next
    case False
    with Cons show ?thesis by (simp add: wantedFor_def selectedStates_def)
  qed
qed

lemma scanLinks_spec:
  assumes "scanLinks physical text n sts = (links, wanted)"
  shows "links = concat (map (\<lambda>st. map (addressedLink (isIface st)) (usablePrefixes text st)) (selectedStates physical n sts))"
    and "membershipsOK n wanted" and "listed wanted k = wantedFor physical text n sts k"
  using fold_scan[OF assms[unfolded scanLinks_def], of k] by (auto simp: listed_def)

section \<open>Reconciliation of the memberships\<close>

text \<open>
  What the socket calls promise: \<open>members\<close> are the memberships the kernel holds;
  a successful join adds one, a failed one changes nothing, and after a leave
  the membership is gone whether or not the call reported an error.
\<close>

definition socketLaws :: "('w \<Rightarrow> membership set) \<Rightarrow> (membership \<Rightarrow> 'w \<Rightarrow> 'w) \<Rightarrow> (membership \<Rightarrow> 'w \<Rightarrow> error option \<times> 'w) \<Rightarrow> bool" where
  "socketLaws members leave join \<longleftrightarrow>
    (\<forall>k w. members (leave k w) = members w - {k}) \<and>
    (\<forall>k w e w'. join k w = (e, w') \<longrightarrow> members w' = (if e = None then insert k (members w) else members w))"

lemma leaveStale_eq:
  "leaveStale leave wanted js w =
    (filter (\<lambda>(k, ps). ps = listed wanted k) js,
     fold leave (map fst (filter (\<lambda>(k, ps). ps \<noteq> listed wanted k) js)) w)"
  by (induction leave wanted js w rule: leaveStale.induct) (auto simp: listed_def split: option.split)

lemma socketLaws_join:
  "socketLaws members leave join \<Longrightarrow> join k w = (e, w') \<Longrightarrow>
    members w' = (if e = None then insert k (members w) else members w)"
  by (simp add: socketLaws_def)

lemma leaves_members:
  "socketLaws members leave join \<Longrightarrow> members (fold leave ks w) = members w - set ks"
  by (induction ks arbitrary: w) (auto simp: socketLaws_def)

lemma leaveStale_members:
  assumes "socketLaws members leave join" and "distinct (map fst js)" and "members w = fst ` set js"
    and "leaveStale leave wanted js w = (kept, w')"
  shows "members w' = fst ` set kept"
proof -
  have "w' = fold leave (map fst (filter (\<lambda>e. snd e \<noteq> listed wanted (fst e)) js)) w"
    using assms(4) by (simp add: leaveStale_eq case_prod_unfold)
  then have "members w' = fst ` set js - fst ` {e \<in> set js. snd e \<noteq> listed wanted (fst e)}"
    by (simp add: assms(3) leaves_members[OF assms(1)])
  also have "\<dots> = fst ` {e \<in> set js. snd e = listed wanted (fst e)}"
    using assms(2) by (auto simp: distinct_map inj_on_def image_iff)
  also have "\<dots> = fst ` set kept"
    using assms(4) by (auto simp: leaveStale_eq case_prod_unfold)
  finally show ?thesis .
qed

lemma joinMissing_members:
  assumes "socketLaws members leave join" and "joinMissing join wanted js w = (js', w')" and "members w = fst ` set js"
  shows "members w' = fst ` set js'"
  using assms
proof (induction join wanted js w rule: joinMissing.induct)
  case (2 join k ps wanted joined w)
  show ?case
  proof (cases "map_of joined k")
    case None
    obtain e v where j: "join k w = (e, v)" by (cases "join k w")
    with "2.prems" have "members v = (if e = None then insert k (fst ` set joined) else fst ` set joined)"
      by (simp add: socketLaws_join)
    with None j 2 show ?thesis by (cases e) (simp_all add: keys_update)
  next
    case (Some qs)
    with 2 show ?thesis by auto
  qed
qed simp

lemma joinMissing_listed:
  assumes "joinMissing join wanted js w = (js', w')"
  shows "(distinct (map fst js) \<longrightarrow> distinct (map fst js')) \<and>
    (e \<in> set js' \<longrightarrow> e \<in> set js \<or> e \<in> set wanted) \<and> (e \<in> set js \<longrightarrow> e \<in> set js')"
  using assms
proof (induction join wanted js w rule: joinMissing.induct)
  case (2 join k ps wanted joined w)
  show ?case
  proof (cases "map_of joined k")
    case None
    with 2 show ?thesis
      by (cases "join k w"; cases "fst (join k w)") (auto simp: update_absent map_of_eq_None_iff)
  next
    case (Some qs)
    with 2 show ?thesis by auto
  qed
qed auto

lemma joinMissing_all:
  assumes "joinMissing join wanted js w = (js', w')" and "\<forall>k w. fst (join k w) = None"
  shows "fst ` set wanted \<subseteq> fst ` set js'"
  using assms(1)
proof (induction wanted arbitrary: js w)
  case (Cons e wanted)
  have mem: "k \<in> fst ` set js'" if "joinMissing join wanted l v = (js', w')" "map_of l k = Some qs" for k l v qs
    using joinMissing_listed[OF that(1), of "(k, qs)"] map_of_SomeD[OF that(2)] by force
  obtain k ps where e: "e = (k, ps)" by (cases e)
  show ?case
  proof (cases "map_of js k")
    case None
    obtain v where "join k w = (None, v)" using assms(2) by (metis prod.collapse)
    with None Cons.prems e have run: "joinMissing join wanted (AList.update k ps js) v = (js', w')" by simp
    then show ?thesis using Cons.IH[OF run] mem[OF run, of k ps] e by (simp add: AList.update_conv')
  next
    case (Some qs)
    with Cons.prems e have run: "joinMissing join wanted js w = (js', w')" by simp
    then show ?thesis using Cons.IH[OF run] mem[OF run Some] e by simp
  qed
qed simp

text \<open>Operations on other keys do not disturb a key that stays.\<close>

lemma leaves_frame:
  "\<forall>k' w. k' \<noteq> k \<longrightarrow> f (leave k' w) = f w \<Longrightarrow> k \<notin> set ks \<Longrightarrow> f (fold leave ks w) = f w"
  by (induction ks arbitrary: w) auto

lemma joinMissing_frame:
  assumes "joinMissing join wanted js w = (js', w')" and "\<forall>k' w. k' \<noteq> k \<longrightarrow> f (snd (join k' w)) = f w"
    and "k \<in> fst ` set js"
  shows "f w' = f w"
  using assms
proof (induction join wanted js w rule: joinMissing.induct)
  case (2 join k' ps wanted joined w)
  show ?case
  proof (cases "map_of joined k'")
    case None
    with "2.prems"(3) have "k' \<noteq> k" by (auto simp: map_of_eq_None_iff)
    with "2.prems"(2) have "f (snd (join k' w)) = f w" by blast
    with None 2 show ?thesis
      by (cases "join k' w"; cases "fst (join k' w)") (auto simp: keys_update)
  next
    case (Some qs)
    with 2 show ?thesis by auto
  qed
qed simp

lemma order_set: "\<forall>xs. mset (order xs) = mset xs \<Longrightarrow> set (order xs) = set xs"
  by (metis mset_eq_setD)

lemma order_keys: "\<forall>xs. mset (order xs) = mset xs \<Longrightarrow> distinct (map fst (order xs)) = distinct (map fst xs)"
  by (metis mset_eq_imp_distinct_iff mset_map)

lemma wanted_entry:
  assumes "scanLinks physical text n sts = (links, wanted)"
  shows "(k, ps) \<in> set wanted \<longleftrightarrow> ps = wantedFor physical text n sts k \<and> ps \<noteq> []"
proof -
  have "distinct (map fst wanted)" and "\<forall>(k, ps) \<in> set wanted. ps \<noteq> []"
    using scanLinks_spec(2)[OF assms] by (auto simp: membershipsOK_def)
  moreover have "listed wanted k = wantedFor physical text n sts k"
    by (rule scanLinks_spec(3)[OF assms])
  ultimately show ?thesis
    by (auto simp: listed_def split: option.splits dest: map_of_SomeD eq_key_imp_eq_value)
qed

lemma Links_run:
  assumes "Links physical text order leave join (Inr sts) n w = (r, n', w')" and "\<not> unDone n"
  obtains links wanted w1 js where "scanLinks physical text n sts = (links, wanted)"
    and "leaveStale leave wanted (order (unJoined n)) w = (filter (\<lambda>(k, ps). ps = wantedFor physical text n sts k) (order (unJoined n)), w1)"
    and "joinMissing join (order wanted) (filter (\<lambda>(k, ps). ps = wantedFor physical text n sts k) (order (unJoined n))) w1 = (js, w')"
    and "r = Inr links" and "n' = n\<lparr>unJoined := js\<rparr>"
proof -
  obtain links wanted where scan: "scanLinks physical text n sts = (links, wanted)" by (metis surj_pair)
  have "listed wanted k = wantedFor physical text n sts k" for k by (rule scanLinks_spec(3)[OF scan])
  with assms scan show ?thesis
    by (auto simp: Links_def leaveStale_eq split: prod.splits intro: that)
qed

text \<open>
  C35: A refresh of the underlay reports exactly the usable addresses of the
  selected interfaces and brings the multicast memberships in line with them:
  the record agrees with what the kernel holds, lists no key twice and only
  keys whose socket is open, every recorded membership has exactly the
  prefixes it is wanted for, and when no join fails every wanted membership
  is held and no other.
\<close>

theorem Links_reconciles:
  assumes "Links physical text order leave join (Inr sts) n w = (r, n', w')" and "\<not> unDone n"
    and "membershipsOK n (unJoined n)" and "socketLaws members leave join"
    and "members w = fst ` set (unJoined n)" and "\<forall>xs. mset (order xs) = mset xs"
  shows "r = Inr (concat (map (\<lambda>st. map (addressedLink (isIface st)) (usablePrefixes text st)) (selectedStates physical n sts))) \<and>
    membershipsOK n' (unJoined n') \<and> members w' = fst ` set (unJoined n') \<and>
    (\<forall>k ps. (k, ps) \<in> set (unJoined n') \<longrightarrow> ps = wantedFor physical text n sts k) \<and>
    ((\<forall>k w. fst (join k w) = None) \<longrightarrow> members w' = {k. wantedFor physical text n sts k \<noteq> []})"
proof -
  obtain links wanted w1 js where run: "scanLinks physical text n sts = (links, wanted)"
    and leave: "leaveStale leave wanted (order (unJoined n)) w = (filter (\<lambda>(k, ps). ps = wantedFor physical text n sts k) (order (unJoined n)), w1)"
    and join: "joinMissing join (order wanted) (filter (\<lambda>(k, ps). ps = wantedFor physical text n sts k) (order (unJoined n))) w1 = (js, w')"
    and res: "r = Inr links" "n' = n\<lparr>unJoined := js\<rparr>"
    using Links_run[OF assms(1,2)] by metis
  let ?kept = "filter (\<lambda>(k, ps). ps = wantedFor physical text n sts k) (order (unJoined n))"
  note set_order = order_set[OF assms(6)] and keys_order = order_keys[OF assms(6)]
  have mem: "members w' = fst ` set js"
    by (rule joinMissing_members[OF assms(4) join leaveStale_members[OF assms(4) _ _ leave]])
      (use assms(3,5) in \<open>simp_all add: set_order keys_order membershipsOK_def\<close>)
  have from_either: "(k, ps) \<in> set (unJoined n) \<and> ps = wantedFor physical text n sts k \<or> (k, ps) \<in> set wanted"
    if "(k, ps) \<in> set js" for k ps
    using joinMissing_listed[OF join, of "(k, ps)"] that by (auto simp: set_order)
  have dist: "distinct (map fst js)"
    using joinMissing_listed[OF join] assms(3) keys_order
    by (simp add: membershipsOK_def distinct_map_filter)
  have ok: "membershipsOK n js"
    using dist from_either assms(3) scanLinks_spec(2)[OF run] by (fastforce simp: membershipsOK_def)
  have exact: "ps = wantedFor physical text n sts k" if "(k, ps) \<in> set js" for k ps
    using from_either[OF that] wanted_entry[OF run] by auto
  have all: "fst ` set js = {k. wantedFor physical text n sts k \<noteq> []}" if "\<forall>k w. fst (join k w) = None"
  proof
    show "fst ` set js \<subseteq> {k. wantedFor physical text n sts k \<noteq> []}"
      using ok exact by (fastforce simp: membershipsOK_def)
    have "fst ` set wanted \<subseteq> fst ` set js"
      using joinMissing_all[OF join that] by (simp add: set_order)
    then show "{k. wantedFor physical text n sts k \<noteq> []} \<subseteq> fst ` set js"
      using wanted_entry[OF run] by force
  qed
  have "socketFor n' = socketFor n" using res by (simp add: socketFor_def fun_eq_iff)
  then have "membershipsOK n' (unJoined n')" using ok res by (simp add: membershipsOK_def)
  then show ?thesis
    using scanLinks_spec(1)[OF run] res mem exact all by simp
qed

text \<open>
  A refresh leaves alone every membership whose prefixes did not change: it
  is neither left nor joined again, so anything of the world that only calls
  for that key can alter is unaltered, and it stays recorded.
\<close>

theorem Links_keeps_unchanged:
  assumes "Links physical text order leave join (Inr sts) n w = (r, n', w')" and "\<not> unDone n"
    and "membershipsOK n (unJoined n)" and "\<forall>xs. mset (order xs) = mset xs"
    and "(k, wantedFor physical text n sts k) \<in> set (unJoined n)"
    and "\<forall>k' v. k' \<noteq> k \<longrightarrow> f (leave k' v) = f v" and "\<forall>k' v. k' \<noteq> k \<longrightarrow> f (snd (join k' v)) = f v"
  shows "f w' = f w \<and> (k, wantedFor physical text n sts k) \<in> set (unJoined n')"
proof -
  let ?kept = "filter (\<lambda>(k, ps). ps = wantedFor physical text n sts k) (order (unJoined n))"
  obtain links wanted w1 js where run: "scanLinks physical text n sts = (links, wanted)"
    and leave: "leaveStale leave wanted (order (unJoined n)) w = (?kept, w1)"
    and join: "joinMissing join (order wanted) ?kept w1 = (js, w')"
    and res: "r = Inr links" "n' = n\<lparr>unJoined := js\<rparr>"
    using Links_run[OF assms(1,2)] by metis
  have kept: "(k, wantedFor physical text n sts k) \<in> set ?kept"
    using assms(5) by (simp add: order_set[OF assms(4)])
  then have js: "(k, wantedFor physical text n sts k) \<in> set js"
    using joinMissing_listed[OF join] by blast
  let ?stale = "map fst (filter (\<lambda>(k, ps). ps \<noteq> listed wanted k) (order (unJoined n)))"
  have w1: "w1 = fold leave ?stale w" using leave by (simp add: leaveStale_eq)
  have "k \<notin> set ?stale"
    using assms(3,5) by (auto simp: membershipsOK_def order_set[OF assms(4)]
      scanLinks_spec(3)[OF run] dest: eq_key_imp_eq_value)
  then have "f w1 = f w" unfolding w1 by (rule leaves_frame[OF assms(6)])
  moreover have "f w' = f w1"
    by (rule joinMissing_frame[OF join assms(7)]) (use kept in force)
  ultimately show ?thesis using js res by simp
qed

section \<open>Addresses and datagrams\<close>

lemma bit_or_hostmask:
  "c \<le> 32 \<Longrightarrow> bit (w OR drop_bit c (- 1) :: 32 word) i \<longleftrightarrow> bit w i \<or> i < 32 - c"
  by (auto simp: bit_or_iff bit_mask_iff)

lemma or_hostmask_iff:
  assumes "c \<le> 32"
  shows "(w OR drop_bit c (- 1) :: 32 word) = x \<longleftrightarrow>
    (\<forall>i \<ge> 32 - c. bit w i = bit x i) \<and> (\<forall>i < 32 - c. bit x i)" (is "?v = x \<longleftrightarrow> ?bits")
proof
  assume "?v = x"
  then show ?bits using bit_or_hostmask[OF assms, of w] by auto
next
  assume bits: ?bits
  show "?v = x"
  proof (rule bit_word_eqI)
    fix i
    show "bit ?v i = bit x i"
      using bits bit_or_hostmask[OF assms, of w i] by (cases "i < 32 - c") auto
  qed
qed

lemma drop_bit_eq_iff:
  "drop_bit n v = drop_bit n (w :: 'a::len word) \<longleftrightarrow> (\<forall>i \<ge> n. bit v i = bit w i)"
proof
  assume eq: "drop_bit n v = drop_bit n w"
  show "\<forall>i \<ge> n. bit v i = bit w i"
  proof (intro allI impI)
    fix i assume "n \<le> i"
    with arg_cong[OF eq, of "\<lambda>x. bit x (i - n)"] show "bit v i = bit w i"
      by (simp add: bit_drop_bit_eq)
  qed
next
  assume "\<forall>i \<ge> n. bit v i = bit w i"
  then show "drop_bit n v = drop_bit n w"
    by (intro bit_word_eqI) (simp add: bit_drop_bit_eq)
qed

text \<open>
  The directed broadcast address is exactly the address of the prefix's
  network whose host bits are all one; it exists for IPv4 networks of at most
  30 bits and for nothing else.
\<close>

theorem broadcastAddress_directed:
  "broadcastAddress p = V4 x \<longleftrightarrow>
    is4 (pAddr p) \<and> 0 \<le> pBits p \<and> pBits p \<le> 30 \<and> contains p (V4 x) \<and>
    (\<forall>i < nat (32 - pBits p). bit x i)"
proof (cases "\<exists>w b. p = Prefix (V4 w) b \<and> 0 \<le> b \<and> b \<le> 30")
  case True
  then obtain w b where p: "p = Prefix (V4 w) b" and b: "0 \<le> b" "b \<le> 30" by blast
  have "nat (32 - b) = 32 - nat b" using b by (simp add: nat_diff_distrib)
  with p b or_hostmask_iff[of "nat b" w x] show ?thesis
    by (simp add: drop_bit_xor_0_iff drop_bit_eq_iff)
next
  case False
  then have "broadcastAddress p \<noteq> V4 x" by (cases p rule: broadcastAddress.cases) auto
  moreover from False have "\<not> (is4 (pAddr p) \<and> 0 \<le> pBits p \<and> pBits p \<le> 30)"
    by (cases p rule: broadcastAddress.cases) auto
  ultimately show ?thesis by blast
qed

text \<open>
  \<open>Send\<close> either reports an error and touches no socket, or makes one write on
  the open socket of the destination's family: a datagram of 1 to 1200 bytes,
  from a usable source address of the same family on a real interface, to the
  requested address and a port other than 0, scoped to no interface but the
  sending link's.
\<close>

theorem Send_guarded:
  assumes "Send itoa linux write n data destination link w = (e, w')"
  shows "(e \<noteq> None \<and> w' = w) \<or>
    (\<exists>target. write (is4 (apAddr destination)) data (pAddr (lkPrefix link)) (lkIndex link) (target, apPort destination) w = (e, w') \<and>
      \<not> unDone n \<and> (if is4 (apAddr destination) then unV4 n else is6 (apAddr destination) \<and> unV6 n) \<and>
      0 < length data \<and> length data \<le> 1200 \<and> apPort destination \<noteq> 0 \<and> 0 < lkIndex link \<and>
      usableLinkAddress (pAddr (lkPrefix link)) \<and> is4 (pAddr (lkPrefix link)) = is4 (apAddr destination) \<and>
      withZone [] target = withZone [] (apAddr destination) \<and> \<not> isUnspecified (apAddr destination) \<and>
      zone target \<in> {[], lkName link, itoa (lkIndex link)})"
  using assms
  by (cases "apAddr destination"; cases destination)
    (auto simp: Send_def sendTarget_def badDatagram_def networkDatagramLimit_def Let_def split: if_splits)

definition datagramOK :: "datagram \<Rightarrow> bool" where
  "datagramOK p \<longleftrightarrow> length (paData p) \<le> networkDatagramLimit \<and> 0 < paIfIndex p \<and>
     \<not> is4In6 (apAddr (paSource p)) \<and> \<not> is4In6 (paDestination p)"

definition incomingOK :: "udpNetwork \<Rightarrow> bool" where
  "incomingOK n \<longleftrightarrow> length (unIncoming n) \<le> incomingLimit \<and> list_all datagramOK (unIncoming n)"

lemma unmap_not_mapped [simp]: "\<not> is4In6 (unmap a)"
  by (cases a) auto

lemma is4In6_withZone [simp]: "is4In6 (withZone z a) = is4In6 a"
  by (cases a) auto

lemma acceptDatagram_OK: "acceptDatagram itoa data dst index source = Some p \<Longrightarrow> datagramOK p"
  by (auto simp: acceptDatagram_def datagramOK_def Let_def split: option.splits if_splits)

text \<open>
  Whatever a socket read reports, a turn of the receive loop keeps at most 64
  datagrams waiting, and each of them is at most 1200 bytes long, came with an
  interface, and has unmapped source and destination addresses.
\<close>

theorem receiveTurn_bounded:
  assumes "incomingOK n"
  shows "incomingOK (fst (receiveTurn itoa n r))"
  using assms by (auto simp: receiveTurn_def incomingOK_def acceptDatagram_OK split: readResult.split option.split)

end
