(* ===== verification/Float64.thy ===== *)
theory Float64
  imports Complex_Main Prelude
begin

text \<open>
  The arithmetic on Go's \<^verbatim>\<open>float64\<close> that the improvement policy uses: a finite
  double \<open>m * 2 ^ e\<close> as its mantissa and exponent, rounded to 53 bits, halves to
  even.  Exponents are unbounded: the operands are int64 values and fractions of
  at least \<open>2 ^ - 53\<close>, so neither overflow nor underflow can occur.
\<close>

section \<open>Operations\<close>

datatype float64 = Fl (flMant: int) (flExp: int)

fun bitCount :: "nat \<Rightarrow> nat" where
  "bitCount n = (if n = 0 then 0 else Suc (bitCount (n div 2)))"

declare bitCount.simps [simp del]

text \<open>The quotient by \<open>2 ^ k\<close>, to the nearest integer and halves to even.\<close>

definition roundShift :: "nat \<Rightarrow> int \<Rightarrow> int" where
  "roundShift k a =
    (let q = a div 2 ^ k; r = a mod 2 ^ k in
     if 2 * r > 2 ^ k \<or> 2 * r = 2 ^ k \<and> odd q then q + 1 else q)"

definition flRound :: "float64 \<Rightarrow> float64" where
  "flRound x =
    (let k = bitCount (nat \<bar>flMant x\<bar>) - 53 in
     if k = 0 then x else Fl (roundShift k (flMant x)) (flExp x + int k))"

definition flOfInt :: "int \<Rightarrow> float64" where
  "flOfInt i = flRound (Fl i 0)"

definition flSub :: "float64 \<Rightarrow> float64 \<Rightarrow> float64" where
  "flSub x y = (let e = min (flExp x) (flExp y) in
     flRound (Fl (flMant x * 2 ^ nat (flExp x - e) - flMant y * 2 ^ nat (flExp y - e)) e))"

definition flMul :: "float64 \<Rightarrow> float64 \<Rightarrow> float64" where
  "flMul x y = flRound (Fl (flMant x * flMant y) (flExp x + flExp y))"

definition flLe :: "float64 \<Rightarrow> float64 \<Rightarrow> bool" where
  "flLe x y \<longleftrightarrow> (let e = min (flExp x) (flExp y) in
     flMant x * 2 ^ nat (flExp x - e) \<le> flMant y * 2 ^ nat (flExp y - e))"

section \<open>What they compute\<close>

text \<open>The real number a double stands for.\<close>

definition flVal :: "float64 \<Rightarrow> real" where
  "flVal x = of_int (flMant x) * 2 powi flExp x"

lemma flVal_align:
  "e \<le> flExp x \<Longrightarrow> of_int (flMant x * 2 ^ nat (flExp x - e)) * 2 powi e = flVal x"
  by (simp add: flVal_def power_int_add[symmetric] power_int_of_nat[symmetric] mult.assoc)

lemma flLe_iff: "flLe x y \<longleftrightarrow> flVal x \<le> flVal y"
proof -
  let ?e = "min (flExp x) (flExp y)"
  have "flVal x \<le> flVal y \<longleftrightarrow>
      real_of_int (flMant x * 2 ^ nat (flExp x - ?e)) * 2 powi ?e \<le> of_int (flMant y * 2 ^ nat (flExp y - ?e)) * 2 powi ?e"
    by (simp only: flVal_align min.cobounded1 min.cobounded2)
  also have "\<dots> \<longleftrightarrow> real_of_int (flMant x * 2 ^ nat (flExp x - ?e)) \<le> of_int (flMant y * 2 ^ nat (flExp y - ?e))"
    by (rule mult_le_cancel_right_pos) simp
  also have "\<dots> \<longleftrightarrow> flLe x y"
    unfolding flLe_def Let_def by (rule of_int_le_iff)
  finally show ?thesis ..
qed

lemma roundShift_near: "\<bar>2 * (roundShift k a * 2 ^ k - a)\<bar> \<le> 2 ^ k"
proof -
  obtain q r P where q: "q = a div 2 ^ k" and r: "r = a mod 2 ^ k" and P: "P = (2 :: int) ^ k" by blast
  have "a = q * P + r" unfolding q r P by (rule div_mult_mod_eq[symmetric])
  moreover have "0 \<le> r" "r < P" by (simp_all add: r P)
  moreover have "roundShift k a * P = (if 2 * r > P \<or> 2 * r = P \<and> odd q then q * P + P else q * P)"
    unfolding q r P by (auto simp: roundShift_def Let_def algebra_simps)
  ultimately show ?thesis unfolding P[symmetric] by (auto split: if_splits)
qed

lemma bitCount_bounds: "n \<noteq> 0 \<Longrightarrow> 2 ^ (bitCount n - 1) \<le> n \<and> n < 2 ^ bitCount n"
proof (induction n rule: less_induct)
  case (less n)
  show ?case
  proof (cases "n div 2 = 0")
    case True
    with less.prems have "n = 1" by simp
    then show ?thesis by (simp add: bitCount.simps)
  next
    case False
    with less.IH[of "n div 2"] less.prems have "2 ^ (bitCount (n div 2) - 1) \<le> n div 2" "n div 2 < 2 ^ bitCount (n div 2)"
      by simp_all
    moreover obtain c where "bitCount (n div 2) = Suc c" using False by (simp add: bitCount.simps[of "n div 2"])
    ultimately have "2 ^ bitCount (n div 2) \<le> n" "n < 2 ^ Suc (bitCount (n div 2))"
      by simp_all
    then show ?thesis using less.prems by (simp add: bitCount.simps[of n])
  qed
qed

lemma flRound_exact: "bitCount (nat \<bar>flMant x\<bar>) \<le> 53 \<Longrightarrow> flRound x = x"
  by (simp add: flRound_def)

lemma bitCount_le: "n < 2 ^ k \<Longrightarrow> bitCount n \<le> k"
proof (cases "n = 0")
  case False
  assume "n < 2 ^ k"
  with bitCount_bounds[OF False] have "(2 :: nat) ^ (bitCount n - 1) < 2 ^ k" by linarith
  then show ?thesis by simp
qed (simp add: bitCount.simps)

lemma bitCount_eq: "2 ^ k \<le> n \<Longrightarrow> n < 2 ^ Suc k \<Longrightarrow> bitCount n = Suc k"
proof -
  assume n: "2 ^ k \<le> n" "n < 2 ^ Suc k"
  then have "n \<noteq> 0" by (metis not_one_le_zero one_le_numeral one_le_power order.trans zero_neq_one le_zero_eq)
  from bitCount_bounds[OF this] n have "(2 :: nat) ^ k < 2 ^ bitCount n" by linarith
  then have "k < bitCount n" by simp
  with bitCount_le[OF n(2)] show ?thesis by simp
qed

text \<open>Rounding errs by at most one part in \<open>2 ^ 53\<close>.\<close>

lemma flRound_error: "\<bar>flVal (flRound x) - flVal x\<bar> \<le> \<bar>flVal x\<bar> / 2 ^ 53"
proof (cases "bitCount (nat \<bar>flMant x\<bar>) \<le> 53")
  case True
  then show ?thesis by (simp add: flRound_exact)
next
  case False
  obtain m e where x: "x = Fl m e" by (cases x)
  obtain k where k: "bitCount (nat \<bar>m\<bar>) = 53 + k" "0 < k"
    using False x by (metis flMant_def float64.sel(1) le_iff_add less_imp_le_nat not_le zero_less_diff add_diff_cancel_left')
  have "nat \<bar>m\<bar> \<noteq> 0" using k by (auto simp: bitCount.simps)
  from bitCount_bounds[OF this] k have "2 ^ (52 + k) \<le> nat \<bar>m\<bar>" by simp
  then have big: "2 ^ 52 * 2 ^ k \<le> real_of_int \<bar>m\<bar>"
    by (metis (mono_tags) of_nat_le_iff of_nat_nat abs_ge_zero of_nat_numeral of_nat_power power_add of_int_of_nat_eq)
  have "\<bar>2 * (real_of_int (roundShift k m) * 2 ^ k - of_int m)\<bar> \<le> 2 ^ k"
    using roundShift_near[of k m, folded of_int_le_iff[where 'a = real]] by simp
  then have "2 * \<bar>real_of_int (roundShift k m) * 2 ^ k - of_int m\<bar> \<le> 2 ^ k"
    by (simp only: abs_mult abs_numeral)
  with big have near: "\<bar>real_of_int (roundShift k m) * 2 ^ k - of_int m\<bar> \<le> real_of_int \<bar>m\<bar> / 2 ^ 53"
    by (simp add: field_simps)
  have "flVal (flRound x) - flVal x = (real_of_int (roundShift k m) * 2 ^ k - of_int m) * 2 powi e"
    using k by (simp add: x flRound_def flVal_def power_int_add algebra_simps)
  then have "\<bar>flVal (flRound x) - flVal x\<bar> = \<bar>real_of_int (roundShift k m) * 2 ^ k - of_int m\<bar> * 2 powi e"
    by (simp add: abs_mult)
  also have "\<dots> \<le> real_of_int \<bar>m\<bar> / 2 ^ 53 * 2 powi e"
    by (rule mult_right_mono[OF near]) simp
  also have "\<dots> = \<bar>flVal x\<bar> / 2 ^ 53"
    by (simp add: x flVal_def abs_mult)
  finally show ?thesis .
qed

lemma flOfInt_exact: "\<bar>i\<bar> < 2 ^ 53 \<Longrightarrow> flVal (flOfInt i) = of_int i"
proof -
  assume "\<bar>i\<bar> < 2 ^ 53"
  then have "nat \<bar>i\<bar> < 2 ^ 53" by simp
  then have "flOfInt i = Fl i 0"
    unfolding flOfInt_def by (intro flRound_exact) (simp add: bitCount_le del: power_numeral)
  then show ?thesis by (simp add: flVal_def)
qed

lemma flSub_error: "\<bar>flVal (flSub x y) - (flVal x - flVal y)\<bar> \<le> \<bar>flVal x - flVal y\<bar> / 2 ^ 53"
proof -
  let ?e = "min (flExp x) (flExp y)"
  let ?m = "flMant x * 2 ^ nat (flExp x - ?e) - flMant y * 2 ^ nat (flExp y - ?e)"
  have "flVal (Fl ?m ?e) = of_int (flMant x * 2 ^ nat (flExp x - ?e)) * 2 powi ?e - of_int (flMant y * 2 ^ nat (flExp y - ?e)) * 2 powi ?e"
    by (simp add: flVal_def left_diff_distrib)
  also have "\<dots> = flVal x - flVal y"
    by (simp only: flVal_align min.cobounded1 min.cobounded2)
  finally have "flVal (Fl ?m ?e) = flVal x - flVal y" .
  then show ?thesis using flRound_error[of "Fl ?m ?e"] by (simp add: flSub_def Let_def)
qed

lemma flMul_error: "\<bar>flVal (flMul x y) - flVal x * flVal y\<bar> \<le> \<bar>flVal x * flVal y\<bar> / 2 ^ 53"
  using flRound_error[of "Fl (flMant x * flMant y) (flExp x + flExp y)"]
  by (simp add: flMul_def flVal_def power_int_add mult_ac)

lemma rel_error_bounds:
  assumes "\<bar>x - y\<bar> \<le> \<bar>y\<bar> / 2 ^ 53" and "(0 :: real) \<le> y"
  shows "0 \<le> x" and "x \<le> y * (1 + 1 / 2 ^ 53)"
proof -
  have "y / 2 ^ 53 \<le> y" using assms(2) by (simp add: field_simps)
  with assms have "- y \<le> x - y" "x - y \<le> y / 2 ^ 53" by linarith+
  then show "0 \<le> x" "x \<le> y * (1 + 1 / 2 ^ 53)" by (simp_all add: distrib_left)
qed

end
