(* ===== verification/Config.thy ===== *)
theory Config
  imports Netip Float64
begin

text \<open>
  The configuration of \<^verbatim>\<open>config.go\<close>: its data, the defaults and the checks of
  \<open>readConfig\<close>.  The JSON decoder and \<^verbatim>\<open>wgtypes.ParseKey\<close> are parameters.  The
  checks are shown to accept exactly the configurations that satisfy a
  declarative description.
\<close>

section \<open>Data\<close>

record peerSpec =
  psPublicKey :: string
  psIP :: addr
  psPresharedKey :: string
  psFile :: string
  psMaxAge :: "duration option"
  psSocket :: string
  psRekey :: bool
  psKey :: wgkey
  psPsk :: wgkey

record config =
  cfAddress :: addr
  cfPeers :: "peerSpec list"
  cfPort :: "16 word"
  cfMulticast4 :: addr
  cfMulticast6 :: addr
  cfInclude :: "string list"
  cfExclude :: "string list"
  cfDiscovery :: duration
  cfBroadcastAfter :: duration
  cfProbe :: duration
  cfWindow :: duration
  cfFailure :: duration
  cfCooldown :: duration
  cfMinGain :: duration
  cfGain :: float64

text \<open>The literal \<^verbatim>\<open>0.2\<close> is the nearest double, \<open>7205759403792794 * 2 ^ - 55\<close>.\<close>

definition defaults :: config where
  "defaults = \<lparr>cfAddress = NoAddr, cfPeers = [], cfPort = 51823,
     cfMulticast4 = V4 0xefff4d4d, cfMulticast6 = V6 0xff120000000000000000000057474d53 [],
     cfInclude = [], cfExclude = [], cfDiscovery = minute, cfBroadcastAfter = 5 * minute,
     cfProbe = second, cfWindow = 15 * second, cfFailure = 5 * second, cfCooldown = 30 * second,
     cfMinGain = 2 * millisecond, cfGain = Fl 7205759403792794 (- 55)\<rparr>"

section \<open>Checks\<close>

definition overlayAddress :: "addr \<Rightarrow> bool" where
  "overlayAddress a \<longleftrightarrow> isGlobalUnicast a \<and> \<not> is4In6 a \<and> zone a = []"

definition groups :: "config \<Rightarrow> addr list" where
  "groups c = [cfMulticast4 c, cfMulticast6 c]"

text \<open>\<^verbatim>\<open>filepath.IsAbs\<close> on Unix.\<close>

definition isAbs :: "string \<Rightarrow> bool" where
  "isAbs s = (case s of [] \<Rightarrow> False | ch # _ \<Rightarrow> ch = CHR ''/'')"

definition badNetworkConfig :: "config \<Rightarrow> bool" where
  "badNetworkConfig c \<longleftrightarrow>
    \<not> overlayAddress (cfAddress c) \<or> length (cfPeers c) = 0 \<or> length (cfPeers c) > 128 \<or> cfPort c < 1024"

definition badGroups :: "config \<Rightarrow> bool" where
  "badGroups c \<longleftrightarrow> \<not> is4 (cfMulticast4 c) \<or> \<not> isMulticast (cfMulticast4 c) \<or>
     \<not> is6 (cfMulticast6 c) \<or> \<not> isLinkLocalMulticast (cfMulticast6 c) \<or> zone (cfMulticast6 c) \<noteq> []"

text \<open>
  The probe interval is at most one second where it is multiplied, so the
  products do not wrap.
\<close>

definition badPolicy :: "config \<Rightarrow> bool" where
  "badPolicy c \<longleftrightarrow>
    cfProbe c < 100 * millisecond \<or> cfProbe c > second \<or>
    cfWindow c < 3 * cfProbe c \<or> cfWindow c > minute \<or>
    cfFailure c < 2 * cfProbe c \<or> cfFailure c > cfWindow c \<or>
    cfDiscovery c < cfProbe c \<or> cfDiscovery c > 5 * minute \<or>
    cfBroadcastAfter c < cfProbe c \<or> cfCooldown c < cfProbe c \<or> cfMinGain c < 0 \<or>
    \<not> flLe (Fl 0 0) (cfGain c) \<or> flLe (Fl 1 0) (cfGain c)"

text \<open>
  One turn of the loop over the peers: \<open>keys\<close> and \<open>ips\<close> are those seen so far and
  \<open>adapter\<close> says whether a Rosenpass socket was.
\<close>

definition checkSpec :: "(string \<Rightarrow> wgkey option) \<Rightarrow> config \<Rightarrow> wgkey list \<Rightarrow> addr list \<Rightarrow> bool \<Rightarrow> peerSpec \<Rightarrow> error + peerSpec" where
  "checkSpec parseKey c keys ips adapter p =
    (case parseKey (psPublicKey p) of
       None \<Rightarrow> Inl (Msg ''invalid or duplicate key/address'')
     | Some k \<Rightarrow>
         if k = 0 \<or> k \<in> set keys \<or> psIP p \<in> set ips \<or> \<not> overlayAddress (psIP p) \<or> is4 (psIP p) \<noteq> is4 (cfAddress c)
           then Inl (Msg ''invalid or duplicate key/address'')
         else if psFile p \<noteq> [] \<and> (\<not> isAbs (psFile p) \<or> psPresharedKey p \<noteq> [])
           then Inl (Msg ''preshared_key_file must be absolute and excludes preshared_key'')
         else if psFile p = [] \<and> psMaxAge p \<noteq> None
           then Inl (Msg ''preshared_key_max_age requires preshared_key_file'')
         else let age = (if psFile p \<noteq> [] \<and> psMaxAge p = None then Some (3 * minute) else psMaxAge p) in
           if (case age of None \<Rightarrow> False | Some a \<Rightarrow> a < 130 * second \<or> a > 3 * minute)
             then Inl (Msg ''preshared_key_max_age must be between 130s and 3m'')
           else if psSocket p \<noteq> [] \<and> (adapter \<or> \<not> isAbs (psSocket p) \<or> psFile p = [] \<or> psSocket p = psFile p)
             then Inl (Msg ''one Rosenpass adapter is supported'')
           else if psRekey p \<and> psFile p = []
             then Inl (Msg ''experimental rekey requires a PSK file'')
           else let q = p\<lparr>psKey := k, psMaxAge := age\<rparr> in
             if psPresharedKey p = [] then Inr q
             else (case parseKey (psPresharedKey p) of
                 None \<Rightarrow> Inl (Msg ''invalid preshared key'')
               | Some s \<Rightarrow> if s = 0 then Inl (Msg ''invalid preshared key'') else Inr (q\<lparr>psPsk := s\<rparr>)))"

fun checkSpecs :: "(string \<Rightarrow> wgkey option) \<Rightarrow> config \<Rightarrow> wgkey list \<Rightarrow> addr list \<Rightarrow> bool \<Rightarrow> peerSpec list \<Rightarrow> error + peerSpec list" where
  "checkSpecs parseKey c keys ips adapter [] = Inr []"
| "checkSpecs parseKey c keys ips adapter (p # ps) =
    (case checkSpec parseKey c keys ips adapter p of
       Inl e \<Rightarrow> Inl e
     | Inr q \<Rightarrow> (case checkSpecs parseKey c (psKey q # keys) (psIP q # ips) (adapter \<or> psSocket q \<noteq> []) ps of
         Inl e \<Rightarrow> Inl e
       | Inr qs \<Rightarrow> Inr (q # qs)))"

text \<open>
  \<open>body\<close> is what was read of the file, at most one byte over 1 MiB (\<open>None\<close> when a
  read failed); \<open>decode\<close> fills in the defaults' copy and says whether the input
  ended after the value.
\<close>

definition readConfig :: "(config \<Rightarrow> bytes \<Rightarrow> (config \<times> bool) option) \<Rightarrow> (string \<Rightarrow> wgkey option) \<Rightarrow> bytes option \<Rightarrow> error + config" where
  "readConfig decode parseKey body =
    (case body of
       None \<Rightarrow> Inl (Msg ''configuration is unreadable or exceeds 1 MiB'')
     | Some b \<Rightarrow>
         if length b > 2 ^ 20 then Inl (Msg ''configuration is unreadable or exceeds 1 MiB'')
         else (case decode defaults b of
             None \<Rightarrow> Inl (Msg ''invalid configuration JSON'')
           | Some (c, ended) \<Rightarrow>
               if \<not> ended then Inl (Msg ''trailing configuration data'')
               else if badNetworkConfig c then Inl (Msg ''set a tunnel address, 1-128 peers, and an unprivileged UDP port'')
               else if badGroups c then Inl (Msg ''set an IPv4 multicast group and an IPv6 link-local multicast group'')
               else if badPolicy c then Inl (Msg ''invalid timing or improvement policy; see README'')
               else (case checkSpecs parseKey c [] [cfAddress c] False (cfPeers c) of
                   Inl e \<Rightarrow> Inl e
                 | Inr ps \<Rightarrow> Inr (c\<lparr>cfPeers := ps\<rparr>))))"

text \<open>
  The loop runs over the runes of the name; a byte over 127 only ever yields a
  rune over 127, which is refused like the byte.
\<close>

definition nameChar :: "char \<Rightarrow> bool" where
  "nameChar ch \<longleftrightarrow> (let n = of_char ch :: nat in
     97 \<le> n \<and> n \<le> 122 \<or> 65 \<le> n \<and> n \<le> 90 \<or> 48 \<le> n \<and> n \<le> 57 \<or>
     ch = CHR ''_'' \<or> ch = CHR ''-'' \<or> ch = CHR ''.'')"

definition validName :: "string \<Rightarrow> bool" where
  "validName s \<longleftrightarrow> \<not> (length s = 0 \<or> length s > 15 \<or> s = ''.'' \<or> s = ''..'') \<and> list_all nameChar s"

section \<open>What is accepted\<close>

text \<open>
  What the daemon means to accept, said without the code's own checks: the address classes as
  ranges of numbers, the policy as intervals, the gain as a real number.
\<close>

definition tunnelAddress :: "addr \<Rightarrow> bool" where
  "tunnelAddress a \<longleftrightarrow> (case a of
      NoAddr \<Rightarrow> False
    | V4 w \<Rightarrow> uint w \<notin> {0, 0xffffffff} \<and> uint w \<notin> {0x7f000000..0x7fffffff} \<and> uint w \<notin> {0xe0000000..0xefffffff} \<and> uint w \<notin> {0xa9fe0000..0xa9feffff}
    | V6 w z \<Rightarrow> z = [] \<and> uint w \<notin> {0, 1} \<and> uint w < 0xff00 * 2 ^ 112 \<and> uint w \<notin> {0xfe80 * 2 ^ 112 ..< 0xfec0 * 2 ^ 112} \<and>
        uint w \<notin> {0xffff00000000..0xffffffffffff})"

definition networkOK :: "config \<Rightarrow> bool" where
  "networkOK c \<longleftrightarrow> tunnelAddress (cfAddress c) \<and> length (cfPeers c) \<in> {1..128} \<and> 1024 \<le> uint (cfPort c)"

text \<open>
  The IPv6 group has the prefix \<^verbatim>\<open>ff\<close>, any flags and link-local scope; an IPv4-mapped address of
  \<^verbatim>\<open>224.0.0.0/24\<close> is one too, since the library unmaps it.
\<close>

definition groupsOK :: "config \<Rightarrow> bool" where
  "groupsOK c \<longleftrightarrow> (\<exists>w. cfMulticast4 c = V4 w \<and> uint w \<in> {0xe0000000..0xefffffff}) \<and>
     (\<exists>w. cfMulticast6 c = V6 w [] \<and>
        (drop_bit 120 w = 0xff \<and> take_bit 4 (drop_bit 112 w) = 2 \<or> uint w \<in> {0xffffe0000000..0xffffe00000ff}))"

definition policyOK :: "config \<Rightarrow> bool" where
  "policyOK c \<longleftrightarrow> cfProbe c \<in> {100 * millisecond .. second} \<and> cfWindow c \<in> {3 * cfProbe c .. minute} \<and>
     cfFailure c \<in> {2 * cfProbe c .. cfWindow c} \<and> cfDiscovery c \<in> {cfProbe c .. 5 * minute} \<and>
     cfBroadcastAfter c \<in> {cfProbe c ..} \<and> cfCooldown c \<in> {cfProbe c ..} \<and> cfMinGain c \<in> {0 ..} \<and> flVal (cfGain c) \<in> {0 ..< 1}"

text \<open>What one peer needs by itself, and what the loop fills in.\<close>

definition specOK :: "(string \<Rightarrow> wgkey option) \<Rightarrow> config \<Rightarrow> peerSpec \<Rightarrow> bool" where
  "specOK parseKey c p \<longleftrightarrow>
    (\<exists>k. parseKey (psPublicKey p) = Some k \<and> k \<noteq> 0) \<and>
    tunnelAddress (psIP p) \<and> is4 (psIP p) = is4 (cfAddress c) \<and>
    (psFile p = [] \<longrightarrow> psMaxAge p = None \<and> psSocket p = [] \<and> \<not> psRekey p) \<and>
    (psFile p \<noteq> [] \<longrightarrow> isAbs (psFile p) \<and> psPresharedKey p = []) \<and>
    (\<forall>a. psMaxAge p = Some a \<longrightarrow> 130 * second \<le> a \<and> a \<le> 3 * minute) \<and>
    (psSocket p \<noteq> [] \<longrightarrow> isAbs (psSocket p) \<and> psSocket p \<noteq> psFile p) \<and>
    (psPresharedKey p \<noteq> [] \<longrightarrow> (\<exists>s. parseKey (psPresharedKey p) = Some s \<and> s \<noteq> 0))"

definition keyOf :: "(string \<Rightarrow> wgkey option) \<Rightarrow> peerSpec \<Rightarrow> wgkey" where
  "keyOf parseKey p = (case parseKey (psPublicKey p) of None \<Rightarrow> 0 | Some k \<Rightarrow> k)"

definition filledSpec :: "(string \<Rightarrow> wgkey option) \<Rightarrow> peerSpec \<Rightarrow> peerSpec" where
  "filledSpec parseKey p = p\<lparr>psKey := keyOf parseKey p,
     psMaxAge := (if psFile p \<noteq> [] \<and> psMaxAge p = None then Some (3 * minute) else psMaxAge p),
     psPsk := (if psPresharedKey p = [] then psPsk p else case parseKey (psPresharedKey p) of None \<Rightarrow> 0 | Some s \<Rightarrow> s)\<rparr>"

definition specsOK :: "(string \<Rightarrow> wgkey option) \<Rightarrow> config \<Rightarrow> bool" where
  "specsOK parseKey c \<longleftrightarrow> list_all (specOK parseKey c) (cfPeers c) \<and>
     distinct (map (keyOf parseKey) (cfPeers c)) \<and> distinct (cfAddress c # map psIP (cfPeers c)) \<and>
     length (filter (\<lambda>p. psSocket p \<noteq> []) (cfPeers c)) \<le> 1"

text \<open>The code's checks say the same.\<close>

lemma drop_bit_iff:
  fixes w :: "'a :: len word"
  shows "drop_bit n w = k \<longleftrightarrow> uint w div 2 ^ n = uint k"
proof -
  have "uint (drop_bit n w) = uint w div 2 ^ n" 
  proof -
    have "take_bit LENGTH('a) (uint w) = uint w" by (rule take_bit_int_eq_self) (use unsigned_less[of w] in simp_all)
    then show ?thesis by (simp only: unsigned_drop_bit_eq) (simp only: drop_bit_eq_div)
  qed
  then show ?thesis by (simp only: word_uint_eq_iff)
qed

lemma div_range: "(x :: int) div 2 ^ n = k \<longleftrightarrow> k * 2 ^ n \<le> x \<and> x < (k + 1) * 2 ^ n"
proof -
  have "x div 2 ^ n = k" if "k * 2 ^ n \<le> x" "x < (k + 1) * 2 ^ n"
    by (rule int_div_pos_eq[of _ _ _ "x - k * 2 ^ n"]) (use that in \<open>simp_all add: algebra_simps\<close>)
  moreover have "x div 2 ^ n * 2 ^ n \<le> x" "x < (x div 2 ^ n + 1) * 2 ^ n"
  proof -
    have "0 \<le> x mod 2 ^ n" "x mod 2 ^ n < 2 ^ n" by simp_all
    moreover have "x div 2 ^ n * 2 ^ n + x mod 2 ^ n = x" by (rule div_mult_mod_eq)
    ultimately show "x div 2 ^ n * 2 ^ n \<le> x" "x < (x div 2 ^ n + 1) * 2 ^ n" by (linarith, simp only: distrib_right)
  qed
  ultimately show ?thesis by auto
qed

lemma group_mask: "(x :: 128 word) AND 0xff0f = 0xff02 \<longleftrightarrow> drop_bit 8 x AND 0xff = 0xff \<and> x AND 0xf = 2"
proof
  assume a: "x AND 0xff0f = 0xff02"
  have "drop_bit 8 (x AND 0xff0f) = drop_bit 8 x AND 0xff" by (simp add: drop_bit_and)
  moreover have "(x AND 0xff0f) AND 0xf = x AND 0xf" by (simp add: and.assoc)
  ultimately show "drop_bit 8 x AND 0xff = 0xff \<and> x AND 0xf = 2" using a by simp
next
  assume b: "drop_bit 8 x AND 0xff = 0xff \<and> x AND 0xf = 2"
  have "x AND 0xff0f = (x AND 0xff00) OR (x AND 0xf)" using bit.conj_disj_distrib[of x "0xff00" "0xf"] by simp
  moreover have "x AND push_bit 8 (mask 8) = push_bit 8 (drop_bit 8 x AND mask 8)"
    by (rule bit_word_eqI) (auto simp: bit_and_iff bit_push_bit_iff bit_drop_bit_eq bit_mask_iff)
  then have "x AND 0xff00 = push_bit 8 (drop_bit 8 x AND 0xff)" by (simp add: mask_eq_exp_minus_1)
  ultimately show "x AND 0xff0f = 0xff02" using b by simp
qed

lemma group_bits: "drop_bit 112 (w :: 128 word) AND 0xff0f = 0xff02 \<longleftrightarrow> drop_bit 120 w = 0xff \<and> take_bit 4 (drop_bit 112 w) = 2"
proof -
  have "drop_bit 120 w AND mask 8 = drop_bit 120 w"
    by (rule bit_word_eqI) (auto simp: bit_and_iff bit_drop_bit_eq bit_mask_iff dest: bit_imp_le_length)
  then have "drop_bit 8 (drop_bit 112 w) AND 0xff = drop_bit 120 w" by (simp add: mask_eq_exp_minus_1)
  moreover have "take_bit 4 (drop_bit 112 w) = drop_bit 112 w AND 0xf" by (simp add: take_bit_eq_mask mask_eq_exp_minus_1)
  ultimately show ?thesis unfolding group_mask by simp
qed
lemma overlayAddress_iff: "overlayAddress a \<longleftrightarrow> tunnelAddress a"
proof (cases a)
  case (V4 w)
  show ?thesis
    unfolding V4 by (simp add: overlayAddress_def tunnelAddress_def isGlobalUnicast_def isLoopback_def isMulticast_def isLinkLocalUnicast_def Let_def
      drop_bit_iff div_range word_uint_eq_iff[of w]) auto
next
  case (V6 w z)
  have "uint w < 2 ^ 128" using unsigned_less[of w, where ?'a = int] by simp
  then show ?thesis
    unfolding V6 by (simp add: overlayAddress_def tunnelAddress_def isGlobalUnicast_def isLoopback_def isMulticast_def isLinkLocalUnicast_def Let_def
      drop_bit_iff div_range word_uint_eq_iff[of w]) auto
qed (simp add: overlayAddress_def tunnelAddress_def isGlobalUnicast_def)

lemma badPolicy_iff: "badPolicy c \<longleftrightarrow> \<not> policyOK c"
  by (auto simp: badPolicy_def policyOK_def flLe_iff flVal_def[of "Fl 0 0"] flVal_def[of "Fl 1 0"])

lemma linkLocalMulticast_iff: "isLinkLocalMulticast (V6 w []) \<longleftrightarrow>
    drop_bit 120 w = 0xff \<and> take_bit 4 (drop_bit 112 w) = 2 \<or> uint w \<in> {0xffffe0000000..0xffffe00000ff}"
proof (cases "drop_bit 32 w = 0xffff")
  case True
  have low: "uint w \<in> {0xffff00000000..0xffffffffffff}" using True unfolding drop_bit_iff div_range by simp
  have "uint (ucast w :: 32 word) = uint w mod 2 ^ 32" by (simp add: unsigned_ucast_eq take_bit_eq_mod)
  moreover have "uint w mod 2 ^ 32 = uint w - 0xffff00000000" 
    by (rule int_mod_pos_eq[of _ _ "0xffff"]) (use low in auto)
  ultimately have "drop_bit 8 (ucast w :: 32 word) = 0xe00000 \<longleftrightarrow> uint w \<in> {0xffffe0000000..0xffffe00000ff}"
    unfolding drop_bit_iff div_range by auto
  moreover have "drop_bit 120 w \<noteq> 0xff" using low unfolding drop_bit_iff div_range by simp
  ultimately show ?thesis using True by (simp add: isLinkLocalMulticast_def)
next
  case False
  then have "uint w \<notin> {0xffffe0000000..0xffffe00000ff}" unfolding drop_bit_iff div_range by auto
  with False show ?thesis by (auto simp: isLinkLocalMulticast_def group_bits)
qed

lemma badGroups_iff: "badGroups c \<longleftrightarrow> \<not> groupsOK c"
proof -
  have "is4 a \<and> isMulticast a \<longleftrightarrow> (\<exists>w. a = V4 w \<and> uint w \<in> {0xe0000000..0xefffffff})" for a
    by (cases a) (auto simp: isMulticast_def drop_bit_iff div_range[where n = 28, simplified])
  moreover have "is6 a \<and> zone a = [] \<longleftrightarrow> (\<exists>w. a = V6 w [])" for a by (cases a) auto
  ultimately show ?thesis unfolding badGroups_def groupsOK_def by (metis linkLocalMulticast_iff is6.simps(1) zone.simps(1))
qed

lemma badNetworkConfig_iff: "badNetworkConfig c \<longleftrightarrow> \<not> networkOK c"
  by (auto simp: badNetworkConfig_def networkOK_def overlayAddress_iff word_less_def Suc_le_eq)

lemmas bad_iffs = badNetworkConfig_iff badGroups_iff badPolicy_iff

lemma filledSpec_fields [simp]:
  "psKey (filledSpec parseKey p) = keyOf parseKey p" "psIP (filledSpec parseKey p) = psIP p"
  "psSocket (filledSpec parseKey p) = psSocket p" "psFile (filledSpec parseKey p) = psFile p"
  by (simp_all add: filledSpec_def)

lemma checkSpec_iff:
  "checkSpec parseKey c keys ips adapter p = Inr q \<longleftrightarrow>
    specOK parseKey c p \<and> keyOf parseKey p \<notin> set keys \<and> psIP p \<notin> set ips \<and>
    (psSocket p \<noteq> [] \<longrightarrow> \<not> adapter) \<and> q = filledSpec parseKey p"
proof (cases "parseKey (psPublicKey p)")
  case None
  then show ?thesis by (simp add: checkSpec_def specOK_def)
next
  case (Some k)
  then show ?thesis
    by (cases "psMaxAge p"; cases "parseKey (psPresharedKey p)")
      (auto simp: checkSpec_def specOK_def keyOf_def filledSpec_def Let_def overlayAddress_iff)
qed

lemma checkSpecs_iff:
  "checkSpecs parseKey c keys ips adapter ps = Inr qs \<longleftrightarrow>
    list_all (specOK parseKey c) ps \<and>
    distinct (map (keyOf parseKey) ps) \<and> keyOf parseKey ` set ps \<inter> set keys = {} \<and>
    distinct (map psIP ps) \<and> psIP ` set ps \<inter> set ips = {} \<and>
    length (filter (\<lambda>p. psSocket p \<noteq> []) ps) \<le> (if adapter then 0 else 1) \<and>
    qs = map (filledSpec parseKey) ps"
proof (induction ps arbitrary: keys ips adapter qs)
  case (Cons p ps)
  show ?case
  proof (cases "checkSpec parseKey c keys ips adapter p")
    case (Inl e)
    then have "\<not> (specOK parseKey c p \<and> keyOf parseKey p \<notin> set keys \<and> psIP p \<notin> set ips \<and> (psSocket p \<noteq> [] \<longrightarrow> \<not> adapter))"
      using checkSpec_iff[of parseKey c keys ips adapter p "filledSpec parseKey p"] by simp
    with Inl show ?thesis by (auto split: if_splits)
  next
    case (Inr q)
    then have q: "specOK parseKey c p" "keyOf parseKey p \<notin> set keys" "psIP p \<notin> set ips"
      "psSocket p \<noteq> [] \<longrightarrow> \<not> adapter" "q = filledSpec parseKey p"
      by (simp_all add: checkSpec_iff)
    obtain r where r: "checkSpecs parseKey c (psKey q # keys) (psIP q # ips) (adapter \<or> psSocket q \<noteq> []) ps = r" by blast
    show ?thesis
    proof (cases r)
      case (Inl e)
      have "\<not> checkSpecs parseKey c (psKey q # keys) (psIP q # ips) (adapter \<or> psSocket q \<noteq> []) ps =
          Inr (map (filledSpec parseKey) ps)"
        using r Inl by simp
      from this[unfolded Cons.IH] show ?thesis
        using Inr Inl r q by (auto split: if_splits)
    next
      case (Inr rs)
      from r[unfolded Inr Cons.IH] show ?thesis
        using \<open>checkSpec parseKey c keys ips adapter p = Inr q\<close> Inr r q by (auto split: if_splits)
    qed
  qed
qed auto

text \<open>
  C36: A configuration is accepted exactly when the file is at most 1 MiB of JSON
  with nothing after it, the tunnel address, the peer count, the port, the
  multicast groups and the timing policy are in the stated ranges, every peer is sound by
  itself, all peer keys are distinct, all tunnel addresses (the own one
  included) are distinct, and at most one peer has a Rosenpass socket; the
  result differs from what was decoded only in the parsed keys and the default
  key age.
\<close>

theorem readConfig_accepts:
  "readConfig decode parseKey body = Inr c \<longleftrightarrow>
    (\<exists>b c0. body = Some b \<and> length b \<le> 2 ^ 20 \<and> decode defaults b = Some (c0, True) \<and>
      networkOK c0 \<and> groupsOK c0 \<and> policyOK c0 \<and> specsOK parseKey c0 \<and>
      c = c0\<lparr>cfPeers := map (filledSpec parseKey) (cfPeers c0)\<rparr>)"
proof (cases body)
  case None
  then show ?thesis by (simp add: readConfig_def)
next
  case (Some b)
  show ?thesis
  proof (cases "decode defaults b")
    case None
    with Some show ?thesis by (simp add: readConfig_def)
  next
    case dec: (Some r)
    obtain c0 ended where r: "r = (c0, ended)" by (cases r)
    have specs: "specsOK parseKey c0 \<longleftrightarrow>
        checkSpecs parseKey c0 [] [cfAddress c0] False (cfPeers c0) = Inr (map (filledSpec parseKey) (cfPeers c0))"
      by (auto simp: checkSpecs_iff specsOK_def)
    show ?thesis
    proof (cases "checkSpecs parseKey c0 [] [cfAddress c0] False (cfPeers c0)")
      case (Inl e)
      with Some dec r specs show ?thesis by (simp add: readConfig_def bad_iffs)
    next
      case (Inr qs)
      then have "qs = map (filledSpec parseKey) (cfPeers c0)" by (simp add: checkSpecs_iff)
      with Some dec r specs Inr show ?thesis by (auto simp: readConfig_def bad_iffs)
    qed
  qed
qed

end
