(* ===== verification/Measure.thy ===== *)
theory Measure
  imports Config "HOL-Library.Multiset" "HOL-Library.Signed_Division"
begin

text \<open>
  The round-trip measurements of \<^verbatim>\<open>mesh.go\<close>: a bounded window of samples, its
  median when enough of the scheduled probes succeeded, and the test that a
  candidate improves on a baseline.
\<close>

section \<open>Definitions\<close>

record sample =
  smAt :: time
  smRtt :: duration

record measurements =
  msSince :: time
  msSamples :: "sample list"

definition newMeasurements :: "time \<Rightarrow> measurements" where
  "newMeasurements now = \<lparr>msSince = now, msSamples = []\<rparr>"

definition addSample :: "measurements \<Rightarrow> time \<Rightarrow> duration \<Rightarrow> duration \<Rightarrow> measurements" where
  "addSample w now rtt window =
    (let kept = filter (\<lambda>s. \<not> timeSub now (smAt s) > window) (msSamples w) in
     w\<lparr>msSamples := (if length kept < 1024 then kept @ [\<lparr>smAt = now, smRtt = rtt\<rparr>] else kept)\<rparr>)"

text \<open>
  Go divides with truncation.  An accepted policy makes \<open>neededSamples\<close> at least 3,
  so the middle element exists whenever the median is taken.
\<close>

definition neededSamples :: "config \<Rightarrow> int" where
  "neededSamples c = (int64 (cfWindow c sdiv cfProbe c) * 8 + 9) sdiv 10"

definition windowRtts :: "measurements \<Rightarrow> time \<Rightarrow> config \<Rightarrow> duration list" where
  "windowRtts w now c = map smRtt (filter (\<lambda>s. timeSub now (smAt s) \<le> cfWindow c) (msSamples w))"

definition median :: "measurements \<Rightarrow> time \<Rightarrow> config \<Rightarrow> duration option" where
  "median w now c =
    (if msSince w = 0 \<or> timeSub now (msSince w) < cfWindow c then None
     else let values = windowRtts w now c in
       if int (length values) < neededSamples c then None
       else Some (sort values ! (length values div 2)))"

definition improves :: "duration \<Rightarrow> duration \<Rightarrow> config \<Rightarrow> bool" where
  "improves candidate baseline c \<longleftrightarrow>
    candidate < baseline \<and> int64 (baseline - candidate) \<ge> cfMinGain c \<and>
    flLe (flOfInt candidate) (flMul (flOfInt baseline) (flSub (Fl 1 0) (cfGain c)))"

section \<open>The sample window\<close>

definition measurementsOK :: "measurements \<Rightarrow> bool" where
  "measurementsOK w \<longleftrightarrow> length (msSamples w) \<le> 1024"

lemma measurementsOK_new [simp]: "measurementsOK (newMeasurements now)"
  by (simp add: measurementsOK_def newMeasurements_def)

lemma measurementsOK_add [simp]: "measurementsOK w \<Longrightarrow> measurementsOK (addSample w now rtt window)"
  by (auto simp: measurementsOK_def addSample_def Let_def not_less intro!: antisym
    intro: order_trans[OF length_filter_le])

lemma msSince_addSample [simp]: "msSince (addSample w now rtt window) = msSince w"
  by (simp add: addSample_def Let_def)

lemma neededSamples_policy:
  assumes "\<not> badPolicy c"
  shows "neededSamples c = (cfWindow c div cfProbe c * 8 + 9) div 10" and "3 \<le> neededSamples c"
proof -
  have probe: "0 < cfProbe c" and window: "3 * cfProbe c \<le> cfWindow c" "cfWindow c \<le> 60000000000"
    using assms by (auto simp: badPolicy_def)
  have "cfWindow c div cfProbe c \<le> cfWindow c div 1"
    by (rule zdiv_mono2) (use probe window in auto)
  then have "0 \<le> cfWindow c div cfProbe c" "cfWindow c div cfProbe c \<le> 60000000000"
    using probe window by (auto simp: pos_imp_zdiv_nonneg_iff)
  then have exact: "int64 (cfWindow c sdiv cfProbe c) = cfWindow c div cfProbe c"
    using probe window by (simp add: signed_divide_int_def int64_def)
  show eq: "neededSamples c = (cfWindow c div cfProbe c * 8 + 9) div 10"
    using probe window \<open>0 \<le> cfWindow c div cfProbe c\<close> unfolding neededSamples_def exact
    by (simp add: signed_divide_int_def)
  have "3 \<le> cfWindow c div cfProbe c"
    using zdiv_mono1[OF window(1) probe] probe by simp
  then show "3 \<le> neededSamples c" unfolding eq by linarith
qed

section \<open>The median\<close>

lemma filter_sorted_prefix:
  assumes "sorted xs" and "i < length xs"
  shows "length (filter (\<lambda>x. x < xs ! i) xs) \<le> i" and "i < length (filter (\<lambda>x. x \<le> xs ! i) xs)"
proof -
  have "filter (\<lambda>x. x < xs ! i) (drop i xs) = []"
    using assms by (auto simp: filter_empty_conv in_set_conv_nth sorted_nth_mono not_less)
  then have "length (filter (\<lambda>x. x < xs ! i) xs) = length (filter (\<lambda>x. x < xs ! i) (take i xs))"
    by (metis append_Nil2 append_take_drop_id filter_append)
  also have "\<dots> \<le> i" using length_filter_le[of "\<lambda>x. x < xs ! i" "take i xs"] by simp
  finally show "length (filter (\<lambda>x. x < xs ! i) xs) \<le> i" .
  have "filter (\<lambda>x. x \<le> xs ! i) (take (Suc i) xs) = take (Suc i) xs"
    using assms by (auto simp: filter_id_conv in_set_conv_nth sorted_nth_mono)
  then have "Suc i \<le> length (filter (\<lambda>x. x \<le> xs ! i) (take (Suc i) xs))"
    using assms(2) by simp
  also have "\<dots> \<le> length (filter (\<lambda>x. x \<le> xs ! i) xs)"
    by (subst (2) append_take_drop_id[of "Suc i" xs, symmetric]) (simp del: append_take_drop_id)
  finally show "i < length (filter (\<lambda>x. x \<le> xs ! i) xs)" by simp
qed

lemma length_filter_sort: "length (filter P (sort xs)) = length (filter P xs)"
  by (metis mset_filter mset_sort size_mset)

text \<open>
  Under an accepted policy a median is only reported after a full window of
  measuring and when at least 80 percent of the probes scheduled in the window
  were answered; it is one of the answers' round-trip times, at most half of
  them are smaller and more than half are not larger.
\<close>

theorem median_sound:
  assumes "median w now c = Some m" and "\<not> badPolicy c"
  shows "msSince w \<noteq> 0 \<and> cfWindow c \<le> timeSub now (msSince w) \<and>
    8 * (cfWindow c div cfProbe c) \<le> 10 * int (length (windowRtts w now c)) \<and>
    m \<in> set (windowRtts w now c) \<and>
    2 * length (filter (\<lambda>x. x < m) (windowRtts w now c)) \<le> length (windowRtts w now c) \<and>
    length (windowRtts w now c) < 2 * length (filter (\<lambda>x. x \<le> m) (windowRtts w now c))"
proof -
  obtain vs where vs: "vs = windowRtts w now c" by blast
  from assms(1) have since: "msSince w \<noteq> 0" "cfWindow c \<le> timeSub now (msSince w)"
    and enough: "neededSamples c \<le> int (length vs)" and m: "m = sort vs ! (length vs div 2)"
    by (auto simp: median_def Let_def vs split: if_splits)
  note needed = neededSamples_policy[OF assms(2)]
  have i: "length vs div 2 < length (sort vs)" using enough needed(2) by simp
  have "m \<in> set vs" unfolding m using nth_mem[OF i] by simp
  moreover have "8 * (cfWindow c div cfProbe c) \<le> 10 * int (length vs)"
    using enough unfolding needed(1) by linarith
  moreover have "length (filter (\<lambda>x. x < m) vs) \<le> length vs div 2" "length vs div 2 < length (filter (\<lambda>x. x \<le> m) vs)"
    using filter_sorted_prefix[OF sorted_sort i, folded m] by (simp_all add: length_filter_sort)
  ultimately show ?thesis using since unfolding vs by auto
qed

section \<open>The improvement test\<close>

lemma flVal_simps [simp]: "flVal (Fl 1 0) = 1" "flVal (Fl 0 0) = 0"
  by (simp_all add: flVal_def)

text \<open>
  An improvement is real: the candidate is strictly faster by at least the
  configured minimum and, up to the rounding of two double operations, by the
  configured fraction of the baseline.
\<close>

theorem improves_sound:
  assumes "improves candidate baseline c" and "\<not> badPolicy c" and "0 \<le> candidate" and "baseline < 2 ^ 53"
  shows "candidate < baseline \<and> cfMinGain c \<le> baseline - candidate \<and>
    real_of_int candidate \<le> real_of_int baseline * (1 - flVal (cfGain c)) * (1 + 1 / 2 ^ 53)\<^sup>2"
proof -
  from assms have lt: "candidate < baseline" and gain: "cfMinGain c \<le> int64 (baseline - candidate)"
    and le: "flVal (flOfInt candidate) \<le> flVal (flMul (flOfInt baseline) (flSub (Fl 1 0) (cfGain c)))"
    by (auto simp: improves_def flLe_iff)
  have frac: "0 \<le> flVal (cfGain c)" "flVal (cfGain c) < 1"
    using assms(2) by (auto simp: badPolicy_def flLe_iff)
  have diff: "int64 (baseline - candidate) = baseline - candidate"
    using assms lt by (intro int64_exact) (auto simp: minDuration_def maxDuration_def)
  have exact: "flVal (flOfInt candidate) = candidate" "flVal (flOfInt baseline) = baseline"
    using assms lt by (simp_all add: flOfInt_exact)
  let ?b = "real_of_int baseline" and ?g = "1 - flVal (cfGain c)" and ?u = "1 + 1 / 2 ^ 53 :: real"
  let ?s = "flVal (flSub (Fl 1 0) (cfGain c))"
  have b: "0 \<le> ?b" and g: "0 \<le> ?g" using assms lt frac by simp_all
  have near: "\<bar>?s - ?g\<bar> \<le> \<bar>?g\<bar> / 2 ^ 53" using flSub_error[of "Fl 1 0" "cfGain c"] by simp
  note sub = rel_error_bounds[OF near g]
  have "flVal (flMul (flOfInt baseline) (flSub (Fl 1 0) (cfGain c))) \<le> ?b * ?s * ?u"
    by (rule rel_error_bounds(2))
      (use flMul_error[of "flOfInt baseline" "flSub (Fl 1 0) (cfGain c)"] b sub in \<open>simp_all add: exact\<close>)
  also have "\<dots> \<le> ?b * (?g * ?u) * ?u"
    using b sub by (intro mult_right_mono mult_left_mono) auto
  finally have "real_of_int candidate \<le> ?b * ?g * ?u\<^sup>2"
    using le exact by (simp add: power2_eq_square mult.assoc)
  then show ?thesis using lt gain diff by simp
qed

end
