(* ===== verification/NetworkWitnesses.thy ===== *)
theory NetworkWitnesses
  imports Network Measure
begin

text \<open>
  Concrete instances of the properties of the underlay, the configuration and
  the measurements: one Ethernet interface, memberships kept as a set, and the
  default policy.
\<close>

section \<open>The underlay\<close>

definition exIface :: iface where
  "exIface = \<lparr>ifIndex = 2, ifName = ''eth0'', ifUp = True, ifBroadcast = True, ifLoopback = False,
     ifPointToPoint = False, ifMulticast = True\<rparr>"

definition exPrefix :: prefix where "exPrefix = Prefix (V4 0x0a000005) 24"

definition exState :: interfaceState where
  "exState = \<lparr>isIface = exIface, isPrefixes = [exPrefix]\<rparr>"

definition exNet :: udpNetwork where
  "exNet = \<lparr>unV4 = True, unV6 = False, unInclude = [], unExclude = [], unGroups = [V4 0xefff4d4d],
     unWgName = ''wg0'', unIncoming = [], unDone = False, unJoined = [], unCloseErr = None\<rparr>"

definition exKey :: membership where
  "exKey = \<lparr>mbIndex = 2, mbName = ''eth0'', mbGroup = V4 0xefff4d4d\<rparr>"

definition exLeave :: "membership \<Rightarrow> membership set \<Rightarrow> membership set" where
  "exLeave k w = w - {k}"

definition exJoin :: "membership \<Rightarrow> membership set \<Rightarrow> error option \<times> membership set" where
  "exJoin k w = (None, insert k w)"

definition exLinks :: "udpNetwork \<Rightarrow> membership set \<Rightarrow> (error + linkAddr list) \<times> udpNetwork \<times> membership set" where
  "exLinks = Links (\<lambda>_. True) (\<lambda>_. []) (\<lambda>xs. xs) exLeave exJoin (Inr [exState])"

lemma exSocketLaws: "socketLaws (\<lambda>w. w) exLeave exJoin"
  by (auto simp: socketLaws_def exLeave_def exJoin_def)

lemma exJoin_None: "fst (exJoin k w) = None"
  by (simp add: exJoin_def)

lemma exUsable: "usableLinkAddress (V4 0x0a000005)"
  by (simp add: usableLinkAddress_def isGlobalUnicast_def isLoopback_def isMulticast_def isLinkLocalUnicast_def)

lemma exWanted: "wantedFor (\<lambda>_. True) (\<lambda>_. []) n [exState] exKey = [exPrefix]"
  if "unV4 n" "unGroups n = [V4 0xefff4d4d]" "unInclude n = []" "unExclude n = []" "unWgName n = ''wg0''"
  using that exUsable
  by (simp add: wantedFor_def selectedStates_def usablePrefixes_def linkKeys_def exState_def exIface_def exPrefix_def
      exKey_def selectInterface_def joins_def addressedLink_def)

lemma exNet_open: "\<not> unDone exNet" "membershipsOK exNet (unJoined exNet)" "{} = fst ` set (unJoined exNet)"
  by (simp_all add: exNet_def)

theorem Links_reconciles_witness:
  "snd (snd (exLinks exNet {})) = {k. wantedFor (\<lambda>_. True) (\<lambda>_. []) exNet [exState] k \<noteq> []} \<and>
    exKey \<in> snd (snd (exLinks exNet {}))"
proof -
  have run: "Links (\<lambda>_. True) (\<lambda>_. []) (\<lambda>xs. xs) exLeave exJoin (Inr [exState]) exNet {} =
      (fst (exLinks exNet {}), fst (snd (exLinks exNet {})), snd (snd (exLinks exNet {})))"
    by (simp add: exLinks_def)
  have "snd (snd (exLinks exNet {})) = {k. wantedFor (\<lambda>_. True) (\<lambda>_. []) exNet [exState] k \<noteq> []}"
    using Links_reconciles[OF run exNet_open(1,2) exSocketLaws exNet_open(3)] exJoin_None by blast
  moreover have "wantedFor (\<lambda>_. True) (\<lambda>_. []) exNet [exState] exKey \<noteq> []"
    by (simp add: exWanted exNet_def)
  ultimately show ?thesis by simp
qed

definition exJoined :: udpNetwork where
  "exJoined = exNet\<lparr>unJoined := [(exKey, [exPrefix])]\<rparr>"

theorem Links_keeps_unchanged_witness:
  "(exKey \<in> snd (snd (exLinks exJoined {exKey}))) = True \<and> (exKey, [exPrefix]) \<in> set (unJoined (fst (snd (exLinks exJoined {exKey}))))"
proof -
  have run: "Links (\<lambda>_. True) (\<lambda>_. []) (\<lambda>xs. xs) exLeave exJoin (Inr [exState]) exJoined {exKey} =
      (fst (exLinks exJoined {exKey}), fst (snd (exLinks exJoined {exKey})), snd (snd (exLinks exJoined {exKey})))"
    by (simp add: exLinks_def)
  have w: "wantedFor (\<lambda>_. True) (\<lambda>_. []) exJoined [exState] exKey = [exPrefix]"
    by (simp add: exWanted exJoined_def exNet_def)
  have ok: "\<not> unDone exJoined" "membershipsOK exJoined (unJoined exJoined)"
    by (simp_all add: exJoined_def exNet_def membershipsOK_def socketFor_def exKey_def)
  have mem: "(exKey, wantedFor (\<lambda>_. True) (\<lambda>_. []) exJoined [exState] exKey) \<in> set (unJoined exJoined)"
    unfolding w by (simp add: exJoined_def)
  from Links_keeps_unchanged[OF run ok _ mem, of "\<lambda>v. exKey \<in> v"] show ?thesis
    unfolding w by (simp add: exLeave_def exJoin_def)
qed

theorem broadcastAddress_directed_witness: "contains exPrefix (V4 0x0a0000ff) \<and> bit (0x0a0000ff :: 32 word) 7"
proof -
  have "broadcastAddress exPrefix = V4 0x0a0000ff"
    by (simp add: exPrefix_def mask_eq_exp_minus_1)
  with broadcastAddress_directed[of exPrefix "0x0a0000ff"] show ?thesis by (simp add: exPrefix_def)
qed

definition exLink :: linkAddr where "exLink = addressedLink exIface exPrefix"

theorem Send_guarded_witness:
  "Send (\<lambda>_. ''2'') True (\<lambda>v4 data source index target w. (None, w + 1)) exNet [7] (V4 0x0a000006, 51823) exLink (0 :: nat) = (None, 1) \<and>
   usableLinkAddress (pAddr (lkPrefix exLink))"
proof -
  have run: "Send (\<lambda>_. ''2'') True (\<lambda>v4 data source index target w. (None, w + 1)) exNet [7] (V4 0x0a000006, 51823) exLink (0 :: nat) = (None, 1)"
    using exUsable by (simp add: Send_def sendTarget_def badDatagram_def exNet_def exLink_def addressedLink_def exIface_def
        exPrefix_def pValid_def isUnspecified_def networkDatagramLimit_def)
  from Send_guarded[OF run] run show ?thesis by blast
qed

theorem receiveTurn_bounded_witness:
  "length (unIncoming (fst (receiveTurn (\<lambda>_. ''2'') exNet (Read [7] (Some (V4 0x0a000005)) 2 (V4 0x0a000006, 51823))))) = 1 \<and>
   incomingOK (fst (receiveTurn (\<lambda>_. ''2'') exNet (Read [7] (Some (V4 0x0a000005)) 2 (V4 0x0a000006, 51823))))"
proof
  show "length (unIncoming (fst (receiveTurn (\<lambda>_. ''2'') exNet (Read [7] (Some (V4 0x0a000005)) 2 (V4 0x0a000006, 51823))))) = 1"
    by (simp add: receiveTurn_def acceptDatagram_def networkDatagramLimit_def incomingLimit_def exNet_def)
  show "incomingOK (fst (receiveTurn (\<lambda>_. ''2'') exNet (Read [7] (Some (V4 0x0a000005)) 2 (V4 0x0a000006, 51823))))"
    by (rule receiveTurn_bounded) (simp add: incomingOK_def exNet_def)
qed

section \<open>Measurements\<close>

lemma default_policy: "\<not> badPolicy defaults"
  by (simp add: badPolicy_def defaults_def flLe_def)

definition exMeasure :: measurements where
  "exMeasure = \<lparr>msSince = 1, msSamples = map (\<lambda>i. \<lparr>smAt = 1, smRtt = i\<rparr>) [12, 4, 7, 1, 9, 3, 11, 2, 10, 5, 8, 6]\<rparr>"

lemma exWindow: "windowRtts exMeasure 15000000001 defaults = [12, 4, 7, 1, 9, 3, 11, 2, 10, 5, 8, 6]"
  by (simp add: windowRtts_def exMeasure_def defaults_def timeSub_def maxDuration_def minDuration_def)

lemma exNeeded: "neededSamples defaults = 12"
  unfolding neededSamples_policy(1)[OF default_policy] by (simp add: defaults_def)

lemma exMedian: "median exMeasure 15000000001 defaults = Some 7"
proof -
  have "timeSub 15000000001 (msSince exMeasure) = 15000000000" "cfWindow defaults = 15000000000" "msSince exMeasure = 1"
    by (simp_all add: exMeasure_def defaults_def timeSub_def maxDuration_def minDuration_def)
  then show ?thesis by (simp add: median_def exWindow exNeeded)
qed

theorem median_sound_witness:
  "median exMeasure 15000000001 defaults = Some 7 \<and> 7 \<in> set (windowRtts exMeasure 15000000001 defaults)"
  using median_sound[OF exMedian default_policy] exMedian by blast

lemma exGain: "flSub (Fl 1 0) (cfGain defaults) = Fl 7205759403792794 (- 53)"
proof -
  have "bitCount 28823037615171174 = 55" using bitCount_eq[of 54 28823037615171174] by simp
  then show ?thesis by (simp add: defaults_def flSub_def flRound_def roundShift_def)
qed

lemma exProduct: "flMul (Fl 9000000 0) (Fl 7205759403792794 (- 53)) = Fl 7730941132800000 (- 30)"
proof -
  have "bitCount 64851834634135146000000 = 76" using bitCount_eq[of 75 64851834634135146000000] by simp
  then show ?thesis by (simp add: flMul_def flRound_def roundShift_def)
qed

lemma exInts: "flOfInt 3000000 = Fl 3000000 0" "flOfInt 9000000 = Fl 9000000 0"
  by (simp_all add: flOfInt_def flRound_exact bitCount_le)

theorem improves_sound_witness: "improves 3000000 9000000 defaults \<and> cfMinGain defaults \<le> 9000000 - 3000000"
proof -
  have i: "improves 3000000 9000000 defaults"
    unfolding improves_def exInts exGain exProduct by (simp add: flLe_def int64_def defaults_def)
  with improves_sound[OF i default_policy] show ?thesis by simp
qed

end
