(* ===== verification/Control.thy ===== *)
theory Control
  imports Netip
begin

text \<open>
  The route controller of \<^verbatim>\<open>control.go\<close>: the only writer of the WireGuard
  interface.  It moves one host address from its stable owner to a direct peer
  and back, and keeps a recovery journal on disk so that an interrupted change
  can be undone.  The kernel interface (\<^verbatim>\<open>wgctrl\<close>), the file system and SHA-256
  are parameters, the fields of \<open>controlIO\<close>; everything the controller itself
  decides is defined here.  The lock \<^verbatim>\<open>mu\<close> makes every exported method atomic
  with respect to the others, so methods are computations on one state.

  A Go map is an association list; its order is the order in which a
  \<^verbatim>\<open>range\<close> loop happens to visit the entries, which no theorem restricts.
\<close>

section \<open>WireGuard devices as \<^verbatim>\<open>wgctrl\<close> reports them\<close>

text \<open>
  An allowed IP is a \<^verbatim>\<open>net.IPNet\<close> that the code only reads through its
  \<^verbatim>\<open>String\<close> form: \<open>Net p\<close> when that form parses as the prefix \<open>p\<close>, \<open>BadNet\<close> when
  it does not parse.
\<close>

datatype ipnet = Net prefix | BadNet string

record wgPeer =
  PublicKey :: wgkey
  PresharedKey :: wgkey
  Endpoint :: "addrPort option"
  KeepaliveInterval :: duration
  LastHandshakeTime :: time
  AllowedIPs :: "ipnet list"
  ProtocolVersion :: int

datatype deviceType = LinuxKernel | OtherDeviceType

record wgDevice =
  devType :: deviceType
  devPrivate :: wgkey
  devPublic :: wgkey
  devPort :: int
  devPeers :: "wgPeer list"

record peerConfig =
  pcKey :: wgkey
  pcRemove :: bool
  pcUpdateOnly :: bool
  pcPSK :: "wgkey option"
  pcEndpoint :: "addrPort option"
  pcAllowed :: "ipnet list"

definition peerUpdate :: "wgkey \<Rightarrow> peerConfig" where
  "peerUpdate key = \<lparr>pcKey = key, pcRemove = False, pcUpdateOnly = False, pcPSK = None,
     pcEndpoint = None, pcAllowed = []\<rparr>"

section \<open>The journal\<close>

datatype cphase = Planning | Adding | Active | Rekeying | Restoring | Aborting | UnknownPhase string

record controlPeer =
  cpIP :: addr
  cpOwner :: wgkey
  cpPrefix :: prefix
  cpPSKHash :: hash
  cpPhase :: cphase
  cpNextHash :: "hash option"

record controlJournal =
  jVersion :: int
  jName :: string
  jPublic :: wgkey
  jPeers :: "(wgkey \<times> controlPeer) list"

text \<open>
  The journal as the JSON decoder leaves it, before validation: the peer map
  may be missing, its keys are arbitrary text and its entries may be null.
\<close>

record rawJournal =
  rjVersion :: int
  rjName :: string
  rjPublic :: wgkey
  rjPeers :: "(string \<times> controlPeer option) list option"

section \<open>Parameters: kernel, file system, hash\<close>

datatype fsError = NotExist | Exists | FsError error

record fileInfo =
  fiDir :: bool
  fiRegular :: bool
  fiPerm :: nat
  fiUid :: nat
  fiSize :: int

datatype journalFile =
    JMissing
  | JOpenError error
  | JStatError error
  | JFile fileInfo "rawJournal option" bool
    \<comment> \<open>status, decoded value, and whether nothing follows that value\<close>

record 'w controlIO =
  ioDevice :: "string \<Rightarrow> ('w, wgDevice) eff"
  ioConfigure :: "string \<Rightarrow> peerConfig list \<Rightarrow> ('w, unit) eff"
  ioHash :: "wgkey \<Rightarrow> hash"
  ioParseKey :: "string \<Rightarrow> wgkey option"
  ioKeyString :: "wgkey \<Rightarrow> string"
  ioMarshal :: "controlJournal \<Rightarrow> error + bytes"
  ioUid :: nat
  ioDir :: "string \<Rightarrow> string"
  ioLstat :: "string \<Rightarrow> 'w \<Rightarrow> (fsError + fileInfo) \<times> 'w"
  ioMkdir :: "string \<Rightarrow> 'w \<Rightarrow> fsError option \<times> 'w"
  ioReadJournal :: "string \<Rightarrow> 'w \<Rightarrow> journalFile \<times> 'w"
  ioOpenDir :: "string \<Rightarrow> ('w, unit) eff"
  ioCreateTemp :: "string \<Rightarrow> ('w, string) eff"
  ioChmod :: "string \<Rightarrow> ('w, unit) eff"
  ioWrite :: "string \<Rightarrow> bytes \<Rightarrow> ('w, unit) eff"
  ioSync :: "string \<Rightarrow> ('w, unit) eff"
  ioClose :: "string \<Rightarrow> ('w, unit) eff"
  ioRename :: "string \<Rightarrow> string \<Rightarrow> ('w, unit) eff"
  ioRemove :: "string \<Rightarrow> 'w \<Rightarrow> 'w"

record 'w controller =
  ctlPath :: string
  ctlJournal :: controlJournal
  ctlPrivate :: wgkey
  ctlPort :: int
  ctlWorld :: 'w

definition inWorld :: "('w, 'a) eff \<Rightarrow> ('w controller, 'a) eff" where
  "inWorld m s = (case m (ctlWorld s) of (r, w) \<Rightarrow> (r, s\<lparr>ctlWorld := w\<rparr>))"

definition setPeer :: "wgkey \<Rightarrow> controlPeer \<Rightarrow> ('w controller, unit) eff" where
  "setPeer key r = modifyE (\<lambda>s. s\<lparr>ctlJournal := (ctlJournal s)\<lparr>jPeers := AList.update key r (jPeers (ctlJournal s))\<rparr>\<rparr>)"

definition dropPeer :: "wgkey \<Rightarrow> ('w controller, unit) eff" where
  "dropPeer key = modifyE (\<lambda>s. s\<lparr>ctlJournal := (ctlJournal s)\<lparr>jPeers := AList.delete key (jPeers (ctlJournal s))\<rparr>\<rparr>)"

definition getPeer :: "wgkey \<Rightarrow> ('w controller, controlPeer option) eff" where
  "getPeer key = getsE (\<lambda>s. map_of (jPeers (ctlJournal s)) key)"

definition liftErr :: "error option \<Rightarrow> ('s, unit) eff" where
  "liftErr e = (case e of None \<Rightarrow> returnE () | Some e \<Rightarrow> throwE e)"

section \<open>Reading a device\<close>

definition controlHost :: "addr \<Rightarrow> bool" where
  "controlHost ip \<longleftrightarrow> ip \<noteq> NoAddr \<and> \<not> is4In6 ip \<and> zone ip = [] \<and> (isGlobalUnicast ip \<or> isLinkLocalUnicast ip)"

definition controlHostNet :: "addr \<Rightarrow> ipnet" where
  "controlHostNet ip = Net (hostPrefix ip)"

definition controlFindPeer :: "wgDevice \<Rightarrow> wgkey \<Rightarrow> wgPeer option" where
  "controlFindPeer d key = find (\<lambda>p. PublicKey p = key) (devPeers d)"

text \<open>
  \<open>controlOwner\<close> is the pair of nested loops that keeps the longest matching
  prefix so far, starting from the zero key and the zero prefix (length \<open>-1\<close>).
\<close>

fun ownerNets :: "wgkey \<Rightarrow> addr \<Rightarrow> ipnet list \<Rightarrow> wgkey \<times> prefix \<Rightarrow> error + wgkey \<times> prefix" where
  "ownerNets pk ip [] acc = Inr acc"
| "ownerNets pk ip (BadNet _ # ns) acc = Inl (Msg ''invalid WireGuard AllowedIP'')"
| "ownerNets pk ip (Net n # ns) (owner, best) =
    (let p = masked n in
     if contains p ip \<and> pBits p \<ge> pBits best then
       if pBits p = pBits best \<and> owner \<noteq> pk then Inl (Msg ''ambiguous WireGuard host ownership'')
       else ownerNets pk ip ns (pk, p)
     else ownerNets pk ip ns (owner, best))"

fun ownerPeers :: "wgkey \<Rightarrow> addr \<Rightarrow> wgPeer list \<Rightarrow> wgkey \<times> prefix \<Rightarrow> error + wgkey \<times> prefix" where
  "ownerPeers skip ip [] acc = Inr acc"
| "ownerPeers skip ip (p # ps) acc =
    (if PublicKey p = skip then ownerPeers skip ip ps acc
     else case ownerNets (PublicKey p) ip (AllowedIPs p) acc of
         Inl e \<Rightarrow> Inl e
       | Inr acc' \<Rightarrow> ownerPeers skip ip ps acc')"

definition noPrefix :: prefix where
  "noPrefix = Prefix NoAddr (- 1)"

definition controlOwner :: "wgDevice \<Rightarrow> addr \<Rightarrow> wgkey \<Rightarrow> error + wgkey \<times> prefix" where
  "controlOwner d ip skip = ownerPeers skip ip (devPeers d) (0, noPrefix)"

definition exact :: "controlPeer \<Rightarrow> bool" where
  "exact r \<longleftrightarrow> pBits (cpPrefix r) = bitLen (cpIP r)"

definition conflict :: error where
  "conflict = Msg ''external change conflicts with managed peer''"

definition badPeer :: "(wgkey \<Rightarrow> hash) \<Rightarrow> controlPeer \<Rightarrow> wgPeer \<Rightarrow> bool" where
  "badPeer sha r p \<longleftrightarrow>
    (let empty = (AllowedIPs p = []);
         h = sha (PresharedKey p);
         partial = (cpPhase r = Adding \<or> cpPhase r = Aborting)
     in KeepaliveInterval p \<noteq> 0 \<or> ProtocolVersion p < 0 \<or> ProtocolVersion p > 1 \<or>
        (h \<noteq> cpPSKHash r \<and> \<not> (cpNextHash r = Some h) \<and> \<not> (partial \<and> empty \<and> PresharedKey p = 0)) \<or>
        (\<not> empty \<and> (length (AllowedIPs p) \<noteq> 1 \<or> hd (AllowedIPs p) \<noteq> Net (hostPrefix (cpIP r)))) \<or>
        (empty \<and> \<not> partial \<and> \<not> (exact r \<and> cpPhase r = Restoring)))"

definition checkPeer :: "(wgkey \<Rightarrow> hash) \<Rightarrow> wgDevice \<Rightarrow> wgkey \<Rightarrow> controlPeer \<Rightarrow> error option" where
  "checkPeer sha d key r =
    (let p = controlFindPeer d key in
     if cpPhase r = Planning \<and> p \<noteq> None then Some conflict
     else if p = None \<and> (cpPhase r = Active \<or> cpPhase r = Rekeying) then Some conflict
     else if (case p of None \<Rightarrow> False | Some q \<Rightarrow> badPeer sha r q) then Some conflict
     else if controlFindPeer d (cpOwner r) = None then Some conflict
     else case controlOwner d (cpIP r) (if exact r then 0 else key) of
         Inl e \<Rightarrow> Some e
       | Inr (owner, pfx) \<Rightarrow>
           if exact r \<and> (case p of None \<Rightarrow> False | Some q \<Rightarrow> length (AllowedIPs q) = 1) then
             (if owner \<noteq> key \<or> pfx \<noteq> cpPrefix r then Some conflict else None)
           else if owner \<noteq> cpOwner r \<or> pfx \<noteq> cpPrefix r then Some conflict
           else None)"

definition device :: "'w controlIO \<Rightarrow> ('w controller, wgDevice) eff" where
  "device io = bindE (getsE ctlJournal) (\<lambda>j.
     bindE (inWorld (ioDevice io (jName j))) (\<lambda>d.
     thenE (failIf (devPublic d \<noteq> jPublic j) (Msg ''WireGuard identity changed''))
     (returnE d)))"

definition configure :: "'w controlIO \<Rightarrow> peerConfig \<Rightarrow> ('w controller, unit) eff" where
  "configure io pc = bindE (getsE ctlJournal) (\<lambda>j. inWorld (ioConfigure io (jName j) [pc]))"

section \<open>Saving the journal\<close>

definition controlCheckDir :: "'w controlIO \<Rightarrow> string \<Rightarrow> ('w, unit) eff" where
  "controlCheckDir io path w = (case ioLstat io path w of
      (Inl NotExist, w') \<Rightarrow> (Inl (Msg ''file does not exist''), w')
    | (Inl Exists, w') \<Rightarrow> (Inl (Msg ''file already exists''), w')
    | (Inl (FsError e), w') \<Rightarrow> (Inl e, w')
    | (Inr info, w') \<Rightarrow>
        if \<not> fiDir info \<or> fiPerm info \<noteq> 448 \<or> fiUid info \<noteq> ioUid io
        then (Inl (Msg ''journal directory must be owned by this user, mode 0700, and not a symlink''), w')
        else (Inr (), w'))"

definition controlSyncDir :: "'w controlIO \<Rightarrow> string \<Rightarrow> ('w, unit) eff" where
  "controlSyncDir io path = thenE (ioOpenDir io path) (bothE (ioSync io path) (ioClose io path))"

definition checkOldJournal :: "'w controlIO \<Rightarrow> string \<Rightarrow> ('w, unit) eff" where
  "checkOldJournal io path w = (case ioLstat io path w of
      (Inl NotExist, w') \<Rightarrow> (Inr (), w')
    | (Inl Exists, w') \<Rightarrow> (Inl (Msg ''file already exists''), w')
    | (Inl (FsError e), w') \<Rightarrow> (Inl e, w')
    | (Inr info, w') \<Rightarrow>
        if \<not> fiRegular info \<or> fiPerm info \<noteq> 384 \<or> fiUid info \<noteq> ioUid io
        then (Inl (Msg ''refuse to replace an unsafe journal file''), w')
        else (Inr (), w'))"

text \<open>
  The temporary file is always closed, also after a failed write, and removed
  when the function returns (the removal has no effect after the rename).
\<close>

definition writeTemp :: "'w controlIO \<Rightarrow> string \<Rightarrow> bytes \<Rightarrow> ('w, unit) eff" where
  "writeTemp io f data =
     bothE (thenE (ioChmod io f) (thenE (ioWrite io f data) (ioSync io f))) (ioClose io f)"

definition saveTo :: "'w controlIO \<Rightarrow> string \<Rightarrow> controlJournal \<Rightarrow> ('w, unit) eff" where
  "saveTo io path j =
     thenE (controlCheckDir io (ioDir io path))
    (thenE (checkOldJournal io path)
    (case ioMarshal io j of
       Inl e \<Rightarrow> throwE e
     | Inr data \<Rightarrow>
        thenE (failIf (length data > 1048576) (Msg ''recovery journal exceeds 1 MiB''))
       (bindE (ioCreateTemp io (ioDir io path)) (\<lambda>f.
        bindE (tryE (thenE (writeTemp io f data)
                    (thenE (ioRename io f path) (controlSyncDir io (ioDir io path))))) (\<lambda>r.
        thenE (modifyE (ioRemove io f)) (case r of Inl e \<Rightarrow> throwE e | Inr _ \<Rightarrow> returnE ()))))))"

definition save :: "'w controlIO \<Rightarrow> ('w controller, unit) eff" where
  "save io = bindE (getsE ctlPath) (\<lambda>path. bindE (getsE ctlJournal) (\<lambda>j. inWorld (saveTo io path j)))"

section \<open>Restoring the stable owner\<close>

text \<open>
  \<open>restore\<close> in four steps: check the device and record the intent
  (\<open>restoreIntent\<close>), give an exact host prefix back to its owner
  (\<open>restoreMove\<close>), remove the direct peer (\<open>restoreRemove\<close>), and verify and
  forget the record (\<open>restoreFinish\<close>).  Every step reads the device afresh.
\<close>

definition checkedDevice :: "'w controlIO \<Rightarrow> wgkey \<Rightarrow> controlPeer \<Rightarrow> ('w controller, wgDevice) eff" where
  "checkedDevice io key r = bindE (device io) (\<lambda>d.
     thenE (liftErr (checkPeer (ioHash io) d key r)) (returnE d))"

definition restoreExpected :: "wgDevice \<Rightarrow> wgkey \<Rightarrow> controlPeer \<Rightarrow> controlPeer" where
  "restoreExpected d key r =
    (if (cpPhase r = Active \<or> cpPhase r = Rekeying) \<and> controlFindPeer d key = None
     then r\<lparr>cpPhase := Restoring\<rparr> else r)"

definition restoringPhase :: "controlPeer \<Rightarrow> controlPeer" where
  "restoringPhase r =
    (if cpPhase r = Adding then r\<lparr>cpPhase := Aborting\<rparr>
     else if cpPhase r = Active \<or> cpPhase r = Rekeying then r\<lparr>cpPhase := Restoring\<rparr>
     else r)"

definition restoreIntent :: "'w controlIO \<Rightarrow> wgkey \<Rightarrow> controlPeer \<Rightarrow> ('w controller, controlPeer) eff" where
  "restoreIntent io key r = bindE (device io) (\<lambda>d.
     thenE (liftErr (checkPeer (ioHash io) d key (restoreExpected d key r)))
    (thenE (setPeer key (restoringPhase r))
    (thenE (save io) (returnE (restoringPhase r)))))"

definition restoreMove :: "'w controlIO \<Rightarrow> wgkey \<Rightarrow> controlPeer \<Rightarrow> ('w controller, unit) eff" where
  "restoreMove io key r =
    (if exact r then
       bindE (checkedDevice io key r) (\<lambda>d.
       (case controlOwner d (cpIP r) 0 of
          Inl e \<Rightarrow> throwE e
        | Inr (owner, _) \<Rightarrow>
            if owner = key then
              configure io ((peerUpdate (cpOwner r))\<lparr>pcUpdateOnly := True, pcAllowed := [controlHostNet (cpIP r)]\<rparr>)
            else returnE ()))
     else returnE ())"

definition restoreRemove :: "'w controlIO \<Rightarrow> wgkey \<Rightarrow> controlPeer \<Rightarrow> ('w controller, unit) eff" where
  "restoreRemove io key r =
     bindE (checkedDevice io key r) (\<lambda>d.
     if controlFindPeer d key \<noteq> None then
       thenE (if exact r then
                (case controlOwner d (cpIP r) 0 of
                   Inl e \<Rightarrow> throwE (Msg ''stable host ownership was not restored'')
                 | Inr (owner, _) \<Rightarrow>
                     failIf (owner \<noteq> cpOwner r) (Msg ''stable host ownership was not restored''))
              else returnE ())
      (configure io ((peerUpdate key)\<lparr>pcRemove := True\<rparr>))
     else returnE ())"

definition restoreFinish :: "'w controlIO \<Rightarrow> wgkey \<Rightarrow> controlPeer \<Rightarrow> ('w controller, unit) eff" where
  "restoreFinish io key r =
     bindE (checkedDevice io key r) (\<lambda>d.
     thenE (failIf (controlFindPeer d key \<noteq> None) (Msg ''direct peer removal was not applied''))
    (thenE (dropPeer key)
    (bindE (tryE (save io)) (\<lambda>res. case res of
        Inr _ \<Rightarrow> returnE ()
      | Inl e \<Rightarrow> thenE (setPeer key r) (throwE e)))))"

definition restore :: "'w controlIO \<Rightarrow> wgkey \<Rightarrow> ('w controller, unit) eff" where
  "restore io key = bindE (getPeer key) (\<lambda>entry. case entry of
      None \<Rightarrow> returnE ()
    | Some r0 \<Rightarrow>
        bindE (restoreIntent io key r0) (\<lambda>r.
        thenE (restoreMove io key r)
       (thenE (restoreRemove io key r)
              (restoreFinish io key r))))"

definition Restore :: "'w controlIO \<Rightarrow> wgkey \<Rightarrow> ('w controller, unit) eff" where
  "Restore io key = restore io key"

fun restoreKeys :: "'w controlIO \<Rightarrow> wgkey list \<Rightarrow> error option \<Rightarrow> ('w controller, unit) eff" where
  "restoreKeys io [] err = liftErr err"
| "restoreKeys io (k # ks) err = bindE (tryE (restore io k)) (\<lambda>res.
     restoreKeys io ks (joinErr err (case res of Inl e \<Rightarrow> Some e | Inr _ \<Rightarrow> None)))"

text \<open>
  The keys are visited in the order of the journal; the order of a Go map is not fixed.  A key
  whose record is put back because the journal could not be saved may be visited again by the
  \<^verbatim>\<open>range\<close> loop: that is one more \<open>restore\<close>, which sequences of operations contain anyway, and the
  loop reports the failed save in either case.
\<close>

definition RestoreAll :: "'w controlIO \<Rightarrow> ('w controller, unit) eff" where
  "RestoreAll io = bindE (getsE (\<lambda>s. map fst (jPeers (ctlJournal s)))) (\<lambda>ks. restoreKeys io ks None)"

section \<open>Applying a direct path\<close>

fun firstErr :: "('a \<Rightarrow> error option) \<Rightarrow> 'a list \<Rightarrow> error option" where
  "firstErr f [] = None"
| "firstErr f (x # xs) = (case f x of None \<Rightarrow> firstErr f xs | Some e \<Rightarrow> Some e)"

definition invalidTarget :: "wgkey \<Rightarrow> wgkey \<Rightarrow> addr \<Rightarrow> addrPort \<Rightarrow> bool" where
  "invalidTarget public key ip endpoint \<longleftrightarrow>
     key = 0 \<or> key = public \<or> \<not> controlHost ip \<or> apAddr endpoint = NoAddr \<or> apPort endpoint = 0 \<or>
     \<not> controlHost (withZone [] (apAddr endpoint)) \<or>
     (isLinkLocalUnicast (apAddr endpoint) \<and> is6 (apAddr endpoint) \<and> zone (apAddr endpoint) = [])"

definition applyConflict :: "'w controlIO \<Rightarrow> wgDevice \<Rightarrow> wgkey \<Rightarrow> addr \<Rightarrow> wgkey \<times> controlPeer \<Rightarrow> error option" where
  "applyConflict io d key ip entry =
    (case entry of (k, r) \<Rightarrow>
     if cpPhase r \<noteq> Active then Some (Msg ''unfinished recovery; restore before applying'')
     else case checkPeer (ioHash io) d k r of
         Some e \<Rightarrow> Some e
       | None \<Rightarrow> if cpIP r = ip \<and> k \<noteq> key then Some (Msg ''host address is already managed'') else None)"

text \<open>
  The record to use: an existing one must have the same address and key hash;
  a new one is planned from the present owner of the address and saved before
  anything else happens.
\<close>

definition applyPlan :: "'w controlIO \<Rightarrow> wgDevice \<Rightarrow> wgkey \<Rightarrow> addr \<Rightarrow> wgkey \<Rightarrow> ('w controller, controlPeer) eff" where
  "applyPlan io d key ip psk = bindE (getsE ctlJournal) (\<lambda>j. case map_of (jPeers j) key of
      Some r \<Rightarrow>
        if cpIP r \<noteq> ip \<or> cpPSKHash r \<noteq> ioHash io psk
        then throwE (Msg ''restore the managed peer before changing its host address or PSK'')
        else returnE r
    | None \<Rightarrow>
        thenE (failIf (controlFindPeer d key \<noteq> None)
                 (Msg ''pre-existing direct peers are unsupported, including peers with empty AllowedIPs''))
        (case controlOwner d ip 0 of
           Inl e \<Rightarrow> throwE e
         | Inr (owner, pfx) \<Rightarrow>
             if owner = 0 \<or> owner = key \<or> owner = devPublic d \<or> map_of (jPeers j) owner \<noteq> None
             then throwE (Msg ''host address has no independent stable WireGuard owner'')
             else let r = \<lparr>cpIP = ip, cpOwner = owner, cpPrefix = pfx, cpPSKHash = ioHash io psk,
                            cpPhase = Planning, cpNextHash = None\<rparr>
                  in thenE (setPeer key r) (thenE (save io) (returnE r))))"

definition applyRecheck :: "'w controlIO \<Rightarrow> wgkey \<Rightarrow> controlPeer \<Rightarrow> ('w controller, unit) eff" where
  "applyRecheck io key r = bindE (device io) (\<lambda>d.
     thenE (failIf (cpPhase r = Planning \<and> controlFindPeer d key \<noteq> None) (Msg ''direct peer appeared before apply''))
    (liftErr (checkPeer (ioHash io) d key r)))"

definition applyAdding :: "'w controlIO \<Rightarrow> wgkey \<Rightarrow> controlPeer \<Rightarrow> ('w controller, controlPeer) eff" where
  "applyAdding io key r =
    (if cpPhase r = Planning then
       thenE (setPeer key (r\<lparr>cpPhase := Adding\<rparr>))
      (bindE (tryE (save io)) (\<lambda>res. case res of
          Inl e \<Rightarrow> thenE (setPeer key r) (throwE e)
        | Inr _ \<Rightarrow> returnE (r\<lparr>cpPhase := Adding\<rparr>)))
     else returnE r)"

definition applyConfig :: "wgkey \<Rightarrow> addr \<Rightarrow> wgkey \<Rightarrow> addrPort \<Rightarrow> controlPeer \<Rightarrow> peerConfig" where
  "applyConfig key ip psk endpoint r =
    (let pc = (peerUpdate key)\<lparr>pcUpdateOnly := (cpPhase r = Active), pcEndpoint := Some endpoint\<rparr>
     in if cpPhase r = Adding then pc\<lparr>pcPSK := Some psk, pcAllowed := [controlHostNet ip]\<rparr> else pc)"

definition applyInstall :: "'w controlIO \<Rightarrow> wgkey \<Rightarrow> addr \<Rightarrow> wgkey \<Rightarrow> addrPort \<Rightarrow> controlPeer \<Rightarrow> ('w controller, unit) eff" where
  "applyInstall io key ip psk endpoint r =
     thenE (configure io (applyConfig key ip psk endpoint r))
    (thenE (checkedDevice io key (r\<lparr>cpPhase := Active\<rparr>))
    (thenE (setPeer key (r\<lparr>cpPhase := Active\<rparr>))
           (save io)))"

text \<open>After a failed installation the change is undone at once; both errors are returned.\<close>

definition applyCommit :: "'w controlIO \<Rightarrow> wgkey \<Rightarrow> addr \<Rightarrow> wgkey \<Rightarrow> addrPort \<Rightarrow> controlPeer \<Rightarrow> ('w controller, unit) eff" where
  "applyCommit io key ip psk endpoint r =
     bindE (tryE (applyInstall io key ip psk endpoint r)) (\<lambda>res. case res of
         Inr _ \<Rightarrow> returnE ()
       | Inl e \<Rightarrow> bindE (tryE (restore io key)) (\<lambda>back. case back of
             Inl e' \<Rightarrow> throwE (Joined e e')
           | Inr _ \<Rightarrow> throwE e))"

definition Apply :: "'w controlIO \<Rightarrow> wgkey \<Rightarrow> addr \<Rightarrow> wgkey \<Rightarrow> addrPort \<Rightarrow> ('w controller, unit) eff" where
  "Apply io key ip psk endpoint = bindE (getsE ctlJournal) (\<lambda>j.
     thenE (failIf (invalidTarget (jPublic j) key ip endpoint)
              (Msg ''invalid direct peer key, host address, or endpoint''))
    (bindE (device io) (\<lambda>d.
     thenE (liftErr (firstErr (applyConflict io d key ip) (jPeers j)))
    (bindE (applyPlan io d key ip psk) (\<lambda>r.
     thenE (applyRecheck io key r)
    (bindE (applyAdding io key r)
           (applyCommit io key ip psk endpoint)))))))"

section \<open>In-place rekey, handshake time and the periodic check\<close>

definition rekeyConflict :: "'w controlIO \<Rightarrow> wgDevice \<Rightarrow> wgkey \<Rightarrow> controlPeer \<Rightarrow> wgkey \<times> controlPeer \<Rightarrow> error option" where
  "rekeyConflict io d key expected entry =
    (case entry of (k, r) \<Rightarrow>
     let owned = (if k = key then expected else r) in
     if cpPhase owned \<noteq> Active then Some (Msg ''unfinished recovery; restore before rekeying'')
     else checkPeer (ioHash io) d k owned)"

definition rekeyCheck :: "'w controlIO \<Rightarrow> wgkey \<Rightarrow> controlPeer \<Rightarrow> ('w controller, unit) eff" where
  "rekeyCheck io key expected = bindE (device io) (\<lambda>d. bindE (getsE ctlJournal) (\<lambda>j.
     liftErr (firstErr (rekeyConflict io d key expected) (jPeers j))))"

definition Rekey :: "'w controlIO \<Rightarrow> wgkey \<Rightarrow> wgkey \<Rightarrow> wgkey \<Rightarrow> ('w controller, unit) eff" where
  "Rekey io key oldPSK newPSK = bindE (getPeer key) (\<lambda>entry. case entry of
      None \<Rightarrow> throwE (Msg ''rekey requires an active managed peer'')
    | Some r \<Rightarrow>
        thenE (failIf (cpPhase r \<noteq> Active) (Msg ''rekey requires an active managed peer''))
       (thenE (failIf (newPSK = 0 \<or> cpPSKHash r \<noteq> ioHash io oldPSK)
                 (Msg ''rekey requires the current PSK and a nonzero new PSK''))
       (thenE (rekeyCheck io key r)
       (let pending = r\<lparr>cpPhase := Rekeying, cpNextHash := Some (ioHash io newPSK)\<rparr>;
            renewed = r\<lparr>cpPSKHash := ioHash io newPSK\<rparr>
        in thenE (setPeer key pending)
          (thenE (save io)
          (thenE (rekeyCheck io key r)
          (thenE (configure io ((peerUpdate key)\<lparr>pcUpdateOnly := True, pcPSK := Some newPSK\<rparr>))
          (thenE (rekeyCheck io key renewed)
          (thenE (setPeer key renewed)
          (bindE (tryE (save io)) (\<lambda>res. case res of
              Inr _ \<Rightarrow> returnE ()
            | Inl e \<Rightarrow> thenE (setPeer key pending) (throwE e))))))))))))"

definition Handshake :: "'w controlIO \<Rightarrow> wgkey \<Rightarrow> ('w controller, time) eff" where
  "Handshake io key = bindE (getPeer key) (\<lambda>entry. case entry of
      None \<Rightarrow> throwE (Msg ''handshake requires an active managed peer'')
    | Some r \<Rightarrow>
        thenE (failIf (cpPhase r \<noteq> Active) (Msg ''handshake requires an active managed peer''))
       (bindE (checkedDevice io key r) (\<lambda>d.
        returnE (case controlFindPeer d key of Some p \<Rightarrow> LastHandshakeTime p | None \<Rightarrow> 0))))"

definition managedConflict :: "'w controlIO \<Rightarrow> wgDevice \<Rightarrow> wgkey \<times> controlPeer \<Rightarrow> error option" where
  "managedConflict io d entry =
    (case entry of (k, r) \<Rightarrow>
     case checkPeer (ioHash io) d k r of
       Some e \<Rightarrow> Some e
     | None \<Rightarrow> if cpPhase r \<noteq> Active then Some (Msg ''unfinished peer recovery'') else None)"

definition checkDevice :: "'w controlIO \<Rightarrow> ('w controller, wgDevice) eff" where
  "checkDevice io = bindE (device io) (\<lambda>d. bindE (getsE ctlJournal) (\<lambda>j.
     thenE (liftErr (firstErr (managedConflict io d) (jPeers j))) (returnE d)))"

definition Check :: "'w controlIO \<Rightarrow> ('w controller, unit) eff" where
  "Check io = thenE (checkDevice io) (returnE ())"

section \<open>Starting the controller\<close>

definition prepareDir :: "'w controlIO \<Rightarrow> string \<Rightarrow> ('w, unit) eff" where
  "prepareDir io dir = thenE (\<lambda>w. case ioMkdir io dir w of
        (None, w') \<Rightarrow> controlSyncDir io (ioDir io dir) w'
      | (Some Exists, w') \<Rightarrow> (Inr (), w')
      | (Some NotExist, w') \<Rightarrow> (Inl (Msg ''file does not exist''), w')
      | (Some (FsError e), w') \<Rightarrow> (Inl e, w'))
    (controlCheckDir io dir)"

definition loadJournal :: "'w controlIO \<Rightarrow> string \<Rightarrow> ('w, rawJournal option) eff" where
  "loadJournal io path w = (case ioReadJournal io path w of
      (JMissing, w') \<Rightarrow> (Inr None, w')
    | (JOpenError e, w') \<Rightarrow> (Inl e, w')
    | (JStatError e, w') \<Rightarrow> (Inl e, w')
    | (JFile info decoded complete, w') \<Rightarrow>
        if \<not> fiRegular info \<or> fiPerm info \<noteq> 384 \<or> fiSize info > 1048576 \<or> fiUid info \<noteq> ioUid io
        then (Inl (Msg ''journal must be a regular file owned by this user, mode 0600, at most 1 MiB''), w')
        else (case decoded of
            None \<Rightarrow> (Inl (Msg ''invalid recovery journal''), w')
          | Some raw \<Rightarrow>
              if \<not> complete then (Inl (Msg ''trailing recovery journal data''), w') else (Inr (Some raw), w')))"

fun knownPhase :: "cphase \<Rightarrow> bool" where
  "knownPhase (UnknownPhase _) = False"
| "knownPhase _ = True"

definition badRecord :: "'w controlIO \<Rightarrow> wgkey \<Rightarrow> (string \<times> controlPeer option) list \<Rightarrow> addr list \<Rightarrow>
    string \<Rightarrow> wgkey \<Rightarrow> controlPeer \<Rightarrow> bool" where
  "badRecord io public raw ips name key r \<longleftrightarrow>
     ioKeyString io key \<noteq> name \<or> \<not> controlHost (cpIP r) \<or> \<not> pValid (cpPrefix r) \<or>
     cpPrefix r \<noteq> masked (cpPrefix r) \<or> \<not> contains (cpPrefix r) (cpIP r) \<or>
     key = 0 \<or> key = public \<or> cpOwner r = 0 \<or> cpOwner r = key \<or> cpOwner r = public \<or>
     (case map_of raw (ioKeyString io (cpOwner r)) of Some (Some _) \<Rightarrow> True | _ \<Rightarrow> False) \<or>
     cpIP r \<in> set ips \<or> cpPSKHash r = 0 \<or> \<not> knownPhase (cpPhase r) \<or>
     (cpPhase r = Rekeying \<and> cpNextHash r = None) \<or>
     (case cpNextHash r of None \<Rightarrow> False
      | Some h \<Rightarrow> h = 0 \<or> (cpPhase r \<noteq> Rekeying \<and> cpPhase r \<noteq> Restoring))"

fun validatePeers :: "'w controlIO \<Rightarrow> wgkey \<Rightarrow> (string \<times> controlPeer option) list \<Rightarrow> addr list \<Rightarrow>
    (string \<times> controlPeer option) list \<Rightarrow> (wgkey \<times> controlPeer) list option" where
  "validatePeers io public raw ips [] = Some []"
| "validatePeers io public raw ips ((name, entry) # rest) =
    (case ioParseKey io name of
       None \<Rightarrow> None
     | Some key \<Rightarrow> (case entry of
         None \<Rightarrow> None
       | Some r \<Rightarrow>
           if badRecord io public raw ips name key r then None
           else map_option (Cons (key, r)) (validatePeers io public raw (cpIP r # ips) rest)))"

definition validateJournal :: "'w controlIO \<Rightarrow> string \<Rightarrow> wgDevice \<Rightarrow> rawJournal option \<Rightarrow> error + controlJournal" where
  "validateJournal io name d loaded =
    (let raw = (case loaded of Some r \<Rightarrow> r
                | None \<Rightarrow> \<lparr>rjVersion = 1, rjName = name, rjPublic = devPublic d, rjPeers = Some []\<rparr>)
     in case rjPeers raw of
          None \<Rightarrow> Inl (Msg ''invalid journal version, interface, identity, or peer records'')
        | Some peers \<Rightarrow>
            if rjVersion raw \<noteq> 1 \<or> rjName raw \<noteq> name \<or> rjPublic raw = 0 \<or> rjPublic raw \<noteq> devPublic d
            then Inl (Msg ''invalid journal version, interface, identity, or peer records'')
            else (case validatePeers io (devPublic d) peers [] peers of
                None \<Rightarrow> Inl (Msg ''invalid journal peer ownership record'')
              | Some ps \<Rightarrow> Inr \<lparr>jVersion = 1, jName = name, jPublic = rjPublic raw, jPeers = ps\<rparr>))"

text \<open>
  Recovery comes first: a crashed process's direct state is never adopted as
  the new baseline.  The result is the controller, which holds the world.
\<close>

definition recoverController :: "'w controlIO \<Rightarrow> ('w controller, unit) eff" where
  "recoverController io = bindE (tryE (RestoreAll io)) (\<lambda>res. case res of
      Inl e \<Rightarrow> throwE (Wrap ''startup recovery'' e)
    | Inr _ \<Rightarrow> bindE (getsE ctlJournal) (\<lambda>j. bindE (inWorld (ioDevice io (jName j))) (\<lambda>d.
        thenE (failIf (devPublic d \<noteq> jPublic j) (Msg ''WireGuard identity changed during recovery''))
        (modifyE (\<lambda>s. s\<lparr>ctlPrivate := devPrivate d, ctlPort := devPort d\<rparr>)))))"

definition startController :: "string \<Rightarrow> controlJournal \<Rightarrow> 'w \<Rightarrow> 'w controller" where
  "startController path j w =
     \<lparr>ctlPath = path, ctlJournal = j, ctlPrivate = 0, ctlPort = 0, ctlWorld = w\<rparr>"

text \<open>
  The client is the parameter \<open>io\<close>, which is always there, so the test for a missing client
  has no counterpart.  The ownership of a file is part of its status here; on Linux the type
  assertion that gets it out of \<^verbatim>\<open>Sys()\<close> always succeeds.
\<close>

definition newController :: "'w controlIO \<Rightarrow> string \<Rightarrow> string \<Rightarrow> 'w \<Rightarrow> (error + 'w controller) \<times> 'w" where
  "newController io name path w =
    (if name = [] \<or> path = [] then (Inl (Msg ''WireGuard client, interface, and journal path are required''), w)
     else case thenE (prepareDir io (ioDir io path)) (bindE (loadJournal io path) (\<lambda>loaded.
            bindE (ioDevice io name) (\<lambda>d. (case validateJournal io name d loaded of
                Inl e \<Rightarrow> throwE e | Inr j \<Rightarrow> returnE j)))) w of
         (Inl e, w') \<Rightarrow> (Inl e, w')
       | (Inr j, w') \<Rightarrow>
           (case recoverController io (startController path j w') of
              (Inl e, s) \<Rightarrow> (Inl e, ctlWorld s)
            | (Inr _, s) \<Rightarrow> (Inr s, ctlWorld s)))"

definition Identity :: "'w controller \<Rightarrow> wgkey \<times> int" where
  "Identity s = (ctlPrivate s, ctlPort s)"

end
