(* ===== verification/Secure.thy ===== *)
theory Secure
  imports Prelude
begin

text \<open>
  The control channel of \<^verbatim>\<open>secure.go\<close>: a fixed-size outer envelope keyed by
  static Diffie-Hellman, inside it a Noise IK handshake and data packets with a
  64-bit replay window, and rate limits on everything an outsider can trigger.
  The primitives (X25519, HKDF, XChaCha20-Poly1305, AES, Noise and the random
  source) are parameters, the fields of \<open>crypto\<close>; packet formats, session
  tables, counters, windows and limits are defined here.
\<close>

section \<open>Constants\<close>

definition secureHeaderN :: nat where "secureHeaderN = 90"
definition secureMaxSize :: nat where "secureMaxSize = 512"
definition secureNonceN :: nat where "secureNonceN = 24" \<comment> \<open>\<^verbatim>\<open>chacha20poly1305.NonceSizeX\<close>\<close>
definition secureOverhead :: nat where "secureOverhead = 16" \<comment> \<open>\<^verbatim>\<open>chacha20poly1305.Overhead\<close>\<close>
definition secureInnerMaxSize :: nat where
  "secureInnerMaxSize = secureMaxSize - secureNonceN - secureOverhead - 2"
definition secureEnvelopeBudget :: int where "secureEnvelopeBudget = 128 * 1024"
definition secureSessionLifetime :: duration where "secureSessionLifetime = 10 * minute"
definition maxNonce :: "64 word" where "maxNonce = 0xfffffffffffffffe" \<comment> \<open>\<^verbatim>\<open>noise.MaxNonce\<close>\<close>

abbreviation (input) secureRequest :: byte where "secureRequest \<equiv> 1"
abbreviation (input) secureReply :: byte where "secureReply \<equiv> 2"
abbreviation (input) secureData :: byte where "secureData \<equiv> 3"

definition ascii :: "string \<Rightarrow> bytes" where
  "ascii = map (\<lambda>c. of_nat (of_char c))"

definition secureDomain :: bytes where "secureDomain = ascii ''wireguard-mesh/v2''"
definition secureEnvelopeDomain :: bytes where "secureEnvelopeDomain = ascii ''wireguard-mesh/envelope/v2''"

definition errSecure :: error where
  "errSecure = Msg ''secure: invalid, expired, replayed, or limited packet/session''"

section \<open>Parameters: cryptographic primitives and randomness\<close>

text \<open>
  \<open>'k\<close> is the type of keyed ciphers, \<open>'h\<close> of Noise handshake states and \<open>'r\<close> of
  the random source.  An initiator draws its ephemeral key from its seed, a
  responder from the random source, so only the latter's write changes it.
\<close>

record ('k, 'h, 'r) crypto =
  crRead :: "nat \<Rightarrow> 'r \<Rightarrow> (error + bytes) \<times> 'r"
  crPublic :: "wgkey \<Rightarrow> wgkey"
  crPrivateOK :: "wgkey \<Rightarrow> bool"
  crShared :: "wgkey \<Rightarrow> wgkey \<Rightarrow> bytes option"
  crDerive :: "bytes \<Rightarrow> bytes \<Rightarrow> bytes \<Rightarrow> 'k option"
  crSeal :: "'k \<Rightarrow> bytes \<Rightarrow> bytes \<Rightarrow> bytes \<Rightarrow> bytes"
  crOpen :: "'k \<Rightarrow> bytes \<Rightarrow> bytes \<Rightarrow> bytes \<Rightarrow> bytes option"
  crBlock :: "bytes \<Rightarrow> error + 'k"
  crPermute :: "'k \<Rightarrow> sid \<Rightarrow> sid"
  crHandshake :: "bool \<Rightarrow> wgkey \<Rightarrow> wgkey \<Rightarrow> wgkey option \<Rightarrow> bytes \<Rightarrow> bytes option \<Rightarrow> error + 'h"
  crWriteRequest :: "'h \<Rightarrow> error + bytes \<times> 'h"
  crReadRequest :: "'h \<Rightarrow> bytes \<Rightarrow> error + bytes \<times> 'h"
  crPeerStatic :: "'h \<Rightarrow> bytes"
  crWriteReply :: "'h \<Rightarrow> 'r \<Rightarrow> (error + bytes \<times> 'k \<times> 'k) \<times> 'r"
  crReadReply :: "'h \<Rightarrow> bytes \<Rightarrow> error + bytes \<times> 'k \<times> 'k"
  crEncrypt :: "'k \<Rightarrow> 64 word \<Rightarrow> bytes \<Rightarrow> bytes \<Rightarrow> bytes"
  crDecrypt :: "'k \<Rightarrow> 64 word \<Rightarrow> bytes \<Rightarrow> bytes \<Rightarrow> bytes option"

section \<open>State\<close>

record secureRate =
  srUntil :: time
  srUsed :: int

record 'k secureSession =
  ssPeer :: wgkey
  ssSeed :: bytes
  ssTx :: "'k option"
  ssRx :: "'k option"
  ssNext :: "64 word"
  ssHighest :: "64 word"
  ssWindow :: "64 word"
  ssExpires :: time
  ssUnusedSince :: time
  ssReady :: bool

record 'k secureEnvelope =
  seTx :: 'k
  seRx :: 'k

record ('k, 'r) secure =
  secPrivate :: wgkey
  secPublic :: wgkey
  secPeers :: "(wgkey \<times> secureRate) list"
  secSessions :: "(sid \<times> 'k secureSession) list"
  secGlobal :: secureRate
  secRandom :: 'r
  secIds :: "'k option"
  secSerial :: "64 word"
  secEnvelopes :: "(wgkey \<times> 'k secureEnvelope) list"
  secOpenRate :: secureRate

record secureEvent =
  evPeer :: wgkey
  evID :: sid
  evBody :: bytes
  evReply :: bytes
  evReady :: bool

definition zeroRate :: secureRate where
  "zeroRate = \<lparr>srUntil = 0, srUsed = 0\<rparr>"

definition allow :: "secureRate \<Rightarrow> time \<Rightarrow> int \<Rightarrow> bool \<times> secureRate" where
  "allow r now limit =
    (let r' = (if \<not> now < srUntil r then \<lparr>srUntil = now + second, srUsed = 0\<rparr> else r)
     in if srUsed r' \<ge> limit then (False, r') else (True, r'\<lparr>srUsed := srUsed r' + 1\<rparr>))"

section \<open>Creation\<close>

definition deriveKey :: "('k, 'h, 'r) crypto \<Rightarrow> bytes \<Rightarrow> wgkey \<Rightarrow> wgkey \<Rightarrow> 'k option" where
  "deriveKey cr shared sender recipient =
     crDerive cr shared secureEnvelopeDomain (be_bytes 32 sender @ be_bytes 32 recipient)"

definition newEnvelope :: "('k, 'h, 'r) crypto \<Rightarrow> wgkey \<Rightarrow> wgkey \<Rightarrow> wgkey \<Rightarrow> 'k secureEnvelope option" where
  "newEnvelope cr private public peer =
    (if peer = 0 \<or> peer = public then None
     else case crShared cr private peer of
         None \<Rightarrow> None
       | Some shared \<Rightarrow>
           (case deriveKey cr shared public peer of
              None \<Rightarrow> None
            | Some tx \<Rightarrow> (case deriveKey cr shared peer public of
                None \<Rightarrow> None
              | Some rx \<Rightarrow> Some \<lparr>seTx = tx, seRx = rx\<rparr>)))"

definition addEnvelope :: "('k, 'h, 'r) crypto \<Rightarrow> wgkey \<Rightarrow> ('k, 'r) secure \<Rightarrow> ('k, 'r) secure" where
  "addEnvelope cr peer s = (case newEnvelope cr (secPrivate s) (secPublic s) peer of
      None \<Rightarrow> s
    | Some e \<Rightarrow> s\<lparr>secPeers := AList.update peer zeroRate (secPeers s),
                 secEnvelopes := AList.update peer e (secEnvelopes s)\<rparr>)"

definition newSecure :: "('k, 'h, 'r) crypto \<Rightarrow> 'r \<Rightarrow> wgkey \<Rightarrow> wgkey list \<Rightarrow> ('k, 'r) secure" where
  "newSecure cr random private peers =
    (let s = \<lparr>secPrivate = private, secPublic = crPublic cr private, secPeers = [], secSessions = [],
              secGlobal = zeroRate, secRandom = random, secIds = None, secSerial = 0, secEnvelopes = [],
              secOpenRate = zeroRate\<rparr>
     in if private = 0 \<or> length peers > 128 then s
        else if \<not> crPrivateOK cr private then s
        else fold (addEnvelope cr) peers s)"

section \<open>The outer envelope\<close>

definition readRandom :: "('k, 'h, 'r) crypto \<Rightarrow> nat \<Rightarrow> (('k, 'r) secure, bytes) eff" where
  "readRandom cr n s = (case crRead cr n (secRandom s) of (x, r) \<Rightarrow> (x, s\<lparr>secRandom := r\<rparr>))"

definition padded :: "bytes \<Rightarrow> bytes" where
  "padded inner = be_bytes 2 (of_nat (length inner) :: 16 word) @ inner @ replicate (secureInnerMaxSize - length inner) 0"

definition wrap :: "('k, 'h, 'r) crypto \<Rightarrow> wgkey \<Rightarrow> bytes \<Rightarrow> (('k, 'r) secure, bytes) eff" where
  "wrap cr peer inner = bindE (getsE (\<lambda>s. map_of (secEnvelopes s) peer)) (\<lambda>envelope. case envelope of
      None \<Rightarrow> throwE errSecure
    | Some e \<Rightarrow>
        thenE (failIf (length inner < secureHeaderN \<or> length inner > secureInnerMaxSize) errSecure)
       (bindE (readRandom cr secureNonceN) (\<lambda>nonce.
        returnE (nonce @ crSeal cr (seTx e) nonce (padded inner) secureEnvelopeDomain))))"

text \<open>What an opened envelope must hold: length, addresses and zero padding.\<close>

definition checkPlain :: "wgkey \<Rightarrow> wgkey \<Rightarrow> bytes \<Rightarrow> bytes option" where
  "checkPlain public peer plain =
    (let n = unat (be_word (take 2 plain) :: 16 word);
         inner = take n (drop 2 plain)
     in if n < secureHeaderN \<or> n > secureInnerMaxSize then None
        else if take 32 (drop 2 inner) \<noteq> be_bytes 32 peer \<or> take 32 (drop 34 inner) \<noteq> be_bytes 32 public then None
        else if \<exists>b \<in> set (drop (2 + n) plain). b \<noteq> 0 then None
        else Some inner)"

text \<open>
  The envelopes are tried in the order of the list; the order of a Go map is not fixed.  Nothing
  is assumed about the list, so what is proved holds for every order.
\<close>

fun unwrapFrom :: "('k, 'h, 'r) crypto \<Rightarrow> bytes \<Rightarrow> time \<Rightarrow> (wgkey \<times> 'k secureEnvelope) list \<Rightarrow> (('k, 'r) secure, bytes) eff" where
  "unwrapFrom cr data now [] = throwE errSecure"
| "unwrapFrom cr data now ((peer, e) # es) = bindE (getsE (\<lambda>s. allow (secOpenRate s) now secureEnvelopeBudget)) (\<lambda>(ok, rate).
     thenE (modifyE (\<lambda>s. s\<lparr>secOpenRate := rate\<rparr>))
    (if \<not> ok then throwE errSecure
     else case crOpen cr (seRx e) (take secureNonceN data) (drop secureNonceN data) secureEnvelopeDomain of
         None \<Rightarrow> unwrapFrom cr data now es
       | Some plain \<Rightarrow> bindE (getsE secPublic) (\<lambda>public. case checkPlain public peer plain of
             None \<Rightarrow> throwE errSecure
           | Some inner \<Rightarrow> returnE inner)))"

definition unwrap :: "('k, 'h, 'r) crypto \<Rightarrow> bytes \<Rightarrow> time \<Rightarrow> (('k, 'r) secure, bytes) eff" where
  "unwrap cr data now =
     thenE (failIf (length data \<noteq> secureMaxSize) errSecure)
    (bindE (getsE secEnvelopes) (unwrapFrom cr data now))"

section \<open>Sessions\<close>

definition expire :: "time \<Rightarrow> ('k, 'r) secure \<Rightarrow> ('k, 'r) secure" where
  "expire now s = s\<lparr>secSessions := filter (\<lambda>(_, ss). now < ssExpires ss) (secSessions s)\<rparr>"

definition pruneSession :: "(sid \<Rightarrow> bool) \<Rightarrow> time \<Rightarrow> sid \<times> 'k secureSession \<Rightarrow> (sid \<times> 'k secureSession) option" where
  "pruneSession used now entry = (case entry of (i, ss) \<Rightarrow>
     if \<not> ssReady ss then Some (i, ss)
     else if used i then Some (i, ss\<lparr>ssUnusedSince := 0\<rparr>)
     else if ssUnusedSince ss = 0 then Some (i, ss\<lparr>ssUnusedSince := now\<rparr>)
     else if \<not> now < ssUnusedSince ss + 10 * second then None
     else Some (i, ss))"

definition Prune :: "(sid \<Rightarrow> bool) \<Rightarrow> time \<Rightarrow> ('k, 'r) secure \<Rightarrow> ('k, 'r) secure" where
  "Prune used now s = (let s' = expire now s
     in s'\<lparr>secSessions := List.map_filter (pruneSession used now) (secSessions s')\<rparr>)"

definition room :: "wgkey \<Rightarrow> ('k, 'r) secure \<Rightarrow> bool" where
  "room peer s \<longleftrightarrow> length (secSessions s) < 512 \<and>
     length (filter (\<lambda>(_, ss). ssPeer ss = peer) (secSessions s)) < 64"

definition secureHeader :: "byte \<Rightarrow> wgkey \<Rightarrow> wgkey \<Rightarrow> sid \<Rightarrow> 64 word \<Rightarrow> bytes" where
  "secureHeader kind sender recipient i counter =
     [2, kind] @ be_bytes 32 sender @ be_bytes 32 recipient @ be_bytes 16 i @ be_bytes 8 counter"

definition handshake :: "('k, 'h, 'r) crypto \<Rightarrow> ('k, 'r) secure \<Rightarrow> wgkey \<Rightarrow> sid \<Rightarrow> bool \<Rightarrow> bytes \<Rightarrow> error + 'h" where
  "handshake cr s peer i initiator seed =
    (let a = (if initiator then secPublic s else peer);
         b = (if initiator then peer else secPublic s);
         prologue = secureDomain @ secureHeader secureRequest a b i 0 @ secureHeader secureReply b a i 0
     in crHandshake cr initiator (secPrivate s) (secPublic s)
          (if initiator then Some peer else None) prologue (if initiator then Some seed else None))"

definition putSession :: "sid \<Rightarrow> 'k secureSession \<Rightarrow> (('k, 'r) secure, unit) eff" where
  "putSession i ss = modifyE (\<lambda>s. s\<lparr>secSessions := AList.update i ss (secSessions s)\<rparr>)"

definition dropSession :: "sid \<Rightarrow> (('k, 'r) secure, unit) eff" where
  "dropSession i = modifyE (\<lambda>s. s\<lparr>secSessions := AList.delete i (secSessions s)\<rparr>)"

definition newSession :: "wgkey \<Rightarrow> bytes \<Rightarrow> 'k option \<Rightarrow> 'k option \<Rightarrow> time \<Rightarrow> 'k secureSession" where
  "newSession peer seed tx rx expires = \<lparr>ssPeer = peer, ssSeed = seed, ssTx = tx, ssRx = rx, ssNext = 0,
     ssHighest = 0, ssWindow = 0, ssExpires = expires, ssUnusedSince = 0, ssReady = False\<rparr>"

definition ensureIds :: "('k, 'h, 'r) crypto \<Rightarrow> (('k, 'r) secure, 'k) eff" where
  "ensureIds cr = bindE (getsE secIds) (\<lambda>ids. case ids of
      Some k \<Rightarrow> returnE k
    | None \<Rightarrow> bindE (readRandom cr 32) (\<lambda>key. case crBlock cr key of
          Inl e \<Rightarrow> throwE e
        | Inr k \<Rightarrow> thenE (modifyE (\<lambda>s. s\<lparr>secIds := Some k\<rparr>)) (returnE k)))"

text \<open>
  \<open>start\<close>: the serial is used up before anything that can fail after it, and the
  session is stored only when the request could be written.
\<close>

definition nextId :: "('k, 'h, 'r) crypto \<Rightarrow> 'k \<Rightarrow> (('k, 'r) secure, sid) eff" where
  "nextId cr ids =
     thenE (modifyE (\<lambda>s. s\<lparr>secSerial := secSerial s + 1\<rparr>))
    (bindE (getsE (\<lambda>s. crPermute cr ids (ucast (secSerial s)))) (\<lambda>i.
     bindE (getsE (\<lambda>s. i = 0 \<or> map_of (secSessions s) i \<noteq> None)) (\<lambda>taken.
     thenE (failIf taken errSecure) (returnE i))))"

definition startSession :: "('k, 'h, 'r) crypto \<Rightarrow> wgkey \<Rightarrow> time \<Rightarrow> sid \<Rightarrow> (('k, 'r) secure, sid \<times> bytes) eff" where
  "startSession cr peer now i =
     bindE (readRandom cr 32) (\<lambda>seed.
     bindE (getsE (\<lambda>s. handshake cr s peer i True seed)) (\<lambda>hs. case hs of
         Inl e \<Rightarrow> throwE e
       | Inr h \<Rightarrow> (case crWriteRequest cr h of
             Inl e \<Rightarrow> throwE e
           | Inr (msg, _) \<Rightarrow>
               bindE (getsE (\<lambda>s. secureHeader secureRequest (secPublic s) peer i 0 @ msg)) (\<lambda>data.
               thenE (putSession i (newSession peer seed None None (now + 10 * second)))
                     (returnE (i, data))))))"

definition start :: "('k, 'h, 'r) crypto \<Rightarrow> wgkey \<Rightarrow> time \<Rightarrow> (('k, 'r) secure, sid \<times> bytes) eff" where
  "start cr peer now =
     thenE (modifyE (expire now))
    (bindE (getsE (\<lambda>s. secPrivate s = 0 \<or> map_of (secPeers s) peer = None \<or> \<not> room peer s \<or> secSerial s = - 1)) (\<lambda>refused.
     thenE (failIf refused errSecure)
    (bindE (ensureIds cr) (\<lambda>ids. bindE (nextId cr ids) (startSession cr peer now)))))"

section \<open>Receiving\<close>

record packet =
  pkKind :: byte
  pkSender :: wgkey
  pkRecipient :: wgkey
  pkID :: sid
  pkCounter :: "64 word"

definition parseHeader :: "bytes \<Rightarrow> packet" where
  "parseHeader data = \<lparr>pkKind = data ! 1, pkSender = be_word (take 32 (drop 2 data)),
     pkRecipient = be_word (take 32 (drop 34 data)), pkID = be_word (take 16 (drop 66 data)),
     pkCounter = be_word (take 8 (drop 82 data))\<rparr>"

definition badPacket :: "wgkey \<Rightarrow> nat \<Rightarrow> packet \<Rightarrow> bool" where
  "badPacket public len p \<longleftrightarrow>
     pkRecipient p \<noteq> public \<or> pkSender p = public \<or> pkID p = 0 \<or> pkCounter p > maxNonce \<or>
     (pkKind p \<noteq> secureRequest \<and> pkKind p \<noteq> secureReply \<and> pkKind p \<noteq> secureData) \<or>
     (pkKind p = secureRequest \<and> (pkCounter p \<noteq> 0 \<or> len \<noteq> secureHeaderN + 96)) \<or>
     (pkKind p = secureReply \<and> (pkCounter p \<noteq> 0 \<or> len \<noteq> secureHeaderN + 48)) \<or>
     (pkKind p = secureData \<and> len \<le> secureHeaderN + 16)"

text \<open>Handshake packets consume the global budget, then the sender's; data packets neither.\<close>

definition chargeGlobal :: "time \<Rightarrow> byte \<Rightarrow> (('k, 'r) secure, unit) eff" where
  "chargeGlobal now kind =
    (if kind = secureData then returnE ()
     else bindE (getsE (\<lambda>s. allow (secGlobal s) now 64)) (\<lambda>(ok, rate).
          thenE (modifyE (\<lambda>s. s\<lparr>secGlobal := rate\<rparr>)) (failIf (\<not> ok) errSecure)))"

definition chargePeer :: "time \<Rightarrow> byte \<Rightarrow> wgkey \<Rightarrow> (('k, 'r) secure, unit) eff" where
  "chargePeer now kind peer = bindE (getsE (\<lambda>s. map_of (secPeers s) peer)) (\<lambda>limit. case limit of
      None \<Rightarrow> throwE errSecure
    | Some r \<Rightarrow>
        if kind = secureData then returnE ()
        else (case allow r now 8 of (ok, rate) \<Rightarrow>
          thenE (modifyE (\<lambda>s. s\<lparr>secPeers := AList.update peer rate (secPeers s)\<rparr>)) (failIf (\<not> ok) errSecure)))"

definition receiveRequest :: "('k, 'h, 'r) crypto \<Rightarrow> bytes \<Rightarrow> time \<Rightarrow> packet \<Rightarrow> (('k, 'r) secure, secureEvent) eff" where
  "receiveRequest cr data now p =
     bindE (getsE (\<lambda>s. map_of (secSessions s) (pkID p) \<noteq> None \<or> \<not> room (pkSender p) s)) (\<lambda>refused.
     thenE (failIf refused errSecure)
    (bindE (getsE (\<lambda>s. handshake cr s (pkSender p) (pkID p) False [])) (\<lambda>hs. case hs of
         Inl e \<Rightarrow> throwE e
       | Inr h \<Rightarrow> (case crReadRequest cr h (drop secureHeaderN data) of
             Inl e \<Rightarrow> throwE errSecure
           | Inr (body, h') \<Rightarrow>
               if body \<noteq> [] \<or> crPeerStatic cr h' \<noteq> be_bytes 32 (pkSender p) then throwE errSecure
               else bindE (\<lambda>s. case crWriteReply cr h' (secRandom s) of (x, r) \<Rightarrow> (x, s\<lparr>secRandom := r\<rparr>)) (\<lambda>(msg, c1, c2).
                    bindE (getsE (\<lambda>s. secureHeader secureReply (secPublic s) (pkSender p) (pkID p) 0 @ msg)) (\<lambda>reply.
                    thenE (putSession (pkID p)
                             (newSession (pkSender p) (replicate 32 0) (Some c2) (Some c1) (now + 10 * second)))
                          (returnE \<lparr>evPeer = pkSender p, evID = pkID p, evBody = [], evReply = reply, evReady = False\<rparr>)))))))"

text \<open>A session becomes ready once and gets its lifetime then.\<close>

definition markReady :: "time \<Rightarrow> 'k secureSession \<Rightarrow> 'k secureSession" where
  "markReady now ss = (if ssReady ss then ss else ss\<lparr>ssReady := True, ssExpires := now + secureSessionLifetime\<rparr>)"

definition receiveReply :: "('k, 'h, 'r) crypto \<Rightarrow> bytes \<Rightarrow> time \<Rightarrow> packet \<Rightarrow> 'k secureSession \<Rightarrow> (('k, 'r) secure, secureEvent) eff" where
  "receiveReply cr data now p ss =
     thenE (failIf (ssRx ss \<noteq> None) errSecure)
    (bindE (getsE (\<lambda>s. handshake cr s (pkSender p) (pkID p) True (ssSeed ss))) (\<lambda>hs. case hs of
         Inl e \<Rightarrow> throwE e
       | Inr h \<Rightarrow> (case crWriteRequest cr h of
             Inl e \<Rightarrow> throwE e
           | Inr (_, h') \<Rightarrow> (case crReadReply cr h' (drop secureHeaderN data) of
                 Inl e \<Rightarrow> throwE errSecure
               | Inr (body, c1, c2) \<Rightarrow>
                   if body \<noteq> [] then throwE errSecure
                   else thenE (putSession (pkID p)
                                (markReady now (ss\<lparr>ssTx := Some c1, ssRx := Some c2, ssSeed := replicate 32 0\<rparr>)))
                       (returnE \<lparr>evPeer = pkSender p, evID = pkID p, evBody = [], evReply = [], evReady = True\<rparr>)))))"

text \<open>The replay window: bit \<open>i\<close> stands for the counter \<open>highest - i\<close>.\<close>

definition spent :: "64 word \<times> 64 word \<Rightarrow> 64 word \<Rightarrow> bool" where
  "spent hw n = (case hw of (highest, window) \<Rightarrow>
     n \<le> highest \<and> (highest - n \<ge> 64 \<or> window AND push_bit (unat (highest - n)) 1 \<noteq> 0))"

definition spend :: "64 word \<times> 64 word \<Rightarrow> 64 word \<Rightarrow> 64 word \<times> 64 word" where
  "spend hw n = (case hw of (highest, window) \<Rightarrow>
     let (highest', window') = (if n > highest then (n, push_bit (unat (n - highest)) window) else (highest, window))
     in (highest', window' OR push_bit (unat (highest' - n)) 1))"

definition receiveData :: "('k, 'h, 'r) crypto \<Rightarrow> bytes \<Rightarrow> time \<Rightarrow> packet \<Rightarrow> 'k secureSession \<Rightarrow> (('k, 'r) secure, secureEvent) eff" where
  "receiveData cr data now p ss =
    (case ssRx ss of
       None \<Rightarrow> throwE errSecure
     | Some rx \<Rightarrow>
         if spent (ssHighest ss, ssWindow ss) (pkCounter p) then throwE errSecure
         else (case crDecrypt cr rx (pkCounter p) (take secureHeaderN data) (drop secureHeaderN data) of
             None \<Rightarrow> throwE errSecure
           | Some body \<Rightarrow> (case spend (ssHighest ss, ssWindow ss) (pkCounter p) of (highest, window) \<Rightarrow>
               thenE (putSession (pkID p) (markReady now (ss\<lparr>ssHighest := highest, ssWindow := window\<rparr>)))
                     (returnE \<lparr>evPeer = pkSender p, evID = pkID p, evBody = body, evReply = [], evReady = True\<rparr>))))"

definition receiveSession :: "('k, 'h, 'r) crypto \<Rightarrow> bytes \<Rightarrow> time \<Rightarrow> packet \<Rightarrow> (('k, 'r) secure, secureEvent) eff" where
  "receiveSession cr data now p =
    (if pkKind p = secureRequest then receiveRequest cr data now p
     else bindE (getsE (\<lambda>s. map_of (secSessions s) (pkID p))) (\<lambda>session. case session of
         None \<Rightarrow> throwE errSecure
       | Some ss \<Rightarrow>
           if ssPeer ss \<noteq> pkSender p then throwE errSecure
           else if pkKind p = secureReply then receiveReply cr data now p ss
           else receiveData cr data now p ss))"

definition receive :: "('k, 'h, 'r) crypto \<Rightarrow> bytes \<Rightarrow> time \<Rightarrow> (('k, 'r) secure, secureEvent) eff" where
  "receive cr data now =
     thenE (modifyE (expire now))
    (bindE (getsE (\<lambda>s. secPrivate s = 0 \<or> length data < secureHeaderN \<or> length data > secureInnerMaxSize \<or> hd data \<noteq> 2)) (\<lambda>refused.
     thenE (failIf refused errSecure)
    (bindE (getsE (\<lambda>s. badPacket (secPublic s) (length data) (parseHeader data))) (\<lambda>bad.
     thenE (failIf bad errSecure)
    (thenE (chargeGlobal now (pkKind (parseHeader data)))
    (thenE (chargePeer now (pkKind (parseHeader data)) (pkSender (parseHeader data)))
           (receiveSession cr data now (parseHeader data))))))))"

section \<open>Sealing and the exported operations\<close>

text \<open>A session that is ready has both ciphers (\<open>sessionOK\<close>), so \<open>ssTx\<close> is never missing below.\<close>

definition seal :: "('k, 'h, 'r) crypto \<Rightarrow> sid \<Rightarrow> bytes \<Rightarrow> time \<Rightarrow> (('k, 'r) secure, wgkey \<times> bytes) eff" where
  "seal cr i body now =
     thenE (modifyE (expire now))
    (bindE (getsE (\<lambda>s. map_of (secSessions s) i)) (\<lambda>session. case session of
        None \<Rightarrow> throwE errSecure
      | Some ss \<Rightarrow>
          if \<not> ssReady ss \<or> body = [] \<or> length body > secureInnerMaxSize - secureHeaderN - 16 \<or> ssNext ss > maxNonce
          then throwE errSecure
          else (case ssTx ss of
              None \<Rightarrow> throwE errSecure
            | Some tx \<Rightarrow>
                bindE (getsE (\<lambda>s. secureHeader secureData (secPublic s) (ssPeer ss) i (ssNext ss))) (\<lambda>h.
                thenE (putSession i (ss\<lparr>ssNext := ssNext ss + 1\<rparr>))
                      (returnE (ssPeer ss, h @ crEncrypt cr tx (ssNext ss) h body))))))"

definition Start :: "('k, 'h, 'r) crypto \<Rightarrow> wgkey \<Rightarrow> time \<Rightarrow> (('k, 'r) secure, sid \<times> bytes) eff" where
  "Start cr peer now = bindE (start cr peer now) (\<lambda>(i, inner).
     bindE (tryE (wrap cr peer inner)) (\<lambda>res. case res of
        Inl e \<Rightarrow> thenE (dropSession i) (throwE e)
      | Inr data \<Rightarrow> returnE (i, data)))"

definition Receive :: "('k, 'h, 'r) crypto \<Rightarrow> bytes \<Rightarrow> time \<Rightarrow> (('k, 'r) secure, secureEvent) eff" where
  "Receive cr data now = bindE (unwrap cr data now) (\<lambda>inner.
     bindE (receive cr inner now) (\<lambda>event.
     if evReply event = [] then returnE event
     else bindE (tryE (wrap cr (evPeer event) (evReply event))) (\<lambda>res. case res of
        Inl e \<Rightarrow> thenE (dropSession (evID event)) (throwE e)
      | Inr reply \<Rightarrow> returnE (event\<lparr>evReply := reply\<rparr>))))"

definition Seal :: "('k, 'h, 'r) crypto \<Rightarrow> sid \<Rightarrow> bytes \<Rightarrow> time \<Rightarrow> (('k, 'r) secure, bytes) eff" where
  "Seal cr i body now = bindE (seal cr i body now) (\<lambda>(peer, inner). wrap cr peer inner)"

end
