(* ===== verification/Mesh.thy ===== *)
theory Mesh
  imports Secure Network Measure
begin

text \<open>
  The state of \<^verbatim>\<open>mesh.go\<close> and \<^verbatim>\<open>psk.go\<close>, the parameters of the event loop, and
  the operations every other one uses: candidates, messages, probes, commands,
  retired tokens and the return to the stable path.

  A \<^verbatim>\<open>*path\<close> is an index into the peer's list of paths, so two pointers are equal
  exactly when they point to the same object and a path outlives its entry in the
  map of paths.  \<^verbatim>\<open>*routeProposal\<close>, \<^verbatim>\<open>*routeState\<close> and \<^verbatim>\<open>*pskTransition\<close> have one
  owner each and are held by value.  A run-time panic (a nil dereference or a
  failed type assertion) sets the flag \<open>cxPanic\<close>, which nothing else touches.
\<close>

section \<open>State\<close>

record message =
  mgOp :: string
  mgToken :: string
  mgPort :: "16 word"
  mgProof :: string
  mgRekey :: bool

record path =
  ptLink :: linkAddr
  ptAddr :: addrPort
  ptSession :: sid
  ptIncoming :: sid
  ptPort :: "16 word"
  ptLastPong :: time
  ptStats :: measurements

record discovery =
  dcSince :: time
  dcProof :: time
  dcNext :: time
  dcBroadcast :: bool

record startRecord =
  stKey :: wgkey
  stLink :: linkAddr
  stAt :: time
  stMulticast :: bool

record probe =
  pbPath :: "nat option"
  pbAt :: time
  pbSession :: sid
  pbMulticast :: bool
  pbMeasure :: bool

text \<open>The phases of a route: the empty string and the four names of the code.\<close>

datatype phase = PNone | PPrepare | PPrepared | PTrial | PActive

record routeProposal =
  rpPath :: nat
  rpPhase :: phase
  rpToken :: string
  rpSince :: time
  rpBaseline :: duration
  rpRemoteRekey :: bool

record routeState =
  rsSelected :: "nat option"
  rsPhase :: phase
  rsTrial :: string
  rsSince :: time
  rsResumed :: time
  rsBaseline :: duration
  rsLocalGood :: bool
  rsRemoteGood :: bool
  rsCommitted :: bool
  rsRemoteRekey :: bool
  rsTunnel :: measurements
  rsLastTunnel :: time
  rsRemoteAt :: time

datatype rekeyPhase = RWaiting | ROffer | RPrepared | RObserving

record pskTransition =
  rkKey :: wgkey
  rkPhase :: rekeyPhase
  rkToken :: string
  rkSince :: time
  rkAppliedAt :: time
  rkHandshake :: time
  rkFinishedAt :: time
  rkRemoteApplied :: bool
  rkRemoteObserved :: time

record rosenpassRequest =
  rqPeer :: string
  rqAddress :: addr
  rqLink :: linkAddr

record rosenpassResponse =
  rrInstance :: string
  rrGeneration :: "64 word"
  rrKeyGeneration :: "64 word"
  rrHash :: hash
  rrExpires :: time
  rrValid :: bool

definition zeroResponse :: rosenpassResponse where
  "zeroResponse = \<lparr>rrInstance = [], rrGeneration = 0, rrKeyGeneration = 0, rrHash = 0, rrExpires = 0, rrValid = False\<rparr>"

definition zeroMeasurements :: measurements where
  "zeroMeasurements = newMeasurements 0"

definition zeroRoute :: routeState where
  "zeroRoute = \<lparr>rsSelected = None, rsPhase = PNone, rsTrial = [], rsSince = 0, rsResumed = 0, rsBaseline = 0,
     rsLocalGood = False, rsRemoteGood = False, rsCommitted = False, rsRemoteRekey = False,
     rsTunnel = zeroMeasurements, rsLastTunnel = 0, rsRemoteAt = 0\<rparr>"

record meshPeer =
  mpRoute :: routeState
  mpSpec :: peerSpec
  mpPskValid :: bool
  mpPskLogAfter :: time
  mpPskStatus :: rosenpassResponse
  mpRosenpassPath :: "nat option"
  mpRosenpassToken :: string
  mpRekey :: "pskTransition option"
  mpCompletedRekey :: "pskTransition option"
  mpHeap :: "path list"
  mpPaths :: "(string \<times> nat) list"
  mpDiscovery :: "(linkAddr \<times> discovery) list"
  mpPending :: "(string \<times> probe) list"
  mpReplacement :: "routeProposal option"
  mpPrevious :: "routeState option"
  mpCooldown :: time
  mpRetired :: "(string \<times> time) list"
  mpRetiredUntil :: time

definition meshPeerOf :: "peerSpec \<Rightarrow> meshPeer" where
  "meshPeerOf spec = \<lparr>mpRoute = zeroRoute, mpSpec = spec, mpPskValid = False, mpPskLogAfter = 0,
     mpPskStatus = zeroResponse, mpRosenpassPath = None, mpRosenpassToken = [], mpRekey = None,
     mpCompletedRekey = None, mpHeap = [], mpPaths = [], mpDiscovery = [], mpPending = [],
     mpReplacement = None, mpPrevious = None, mpCooldown = 0, mpRetired = [], mpRetiredUntil = 0\<rparr>"

text \<open>
  The event loop serves one peer at a time: \<open>cxPeer\<close> is that peer, the other fields
  are shared by all peers.
\<close>

record ('k, 'r, 'w) serving =
  cxPeer :: meshPeer
  cxCrypto :: "('k, 'r) secure"
  cxStarts :: "(sid \<times> startRecord) list"
  cxLinks :: "linkAddr list"
  cxPanic :: bool
  cxWorld :: 'w

section \<open>Parameters\<close>

text \<open>
  What one read of a PSK file observes: the entry before it is opened, whether it
  opens, its status (and whether that is the same file), the data, and the
  status afterwards.  A mode is the 32 bits of Go's \<^verbatim>\<open>os.FileMode\<close>.
\<close>

record fileStatus =
  fsMode :: "32 word"
  fsSize :: int
  fsModTime :: time
  fsUid :: "32 word"
  fsGid :: "32 word"

record pskFile =
  pfBefore :: "fileStatus option"
  pfOpens :: bool
  pfInfo :: "fileStatus option"
  pfSame :: bool
  pfData :: "string option"
  pfAfter :: "fileStatus option"

text \<open>
  The constants of a mesh, and the code it calls: the clock and the random text
  source, the underlay, the route controller (with \<^verbatim>\<open>Rekey\<close> and \<^verbatim>\<open>Handshake\<close> when
  it is a \<^verbatim>\<open>rekeyControl\<close>), the run-time checks, the PSK file and the Rosenpass
  adapter, JSON, HMAC-SHA256 and SHA-256, the text forms of numbers, prefixes and
  addresses, and the order in which Go happens to
  iterate over a map.
\<close>

record ('k, 'h, 'r, 'w) meshEnv =
  enConfig :: config
  enPublic :: wgkey
  enWgPort :: "16 word"
  enTunnel :: linkAddr
  enDry :: bool
  enCrypto :: "('k, 'h, 'r) crypto"
  enNow :: "'w \<Rightarrow> time \<times> 'w"
  enText :: "'w \<Rightarrow> string \<times> 'w"
  enSend :: "bytes \<Rightarrow> addrPort \<Rightarrow> linkAddr \<Rightarrow> ('w, unit) eff"
  enLinks :: "('w, linkAddr list) eff"
  enApply :: "wgkey \<Rightarrow> addr \<Rightarrow> wgkey \<Rightarrow> addrPort \<Rightarrow> ('w, unit) eff"
  enRestore :: "wgkey \<Rightarrow> ('w, unit) eff"
  enCheck :: "('w, unit) eff"
  enRekey :: "((wgkey \<Rightarrow> wgkey \<Rightarrow> wgkey \<Rightarrow> ('w, unit) eff) \<times> (wgkey \<Rightarrow> ('w, time) eff)) option"
  enVerify :: "('w, unit) eff option"
  enInspect :: "('w, unit) eff option"
  enNotify :: "('w \<Rightarrow> 'w) option"
  enPskFile :: "string \<Rightarrow> 'w \<Rightarrow> pskFile \<times> 'w"
  enEuid :: "32 word"
  enEgid :: "32 word"
  enGroups :: "32 word list option"
  enRosenpass :: "string \<Rightarrow> rosenpassRequest \<Rightarrow> ('w, rosenpassResponse) eff"
  enMarshal :: "message \<Rightarrow> bytes"
  enUnmarshal :: "bytes \<Rightarrow> message option"
  enHmac :: "bytes \<Rightarrow> bytes \<Rightarrow> bytes"
  enHash :: "wgkey \<Rightarrow> hash"
  enParseKey :: "string \<Rightarrow> wgkey option"
  enKeyString :: "wgkey \<Rightarrow> string"
  enItoa :: "int \<Rightarrow> string"
  enPrefixText :: "prefix \<Rightarrow> string"
  enAddrPortText :: "addrPort \<Rightarrow> string"
  enPathOrder :: "string list \<Rightarrow> 'w \<Rightarrow> string list \<times> 'w"
  enPeerOrder :: "wgkey list \<Rightarrow> 'w \<Rightarrow> wgkey list \<times> 'w"

definition goPanic :: error where
  "goPanic = Msg ''panic: nil pointer dereference or failed type assertion''"

definition panicE :: "(('k, 'r, 'w) serving, 'a) eff" where
  "panicE s = (Inl goPanic, s\<lparr>cxPanic := True\<rparr>)"

definition worldE :: "('w, 'a) eff \<Rightarrow> (('k, 'r, 'w) serving, 'a) eff" where
  "worldE m s = (case m (cxWorld s) of (x, w) \<Rightarrow> (x, s\<lparr>cxWorld := w\<rparr>))"

definition cryptoE :: "(('k, 'r) secure, 'a) eff \<Rightarrow> (('k, 'r, 'w) serving, 'a) eff" where
  "cryptoE m s = (case m (cxCrypto s) of (x, c) \<Rightarrow> (x, s\<lparr>cxCrypto := c\<rparr>))"

definition drawE :: "('w \<Rightarrow> 'a \<times> 'w) \<Rightarrow> (('k, 'r, 'w) serving, 'a) eff" where
  "drawE f = worldE (\<lambda>w. case f w of (x, w') \<Rightarrow> (Inr x, w'))"

definition modPeer :: "(meshPeer \<Rightarrow> meshPeer) \<Rightarrow> (('k, 'r, 'w) serving, unit) eff" where
  "modPeer f = modifyE (\<lambda>s. s\<lparr>cxPeer := f (cxPeer s)\<rparr>)"

definition modRoute :: "(routeState \<Rightarrow> routeState) \<Rightarrow> (('k, 'r, 'w) serving, unit) eff" where
  "modRoute f = modPeer (\<lambda>p. p\<lparr>mpRoute := f (mpRoute p)\<rparr>)"

text \<open>\<^verbatim>\<open>time.Now()\<close>, and \<^verbatim>\<open>now.Add(time.Since(started))\<close>.\<close>

definition clock :: "('k, 'h, 'r, 'w) meshEnv \<Rightarrow> (('k, 'r, 'w) serving, time) eff" where
  "clock env = drawE (enNow env)"

definition elapsed :: "('k, 'h, 'r, 'w) meshEnv \<Rightarrow> time \<Rightarrow> time \<Rightarrow> (('k, 'r, 'w) serving, time) eff" where
  "elapsed env now started = bindE (clock env) (\<lambda>t. returnE (now + timeSub t started))"

definition randText :: "('k, 'h, 'r, 'w) meshEnv \<Rightarrow> (('k, 'r, 'w) serving, string) eff" where
  "randText env = drawE (enText env)"

definition pathAt :: "meshPeer \<Rightarrow> nat \<Rightarrow> path" where
  "pathAt p i = mpHeap p ! i"

abbreviation leads :: "('k, 'h, 'r, 'w) meshEnv \<Rightarrow> meshPeer \<Rightarrow> bool" where
  "leads env p \<equiv> enPublic env < psKey (mpSpec p)"

section \<open>Candidates, messages and probes\<close>

definition pathName :: "('k, 'h, 'r, 'w) meshEnv \<Rightarrow> linkAddr \<Rightarrow> addrPort \<Rightarrow> string" where
  "pathName env link addr = enItoa env (lkIndex link) @ ''/'' @ enPrefixText env (lkPrefix link) @ ''/'' @ enAddrPortText env addr"

definition candidate :: "('k, 'h, 'r, 'w) meshEnv \<Rightarrow> linkAddr \<Rightarrow> addrPort \<Rightarrow> time \<Rightarrow> (('k, 'r, 'w) serving, nat option) eff" where
  "candidate env link addr now = bindE (getsE cxPeer) (\<lambda>p.
     case map_of (mpPaths p) (pathName env link addr) of
       Some i \<Rightarrow> returnE (Some i)
     | None \<Rightarrow>
         if length (mpPaths p) \<ge> 16 then returnE None
         else thenE (modPeer (\<lambda>p. p\<lparr>
                mpHeap := mpHeap p @ [\<lparr>ptLink = link, ptAddr = addr, ptSession = 0, ptIncoming = 0, ptPort = 0,
                  ptLastPong = 0, ptStats = newMeasurements now\<rparr>],
                mpPaths := AList.update (pathName env link addr) (length (mpHeap p)) (mpPaths p)\<rparr>))
              (returnE (Some (length (mpHeap p)))))"

definition sendMessage :: "('k, 'h, 'r, 'w) meshEnv \<Rightarrow> sid \<Rightarrow> message \<Rightarrow> addrPort \<Rightarrow> linkAddr \<Rightarrow> time \<Rightarrow> (('k, 'r, 'w) serving, bool) eff" where
  "sendMessage env i msg addr link now =
     bindE (tryE (cryptoE (Seal (enCrypto env) i (enMarshal env msg) now))) (\<lambda>sealed. case sealed of
       Inl _ \<Rightarrow> returnE False
     | Inr data \<Rightarrow> bindE (tryE (worldE (enSend env data addr link))) (\<lambda>sent. case sent of
         Inl _ \<Rightarrow> returnE False
       | Inr _ \<Rightarrow> returnE True))"

definition ping :: "('k, 'h, 'r, 'w) meshEnv \<Rightarrow> nat option \<Rightarrow> sid \<Rightarrow> bool \<Rightarrow> time \<Rightarrow> (('k, 'r, 'w) serving, unit) eff" where
  "ping env cand i multicast now = bindE (getsE cxPeer) (\<lambda>p.
     if length (mpPending p) \<ge> 2048 then returnE ()
     else let target = (case cand of
                None \<Rightarrow> ((psIP (mpSpec p), cfPort (enConfig env)), enTunnel env)
              | Some j \<Rightarrow> (ptAddr (pathAt p j), ptLink (pathAt p j)));
              measure = (case cand of None \<Rightarrow> True | Some j \<Rightarrow> i = ptSession (pathAt p j))
       in bindE (randText env) (\<lambda>token.
          bindE (sendMessage env i \<lparr>mgOp = ''ping'', mgToken = token, mgPort = enWgPort env, mgProof = [], mgRekey = False\<rparr>
                   (fst target) (snd target) now) (\<lambda>sent.
          if sent then modPeer (\<lambda>p. p\<lparr>mpPending := AList.update token
                 \<lparr>pbPath = cand, pbAt = now, pbSession = i, pbMulticast = multicast, pbMeasure = measure\<rparr> (mpPending p)\<rparr>)
          else returnE ())))"

definition announce :: "('k, 'h, 'r, 'w) meshEnv \<Rightarrow> linkAddr \<Rightarrow> addr \<Rightarrow> bool \<Rightarrow> time \<Rightarrow> (('k, 'r, 'w) serving, unit) eff" where
  "announce env link dest multicast now = bindE (getsE (\<lambda>s. psKey (mpSpec (cxPeer s)))) (\<lambda>key.
     bindE (tryE (cryptoE (Start (enCrypto env) key now))) (\<lambda>started. case started of
       Inl _ \<Rightarrow> returnE ()
     | Inr (i, data) \<Rightarrow> bindE (tryE (worldE (enSend env data (dest, cfPort (enConfig env)) link))) (\<lambda>sent. case sent of
         Inl _ \<Rightarrow> returnE ()
       | Inr _ \<Rightarrow> modifyE (\<lambda>s. s\<lparr>cxStarts := AList.update i
             \<lparr>stKey = key, stLink = link, stAt = now, stMulticast = multicast\<rparr> (cxStarts s)\<rparr>))))"

definition freshPath :: "config \<Rightarrow> path \<Rightarrow> time \<Rightarrow> bool" where
  "freshPath c p now \<longleftrightarrow> ptPort p \<noteq> 0 \<and> ptLastPong p \<noteq> 0 \<and> timeSub now (ptLastPong p) < cfFailure c"

text \<open>The baseline when a path qualifies; a nil \<^verbatim>\<open>selected\<close> is dereferenced only in the active phase.\<close>

definition qualifiedPath :: "('k, 'h, 'r, 'w) meshEnv \<Rightarrow> meshPeer \<Rightarrow> nat \<Rightarrow> time \<Rightarrow> error + duration option" where
  "qualifiedPath env p i now =
    (let c = enConfig env; pt = pathAt p i;
         base = median (rsTunnel (mpRoute p)) now c; lan = median (ptStats pt) now c;
         decide = (\<lambda>compare. case (base, lan, compare) of
             (Some b, Some l, Some cmp) \<Rightarrow> Inr (if freshPath c pt now \<and> improves l cmp c then Some b else None)
           | _ \<Rightarrow> Inr None)
     in if is6 (apAddr (ptAddr pt)) \<and> isLinkLocalUnicast (apAddr (ptAddr pt)) then Inr None
        else if rsPhase (mpRoute p) = PActive then
          (case rsSelected (mpRoute p) of
             None \<Rightarrow> Inl goPanic
           | Some j \<Rightarrow> decide (median (ptStats (pathAt p j)) now c))
        else decide base)"

section \<open>Commands and retired tokens\<close>

definition hexDigit :: "nat \<Rightarrow> char" where
  "hexDigit n = ''0123456789abcdef'' ! n"

definition hexText :: "bytes \<Rightarrow> string" where
  "hexText bs = concat (map (\<lambda>b. [hexDigit (unat b div 16), hexDigit (unat b mod 16)]) bs)"

definition pskProof :: "('k, 'h, 'r, 'w) meshEnv \<Rightarrow> wgkey \<Rightarrow> string \<Rightarrow> string \<Rightarrow> wgkey \<Rightarrow> wgkey \<Rightarrow> string" where
  "pskProof env key op token sender receiver =
    (if key = 0 then []
     else hexText (enHmac env (be_bytes 32 key)
       (ascii ''wireguard-mesh PSK confirmation v1'' @ [0] @ ascii op @ [0] @ ascii token @ [0] @
        be_bytes 32 sender @ be_bytes 32 receiver)))"

definition checkPSKProof :: "('k, 'h, 'r, 'w) meshEnv \<Rightarrow> wgkey \<Rightarrow> message \<Rightarrow> wgkey \<Rightarrow> wgkey \<Rightarrow> bool" where
  "checkPSKProof env key msg sender receiver \<longleftrightarrow>
     mgProof msg = pskProof env key (mgOp msg) (mgToken msg) sender receiver"

definition pathCommand :: "('k, 'h, 'r, 'w) meshEnv \<Rightarrow> nat option \<Rightarrow> string \<Rightarrow> string \<Rightarrow> time \<Rightarrow> (('k, 'r, 'w) serving, unit) eff" where
  "pathCommand env c token op now = bindE (getsE cxPeer) (\<lambda>p. case c of
      None \<Rightarrow> returnE ()
    | Some i \<Rightarrow>
        thenE (sendMessage env (ptSession (pathAt p i))
           \<lparr>mgOp = op, mgToken = token, mgPort = enWgPort env,
            mgProof = pskProof env (psPsk (mpSpec p)) op token (enPublic env) (psKey (mpSpec p)),
            mgRekey = psRekey (mpSpec p)\<rparr>
           (ptAddr (pathAt p i)) (ptLink (pathAt p i)) now)
        (returnE ()))"

definition command :: "('k, 'h, 'r, 'w) meshEnv \<Rightarrow> string \<Rightarrow> time \<Rightarrow> (('k, 'r, 'w) serving, unit) eff" where
  "command env op now = bindE (getsE (\<lambda>s. mpRoute (cxPeer s))) (\<lambda>r. pathCommand env (rsSelected r) (rsTrial r) op now)"

definition retiredTokenLifetime :: duration where
  "retiredTokenLifetime = secureSessionLifetime + 3 * minute"

definition retired :: "string \<Rightarrow> time \<Rightarrow> meshPeer \<Rightarrow> meshPeer" where
  "retired token now p =
    (if token = [] then p
     else let live = filter (\<lambda>(_, until). now < until) (mpRetired p) in
       if length live \<ge> 1024 then p\<lparr>mpRetired := live, mpRetiredUntil := now + retiredTokenLifetime\<rparr>
       else p\<lparr>mpRetired := AList.update token (now + retiredTokenLifetime) live\<rparr>)"

definition retire :: "string \<Rightarrow> time \<Rightarrow> (('k, 'r, 'w) serving, unit) eff" where
  "retire token now = modPeer (retired token now)"

definition cancelReplacement :: "('k, 'h, 'r, 'w) meshEnv \<Rightarrow> time \<Rightarrow> (('k, 'r, 'w) serving, unit) eff" where
  "cancelReplacement env now = bindE (getsE (\<lambda>s. mpReplacement (cxPeer s))) (\<lambda>rep. case rep of
      None \<Rightarrow> returnE ()
    | Some r \<Rightarrow>
        thenE (pathCommand env (Some (rpPath r)) (rpToken r) ''abort'' now)
       (thenE (retire (rpToken r) now)
              (modPeer (\<lambda>p. p\<lparr>mpReplacement := None, mpCooldown := now + cfCooldown (enConfig env)\<rparr>))))"

text \<open>\<open>dropPrevious\<close> is the step \<open>restore\<close> and \<open>pollPSK\<close> share.\<close>

definition dropPrevious :: "time \<Rightarrow> (('k, 'r, 'w) serving, unit) eff" where
  "dropPrevious now = modPeer (\<lambda>p. case mpPrevious p of
      None \<Rightarrow> p
    | Some old \<Rightarrow> (retired (rsTrial old) now p)\<lparr>mpPrevious := None\<rparr>)"

definition stablePeer :: "config \<Rightarrow> time \<Rightarrow> meshPeer \<Rightarrow> meshPeer" where
  "stablePeer c now p = p\<lparr>
     mpRoute := (mpRoute p)\<lparr>rsSelected := None, rsPhase := PNone, rsTrial := [], rsLocalGood := False,
       rsRemoteGood := False, rsCommitted := False, rsRemoteRekey := False,
       rsTunnel := newMeasurements now, rsLastTunnel := 0\<rparr>,
     mpRekey := None, mpCompletedRekey := None, mpCooldown := now + cfCooldown c, mpPending := []\<rparr>"

definition meshRestore :: "('k, 'h, 'r, 'w) meshEnv \<Rightarrow> time \<Rightarrow> (('k, 'r, 'w) serving, unit) eff" where
  "meshRestore env now =
     thenE (cancelReplacement env now)
    (thenE (command env ''abort'' now)
    (bindE (getsE cxPeer) (\<lambda>p.
     thenE (worldE (enRestore env (psKey (mpSpec p))))
    (thenE (retire (rsTrial (mpRoute p)) now)
    (thenE (dropPrevious now)
           (modPeer (stablePeer (enConfig env) now)))))))"

end
