(* ===== verification/Psk.thy ===== *)
theory Psk
  imports Mesh
begin

text \<open>
  The preshared keys of \<^verbatim>\<open>psk.go\<close>: reading a key file another program writes,
  asking the Rosenpass adapter about it, noticing a change, and the experimental
  exchange by which both peers replace the key of a live path.
\<close>

section \<open>Reading a key file\<close>

definition isRegularMode :: "32 word \<Rightarrow> bool" where
  "isRegularMode m \<longleftrightarrow> m AND 0x8f280000 = 0"

definition permBits :: "32 word \<Rightarrow> 32 word" where
  "permBits m = m AND 0x1ff"

text \<open>
  On Linux \<^verbatim>\<open>Sys()\<close> always is a \<^verbatim>\<open>*syscall.Stat_t\<close>.  The file is read up to 46
  bytes; \<open>pfData\<close> is what was read.
\<close>

definition unsafeStatus :: "('k, 'h, 'r, 'w) meshEnv \<Rightarrow> fileStatus \<Rightarrow> bool" where
  "unsafeStatus env info \<longleftrightarrow>
     \<not> isRegularMode (fsMode info) \<or> permBits (fsMode info) AND NOT 0x1a0 \<noteq> 0 \<or>
     fsMode info AND 0x00d00000 \<noteq> 0 \<or> fsSize info < 44 \<or> fsSize info > 45 \<or>
     (fsUid info \<noteq> 0 \<and> fsUid info \<noteq> enEuid env \<and>
       (case enGroups env of None \<Rightarrow> True
        | Some gs \<Rightarrow> permBits (fsMode info) AND 0x20 = 0 \<or> (fsGid info \<noteq> enEgid env \<and> fsGid info \<notin> set gs)))"

definition trimNewline :: "string \<Rightarrow> string" where
  "trimNewline s = (if s \<noteq> [] \<and> last s = CHR 0x0a then butlast s else s)"

definition readKeyFile :: "('k, 'h, 'r, 'w) meshEnv \<Rightarrow> peerSpec \<Rightarrow> time \<Rightarrow> pskFile \<Rightarrow> wgkey option" where
  "readKeyFile env spec now f =
    (case (pfBefore f, pfInfo f, pfData f, pfAfter f) of
       (Some before, Some info, Some data, Some after) \<Rightarrow>
         if \<not> isRegularMode (fsMode before) \<or> \<not> pfOpens f \<or> \<not> pfSame f \<or> unsafeStatus env info then None
         else let maxAge = (case psMaxAge spec of None \<Rightarrow> 3 * minute | Some a \<Rightarrow> a) in
           if now < fsModTime info \<or> timeSub now (fsModTime info) \<ge> maxAge then None
           else if int (length data) \<noteq> fsSize info then None
           else if fsSize after \<noteq> fsSize info \<or> fsMode after \<noteq> fsMode info \<or> fsModTime after \<noteq> fsModTime info \<or>
                   fsUid after \<noteq> fsUid info \<or> fsGid after \<noteq> fsGid info then None
           else (case enParseKey env (trimNewline data) of
               None \<Rightarrow> None
             | Some key \<Rightarrow> if key = 0 \<or> enKeyString env key \<noteq> trimNewline data then None else Some key)
     | _ \<Rightarrow> None)"

definition readPSKFile :: "('k, 'h, 'r, 'w) meshEnv \<Rightarrow> time \<Rightarrow> (('k, 'r, 'w) serving, wgkey option) eff" where
  "readPSKFile env now = bindE (getsE (\<lambda>s. mpSpec (cxPeer s))) (\<lambda>spec.
     bindE (drawE (enPskFile env (psFile spec))) (\<lambda>f. returnE (readKeyFile env spec now f)))"

section \<open>The Rosenpass adapter\<close>

definition linkedFresh :: "('k, 'h, 'r, 'w) meshEnv \<Rightarrow> linkAddr list \<Rightarrow> meshPeer \<Rightarrow> time \<Rightarrow> nat \<Rightarrow> bool" where
  "linkedFresh env links p now i \<longleftrightarrow> ptLink (pathAt p i) \<in> set links \<and> freshPath (enConfig env) (pathAt p i) now"

definition nameOf :: "('k, 'h, 'r, 'w) meshEnv \<Rightarrow> meshPeer \<Rightarrow> nat \<Rightarrow> string" where
  "nameOf env p i = pathName env (ptLink (pathAt p i)) (ptAddr (pathAt p i))"

definition leastFresh :: "('k, 'h, 'r, 'w) meshEnv \<Rightarrow> linkAddr list \<Rightarrow> meshPeer \<Rightarrow> time \<Rightarrow> nat option" where
  "leastFresh env links p now = fold (\<lambda>(_, i) c.
     if linkedFresh env links p now i \<and> (case c of None \<Rightarrow> True | Some j \<Rightarrow> nameOf env p i < nameOf env p j)
     then Some i else c) (mpPaths p) None"

text \<open>The endpoint to report; a leader without a fresh one chooses again and draws a token.\<close>

definition chooseEndpoint :: "('k, 'h, 'r, 'w) meshEnv \<Rightarrow> time \<Rightarrow> (('k, 'r, 'w) serving, nat option) eff" where
  "chooseEndpoint env now = bindE (getsE (\<lambda>s. (cxPeer s, cxLinks s))) (\<lambda>(p, links).
     bindE (if (case mpRosenpassPath p of None \<Rightarrow> False | Some i \<Rightarrow> linkedFresh env links p now i)
            then returnE (mpRosenpassPath p)
            else if leads env p
              then bindE (randText env) (\<lambda>token.
                   thenE (modPeer (\<lambda>p. p\<lparr>mpRosenpassToken := token\<rparr>)) (returnE (leastFresh env links p now)))
              else returnE None) (\<lambda>c.
     thenE (modPeer (\<lambda>p. p\<lparr>mpRosenpassPath := c\<rparr>)) (returnE c)))"

definition requestFor :: "('k, 'h, 'r, 'w) meshEnv \<Rightarrow> meshPeer \<Rightarrow> nat option \<Rightarrow> rosenpassRequest" where
  "requestFor env p c = (case c of
      None \<Rightarrow> \<lparr>rqPeer = enKeyString env (psKey (mpSpec p)), rqAddress = NoAddr, rqLink = noLink\<rparr>
    | Some i \<Rightarrow> \<lparr>rqPeer = enKeyString env (psKey (mpSpec p)), rqAddress = apAddr (ptAddr (pathAt p i)), rqLink = ptLink (pathAt p i)\<rparr>)"

definition selectEndpoint :: "('k, 'h, 'r, 'w) meshEnv \<Rightarrow> nat option \<Rightarrow> time \<Rightarrow> (('k, 'r, 'w) serving, unit) eff" where
  "selectEndpoint env c now = bindE (getsE cxPeer) (\<lambda>p. case c of
      None \<Rightarrow> returnE ()
    | Some i \<Rightarrow> if leads env p
        then thenE (sendMessage env (ptSession (pathAt p i))
               \<lparr>mgOp = ''rosenpass-select'', mgToken = mpRosenpassToken p, mgPort = enWgPort env, mgProof = [], mgRekey = False\<rparr>
               (ptAddr (pathAt p i)) (ptLink (pathAt p i)) now)
             (returnE ())
        else returnE ())"

text \<open>One question to the adapter: its answer if it is valid, the expected one and not expired.\<close>

definition askAdapter :: "('k, 'h, 'r, 'w) meshEnv \<Rightarrow> rosenpassRequest \<Rightarrow> rosenpassResponse option \<Rightarrow> time \<Rightarrow> time \<Rightarrow>
    (('k, 'r, 'w) serving, rosenpassResponse option) eff" where
  "askAdapter env request expected now started = bindE (getsE (\<lambda>s. psSocket (mpSpec (cxPeer s)))) (\<lambda>socket.
     bindE (tryE (worldE (enRosenpass env socket request))) (\<lambda>res. case res of
       Inl _ \<Rightarrow> returnE None
     | Inr resp \<Rightarrow>
         if \<not> rrValid resp \<or> (case expected of None \<Rightarrow> False | Some before \<Rightarrow> before \<noteq> resp) then returnE None
         else bindE (elapsed env now started) (\<lambda>t. returnE (if t < rrExpires resp then Some resp else None))))"

definition confirmKey :: "('k, 'h, 'r, 'w) meshEnv \<Rightarrow> rosenpassRequest \<Rightarrow> time \<Rightarrow> time \<Rightarrow>
    (('k, 'r, 'w) serving, (wgkey \<times> rosenpassResponse) option) eff" where
  "confirmKey env request now started = bindE (askAdapter env request None now started) (\<lambda>first. case first of
      None \<Rightarrow> returnE None
    | Some before \<Rightarrow> bindE (elapsed env now started) (\<lambda>t. bindE (readPSKFile env t) (\<lambda>res. case res of
        None \<Rightarrow> returnE None
      | Some key \<Rightarrow>
          if enHash env key \<noteq> rrHash before then returnE None
          else bindE (askAdapter env request (Some before) now started) (\<lambda>second. case second of
              None \<Rightarrow> returnE None
            | Some after \<Rightarrow> returnE (Some (key, after))))))"

definition readPeerPSK :: "('k, 'h, 'r, 'w) meshEnv \<Rightarrow> time \<Rightarrow> (('k, 'r, 'w) serving, (wgkey \<times> rosenpassResponse) option) eff" where
  "readPeerPSK env now = bindE (clock env) (\<lambda>started. bindE (getsE cxPeer) (\<lambda>p.
     if psSocket (mpSpec p) = []
     then bindE (readPSKFile env now) (\<lambda>res. returnE (map_option (\<lambda>key. (key, zeroResponse)) res))
     else if enDry env then returnE None
     else bindE (chooseEndpoint env now) (\<lambda>c.
       if c = None \<and> mpRosenpassPath p = None then returnE None
       else thenE (selectEndpoint env c now) (confirmKey env (requestFor env p c) now started))))"

section \<open>Noticing a change\<close>

definition restarted :: "meshPeer \<Rightarrow> rosenpassResponse \<Rightarrow> bool" where
  "restarted p status \<longleftrightarrow> rrValid (mpPskStatus p) \<and>
     (rrInstance status \<noteq> rrInstance (mpPskStatus p) \<or> rrGeneration status \<noteq> rrGeneration (mpPskStatus p))"

definition keepsKey :: "meshPeer \<Rightarrow> wgkey \<Rightarrow> bool" where
  "keepsKey p key \<longleftrightarrow> key = psPsk (mpSpec p) \<and> (case mpRekey p of None \<Rightarrow> True | Some r \<Rightarrow> key = rkKey r)"

text \<open>The new key (or its absence) ends any direct path before it is recorded.\<close>

definition adoptKey :: "('k, 'h, 'r, 'w) meshEnv \<Rightarrow> time \<Rightarrow> wgkey \<Rightarrow> bool \<Rightarrow> rosenpassResponse \<Rightarrow> (('k, 'r, 'w) serving, bool) eff" where
  "adoptKey env now key valid status = bindE (getsE (\<lambda>s. mpRoute (cxPeer s))) (\<lambda>r.
     thenE (if rsSelected r \<noteq> None \<or> rsPhase r \<noteq> PNone then meshRestore env now else returnE ())
    (thenE (modPeer (\<lambda>p. p\<lparr>mpSpec := (mpSpec p)\<lparr>psPsk := key\<rparr>, mpPskValid := valid, mpPskStatus := status\<rparr>))
           (returnE valid)))"

definition startRekey :: "('k, 'h, 'r, 'w) meshEnv \<Rightarrow> time \<Rightarrow> wgkey \<Rightarrow> (('k, 'r, 'w) serving, unit) eff" where
  "startRekey env now key = bindE (getsE (\<lambda>s. mpRekey (cxPeer s))) (\<lambda>rekey. case rekey of
      Some _ \<Rightarrow> returnE ()
    | None \<Rightarrow>
        thenE (cancelReplacement env now)
       (bindE (randText env) (\<lambda>token.
        modPeer (\<lambda>p. p\<lparr>mpRekey := Some \<lparr>rkKey = key, rkPhase = (if leads env p then ROffer else RWaiting),
          rkToken = token, rkSince = now, rkAppliedAt = 0, rkHandshake = 0, rkFinishedAt = 0,
          rkRemoteApplied = False, rkRemoteObserved = 0\<rparr>\<rparr>))))"

definition pollFile :: "('k, 'h, 'r, 'w) meshEnv \<Rightarrow> time \<Rightarrow> (wgkey \<times> rosenpassResponse) option \<Rightarrow> (('k, 'r, 'w) serving, bool) eff" where
  "pollFile env now res = bindE (getsE cxPeer) (\<lambda>p.
     let valid = (res \<noteq> None);
         key = (case res of None \<Rightarrow> 0 | Some (k, _) \<Rightarrow> k);
         status = (case res of None \<Rightarrow> zeroResponse | Some (_, st) \<Rightarrow> st);
         same = (valid \<and> \<not> restarted p status \<and> mpPskValid p)
     in thenE (if \<not> valid \<and> \<not> now < mpPskLogAfter p then modPeer (\<lambda>p. p\<lparr>mpPskLogAfter := now + minute\<rparr>) else returnE ())
       (if same \<and> keepsKey p key
        then thenE (modPeer (\<lambda>p. p\<lparr>mpPskStatus := status\<rparr>)) (returnE True)
        else thenE (dropPrevious now)
          (if same \<and> rsPhase (mpRoute p) = PActive \<and> psRekey (mpSpec p) \<and> rsRemoteRekey (mpRoute p)
           then thenE (startRekey env now key)
               (bindE (getsE (\<lambda>s. mpRekey (cxPeer s))) (\<lambda>rekey.
                if (case rekey of None \<Rightarrow> False | Some r \<Rightarrow> key = rkKey r)
                then thenE (modPeer (\<lambda>p. p\<lparr>mpPskStatus := status\<rparr>)) (returnE True)
                else adoptKey env now key valid status))
           else adoptKey env now key valid status)))"

definition pollPSK :: "('k, 'h, 'r, 'w) meshEnv \<Rightarrow> time \<Rightarrow> (('k, 'r, 'w) serving, bool) eff" where
  "pollPSK env now = bindE (clock env) (\<lambda>started. bindE (getsE cxPeer) (\<lambda>p.
     if psFile (mpSpec p) = [] then returnE True
     else bindE (readPeerPSK env now) (\<lambda>res. bindE (elapsed env now started) (\<lambda>t. pollFile env t res))))"

section \<open>Replacing the key of a live path\<close>

definition rekeyObservationTimeout :: duration where
  "rekeyObservationTimeout = 150 * second"

definition modRekey :: "(pskTransition \<Rightarrow> pskTransition) \<Rightarrow> (('k, 'r, 'w) serving, unit) eff" where
  "modRekey f = modPeer (\<lambda>p. p\<lparr>mpRekey := map_option f (mpRekey p)\<rparr>)"

definition rekeyCommand :: "('k, 'h, 'r, 'w) meshEnv \<Rightarrow> pskTransition \<Rightarrow> string \<Rightarrow> time \<Rightarrow> (('k, 'r, 'w) serving, unit) eff" where
  "rekeyCommand env r op now = bindE (getsE cxPeer) (\<lambda>p. case rsSelected (mpRoute p) of
      None \<Rightarrow> panicE
    | Some i \<Rightarrow>
        thenE (sendMessage env (ptSession (pathAt p i))
           \<lparr>mgOp = op, mgToken = rkToken r, mgPort = enWgPort env,
            mgProof = pskProof env (rkKey r) op (rkToken r) (enPublic env) (psKey (mpSpec p)), mgRekey = False\<rparr>
           (ptAddr (pathAt p i)) (ptLink (pathAt p i)) now)
        (returnE ()))"

definition verifyE :: "('k, 'h, 'r, 'w) meshEnv \<Rightarrow> (('k, 'r, 'w) serving, unit) eff" where
  "verifyE env = (case enVerify env of None \<Rightarrow> returnE () | Some m \<Rightarrow> worldE m)"

text \<open>The PSK-only update itself: the last handshake is noted first.\<close>

definition installRekey :: "('k, 'h, 'r, 'w) meshEnv \<Rightarrow> (wgkey \<Rightarrow> wgkey \<Rightarrow> wgkey \<Rightarrow> ('w, unit) eff) \<times> (wgkey \<Rightarrow> ('w, time) eff) \<Rightarrow>
    time \<Rightarrow> time \<Rightarrow> pskTransition \<Rightarrow> (('k, 'r, 'w) serving, unit) eff" where
  "installRekey env control now started r = bindE (getsE (\<lambda>s. mpSpec (cxPeer s))) (\<lambda>spec.
     bindE (tryE (bindE (worldE (snd control (psKey spec))) (\<lambda>hs.
                  thenE (worldE (fst control (psKey spec) (psPsk spec) (rkKey r))) (returnE hs)))) (\<lambda>res. case res of
       Inl _ \<Rightarrow> meshRestore env now
     | Inr hs \<Rightarrow>
         thenE (modPeer (\<lambda>p. p\<lparr>mpSpec := (mpSpec p)\<lparr>psPsk := rkKey r\<rparr>\<rparr>))
        (bindE (elapsed env now started) (\<lambda>t.
         modRekey (\<lambda>r. r\<lparr>rkPhase := RObserving, rkAppliedAt := t, rkHandshake := hs\<rparr>)))))"

definition applyRekey :: "('k, 'h, 'r, 'w) meshEnv \<Rightarrow> time \<Rightarrow> (('k, 'r, 'w) serving, unit) eff" where
  "applyRekey env now = bindE (clock env) (\<lambda>started.
     thenE (verifyE env)
    (bindE (elapsed env now started) (\<lambda>t. bindE (pollPSK env t) (\<lambda>ok.
     bindE (getsE (\<lambda>s. mpRekey (cxPeer s))) (\<lambda>rekey. case rekey of
         None \<Rightarrow> returnE ()
       | Some r \<Rightarrow>
           if \<not> ok then returnE ()
           else (case enRekey env of
               None \<Rightarrow> meshRestore env now
             | Some control \<Rightarrow> installRekey env control now started r))))))"

text \<open>One received message of the exchange, once the transition and the proof are known.\<close>

definition rekeyMessage :: "('k, 'h, 'r, 'w) meshEnv \<Rightarrow> message \<Rightarrow> time \<Rightarrow> pskTransition \<Rightarrow> (('k, 'r, 'w) serving, unit) eff" where
  "rekeyMessage env msg now r = bindE (getsE (\<lambda>s. leads env (cxPeer s))) (\<lambda>leader.
     if mgOp msg = ''rekey-offer'' then
       (if \<not> leader \<and> rkPhase r = RPrepared then rekeyCommand env r ''rekey-ready'' now else returnE ())
     else if mgOp msg = ''rekey-ready'' then
       (if leader \<and> rkPhase r = ROffer
        then thenE (rekeyCommand env r ''rekey-commit'' now) (applyRekey env now) else returnE ())
     else if mgOp msg = ''rekey-commit'' then
       thenE (if \<not> leader \<and> rkPhase r = RPrepared then applyRekey env now else returnE ())
      (bindE (getsE (\<lambda>s. mpRekey (cxPeer s))) (\<lambda>rekey. case rekey of
           None \<Rightarrow> returnE ()
         | Some r' \<Rightarrow>
             if \<not> leader \<and> rkPhase r' = RObserving
             then thenE (modRekey (\<lambda>r. r\<lparr>rkRemoteApplied := True\<rparr>)) (rekeyCommand env r' ''rekey-applied'' now)
             else returnE ()))
     else if mgOp msg = ''rekey-applied'' then
       (if rkPhase r = RObserving then modRekey (\<lambda>r. r\<lparr>rkRemoteApplied := True\<rparr>) else returnE ())
     else if mgOp msg = ''rekey-observed'' \<or> mgOp msg = ''rekey-finished'' then
       (if rkPhase r = RObserving then modRekey (\<lambda>r. r\<lparr>rkRemoteApplied := True, rkRemoteObserved := now\<rparr>) else returnE ())
     else returnE ())"

definition adoptOffer :: "bool \<Rightarrow> message \<Rightarrow> pskTransition \<Rightarrow> pskTransition" where
  "adoptOffer leader msg r =
    (if mgOp msg = ''rekey-offer'' \<and> \<not> leader \<and> rkPhase r = RWaiting
     then r\<lparr>rkPhase := RPrepared, rkToken := mgToken msg\<rparr> else r)"

definition answerRekey :: "('k, 'h, 'r, 'w) meshEnv \<Rightarrow> message \<Rightarrow> time \<Rightarrow> (('k, 'r, 'w) serving, unit) eff" where
  "answerRekey env msg now = bindE (getsE cxPeer) (\<lambda>p. case mpRekey p of
      None \<Rightarrow> (case mpCompletedRekey p of
          None \<Rightarrow> returnE ()
        | Some done \<Rightarrow>
            if timeSub now (rkFinishedAt done) < rekeyObservationTimeout \<and> mgOp msg = ''rekey-observed'' \<and>
               mgToken msg = rkToken done \<and> checkPSKProof env (rkKey done) msg (psKey (mpSpec p)) (enPublic env)
            then rekeyCommand env done ''rekey-finished'' now else returnE ())
    | Some r \<Rightarrow>
        if \<not> checkPSKProof env (rkKey r) msg (psKey (mpSpec p)) (enPublic env) then returnE ()
        else if rkPhase r \<noteq> RObserving \<and> timeSub now (rkSince r) \<ge> cfFailure (enConfig env) then meshRestore env now
        else let r' = adoptOffer (leads env p) msg r in
          thenE (modRekey (\<lambda>_. r'))
         (if mgToken msg \<noteq> rkToken r' then returnE () else rekeyMessage env msg now r'))"

definition coordinateRekey :: "('k, 'h, 'r, 'w) meshEnv \<Rightarrow> nat \<Rightarrow> message \<Rightarrow> time \<Rightarrow> (('k, 'r, 'w) serving, unit) eff" where
  "coordinateRekey env c msg now = bindE (getsE cxPeer) (\<lambda>p.
     if \<not> psRekey (mpSpec p) \<or> \<not> rsRemoteRekey (mpRoute p) \<or> rsPhase (mpRoute p) \<noteq> PActive \<or> rsSelected (mpRoute p) \<noteq> Some c
     then returnE ()
     else bindE (pollPSK env now) (\<lambda>ok. if \<not> ok then returnE () else answerRekey env msg now))"

text \<open>Both peers have seen a later handshake: the transition is complete.\<close>

definition finishRekey :: "pskTransition \<Rightarrow> time \<Rightarrow> (('k, 'r, 'w) serving, unit) eff" where
  "finishRekey r now = modPeer (\<lambda>p. p\<lparr>mpRekey := None, mpCompletedRekey := Some (r\<lparr>rkFinishedAt := now\<rparr>),
     mpCooldown := (if now + rekeyObservationTimeout > mpCooldown p then now + rekeyObservationTimeout else mpCooldown p),
     mpRoute := (mpRoute p)\<lparr>rsRemoteAt := now\<rparr>\<rparr>)"

definition observeRekey :: "('k, 'h, 'r, 'w) meshEnv \<Rightarrow> time \<Rightarrow> pskTransition \<Rightarrow> (('k, 'r, 'w) serving, unit) eff" where
  "observeRekey env now r = (case enRekey env of
      None \<Rightarrow> panicE
    | Some control \<Rightarrow> bindE (getsE (\<lambda>s. psKey (mpSpec (cxPeer s)))) (\<lambda>key. bindE (worldE (snd control key)) (\<lambda>hs.
        if hs > rkHandshake r \<and> hs > rkAppliedAt r \<and> \<not> hs > now
        then thenE (rekeyCommand env r ''rekey-observed'' now)
            (if rkRemoteObserved r \<noteq> 0 \<and> timeSub now (rkRemoteObserved r) < cfFailure (enConfig env)
             then finishRekey r now else returnE ())
        else returnE ())))"

text \<open>
  \<^verbatim>\<open>m.control.(rekeyControl)\<close> panics when the controller is none; \<open>applyRekey\<close> has
  checked that before the transition is observed.
\<close>

definition advanceRekey :: "('k, 'h, 'r, 'w) meshEnv \<Rightarrow> time \<Rightarrow> pskTransition \<Rightarrow> (('k, 'r, 'w) serving, unit) eff" where
  "advanceRekey env now r = bindE (getsE cxPeer) (\<lambda>p.
     if rkPhase r \<noteq> RObserving then
       (if timeSub now (rkSince r) \<ge> cfFailure (enConfig env) then meshRestore env now
        else if rkPhase r = ROffer then rekeyCommand env r ''rekey-offer'' now
        else if rkPhase r = RPrepared then rekeyCommand env r ''rekey-ready'' now
        else returnE ())
     else if timeSub now (rkAppliedAt r) \<ge> rekeyObservationTimeout \<or>
             timeSub now (rsLastTunnel (mpRoute p)) \<ge> cfFailure (enConfig env) then meshRestore env now
     else thenE (if \<not> rkRemoteApplied r \<and> leads env p then rekeyCommand env r ''rekey-commit'' now else returnE ())
         (observeRekey env now r))"

end
