(* ===== verification/Coordinate.thy ===== *)
theory Coordinate
  imports Psk
begin

text \<open>
  The coordination of a direct path in \<^verbatim>\<open>mesh.go\<close>: installing a path on trial,
  returning to the previous or the stable path, the timer's view of each phase,
  and the messages of the other side.
\<close>

section \<open>Installing a path\<close>

text \<open>A replacement keeps the route it replaces as \<open>mpPrevious\<close> until the trial is over.\<close>

definition takeReplacement :: "nat \<Rightarrow> routeProposal \<Rightarrow> meshPeer \<Rightarrow> meshPeer" where
  "takeReplacement c r p = p\<lparr>mpPrevious := Some (mpRoute p),
     mpRoute := (mpRoute p)\<lparr>rsSelected := Some c, rsTrial := rpToken r, rsBaseline := rpBaseline r,
       rsRemoteRekey := rpRemoteRekey r, rsLocalGood := False, rsRemoteGood := False, rsCommitted := False\<rparr>,
     mpReplacement := None\<rparr>"

definition trialPeer :: "time \<Rightarrow> meshPeer \<Rightarrow> meshPeer" where
  "trialPeer now p = p\<lparr>mpRoute := (mpRoute p)\<lparr>rsPhase := PTrial, rsSince := now, rsResumed := 0,
     rsTunnel := newMeasurements now, rsLastTunnel := 0\<rparr>, mpPending := []\<rparr>"

definition endpointOf :: "meshPeer \<Rightarrow> nat \<Rightarrow> addrPort" where
  "endpointOf p c = (apAddr (ptAddr (pathAt p c)), ptPort (pathAt p c))"

definition controlApply :: "('k, 'h, 'r, 'w) meshEnv \<Rightarrow> nat \<Rightarrow> (('k, 'r, 'w) serving, unit) eff" where
  "controlApply env c = bindE (getsE cxPeer) (\<lambda>p.
     worldE (enApply env (psKey (mpSpec p)) (psIP (mpSpec p)) (psPsk (mpSpec p)) (endpointOf p c)))"

definition installPath :: "('k, 'h, 'r, 'w) meshEnv \<Rightarrow> time \<Rightarrow> time \<Rightarrow> bool \<Rightarrow> nat \<Rightarrow> string \<Rightarrow> routeProposal option \<Rightarrow>
    (('k, 'r, 'w) serving, unit) eff" where
  "installPath env now started leader c token rep =
     bindE (tryE (controlApply env c)) (\<lambda>res. case res of
       Inl e \<Rightarrow> bindE (elapsed env now started) (\<lambda>t.
         thenE (pathCommand env (Some c) token ''abort'' t) (throwE (Wrap ''apply direct path'' e)))
     | Inr _ \<Rightarrow>
         thenE (case rep of None \<Rightarrow> returnE () | Some r \<Rightarrow> modPeer (takeReplacement c r))
        (bindE (elapsed env now started) (\<lambda>t.
         thenE (modPeer (trialPeer t))
               (if leader then command env ''commit'' t else returnE ()))))"

definition applyReplacement :: "('k, 'h, 'r, 'w) meshEnv \<Rightarrow> time \<Rightarrow> time \<Rightarrow> bool \<Rightarrow> time \<Rightarrow> routeProposal \<Rightarrow> (('k, 'r, 'w) serving, unit) eff" where
  "applyReplacement env now started leader checkedAt r = bindE (getsE cxPeer) (\<lambda>p.
     if mpReplacement p \<noteq> Some r then returnE ()
     else if \<not> freshPath (enConfig env) (pathAt p (rpPath r)) checkedAt \<or>
             timeSub checkedAt (rpSince r) \<ge> cfFailure (enConfig env) then cancelReplacement env checkedAt
     else (case rsSelected (mpRoute p) of
         None \<Rightarrow> panicE
       | Some j \<Rightarrow>
           if \<not> freshPath (enConfig env) (pathAt p j) checkedAt then meshRestore env checkedAt
           else if timeSub checkedAt (rsLastTunnel (mpRoute p)) \<ge> cfFailure (enConfig env) then meshRestore env checkedAt
           else installPath env now started leader (rpPath r) (rpToken r) (Some r)))"

definition applySelected :: "('k, 'h, 'r, 'w) meshEnv \<Rightarrow> time \<Rightarrow> time \<Rightarrow> bool \<Rightarrow> time \<Rightarrow> (('k, 'r, 'w) serving, unit) eff" where
  "applySelected env now started leader checkedAt = bindE (getsE cxPeer) (\<lambda>p. case rsSelected (mpRoute p) of
      None \<Rightarrow> returnE ()
    | Some c \<Rightarrow>
        if \<not> freshPath (enConfig env) (pathAt p c) checkedAt \<or>
           timeSub checkedAt (rsSince (mpRoute p)) \<ge> cfFailure (enConfig env) then meshRestore env checkedAt
        else installPath env now started leader c (rsTrial (mpRoute p)) None)"

definition isLeaderRound :: "meshPeer \<Rightarrow> bool" where
  "isLeaderRound p \<longleftrightarrow> rsPhase (mpRoute p) = PPrepare \<or>
     (case mpReplacement p of None \<Rightarrow> False | Some r \<Rightarrow> rpPhase r = PPrepare)"

definition meshApply :: "('k, 'h, 'r, 'w) meshEnv \<Rightarrow> time \<Rightarrow> (('k, 'r, 'w) serving, unit) eff" where
  "meshApply env now = bindE (clock env) (\<lambda>started. bindE (getsE cxPeer) (\<lambda>p.
     thenE (verifyE env)
    (bindE (elapsed env now started) (\<lambda>t. bindE (pollPSK env t) (\<lambda>ok.
     if \<not> ok then returnE ()
     else bindE (elapsed env now started) (\<lambda>checkedAt. case mpReplacement p of
         Some r \<Rightarrow> applyReplacement env now started (isLeaderRound p) checkedAt r
       | None \<Rightarrow> applySelected env now started (isLeaderRound p) checkedAt))))))"

section \<open>Going back\<close>

definition resumePrevious :: "config \<Rightarrow> time \<Rightarrow> routeState \<Rightarrow> meshPeer \<Rightarrow> meshPeer" where
  "resumePrevious c now old p = p\<lparr>mpRoute := old\<lparr>rsResumed := now\<rparr>, mpPrevious := None,
     mpCooldown := now + cfCooldown c, mpPending := []\<rparr>"

definition rollbackTo :: "('k, 'h, 'r, 'w) meshEnv \<Rightarrow> time \<Rightarrow> time \<Rightarrow> routeState \<Rightarrow> (('k, 'r, 'w) serving, unit) eff" where
  "rollbackTo env now started old = bindE (elapsed env now started) (\<lambda>t1. bindE (getsE (\<lambda>s. (cxPeer s, cxLinks s))) (\<lambda>(p, links).
     case rsSelected old of
       None \<Rightarrow> panicE
     | Some c \<Rightarrow>
         if ptLink (pathAt p c) \<notin> set links \<or> \<not> freshPath (enConfig env) (pathAt p c) t1 then meshRestore env t1
         else thenE (controlApply env c)
             (bindE (elapsed env now started) (\<lambda>t.
              thenE (command env ''abort'' t)
             (thenE (retire (rsTrial (mpRoute p)) t)
                    (modPeer (resumePrevious (enConfig env) t old)))))))"

definition meshRollback :: "('k, 'h, 'r, 'w) meshEnv \<Rightarrow> time \<Rightarrow> (('k, 'r, 'w) serving, unit) eff" where
  "meshRollback env now = bindE (getsE (\<lambda>s. mpPrevious (cxPeer s))) (\<lambda>prev. case prev of
      None \<Rightarrow> meshRestore env now
    | Some old \<Rightarrow> bindE (clock env) (\<lambda>started.
        thenE (verifyE env)
       (bindE (elapsed env now started) (\<lambda>t. bindE (pollPSK env t) (\<lambda>ok.
        bindE (getsE (\<lambda>s. mpPrevious (cxPeer s))) (\<lambda>prev'.
        if \<not> ok \<or> prev' \<noteq> Some old then returnE () else rollbackTo env now started old))))))"

section \<open>The timer\<close>

text \<open>
  The parts of \<open>advance\<close> report whether the code goes on after them; \<open>False\<close> is an
  early return.
\<close>

definition leaveRound :: "(('k, 'r, 'w) serving, unit) eff \<Rightarrow> (('k, 'r, 'w) serving, bool) eff" where
  "leaveRound m = thenE m (returnE False)"

definition promotePeer :: "config \<Rightarrow> time \<Rightarrow> meshPeer \<Rightarrow> meshPeer" where
  "promotePeer c now p = p\<lparr>mpRoute := (mpRoute p)\<lparr>rsPhase := PActive\<rparr>, mpCooldown := now + cfCooldown c\<rparr>"

definition judgeTrial :: "('k, 'h, 'r, 'w) meshEnv \<Rightarrow> time \<Rightarrow> (('k, 'r, 'w) serving, bool) eff" where
  "judgeTrial env now =
     thenE (modRoute (\<lambda>r. r\<lparr>rsLocalGood := False\<rparr>))
    (bindE (getsE (\<lambda>s. mpRoute (cxPeer s))) (\<lambda>r. case median (rsTunnel r) now (enConfig env) of
        Some rtt \<Rightarrow>
          if \<not> improves rtt (rsBaseline r) (enConfig env) then leaveRound (meshRollback env now)
          else thenE (modRoute (\<lambda>r. r\<lparr>rsLocalGood := True\<rparr>)) (returnE True)
      | None \<Rightarrow>
          if timeSub now (rsSince r) \<ge> cfWindow (enConfig env) then leaveRound (meshRollback env now) else returnE True))"

definition settleTrial :: "('k, 'h, 'r, 'w) meshEnv \<Rightarrow> time \<Rightarrow> (('k, 'r, 'w) serving, bool) eff" where
  "settleTrial env now = bindE (getsE (\<lambda>s. mpRoute (cxPeer s))) (\<lambda>r.
     if timeSub now (rsSince r) > 2 * minute then leaveRound (meshRollback env now)
     else if rsLocalGood r \<and> rsRemoteGood r \<and> timeSub now (rsRemoteAt r) < cfFailure (enConfig env) \<and> rsCommitted r
     then thenE (dropPrevious now) (thenE (modPeer (promotePeer (enConfig env) now)) (returnE True))
     else returnE True)"

definition advanceTrial :: "('k, 'h, 'r, 'w) meshEnv \<Rightarrow> time \<Rightarrow> (('k, 'r, 'w) serving, bool) eff" where
  "advanceTrial env now = bindE (judgeTrial env now) (\<lambda>go. if \<not> go then returnE False else settleTrial env now)"

definition lastAlive :: "routeState \<Rightarrow> time" where
  "lastAlive r = (let last = (if rsLastTunnel r = 0 then rsSince r else rsLastTunnel r)
     in if last < rsResumed r then rsResumed r else last)"

definition advanceLive :: "('k, 'h, 'r, 'w) meshEnv \<Rightarrow> time \<Rightarrow> (('k, 'r, 'w) serving, bool) eff" where
  "advanceLive env now = bindE (getsE cxPeer) (\<lambda>p.
     if timeSub now (lastAlive (mpRoute p)) \<ge> cfFailure (enConfig env) then leaveRound (meshRollback env now)
     else thenE (if \<not> rsCommitted (mpRoute p) \<and> leads env p then command env ''commit'' now else returnE ())
         (bindE (if rsPhase (mpRoute p) = PTrial then advanceTrial env now else returnE True) (\<lambda>go.
          if \<not> go then returnE False
          else bindE (getsE (\<lambda>s. rsLocalGood (mpRoute (cxPeer s)))) (\<lambda>good.
            thenE (command env (if good then ''keep'' else ''hold'') now) (returnE True)))))"

definition advancePhase :: "('k, 'h, 'r, 'w) meshEnv \<Rightarrow> time \<Rightarrow> (('k, 'r, 'w) serving, bool) eff" where
  "advancePhase env now = bindE (getsE (\<lambda>s. mpRoute (cxPeer s))) (\<lambda>r. case rsPhase r of
      PNone \<Rightarrow> returnE True
    | PPrepare \<Rightarrow>
        if timeSub now (rsSince r) \<ge> cfFailure (enConfig env) then leaveRound (meshRestore env now)
        else thenE (command env ''prepare'' now) (returnE True)
    | PPrepared \<Rightarrow>
        if timeSub now (rsSince r) \<ge> cfFailure (enConfig env) then leaveRound (meshRestore env now)
        else thenE (command env ''ready'' now) (returnE True)
    | PTrial \<Rightarrow> advanceLive env now
    | PActive \<Rightarrow> advanceLive env now)"

definition advanceReplacement :: "('k, 'h, 'r, 'w) meshEnv \<Rightarrow> time \<Rightarrow> (('k, 'r, 'w) serving, unit) eff" where
  "advanceReplacement env now = bindE (getsE cxPeer) (\<lambda>p. case mpReplacement p of
      None \<Rightarrow> returnE ()
    | Some r \<Rightarrow>
        if \<not> freshPath (enConfig env) (pathAt p (rpPath r)) now \<or> timeSub now (rpSince r) \<ge> cfFailure (enConfig env)
        then cancelReplacement env now
        else if rpPhase r = PPrepare then pathCommand env (Some (rpPath r)) (rpToken r) ''prepare'' now
        else pathCommand env (Some (rpPath r)) (rpToken r) ''ready'' now)"

definition meshAdvance :: "('k, 'h, 'r, 'w) meshEnv \<Rightarrow> time \<Rightarrow> (('k, 'r, 'w) serving, unit) eff" where
  "meshAdvance env now = bindE (getsE cxPeer) (\<lambda>p. case rsSelected (mpRoute p) of
      None \<Rightarrow> panicE
    | Some i \<Rightarrow>
        if \<not> freshPath (enConfig env) (pathAt p i) now then meshRollback env now
        else (case mpRekey p of
            Some r \<Rightarrow> advanceRekey env now r
          | None \<Rightarrow> bindE (advancePhase env now) (\<lambda>go. if go then advanceReplacement env now else returnE ())))"

section \<open>Messages of the other side\<close>

text \<open>A proposal of the peer with the smaller key, when this side is free to take it up.\<close>

definition opensRound :: "('k, 'h, 'r, 'w) meshEnv \<Rightarrow> nat \<Rightarrow> message \<Rightarrow> time \<Rightarrow> meshPeer \<Rightarrow> bool" where
  "opensRound env c msg now p \<longleftrightarrow>
     mgOp msg = ''prepare'' \<and> mpRekey p = None \<and> mpReplacement p = None \<and>
     (rsPhase (mpRoute p) = PNone \<or> rsPhase (mpRoute p) = PActive \<and> rsSelected (mpRoute p) \<noteq> Some c) \<and>
     \<not> now < mpCooldown p \<and> psKey (mpSpec p) < enPublic env"

definition proposedPeer :: "nat \<Rightarrow> phase \<Rightarrow> string \<Rightarrow> time \<Rightarrow> duration \<Rightarrow> bool \<Rightarrow> meshPeer \<Rightarrow> meshPeer" where
  "proposedPeer c ph token now base rekey p =
    (if rsPhase (mpRoute p) = PActive
     then p\<lparr>mpReplacement := Some \<lparr>rpPath = c, rpPhase = ph, rpToken = token, rpSince = now, rpBaseline = base, rpRemoteRekey = rekey\<rparr>\<rparr>
     else p\<lparr>mpRoute := (mpRoute p)\<lparr>rsSelected := Some c, rsPhase := ph, rsTrial := token, rsSince := now, rsBaseline := base,
       rsLocalGood := False, rsRemoteGood := False, rsCommitted := False\<rparr>\<rparr>)"

definition acceptProposal :: "('k, 'h, 'r, 'w) meshEnv \<Rightarrow> nat \<Rightarrow> message \<Rightarrow> time \<Rightarrow> (('k, 'r, 'w) serving, unit) eff" where
  "acceptProposal env c msg now = bindE (getsE cxPeer) (\<lambda>p. case qualifiedPath env p c now of
      Inl _ \<Rightarrow> panicE
    | Inr None \<Rightarrow> retire (mgToken msg) now
    | Inr (Some base) \<Rightarrow>
        thenE (modPeer (proposedPeer c PPrepared (mgToken msg) now base (mgRekey msg)))
       (thenE (if rsPhase (mpRoute p) = PActive then returnE () else modRoute (\<lambda>r. r\<lparr>rsRemoteRekey := mgRekey msg\<rparr>))
              (pathCommand env (Some c) (mgToken msg) ''ready'' now)))"

text \<open>\<open>answeredAt\<close> is \<^verbatim>\<open>receivedAt.Add(time.Since(started))\<close>.\<close>

definition answerReplacement :: "('k, 'h, 'r, 'w) meshEnv \<Rightarrow> nat \<Rightarrow> message \<Rightarrow> time \<Rightarrow> time \<Rightarrow> time \<Rightarrow> routeProposal \<Rightarrow> (('k, 'r, 'w) serving, unit) eff" where
  "answerReplacement env c msg received started now r = bindE (getsE cxPeer) (\<lambda>p.
     if \<not> freshPath (enConfig env) (pathAt p c) now \<or> timeSub now (rpSince r) \<ge> cfFailure (enConfig env)
     then cancelReplacement env now
     else if mgOp msg = ''prepare'' then
       (if rpPhase r = PPrepared then pathCommand env (Some c) (rpToken r) ''ready'' now else returnE ())
     else if mgOp msg = ''ready'' then
       (if rpPhase r = PPrepare
        then thenE (modPeer (\<lambda>p. p\<lparr>mpReplacement := Some (r\<lparr>rpRemoteRekey := mgRekey msg\<rparr>)\<rparr>)) (meshApply env now)
        else returnE ())
     else if mgOp msg = ''commit'' then
       (if rpPhase r = PPrepared
        then thenE (meshApply env now)
            (bindE (getsE (\<lambda>s. mpRoute (cxPeer s))) (\<lambda>route.
             if rsSelected route = Some c \<and> rsTrial route = mgToken msg
             then thenE (modRoute (\<lambda>r. r\<lparr>rsCommitted := True\<rparr>))
                 (bindE (elapsed env received started) (\<lambda>t. command env ''committed'' t))
             else returnE ()))
        else returnE ())
     else if mgOp msg = ''abort'' then cancelReplacement env now
     else returnE ())"

definition answerPrevious :: "message \<Rightarrow> time \<Rightarrow> routeState \<Rightarrow> (('k, 'r, 'w) serving, unit) eff" where
  "answerPrevious msg now old =
    (if mgOp msg = ''abort'' then thenE (retire (rsTrial old) now) (modPeer (\<lambda>p. p\<lparr>mpPrevious := None\<rparr>))
     else if mgOp msg = ''keep'' then modPeer (\<lambda>p. p\<lparr>mpPrevious := Some (old\<lparr>rsRemoteGood := True, rsRemoteAt := now\<rparr>)\<rparr>)
     else if mgOp msg = ''hold'' then modPeer (\<lambda>p. p\<lparr>mpPrevious := Some (old\<lparr>rsRemoteGood := False\<rparr>)\<rparr>)
     else returnE ())"

definition answerCommit :: "('k, 'h, 'r, 'w) meshEnv \<Rightarrow> time \<Rightarrow> time \<Rightarrow> (('k, 'r, 'w) serving, unit) eff" where
  "answerCommit env received started = bindE (getsE (\<lambda>s. rsPhase (mpRoute (cxPeer s)))) (\<lambda>ph.
     if ph = PTrial \<or> ph = PActive
     then thenE (modRoute (\<lambda>r. r\<lparr>rsCommitted := True\<rparr>))
         (bindE (elapsed env received started) (\<lambda>t. command env ''committed'' t))
     else returnE ())"

definition answerSelected :: "('k, 'h, 'r, 'w) meshEnv \<Rightarrow> message \<Rightarrow> time \<Rightarrow> time \<Rightarrow> time \<Rightarrow> (('k, 'r, 'w) serving, unit) eff" where
  "answerSelected env msg received started now = bindE (getsE (\<lambda>s. rsPhase (mpRoute (cxPeer s)))) (\<lambda>ph.
     if mgOp msg = ''prepare'' then (if ph = PPrepared then command env ''ready'' now else returnE ())
     else if mgOp msg = ''ready'' then
       (if ph = PPrepare then thenE (modRoute (\<lambda>r. r\<lparr>rsRemoteRekey := mgRekey msg\<rparr>)) (meshApply env now) else returnE ())
     else if mgOp msg = ''commit'' then
       thenE (if ph = PPrepared then meshApply env now else returnE ()) (answerCommit env received started)
     else if mgOp msg = ''committed'' then modRoute (\<lambda>r. r\<lparr>rsCommitted := True\<rparr>)
     else if mgOp msg = ''keep'' then
       (if ph = PTrial \<or> ph = PActive then modRoute (\<lambda>r. r\<lparr>rsRemoteGood := True, rsRemoteAt := now\<rparr>) else returnE ())
     else if mgOp msg = ''hold'' then modRoute (\<lambda>r. r\<lparr>rsRemoteGood := False\<rparr>)
     else if mgOp msg = ''abort'' then meshRollback env now
     else returnE ())"

definition replacementFor :: "meshPeer \<Rightarrow> nat \<Rightarrow> string \<Rightarrow> routeProposal option" where
  "replacementFor p c token = (case mpReplacement p of
      None \<Rightarrow> None
    | Some r \<Rightarrow> if rpPath r = c \<and> rpToken r = token then Some r else None)"

definition previousFor :: "meshPeer \<Rightarrow> nat \<Rightarrow> string \<Rightarrow> routeState option" where
  "previousFor p c token = (case mpPrevious p of
      None \<Rightarrow> None
    | Some old \<Rightarrow> if rsSelected old = Some c \<and> rsTrial old = token then Some old else None)"

definition answerRound :: "('k, 'h, 'r, 'w) meshEnv \<Rightarrow> nat \<Rightarrow> message \<Rightarrow> time \<Rightarrow> time \<Rightarrow> time \<Rightarrow> (('k, 'r, 'w) serving, unit) eff" where
  "answerRound env c msg received started now = bindE (getsE cxPeer) (\<lambda>p.
     if opensRound env c msg now p then acceptProposal env c msg now
     else case replacementFor p c (mgToken msg) of
       Some r \<Rightarrow> answerReplacement env c msg received started now r
     | None \<Rightarrow> (case previousFor p c (mgToken msg) of
         Some old \<Rightarrow> answerPrevious msg now old
       | None \<Rightarrow>
           if rsSelected (mpRoute p) \<noteq> Some c \<or> rsTrial (mpRoute p) \<noteq> mgToken msg
           then (if mgOp msg = ''prepare'' then retire (mgToken msg) now else returnE ())
           else answerSelected env msg received started now))"

text \<open>
  Messages that can start or finish a round first need a usable key on this side
  and a proof that the sender has the same one.
\<close>

definition admitMessage :: "('k, 'h, 'r, 'w) meshEnv \<Rightarrow> nat \<Rightarrow> message \<Rightarrow> time \<Rightarrow> time \<Rightarrow> (('k, 'r, 'w) serving, unit) eff" where
  "admitMessage env c msg received started =
    (if mgOp msg = ''prepare'' \<or> mgOp msg = ''ready'' \<or> mgOp msg = ''commit''
     then bindE (pollPSK env received) (\<lambda>ok.
       if \<not> ok then returnE ()
       else bindE (elapsed env received started) (\<lambda>now. bindE (getsE (\<lambda>s. mpSpec (cxPeer s))) (\<lambda>spec.
         if \<not> checkPSKProof env (psPsk spec) msg (psKey spec) (enPublic env) then returnE ()
         else answerRound env c msg received started now)))
     else answerRound env c msg received started received)"

definition retiredToken :: "meshPeer \<Rightarrow> string \<Rightarrow> time \<Rightarrow> bool" where
  "retiredToken p token now \<longleftrightarrow> now < (case map_of (mpRetired p) token of None \<Rightarrow> 0 | Some until \<Rightarrow> until)"

definition coordinate :: "('k, 'h, 'r, 'w) meshEnv \<Rightarrow> nat \<Rightarrow> message \<Rightarrow> time \<Rightarrow> (('k, 'r, 'w) serving, unit) eff" where
  "coordinate env c msg now = bindE (clock env) (\<lambda>started. bindE (getsE cxPeer) (\<lambda>p.
     if enDry env then returnE ()
     else if mgOp msg = ''rosenpass-select'' then
       (if psSocket (mpSpec p) \<noteq> [] \<and> psKey (mpSpec p) < enPublic env
        then modPeer (\<lambda>p. p\<lparr>mpRosenpassPath := Some c, mpRosenpassToken := mgToken msg\<rparr>) else returnE ())
     else if take 6 (mgOp msg) = ''rekey-'' then coordinateRekey env c msg now
     else if mgOp msg = ''prepare'' \<and> now < mpRetiredUntil p
       then modPeer (\<lambda>p. p\<lparr>mpRetiredUntil := now + retiredTokenLifetime\<rparr>)
     else if mgOp msg = ''prepare'' \<and> retiredToken p (mgToken msg) now then returnE ()
     else admitMessage env c msg now started))"

end
