(* ===== verification/Events.thy ===== *)
theory Events
  imports Coordinate
begin

text \<open>
  The event loop of \<^verbatim>\<open>mesh.go\<close>: what a timer tick, a received datagram and a change
  of the interfaces do to the mesh, and the loop that serves them one at a time.
\<close>

section \<open>The mesh\<close>

record ('k, 'r, 'w) mesh =
  mePeers :: "(wgkey \<times> meshPeer) list"
  meCrypto :: "('k, 'r) secure"
  meStarts :: "(sid \<times> startRecord) list"
  meLinks :: "linkAddr list"
  mePanic :: bool
  meWorld :: 'w

definition newMesh :: "('k, 'h, 'r, 'w) meshEnv \<Rightarrow> 'r \<Rightarrow> wgkey \<Rightarrow> 'w \<Rightarrow> ('k, 'r, 'w) mesh" where
  "newMesh env random private w =
     \<lparr>mePeers = fold (\<lambda>spec. AList.update (psKey spec) (meshPeerOf spec)) (cfPeers (enConfig env)) [],
      meCrypto = newSecure (enCrypto env) random private (map psKey (cfPeers (enConfig env))),
      meStarts = [], meLinks = [], mePanic = False, meWorld = w\<rparr>"

definition onWorld :: "('w, 'a) eff \<Rightarrow> (('k, 'r, 'w) mesh, 'a) eff" where
  "onWorld m s = (case m (meWorld s) of (x, w) \<Rightarrow> (x, s\<lparr>meWorld := w\<rparr>))"

definition onCrypto :: "(('k, 'r) secure, 'a) eff \<Rightarrow> (('k, 'r, 'w) mesh, 'a) eff" where
  "onCrypto m s = (case m (meCrypto s) of (x, c) \<Rightarrow> (x, s\<lparr>meCrypto := c\<rparr>))"

definition drawWorld :: "('w \<Rightarrow> 'a \<times> 'w) \<Rightarrow> (('k, 'r, 'w) mesh, 'a) eff" where
  "drawWorld f = onWorld (\<lambda>w. case f w of (x, w') \<Rightarrow> (Inr x, w'))"

text \<open>Serving a peer of the table, which is changed in place also when an error ends the work.\<close>

definition servingOf :: "meshPeer \<Rightarrow> ('k, 'r, 'w) mesh \<Rightarrow> ('k, 'r, 'w) serving" where
  "servingOf p s = \<lparr>cxPeer = p, cxCrypto = meCrypto s, cxStarts = meStarts s, cxLinks = meLinks s, cxPanic = mePanic s, cxWorld = meWorld s\<rparr>"

definition servedBack :: "wgkey \<Rightarrow> ('k, 'r, 'w) serving \<Rightarrow> ('k, 'r, 'w) mesh \<Rightarrow> ('k, 'r, 'w) mesh" where
  "servedBack key c s = s\<lparr>mePeers := AList.update key (cxPeer c) (mePeers s), meCrypto := cxCrypto c,
     meStarts := cxStarts c, meLinks := cxLinks c, mePanic := cxPanic c, meWorld := cxWorld c\<rparr>"

definition servePeer :: "wgkey \<Rightarrow> (('k, 'r, 'w) serving, unit) eff \<Rightarrow> (('k, 'r, 'w) mesh, unit) eff" where
  "servePeer key m s = (case map_of (mePeers s) key of
      None \<Rightarrow> (Inr (), s)
    | Some p \<Rightarrow> (case m (servingOf p s) of (x, c) \<Rightarrow> (x, servedBack key c s)))"

definition forPeers :: "('k, 'h, 'r, 'w) meshEnv \<Rightarrow> (('k, 'r, 'w) serving, unit) eff \<Rightarrow> (('k, 'r, 'w) mesh, unit) eff" where
  "forPeers env m = bindE (getsE (\<lambda>s. map fst (mePeers s))) (\<lambda>keys.
     bindE (drawWorld (enPeerOrder env keys)) (\<lambda>ks. forE ks (\<lambda>k. servePeer k m)))"

section \<open>Refreshing the links\<close>

definition pathNames :: "('k, 'h, 'r, 'w) meshEnv \<Rightarrow> (('k, 'r, 'w) serving, string list) eff" where
  "pathNames env = bindE (getsE (\<lambda>s. map fst (mpPaths (cxPeer s)))) (\<lambda>names. drawE (enPathOrder env names))"

definition deletePath :: "string \<Rightarrow> (('k, 'r, 'w) serving, unit) eff" where
  "deletePath name = modPeer (\<lambda>p. p\<lparr>mpPaths := AList.delete name (mpPaths p)\<rparr>)"

definition refreshPath :: "('k, 'h, 'r, 'w) meshEnv \<Rightarrow> time \<Rightarrow> string \<Rightarrow> (('k, 'r, 'w) serving, unit) eff" where
  "refreshPath env now name = bindE (getsE (\<lambda>s. (cxPeer s, cxLinks s))) (\<lambda>(p, links). case map_of (mpPaths p) name of
      None \<Rightarrow> returnE ()
    | Some i \<Rightarrow>
        if ptLink (pathAt p i) \<in> set links then returnE ()
        else thenE (if rsSelected (mpRoute p) = Some i then meshRollback env now
                    else if (case mpReplacement p of None \<Rightarrow> False | Some r \<Rightarrow> rpPath r = i) then cancelReplacement env now
                    else returnE ())
                   (deletePath name))"

definition refreshPeer :: "('k, 'h, 'r, 'w) meshEnv \<Rightarrow> time \<Rightarrow> (('k, 'r, 'w) serving, unit) eff" where
  "refreshPeer env now = bindE (getsE cxLinks) (\<lambda>links.
     thenE (modPeer (\<lambda>p. p\<lparr>mpDiscovery := filter (\<lambda>(l, _). l \<in> set links) (mpDiscovery p)\<rparr>))
    (bindE (pathNames env) (\<lambda>names. forE names (refreshPath env now))))"

definition refresh :: "('k, 'h, 'r, 'w) meshEnv \<Rightarrow> time \<Rightarrow> (('k, 'r, 'w) mesh, unit) eff" where
  "refresh env now = bindE (tryE (onWorld (enLinks env))) (\<lambda>res.
     thenE (modifyE (\<lambda>s. s\<lparr>meLinks := (case res of Inl _ \<Rightarrow> [] | Inr links \<Rightarrow> links)\<rparr>))
           (forPeers env (refreshPeer env now)))"

section \<open>Receiving\<close>

definition onLink :: "config \<Rightarrow> datagram \<Rightarrow> linkAddr \<Rightarrow> bool" where
  "onLink c pk l \<longleftrightarrow> (let source = withZone [] (apAddr (paSource pk)) in
     \<not> (lkIndex l \<noteq> paIfIndex pk \<or> \<not> contains (lkPrefix l) source \<or> source = pAddr (lkPrefix l) \<or>
        source = lkBroadcast l \<or> isMulticast source \<or> isUnspecified source) \<and>
     (paDestination pk = pAddr (lkPrefix l) \<or> paDestination pk = lkBroadcast l \<or> paDestination pk \<in> set (groups c)))"

definition lan :: "config \<Rightarrow> linkAddr list \<Rightarrow> datagram \<Rightarrow> linkAddr option" where
  "lan c links pk = find (onLink c pk) links"

definition modPath :: "nat \<Rightarrow> (path \<Rightarrow> path) \<Rightarrow> (('k, 'r, 'w) serving, unit) eff" where
  "modPath i f = modPeer (\<lambda>p. p\<lparr>mpHeap := (mpHeap p)[i := f (pathAt p i)]\<rparr>)"

text \<open>
  The answer to a handshake this side started.  Its event has a nil body; so has a
  data packet with an empty plaintext, for which the AEAD's \<^verbatim>\<open>Open\<close> returns nil.
\<close>

definition receiveStarted :: "('k, 'h, 'r, 'w) meshEnv \<Rightarrow> datagram \<Rightarrow> linkAddr option \<Rightarrow> secureEvent \<Rightarrow> time \<Rightarrow> (('k, 'r, 'w) serving, unit) eff" where
  "receiveStarted env pk link ev now = bindE (getsE (\<lambda>s. map_of (cxStarts s) (evID ev))) (\<lambda>st.
     thenE (modifyE (\<lambda>s. s\<lparr>cxStarts := AList.delete (evID ev) (cxStarts s)\<rparr>))
    (case (st, link) of
       (Some st, Some l) \<Rightarrow>
         if stKey st \<noteq> evPeer ev \<or> stLink st \<noteq> l then returnE ()
         else bindE (candidate env l (paSource pk) now) (\<lambda>c. case c of
             None \<Rightarrow> returnE ()
           | Some i \<Rightarrow> ping env (Some i) (evID ev) (stMulticast st) now)
     | _ \<Rightarrow> returnE ()))"

definition receivePing :: "('k, 'h, 'r, 'w) meshEnv \<Rightarrow> datagram \<Rightarrow> linkAddr option \<Rightarrow> bool \<Rightarrow> secureEvent \<Rightarrow> time \<Rightarrow> message \<Rightarrow>
    nat option \<Rightarrow> (('k, 'r, 'w) serving, unit) eff" where
  "receivePing env pk link tunnel ev now msg cand =
     thenE (sendMessage env (evID ev) \<lparr>mgOp = ''pong'', mgToken = mgToken msg, mgPort = enWgPort env, mgProof = [], mgRekey = False\<rparr>
              (paSource pk) (if tunnel then enTunnel env else case link of None \<Rightarrow> noLink | Some l \<Rightarrow> l) now)
    (case cand of None \<Rightarrow> returnE () | Some i \<Rightarrow> modPath i (\<lambda>pt. pt\<lparr>ptIncoming := evID ev\<rparr>))"

definition provenPeer :: "linkAddr option \<Rightarrow> time \<Rightarrow> meshPeer \<Rightarrow> meshPeer" where
  "provenPeer link now p = (case link of None \<Rightarrow> p | Some l \<Rightarrow> (case map_of (mpDiscovery p) l of
      None \<Rightarrow> p | Some d \<Rightarrow> p\<lparr>mpDiscovery := AList.update l (d\<lparr>dcProof := now\<rparr>) (mpDiscovery p)\<rparr>))"

definition receivePong :: "('k, 'h, 'r, 'w) meshEnv \<Rightarrow> linkAddr option \<Rightarrow> bool \<Rightarrow> secureEvent \<Rightarrow> time \<Rightarrow> message \<Rightarrow>
    nat option \<Rightarrow> (('k, 'r, 'w) serving, unit) eff" where
  "receivePong env link tunnel ev now msg cand = bindE (getsE (\<lambda>s. map_of (mpPending (cxPeer s)) (mgToken msg))) (\<lambda>pending.
     case pending of
       None \<Rightarrow> returnE ()
     | Some q \<Rightarrow>
         if pbSession q \<noteq> evID ev \<or> timeSub now (pbAt q) > cfFailure (enConfig env) \<or> (pbPath q = None) \<noteq> tunnel \<or> pbPath q \<noteq> cand
         then returnE ()
         else thenE (modPeer (\<lambda>p. p\<lparr>mpPending := AList.delete (mgToken msg) (mpPending p)\<rparr>))
             (case cand of
                None \<Rightarrow> modRoute (\<lambda>r. r\<lparr>rsTunnel := addSample (rsTunnel r) now (timeSub now (pbAt q)) (cfWindow (enConfig env)),
                                         rsLastTunnel := now\<rparr>)
              | Some i \<Rightarrow>
                  thenE (modPath i (\<lambda>pt. pt\<lparr>ptSession := evID ev, ptPort := mgPort msg, ptLastPong := now,
                           ptStats := (if pbMeasure q
                             then addSample (ptStats pt) now (timeSub now (pbAt q)) (cfWindow (enConfig env)) else ptStats pt)\<rparr>))
                        (if pbMulticast q then modPeer (provenPeer link now) else returnE ())))"

definition badMessage :: "message \<Rightarrow> bool" where
  "badMessage msg \<longleftrightarrow> length (mgToken msg) > 64 \<or> length (mgProof msg) > 64 \<or> mgToken msg = [] \<or> mgPort msg = 0"

definition receiveMessage :: "('k, 'h, 'r, 'w) meshEnv \<Rightarrow> datagram \<Rightarrow> linkAddr option \<Rightarrow> bool \<Rightarrow> secureEvent \<Rightarrow> time \<Rightarrow> time \<Rightarrow>
    message \<Rightarrow> (('k, 'r, 'w) serving, unit) eff" where
  "receiveMessage env pk link tunnel ev now started msg =
     bindE (case link of
         None \<Rightarrow> returnE None
       | Some l \<Rightarrow> if mgOp msg = ''ping'' then candidate env l (paSource pk) now
           else getsE (\<lambda>s. map_of (mpPaths (cxPeer s)) (pathName env l (paSource pk)))) (\<lambda>cand.
     if link \<noteq> None \<and> cand = None then returnE ()
     else if mgOp msg = ''ping'' then receivePing env pk link tunnel ev now msg cand
     else if mgOp msg = ''pong'' then receivePong env link tunnel ev now msg cand
     else (case cand of
         None \<Rightarrow> returnE ()
       | Some i \<Rightarrow> bindE (getsE cxPeer) (\<lambda>p.
           if freshPath (enConfig env) (pathAt p i) now
           then bindE (elapsed env now started) (\<lambda>t. coordinate env i msg t) else returnE ())))"

definition receiveEvent :: "('k, 'h, 'r, 'w) meshEnv \<Rightarrow> datagram \<Rightarrow> linkAddr option \<Rightarrow> bool \<Rightarrow> secureEvent \<Rightarrow> time \<Rightarrow> time \<Rightarrow>
    (('k, 'r, 'w) serving, unit) eff" where
  "receiveEvent env pk link tunnel ev now started = bindE (getsE (\<lambda>s. psIP (mpSpec (cxPeer s)))) (\<lambda>ip.
     if tunnel \<and> apAddr (paSource pk) \<noteq> ip then returnE ()
     else if evReply ev \<noteq> [] then
       (case link of None \<Rightarrow> returnE ()
        | Some l \<Rightarrow> thenE (tryE (worldE (enSend env (evReply ev) (paSource pk) l))) (returnE ()))
     else if \<not> evReady ev then returnE ()
     else if evBody ev = [] then receiveStarted env pk link ev now
     else (case enUnmarshal env (evBody ev) of
         None \<Rightarrow> returnE ()
       | Some msg \<Rightarrow> if badMessage msg then returnE () else receiveMessage env pk link tunnel ev now started msg))"

definition meshReceive :: "('k, 'h, 'r, 'w) meshEnv \<Rightarrow> datagram \<Rightarrow> time \<Rightarrow> (('k, 'r, 'w) mesh, unit) eff" where
  "meshReceive env pk now = bindE (drawWorld (enNow env)) (\<lambda>started. bindE (getsE meLinks) (\<lambda>links.
     let link = lan (enConfig env) links pk;
         tunnel = (paIfIndex pk = lkIndex (enTunnel env) \<and> paDestination pk = cfAddress (enConfig env))
     in if apPort (paSource pk) \<noteq> cfPort (enConfig env) then returnE ()
        else if link = None \<and> \<not> tunnel then returnE ()
        else bindE (tryE (onCrypto (Receive (enCrypto env) (paData pk) now))) (\<lambda>res. case res of
            Inl _ \<Rightarrow> returnE ()
          | Inr ev \<Rightarrow> servePeer (evPeer ev) (receiveEvent env pk link tunnel ev now started))))"

section \<open>The timer\<close>

definition usedSessions :: "('k, 'r, 'w) mesh \<Rightarrow> sid \<Rightarrow> bool" where
  "usedSessions s i \<longleftrightarrow> i \<in> fst ` set (meStarts s) \<or>
     (\<exists>(_, p) \<in> set (mePeers s). (\<exists>(_, j) \<in> set (mpPaths p). i = ptSession (pathAt p j) \<or> i = ptIncoming (pathAt p j)) \<or>
        (\<exists>(_, q) \<in> set (mpPending p). i = pbSession q))"

definition dueDiscovery :: "config \<Rightarrow> time \<Rightarrow> discovery \<Rightarrow> discovery" where
  "dueDiscovery c now d =
    (let proof = (if dcProof d = 0 then dcSince d else dcProof d) in
     if \<not> dcBroadcast d \<and> timeSub now proof \<ge> cfBroadcastAfter c then d\<lparr>dcBroadcast := True, dcNext := now\<rparr> else d)"

definition discoverLink :: "('k, 'h, 'r, 'w) meshEnv \<Rightarrow> time \<Rightarrow> linkAddr \<Rightarrow> (('k, 'r, 'w) serving, unit) eff" where
  "discoverLink env now link = bindE (getsE (\<lambda>s. map_of (mpDiscovery (cxPeer s)) link)) (\<lambda>known.
     let c = enConfig env;
         d = dueDiscovery c now (case known of
               None \<Rightarrow> \<lparr>dcSince = now, dcProof = 0, dcNext = 0, dcBroadcast = False\<rparr> | Some d \<Rightarrow> d);
         put = (\<lambda>d. modPeer (\<lambda>p. p\<lparr>mpDiscovery := AList.update link d (mpDiscovery p)\<rparr>))
     in if now < dcNext d then put d
        else thenE (put (d\<lparr>dcNext := now + cfDiscovery c\<rparr>))
            (thenE (if lkMulticast link
                    then announce env link (if is4 (pAddr (lkPrefix link)) then cfMulticast4 c else cfMulticast6 c) True now
                    else returnE ())
                   (if dcBroadcast d \<and> lkBroadcast link \<noteq> NoAddr then announce env link (lkBroadcast link) False now
                    else returnE ())))"

text \<open>The loop over the paths returns the session for the tunnel probe.\<close>

fun pingPaths :: "('k, 'h, 'r, 'w) meshEnv \<Rightarrow> time \<Rightarrow> string list \<Rightarrow> sid \<Rightarrow> (('k, 'r, 'w) serving, sid) eff" where
  "pingPaths env now [] session = returnE session"
| "pingPaths env now (name # names) session = bindE (getsE (\<lambda>s. (cxPeer s, cxCrypto s))) (\<lambda>(p, crypto).
     case map_of (mpPaths p) name of
       None \<Rightarrow> pingPaths env now names session
     | Some i \<Rightarrow>
         let pt = pathAt p i; c = enConfig env in
         if timeSub now (msSince (ptStats pt)) > cfFailure c \<and> \<not> freshPath c pt now \<and> rsSelected (mpRoute p) \<noteq> Some i
         then thenE (deletePath name) (pingPaths env now names session)
         else thenE (ping env (Some i) (if map_of (secSessions crypto) (ptSession pt) = None then ptIncoming pt else ptSession pt) False now)
             (pingPaths env now names (if freshPath c pt now then ptSession pt else session)))"

definition pingTunnel :: "('k, 'h, 'r, 'w) meshEnv \<Rightarrow> time \<Rightarrow> sid \<Rightarrow> (('k, 'r, 'w) serving, unit) eff" where
  "pingTunnel env now session = bindE (getsE cxPeer) (\<lambda>p.
     let i = (case rsSelected (mpRoute p) of None \<Rightarrow> session | Some j \<Rightarrow> ptSession (pathAt p j)) in
     if i = 0 then returnE ()
     else thenE (modRoute (\<lambda>r. if msSince (rsTunnel r) = 0 then r\<lparr>rsTunnel := (rsTunnel r)\<lparr>msSince := now\<rparr>\<rparr> else r))
                (ping env None i False now))"

text \<open>The qualified path with the smallest median, the first of the order among equals.\<close>

fun bestPath :: "('k, 'h, 'r, 'w) meshEnv \<Rightarrow> meshPeer \<Rightarrow> time \<Rightarrow> string list \<Rightarrow> (nat \<times> duration \<times> duration) option \<Rightarrow>
    error + (nat \<times> duration \<times> duration) option" where
  "bestPath env p now [] best = Inr best"
| "bestPath env p now (name # names) best = (case map_of (mpPaths p) name of
      None \<Rightarrow> bestPath env p now names best
    | Some i \<Rightarrow>
        if rsSelected (mpRoute p) = Some i then bestPath env p now names best
        else (case qualifiedPath env p i now of
            Inl e \<Rightarrow> Inl e
          | Inr None \<Rightarrow> bestPath env p now names best
          | Inr (Some base) \<Rightarrow>
              let rtt = (case median (ptStats (pathAt p i)) now (enConfig env) of None \<Rightarrow> 0 | Some m \<Rightarrow> m) in
              bestPath env p now names
                (if (case best of None \<Rightarrow> True | Some (_, bestRTT, _) \<Rightarrow> rtt < bestRTT) then Some (i, rtt, base) else best)))"

definition propose :: "('k, 'h, 'r, 'w) meshEnv \<Rightarrow> time \<Rightarrow> nat \<Rightarrow> duration \<Rightarrow> (('k, 'r, 'w) serving, unit) eff" where
  "propose env now i base =
    (if enDry env then modPeer (\<lambda>p. p\<lparr>mpCooldown := now + cfCooldown (enConfig env)\<rparr>)
     else bindE (randText env) (\<lambda>token.
          thenE (modPeer (proposedPeer i PPrepare token now base False))
                (pathCommand env (Some i) token ''prepare'' now)))"

definition seekPath :: "('k, 'h, 'r, 'w) meshEnv \<Rightarrow> time \<Rightarrow> bool \<Rightarrow> (('k, 'r, 'w) serving, unit) eff" where
  "seekPath env now pskOK = bindE (getsE cxPeer) (\<lambda>p.
     if \<not> pskOK \<or> mpRekey p \<noteq> None \<or> mpReplacement p \<noteq> None \<or> now < mpCooldown p \<or> \<not> leads env p then returnE ()
     else bindE (pathNames env) (\<lambda>names. case bestPath env p now names None of
         Inl _ \<Rightarrow> panicE
       | Inr None \<Rightarrow> returnE ()
       | Inr (Some (i, _, base)) \<Rightarrow> propose env now i base))"

definition tickPeer :: "('k, 'h, 'r, 'w) meshEnv \<Rightarrow> time \<Rightarrow> time \<Rightarrow> (('k, 'r, 'w) serving, unit) eff" where
  "tickPeer env now started = bindE (elapsed env now started) (\<lambda>t. bindE (pollPSK env t) (\<lambda>pskOK.
     thenE (modPeer (\<lambda>p. p\<lparr>mpPending := filter (\<lambda>(_, q). \<not> timeSub now (pbAt q) > cfFailure (enConfig env)) (mpPending p)\<rparr>))
    (bindE (getsE cxLinks) (\<lambda>links. thenE (forE links (discoverLink env now))
    (bindE (pathNames env) (\<lambda>names. bindE (pingPaths env now names 0) (\<lambda>session.
     thenE (pingTunnel env now session)
    (bindE (elapsed env now started) (\<lambda>checkedAt. bindE (getsE (\<lambda>s. rsPhase (mpRoute (cxPeer s)))) (\<lambda>ph.
     thenE (if ph = PNone then returnE () else meshAdvance env checkedAt)
    (bindE (getsE (\<lambda>s. rsPhase (mpRoute (cxPeer s)))) (\<lambda>ph'.
     if ph \<noteq> PNone \<and> ph' \<noteq> PActive then returnE () else seekPath env checkedAt pskOK))))))))))))"

definition inspectMesh :: "('k, 'h, 'r, 'w) meshEnv \<Rightarrow> (('k, 'r, 'w) mesh, unit) eff" where
  "inspectMesh env = (case enInspect env of
      Some m \<Rightarrow> onWorld m
    | None \<Rightarrow> thenE (onWorld (enCheck env)) (case enVerify env of None \<Rightarrow> returnE () | Some m \<Rightarrow> onWorld m))"

definition tick :: "('k, 'h, 'r, 'w) meshEnv \<Rightarrow> time \<Rightarrow> (('k, 'r, 'w) mesh, unit) eff" where
  "tick env now = bindE (drawWorld (enNow env)) (\<lambda>started.
     thenE (inspectMesh env)
    (thenE (modifyE (\<lambda>s. s\<lparr>meStarts := filter (\<lambda>(_, st). \<not> timeSub now (stAt st) \<ge> 10 * second) (meStarts s)\<rparr>))
    (thenE (modifyE (\<lambda>s. s\<lparr>meCrypto := Prune (usedSessions s) now (meCrypto s)\<rparr>))
           (forPeers env (tickPeer env now started)))))"

section \<open>The loop\<close>

text \<open>
  What the select statement of \<open>run\<close> can find: the context is done, a datagram or
  the end of the receive channel, a change or the end of the monitor's channel, or
  the timer.  The loop is a function of the events it meets.
\<close>

datatype loopEvent = Done | Incoming "datagram option" | Changed bool | Timer

definition atNow :: "('k, 'h, 'r, 'w) meshEnv \<Rightarrow> (time \<Rightarrow> (('k, 'r, 'w) mesh, unit) eff) \<Rightarrow> (('k, 'r, 'w) mesh, unit) eff" where
  "atNow env f = bindE (drawWorld (enNow env)) f"

definition notifyE :: "('k, 'h, 'r, 'w) meshEnv \<Rightarrow> (('k, 'r, 'w) mesh, unit) eff" where
  "notifyE env = (case enNotify env of None \<Rightarrow> returnE () | Some f \<Rightarrow> modifyE (\<lambda>s. s\<lparr>meWorld := f (meWorld s)\<rparr>))"

definition timerEvent :: "('k, 'h, 'r, 'w) meshEnv \<Rightarrow> (('k, 'r, 'w) mesh, unit) eff" where
  "timerEvent env = thenE (atNow env (refresh env)) (thenE (atNow env (tick env)) (notifyE env))"

fun meshLoop :: "('k, 'h, 'r, 'w) meshEnv \<Rightarrow> loopEvent list \<Rightarrow> (('k, 'r, 'w) mesh, unit) eff" where
  "meshLoop env [] = returnE ()"
| "meshLoop env (Done # es) = returnE ()"
| "meshLoop env (Incoming None # es) = throwE (Msg ''discovery sockets closed'')"
| "meshLoop env (Incoming (Some pk) # es) = thenE (atNow env (meshReceive env pk)) (meshLoop env es)"
| "meshLoop env (Changed ok # es) =
    (if \<not> ok then throwE (Msg ''interface monitor closed'') else thenE (atNow env (refresh env)) (meshLoop env es))"
| "meshLoop env (Timer # es) = thenE (timerEvent env) (meshLoop env es)"

definition meshRun :: "('k, 'h, 'r, 'w) meshEnv \<Rightarrow> loopEvent list \<Rightarrow> (('k, 'r, 'w) mesh, unit) eff" where
  "meshRun env es = thenE (atNow env (refresh env)) (thenE (atNow env (tick env)) (meshLoop env es))"

end
