(* ===== verification/Wiring.thy ===== *)
theory Wiring
  imports Events
begin

text \<open>
  Running the event loop in a larger world: \<open>mapEnv\<close> lets every call of an
  environment act on a part of a state, and \<open>traceCalls\<close> records the calls that
  change routes or keys beside the world, where nothing reads them.
\<close>

definition mapEnv :: "('s \<Rightarrow> 'w) \<Rightarrow> ('w \<Rightarrow> 's \<Rightarrow> 's) \<Rightarrow> ('k, 'h, 'r, 'w) meshEnv \<Rightarrow> ('k, 'h, 'r, 's) meshEnv" where
  "mapEnv get put env =
     \<lparr>enConfig = enConfig env, enPublic = enPublic env, enWgPort = enWgPort env, enTunnel = enTunnel env, enDry = enDry env,
      enCrypto = enCrypto env, enNow = through get put (enNow env), enText = through get put (enText env),
      enSend = \<lambda>data addr link. through get put (enSend env data addr link), enLinks = through get put (enLinks env),
      enApply = \<lambda>key ip psk endpoint. through get put (enApply env key ip psk endpoint),
      enRestore = \<lambda>key. through get put (enRestore env key),
      enCheck = through get put (enCheck env),
      enRekey = map_option (\<lambda>(rekey, handshake).
        (\<lambda>key old new. through get put (rekey key old new), \<lambda>key. through get put (handshake key))) (enRekey env),
      enVerify = map_option (through get put) (enVerify env), enInspect = map_option (through get put) (enInspect env),
      enNotify = map_option (\<lambda>f s. put (f (get s)) s) (enNotify env),
      enPskFile = \<lambda>name. through get put (enPskFile env name), enEuid = enEuid env, enEgid = enEgid env, enGroups = enGroups env,
      enRosenpass = \<lambda>name request. through get put (enRosenpass env name request), enMarshal = enMarshal env,
      enUnmarshal = enUnmarshal env, enHmac = enHmac env, enHash = enHash env, enParseKey = enParseKey env,
      enKeyString = enKeyString env, enItoa = enItoa env, enPrefixText = enPrefixText env, enAddrPortText = enAddrPortText env, enPathOrder = \<lambda>names. through get put (enPathOrder env names),
      enPeerOrder = \<lambda>keys. through get put (enPeerOrder env keys)\<rparr>"

datatype call = CallApply wgkey addr wgkey addrPort | CallRestore wgkey | CallRekey wgkey wgkey wgkey

definition record_call :: "call \<Rightarrow> ('w, 'a) eff \<Rightarrow> ('w \<times> call list, 'a) eff" where
  "record_call c m w = inFst m (fst w, snd w @ [c])"

definition traceCalls :: "('k, 'h, 'r, 'w) meshEnv \<Rightarrow> ('k, 'h, 'r, 'w \<times> call list) meshEnv" where
  "traceCalls env = (mapEnv fst putFst env)
     \<lparr>enApply := \<lambda>key ip psk endpoint. record_call (CallApply key ip psk endpoint) (enApply env key ip psk endpoint),
      enRestore := \<lambda>key. record_call (CallRestore key) (enRestore env key),
      enRekey := map_option (\<lambda>(rekey, handshake).
        (\<lambda>key old new. record_call (CallRekey key old new) (rekey key old new), \<lambda>key. inFst (handshake key))) (enRekey env)\<rparr>"

lemma snd_inFst [simp]: "snd (snd (inFst m w)) = snd w"
  by (simp add: snd_through putFst_def)

lemma record_call_result: "record_call c m w = (r, w') \<Longrightarrow> snd w' = snd w @ [c]"
  by (auto simp: record_call_def putFst_def dest!: through_result)

lemma snd_record_call [simp]: "snd (snd (record_call c m w)) = snd w @ [c]"
  using record_call_result[of c m w] by (cases "record_call c m w") simp

end
