(* ===== verification/Daemon.thy ===== *)
theory Daemon
  imports Control Wiring
begin

text \<open>
  The program of \<^verbatim>\<open>main.go\<close> around the other parts: the command line, the lock on the
  journal, the controller or its read-only stand-in, the checks of the interface
  and of the routes (\<^verbatim>\<open>routes_linux.go\<close>), and the event loop between them.

  The world is what lies outside the process.  A non-dry run works on the state of
  the controller, which holds the world; the event loop also holds the sockets.
  \<open>mapHost\<close> lets the calls of the host act on the world inside the controller.
\<close>

section \<open>The controller the event loop sees\<close>

record 's routeControl =
  rcApply :: "wgkey \<Rightarrow> addr \<Rightarrow> wgkey \<Rightarrow> addrPort \<Rightarrow> ('s, unit) eff"
  rcRestore :: "wgkey \<Rightarrow> ('s, unit) eff"
  rcCheck :: "('s, unit) eff"
  rcRekey :: "((wgkey \<Rightarrow> wgkey \<Rightarrow> wgkey \<Rightarrow> ('s, unit) eff) \<times> (wgkey \<Rightarrow> ('s, time) eff)) option"
  rcDevice :: "('s, wgDevice) eff"

definition controllerRoutes :: "'w controlIO \<Rightarrow> 'w controller routeControl" where
  "controllerRoutes io = \<lparr>rcApply = Apply io, rcRestore = Restore io, rcCheck = Check io,
     rcRekey = Some (Rekey io, Handshake io), rcDevice = checkDevice io\<rparr>"

definition readOnlyDevice :: "'w controlIO \<Rightarrow> string \<Rightarrow> wgkey \<Rightarrow> ('w, wgDevice) eff" where
  "readOnlyDevice io name public = bindE (ioDevice io name) (\<lambda>d.
     if devPublic d \<noteq> public then throwE (Msg ''WireGuard identity changed'') else returnE d)"

definition readOnlyRoutes :: "'w controlIO \<Rightarrow> string \<Rightarrow> wgkey \<Rightarrow> 'w routeControl" where
  "readOnlyRoutes io name public = \<lparr>rcApply = \<lambda>_ _ _ _. throwE (Msg ''dry run cannot apply routes''),
     rcRestore = \<lambda>_. throwE (Msg ''dry run cannot restore routes''), rcCheck = thenE (readOnlyDevice io name public) (returnE ()),
     rcRekey = None, rcDevice = readOnlyDevice io name public\<rparr>"

section \<open>The host\<close>

text \<open>A route the kernel reports: its interface and the number of its further next hops.\<close>

record routeEntry =
  reLink :: int
  reMultiPath :: nat

record ('k, 'h, 'r, 's) host =
  hsEnv :: "('k, 'h, 'r, 's) meshEnv"
  hsLinux :: bool
  hsClient :: "('s, unit) eff"
  hsCloseClient :: "'s \<Rightarrow> 's"
  hsStat :: "string \<Rightarrow> 's \<Rightarrow> fsError option \<times> 's"
  hsEvalSymlinks :: "string \<Rightarrow> ('s, string) eff"
  hsBase :: "string \<Rightarrow> string"
  hsJoin :: "string \<Rightarrow> string \<Rightarrow> string"
  hsOpenLock :: "string \<Rightarrow> ('s, unit) eff"
  hsLockStat :: "string \<Rightarrow> ('s, fileInfo) eff"
  hsFlock :: "string \<Rightarrow> ('s, unit) eff"
  hsCloseLock :: "string \<Rightarrow> 's \<Rightarrow> 's"
  hsOpenConfig :: "string \<Rightarrow> ('s, bytes option) eff"
  hsDecode :: "config \<Rightarrow> bytes \<Rightarrow> (config \<times> bool) option"
  hsInterface :: "string \<Rightarrow> ('s, interfaceState) eff"
  hsInterfaces :: "('s, interfaceState list) eff"
  hsInterfaceIndex :: "string \<Rightarrow> ('s, int) eff"
  hsRouteGet :: "addr \<Rightarrow> addr \<Rightarrow> ('s, routeEntry list) eff"
  hsListen :: "bool \<Rightarrow> int \<Rightarrow> ('s, int) eff"
  hsShut :: "bool \<Rightarrow> 's \<Rightarrow> error option \<times> 's"
  hsWatch :: "'s \<Rightarrow> error option \<times> 's"
  hsPhysical :: "string \<Rightarrow> bool"
  hsOrder :: "(membership \<times> prefix list) list \<Rightarrow> (membership \<times> prefix list) list"
  hsLeave :: "membership \<Rightarrow> 's \<Rightarrow> 's"
  hsGroupJoin :: "membership \<Rightarrow> 's \<Rightarrow> error option \<times> 's"
  hsWrite :: "bool \<Rightarrow> bytes \<Rightarrow> addr \<Rightarrow> int \<Rightarrow> addrPort \<Rightarrow> 's \<Rightarrow> error option \<times> 's"
  hsNotify :: "string \<Rightarrow> 's \<Rightarrow> 's"
  hsAdapter :: "string \<Rightarrow> ('s, unit) eff"

definition mapHost :: "('s \<Rightarrow> 'w) \<Rightarrow> ('w \<Rightarrow> 's \<Rightarrow> 's) \<Rightarrow> ('k, 'h, 'r, 'w) host \<Rightarrow> ('k, 'h, 'r, 's) host" where
  "mapHost get put h =
     \<lparr>hsEnv = mapEnv get put (hsEnv h), hsLinux = hsLinux h, hsClient = through get put (hsClient h),
      hsCloseClient = \<lambda>s. put (hsCloseClient h (get s)) s, hsStat = \<lambda>p. through get put (hsStat h p),
      hsEvalSymlinks = \<lambda>p. through get put (hsEvalSymlinks h p),
      hsBase = hsBase h, hsJoin = hsJoin h,
      hsOpenLock = \<lambda>p. through get put (hsOpenLock h p), hsLockStat = \<lambda>p. through get put (hsLockStat h p),
      hsFlock = \<lambda>p. through get put (hsFlock h p), hsCloseLock = \<lambda>p s. put (hsCloseLock h p (get s)) s,
      hsOpenConfig = \<lambda>p. through get put (hsOpenConfig h p), hsDecode = hsDecode h,
      hsInterface = \<lambda>n. through get put (hsInterface h n),
      hsInterfaces = through get put (hsInterfaces h), hsInterfaceIndex = \<lambda>n. through get put (hsInterfaceIndex h n),
      hsRouteGet = \<lambda>a b. through get put (hsRouteGet h a b), hsListen = \<lambda>v4 p. through get put (hsListen h v4 p),
      hsShut = \<lambda>v4. through get put (hsShut h v4), hsWatch = through get put (hsWatch h), hsPhysical = hsPhysical h,
      hsOrder = hsOrder h, hsLeave = \<lambda>m s. put (hsLeave h m (get s)) s, hsGroupJoin = \<lambda>m. through get put (hsGroupJoin h m),
      hsWrite = \<lambda>v4 d src i dst. through get put (hsWrite h v4 d src i dst), hsNotify = \<lambda>msg s. put (hsNotify h msg (get s)) s,
      hsAdapter = \<lambda>p. through get put (hsAdapter h p)\<rparr>"

section \<open>Checks before and during a run\<close>

definition liftSum :: "error + 'a \<Rightarrow> ('s, 'a) eff" where
  "liftSum r = (case r of Inl e \<Rightarrow> throwE e | Inr a \<Rightarrow> returnE a)"

fun checkLinkRoutes :: "(addr \<Rightarrow> addr \<Rightarrow> ('s, routeEntry list) eff) \<Rightarrow> int \<Rightarrow> addr \<Rightarrow> peerSpec list \<Rightarrow> ('s, unit) eff" where
  "checkLinkRoutes query index source [] = returnE ()"
| "checkLinkRoutes query index source (p # ps) = bindE (query (psIP p) source) (\<lambda>routes.
     thenE (failIf (length routes \<noteq> 1 \<or> reLink (hd routes) \<noteq> index \<or> reMultiPath (hd routes) \<noteq> 0)
              (Msg ''stable route must select the interface''))
           (checkLinkRoutes query index source ps))"

definition checkRoutes :: "('k, 'h, 'r, 's) host \<Rightarrow> string \<Rightarrow> addr \<Rightarrow> peerSpec list \<Rightarrow> ('s, unit) eff" where
  "checkRoutes h name source peers = bindE (hsInterfaceIndex h name) (\<lambda>index. checkLinkRoutes (hsRouteGet h) index source peers)"

definition readTunnel :: "('k, 'h, 'r, 's) host \<Rightarrow> string \<Rightarrow> addr \<Rightarrow> ('s, linkAddr) eff" where
  "readTunnel h name address = bindE (tryE (hsInterface h name)) (\<lambda>state. liftSum (tunnelLink (enItoa (hsEnv h)) name address state))"

definition checkRuntime :: "('k, 'h, 'r, 's) host \<Rightarrow> string \<Rightarrow> config \<Rightarrow> linkAddr \<Rightarrow> int \<Rightarrow> ('s, wgDevice) eff \<Rightarrow> ('s, unit) eff" where
  "checkRuntime h name c tunnel port dev = bindE (readTunnel h name (cfAddress c)) (\<lambda>current.
     thenE (failIf (lkIndex current \<noteq> lkIndex tunnel) (Msg ''WireGuard interface was replaced''))
    (bindE dev (\<lambda>d.
     thenE (failIf (devPort d \<noteq> port) (Msg ''WireGuard listen port changed''))
           (checkLinkRoutes (hsRouteGet h) (lkIndex current) (cfAddress c) (cfPeers c)))))"

fun checkPeerOwners :: "wgDevice \<Rightarrow> peerSpec list \<Rightarrow> error option" where
  "checkPeerOwners d [] = None"
| "checkPeerOwners d (p # ps) =
    (if controlFindPeer d (psKey p) \<noteq> None then Some (Msg ''peer already exists in WireGuard'')
     else case controlOwner d (psIP p) 0 of
         Inl e \<Rightarrow> Some e
       | Inr (owner, _) \<Rightarrow>
           if owner = 0 \<or> owner = devPublic d then Some (Msg ''peer has no stable WireGuard route'')
           else checkPeerOwners d ps)"

definition checkPeers :: "wgDevice \<Rightarrow> peerSpec list \<Rightarrow> error option" where
  "checkPeers d peers =
    (if devType d \<noteq> LinuxKernel then Some (Msg ''this version requires a Linux kernel WireGuard interface'')
     else checkPeerOwners d peers)"

section \<open>The event loop and its sockets\<close>

definition underlaySend :: "('k, 'h, 'r, 's) host \<Rightarrow> bytes \<Rightarrow> addrPort \<Rightarrow> linkAddr \<Rightarrow> ('s \<times> udpNetwork, unit) eff" where
  "underlaySend h data addr link w =
    (case Send (enItoa (hsEnv h)) (hsLinux h) (hsWrite h) (snd w) data addr link (fst w) of
       (None, s) \<Rightarrow> (Inr (), (s, snd w))
     | (Some e, s) \<Rightarrow> (Inl e, (s, snd w)))"

definition refreshLinks :: "('k, 'h, 'r, 's) host \<Rightarrow> udpNetwork \<Rightarrow> 's \<Rightarrow> (error + linkAddr list) \<times> udpNetwork \<times> 's" where
  "refreshLinks h n s = (case (if unDone n then (Inr [], s) else hsInterfaces h s) of (interfaces, s1) \<Rightarrow>
     Links (hsPhysical h) (enPrefixText (hsEnv h)) (hsOrder h) (hsLeave h) (hsGroupJoin h) interfaces n s1)"

definition underlayLinks :: "('k, 'h, 'r, 's) host \<Rightarrow> ('s \<times> udpNetwork, linkAddr list) eff" where
  "underlayLinks h w = (case refreshLinks h (snd w) (fst w) of (r, n, s) \<Rightarrow> (r, (s, n)))"

definition daemonMesh :: "('k, 'h, 'r, 's) host \<Rightarrow> string \<Rightarrow> config \<Rightarrow> 's routeControl \<Rightarrow> wgkey \<Rightarrow> int \<Rightarrow> linkAddr \<Rightarrow> bool \<Rightarrow>
    ('k, 'h, 'r, 's \<times> udpNetwork) meshEnv" where
  "daemonMesh h name c rc private_key port tunnel dry =
    (let verify = inFst (checkRuntime h name c tunnel port (rcDevice rc)) in
     (mapEnv fst putFst (hsEnv h))
       \<lparr>enConfig := c, enPublic := crPublic (enCrypto (hsEnv h)) private_key, enWgPort := of_int port, enTunnel := tunnel, enDry := dry,
        enSend := underlaySend h, enLinks := underlayLinks h,
        enApply := \<lambda>key ip psk endpoint. inFst (rcApply rc key ip psk endpoint), enRestore := \<lambda>key. inFst (rcRestore rc key),
        enCheck := inFst (rcCheck rc),
        enRekey := map_option (\<lambda>(rekey, handshake). (\<lambda>key old new. inFst (rekey key old new), \<lambda>key. inFst (handshake key))) (rcRekey rc),
        enVerify := Some verify, enInspect := Some verify,
        enNotify := Some (\<lambda>w. (hsNotify h ''WATCHDOG=1'' (fst w), snd w))\<rparr>)"

text \<open>The loop with its sockets open; they are closed when it ends.\<close>

definition serveMesh :: "('k, 'h, 'r, 's \<times> udpNetwork) meshEnv \<Rightarrow> ('k, 'h, 'r, 's) host \<Rightarrow> loopEvent list \<Rightarrow> 'r \<Rightarrow> wgkey \<Rightarrow> udpNetwork \<Rightarrow>
    ('s, unit) eff" where
  "serveMesh env h es random private_key n s =
    (case meshRun env es (newMesh env random private_key (hsNotify h ''READY=1'' s, n)) of
       (r, m) \<Rightarrow> (r, snd (snd (closeNetwork (hsShut h) (snd (meWorld m)) (hsNotify h ''STOPPING=1'' (fst (meWorld m)))))))"

text \<open>
  From reading the configuration to the end of the loop.  \<open>openNetwork\<close> has an error
  whenever it returns no network.
\<close>

definition serve :: "('k, 'h, 'r, 's) host \<Rightarrow> ('s, wgDevice) eff \<Rightarrow> string \<Rightarrow> string \<Rightarrow> 's routeControl \<Rightarrow> wgkey \<Rightarrow> int \<Rightarrow> bool \<Rightarrow>
    loopEvent list \<Rightarrow> 'r \<Rightarrow> ('s, unit) eff" where
  "serve h dev name file rc private_key port dry es random =
     bindE (hsOpenConfig h file) (\<lambda>body.
     bindE (liftSum (readConfig (hsDecode h) (enParseKey (hsEnv h)) body)) (\<lambda>c.
     thenE (failIf (private_key = 0 \<or> port \<le> 0 \<or> port > 65535 \<or> of_int port = cfPort c)
              (Msg ''WireGuard needs a private key and a nonzero listen port distinct from the discovery port''))
    (thenE (failIf (list_ex (\<lambda>p. psKey p = crPublic (enCrypto (hsEnv h)) private_key) (cfPeers c))
              (Msg ''peer list contains the local identity''))
    (bindE dev (\<lambda>d.
     thenE (liftErr (checkPeers d (cfPeers c)))
    (bindE (readTunnel h name (cfAddress c)) (\<lambda>tunnel.
     thenE (checkRoutes h name (cfAddress c) (cfPeers c))
    (\<lambda>s. case openNetwork (hsListen h) (hsShut h) (hsWatch h) (refreshLinks h) (uint (cfPort c)) (cfInclude c) (cfExclude c)
            (groups c) name s of
        (Inl e, s') \<Rightarrow> (Inl (case e of None \<Rightarrow> goPanic | Some e \<Rightarrow> e), s')
      | (Inr n, s') \<Rightarrow> serveMesh (daemonMesh h name c rc private_key port tunnel dry) h es random private_key n s'))))))))"

section \<open>The program\<close>

definition unsafeLock :: "nat \<Rightarrow> fileInfo \<Rightarrow> bool" where
  "unsafeLock uid info \<longleftrightarrow> \<not> fiRegular info \<or> fiPerm info \<noteq> 384 \<or> fiUid info \<noteq> uid"

text \<open>Resolve the directory, require that it is private, and take the lock, or close the lock file again.\<close>

definition lockJournal :: "('k, 'h, 'r, 'w) host \<Rightarrow> 'w controlIO \<Rightarrow> string \<Rightarrow> ('w, string) eff" where
  "lockJournal h io path =
     thenE (\<lambda>s. case ioMkdir io (ioDir io path) s of
         (None, s') \<Rightarrow> (Inr (), s') | (Some Exists, s') \<Rightarrow> (Inr (), s')
       | (Some NotExist, s') \<Rightarrow> (Inl (Msg ''file does not exist''), s') | (Some (FsError e), s') \<Rightarrow> (Inl e, s'))
    (bindE (hsEvalSymlinks h (ioDir io path)) (\<lambda>dir.
     thenE (controlCheckDir io dir)
    (let resolved = hsJoin h dir (hsBase h path); lock = resolved @ ''.lock'' in
     thenE (hsOpenLock h lock)
    (bindE (tryE (bindE (hsLockStat h lock) (\<lambda>info.
       thenE (failIf (unsafeLock (ioUid io) info) (Msg ''unsafe journal lock file'')) (hsFlock h lock)))) (\<lambda>r. case r of
         Inl e \<Rightarrow> thenE (modifyE (hsCloseLock h lock)) (throwE (Wrap ''lock recovery journal'' e))
       | Inr _ \<Rightarrow> returnE resolved)))))"

definition finallyE :: "('s, 'a) eff \<Rightarrow> ('s \<Rightarrow> 's) \<Rightarrow> ('s, 'a) eff" where
  "finallyE m f s = (case m s of (r, s') \<Rightarrow> (r, f s'))"

abbreviation putWorld :: "'w \<Rightarrow> 'w controller \<Rightarrow> 'w controller" where
  "putWorld w s \<equiv> s\<lparr>ctlWorld := w\<rparr>"

text \<open>With a controller: whatever ends the service, every managed peer is restored before the process ends.\<close>

definition controlService :: "('k, 'h, 'r, 'w) host \<Rightarrow> 'w controlIO \<Rightarrow> string \<Rightarrow> string \<Rightarrow> bool \<Rightarrow> loopEvent list \<Rightarrow> 'r \<Rightarrow> ('w controller, unit) eff" where
  "controlService h io name file restoring es random =
     bothE (if restoring then returnE ()
            else bindE (getsE Identity) (\<lambda>(private_key, port).
              serve (mapHost ctlWorld putWorld h) (inWorld (ioDevice io name)) name file (controllerRoutes io) private_key port False es random))
           (RestoreAll io)"

definition controlRun :: "('k, 'h, 'r, 'w) host \<Rightarrow> 'w controlIO \<Rightarrow> string \<Rightarrow> string \<Rightarrow> string \<Rightarrow> bool \<Rightarrow> loopEvent list \<Rightarrow> 'r \<Rightarrow> ('w, unit) eff" where
  "controlRun h io name file state restoring es random = bindE (lockJournal h io state) (\<lambda>resolved.
     finallyE (\<lambda>w. case newController io name resolved w of
        (Inl e, w') \<Rightarrow> (Inl e, w')
      | (Inr c, _) \<Rightarrow> (case controlService h io name file restoring es random c of (r, c') \<Rightarrow> (r, ctlWorld c')))
       (hsCloseLock h (resolved @ ''.lock'')))"

definition dryRun :: "('k, 'h, 'r, 'w) host \<Rightarrow> 'w controlIO \<Rightarrow> string \<Rightarrow> string \<Rightarrow> string \<Rightarrow> loopEvent list \<Rightarrow> 'r \<Rightarrow> ('w, unit) eff" where
  "dryRun h io name file state es random =
     thenE (\<lambda>w. case hsStat h state w of
         (None, w') \<Rightarrow> (Inl (Msg ''recover and remove the old journal before a dry run''), w')
       | (Some NotExist, w') \<Rightarrow> (Inr (), w')
       | (Some Exists, w') \<Rightarrow> (Inl (Msg ''file already exists''), w')
       | (Some (FsError e), w') \<Rightarrow> (Inl e, w'))
    (bindE (ioDevice io name) (\<lambda>d.
     serve h (ioDevice io name) name file (readOnlyRoutes io name (devPublic d)) (devPrivate d) (devPort d) True es random))"

text \<open>The command line as the \<^verbatim>\<open>flag\<close> package leaves it.\<close>

record options =
  opWireguard :: string
  opConfig :: string
  opState :: string
  opRestore :: bool
  opDry :: bool
  opAdapter :: string
  opNArg :: nat

definition configFile :: "options \<Rightarrow> string" where
  "configFile opts = (if opConfig opts = [] then ''/etc/wireguard-mesh/'' @ opWireguard opts @ ''.json'' else opConfig opts)"

definition stateFile :: "options \<Rightarrow> string" where
  "stateFile opts = (if opState opts = [] then ''/var/lib/wireguard-mesh-'' @ opWireguard opts @ ''/recovery.json'' else opState opts)"

definition daemonRun :: "('k, 'h, 'r, 'w) host \<Rightarrow> 'w controlIO \<Rightarrow> options \<Rightarrow> loopEvent list \<Rightarrow> 'r \<Rightarrow> ('w, unit) eff" where
  "daemonRun h io opts es random =
    (if opAdapter opts \<noteq> [] then
       thenE (failIf (opWireguard opts \<noteq> [] \<or> opConfig opts \<noteq> [] \<or> opState opts \<noteq> [] \<or> opRestore opts \<or> opDry opts \<or> opNArg opts \<noteq> 0)
                (Msg ''-rosenpass-adapter cannot be combined with daemon options''))
             (hsAdapter h (opAdapter opts))
     else
       thenE (failIf (\<not> validName (opWireguard opts) \<or> opNArg opts \<noteq> 0) (Msg ''pass -wireguard NAME for one existing WireGuard interface''))
      (thenE (failIf (\<not> hsLinux h) (Msg ''the service supports Linux only''))
      (thenE (failIf (opRestore opts \<and> opDry opts) (Msg ''-restore and -dry-run are mutually exclusive''))
      (thenE (hsClient h)
      (finallyE (if opDry opts then dryRun h io (opWireguard opts) (configFile opts) (stateFile opts) es random
                 else controlRun h io (opWireguard opts) (configFile opts) (stateFile opts) (opRestore opts) es random)
                (hsCloseClient h))))))"

end
