(* ===== verification/SecureSafety.thy ===== *)
theory SecureSafety
  imports Secure
begin

text \<open>
  What the control channel guarantees: the replay window refines the set of
  accepted counters, session tables stay bounded and well formed, counters and
  locally chosen identifiers are never reused, a packet that is refused changes
  no session, and the rate limits bound what outsiders can trigger.
\<close>

section \<open>Replay filters\<close>

text \<open>
  A replay filter keeps a state from which it tells whether a counter must be
  refused.  \<open>rep A s\<close> says that \<open>s\<close> stands for the set \<open>A\<close> of accepted counters.
\<close>

fun accepted :: "('s \<Rightarrow> 'n \<Rightarrow> bool) \<Rightarrow> ('s \<Rightarrow> 'n \<Rightarrow> 's) \<Rightarrow> 's \<Rightarrow> 'n list \<Rightarrow> 'n list" where
  "accepted refuse mark s [] = []"
| "accepted refuse mark s (n # ns) =
    (if refuse s n then accepted refuse mark s ns else n # accepted refuse mark (mark s n) ns)"

definition filterAll :: "('s \<Rightarrow> 'n \<Rightarrow> bool) \<Rightarrow> ('s \<Rightarrow> 'n \<Rightarrow> 's) \<Rightarrow> 's \<Rightarrow> 'n list \<Rightarrow> 's" where
  "filterAll refuse mark = foldl (\<lambda>s n. if refuse s n then s else mark s n)"

locale replay_filter =
  fixes refuse :: "'s \<Rightarrow> 'n \<Rightarrow> bool" and mark :: "'s \<Rightarrow> 'n \<Rightarrow> 's" and rep :: "'n set \<Rightarrow> 's \<Rightarrow> bool"
  assumes refuse_accepted: "rep A s \<Longrightarrow> n \<in> A \<Longrightarrow> refuse s n"
    and rep_mark: "rep A s \<Longrightarrow> \<not> refuse s n \<Longrightarrow> rep (insert n A) (mark s n)"
begin

lemma accepted_fresh: "rep A s \<Longrightarrow> set (accepted refuse mark s ns) \<inter> A = {} \<and> distinct (accepted refuse mark s ns)"
proof (induction ns arbitrary: A s)
  case Nil
  then show ?case by simp
next
  case (Cons n ns)
  show ?case
  proof (cases "refuse s n")
    case True
    with Cons show ?thesis by simp
  next
    case False
    with Cons.IH[OF rep_mark[OF Cons.prems False]] refuse_accepted[OF Cons.prems, of n] show ?thesis by auto
  qed
qed

lemma rep_filterAll: "rep A s \<Longrightarrow> rep (A \<union> set (accepted refuse mark s ns)) (filterAll refuse mark s ns)"
proof (induction ns arbitrary: A s)
  case Nil
  then show ?case by (simp add: filterAll_def)
next
  case (Cons n ns)
  then show ?case
    using Cons.IH[OF Cons.prems] Cons.IH[OF rep_mark[OF Cons.prems]] by (auto simp: filterAll_def)
qed

end

definition windowRep :: "64 word set \<Rightarrow> 64 word \<times> 64 word \<Rightarrow> bool" where
  "windowRep A hw = (case hw of (h, w) \<Rightarrow>
     (A = {} \<and> h = 0 \<or> h \<in> A) \<and> (\<forall>a \<in> A. a \<le> h) \<and>
     (\<forall>i < 64. bit w i \<longleftrightarrow> i \<le> unat h \<and> h - of_nat i \<in> A))"

lemma spent_bit: "spent (h, w) n \<longleftrightarrow> n \<le> h \<and> (unat h - unat n \<ge> 64 \<or> bit w (unat h - unat n))"
proof -
  have "unat (h - n) = unat h - unat n" if "n \<le> h" using that by (simp add: unat_sub)
  moreover have "h - n \<ge> 64 \<longleftrightarrow> unat (h - n) \<ge> 64" by (simp add: word_le_nat_alt)
  ultimately show ?thesis
    by (auto simp: spent_def bit_iff_and_push_bit_not_eq_0)
qed

lemma sub_of_nat: "n \<le> h \<Longrightarrow> h - of_nat (unat h - unat n) = (n :: 64 word)"
  by (simp flip: unat_sub)

lemma unat_small: "i < 64 \<Longrightarrow> unat (of_nat i :: 64 word) = i"
  by (simp add: unat_of_nat)

lemma windowRep_spent:
  assumes "windowRep A (h, w)"
  shows "spent (h, w) n \<longleftrightarrow> n \<in> A \<or> (\<exists>a \<in> A. unat n + 64 \<le> unat a)"
proof (cases "n \<le> h")
  case True
  then have le: "unat n \<le> unat h" by (simp add: word_le_nat_alt)
  have far: "unat h - unat n \<ge> 64 \<longleftrightarrow> (\<exists>a \<in> A. unat n + 64 \<le> unat a)"
  proof
    assume "unat h - unat n \<ge> 64"
    with assms le show "\<exists>a \<in> A. unat n + 64 \<le> unat a" by (auto simp: windowRep_def intro!: bexI[of _ h])
  next
    assume "\<exists>a \<in> A. unat n + 64 \<le> unat a"
    with assms le show "unat h - unat n \<ge> 64" by (auto simp: windowRep_def word_le_nat_alt)
  qed
  have "bit w (unat h - unat n) \<longleftrightarrow> n \<in> A" if "unat h - unat n < 64"
    using assms that True by (auto simp: windowRep_def sub_of_nat)
  with far True show ?thesis by (auto simp: spent_bit not_le)
next
  case False
  with assms show ?thesis by (auto simp: spent_bit windowRep_def word_le_nat_alt)
qed

lemma windowRep_advance:
  assumes rep: "windowRep A (h, w)" and "h < n"
  shows "windowRep (insert n A) (n, push_bit (unat (n - h)) w OR 1)"
proof -
  have nh: "unat h < unat n" "unat (n - h) = unat n - unat h"
    using assms(2) unat_sub[of h n] by (simp_all add: word_less_nat_alt word_le_nat_alt)
  have "bit (push_bit (unat (n - h)) w OR 1) i \<longleftrightarrow> i \<le> unat n \<and> n - of_nat i \<in> insert n A" if i: "i < 64" for i
  proof (cases "i = 0")
    case True
    then show ?thesis by (simp add: bit_or_iff bit_1_iff)
  next
    case False
    have "of_nat i \<noteq> (0 :: 64 word)" using False unat_small[OF i] by (metis unat_0)
    then have new: "n - of_nat i \<noteq> n" by simp
    show ?thesis
    proof (cases "unat n - unat h \<le> i")
      case True
      let ?j = "i - (unat n - unat h)"
      have "n - of_nat i = h - of_nat ?j" if "i \<le> unat n"
      proof -
        have "of_nat ?j = of_nat i - (n - h)" using True nh by (simp add: of_nat_diff)
        then show ?thesis by simp
      qed
      moreover have "i \<le> unat n \<longleftrightarrow> ?j \<le> unat h" using True nh by auto
      moreover have "bit w ?j \<longleftrightarrow> ?j \<le> unat h \<and> h - of_nat ?j \<in> A" using rep i by (auto simp: windowRep_def)
      ultimately show ?thesis using True False i nh new by (auto simp: bit_or_iff bit_1_iff bit_push_bit_iff)
    next
      case beyond: False
      have "n - of_nat i \<notin> A"
      proof
        assume "n - of_nat i \<in> A"
        with rep have "unat (n - of_nat i) \<le> unat h" by (auto simp: windowRep_def word_le_nat_alt)
        moreover have "unat (n - of_nat i) = unat n - i"
          using beyond i by (subst unat_sub) (auto simp: word_le_nat_alt unat_small)
        ultimately show False using beyond nh by simp
      qed
      with beyond False new nh show ?thesis by (auto simp: bit_or_iff bit_1_iff bit_push_bit_iff)
    qed
  qed
  with rep assms(2) show ?thesis by (auto simp: windowRep_def)
qed

lemma windowRep_within:
  assumes rep: "windowRep A (h, w)" and "n \<le> h" and near: "unat h - unat n < 64"
  shows "windowRep (insert n A) (h, w OR push_bit (unat (h - n)) 1)"
proof -
  have "bit (w OR push_bit (unat (h - n)) 1) i \<longleftrightarrow> i \<le> unat h \<and> h - of_nat i \<in> insert n A" if i: "i < 64" for i
  proof -
    have "h - of_nat i = n \<longleftrightarrow> of_nat i = h - n" by (auto simp: algebra_simps)
    then have "h - of_nat i = n \<longleftrightarrow> i = unat h - unat n"
      using unat_small[OF i] unat_sub[OF assms(2)] by (simp add: word_unat_eq_iff)
    moreover have "bit w i \<longleftrightarrow> i \<le> unat h \<and> h - of_nat i \<in> A" using rep i by (auto simp: windowRep_def)
    ultimately show ?thesis
      using i unat_sub[OF assms(2)] assms(2) by (auto simp: bit_or_iff bit_exp_iff word_le_nat_alt)
  qed
  with rep assms(2) show ?thesis by (auto simp: windowRep_def)
qed

lemma windowRep_spend:
  assumes "windowRep A hw" and "\<not> spent hw n"
  shows "windowRep (insert n A) (spend hw n)"
proof -
  obtain h w where hw: "hw = (h, w)" by (cases hw)
  show ?thesis
  proof (cases "h < n")
    case True
    with windowRep_advance[of A h w n] assms(1) show ?thesis by (simp add: hw spend_def)
  next
    case False
    with windowRep_within[of A h w n] assms show ?thesis by (auto simp: hw spend_def spent_bit not_less)
  qed
qed

interpretation replay: replay_filter spent spend windowRep
  by unfold_locales (auto simp: windowRep_spent windowRep_spend)

lemma windowRep_init: "windowRep {} (0, 0)"
  by (simp add: windowRep_def)

text \<open>
  C32: The replay window is exact.  Starting from a new session, whatever sequence of counters
  arrives, no counter is accepted twice, and a counter is refused exactly if it was accepted
  before or lies 64 or more below a counter that was.
\<close>

theorem replay_window_exact:
  "distinct (accepted spent spend (0, 0) ns) \<and>
   (spent (filterAll spent spend (0, 0) ns) n \<longleftrightarrow>
      n \<in> set (accepted spent spend (0, 0) ns) \<or>
      (\<exists>a \<in> set (accepted spent spend (0, 0) ns). unat n + 64 \<le> unat a))"
proof
  show "distinct (accepted spent spend (0, 0) ns)" using replay.accepted_fresh[OF windowRep_init] by blast
  obtain h w where hw: "filterAll spent spend (0, 0) ns = (h, w)" by (cases "filterAll spent spend (0, 0) ns")
  show "spent (filterAll spent spend (0, 0) ns) n \<longleftrightarrow> n \<in> set (accepted spent spend (0, 0) ns) \<or>
      (\<exists>a \<in> set (accepted spent spend (0, 0) ns). unat n + 64 \<le> unat a)"
    using windowRep_spent[of "set (accepted spent spend (0, 0) ns)" h w] replay.rep_filterAll[OF windowRep_init, of ns]
    by (simp add: hw)
qed

section \<open>Session tables\<close>

definition shape :: "(sid \<times> 'k secureSession) list \<Rightarrow> (sid \<times> wgkey) list" where
  "shape = map (\<lambda>(i, ss). (i, ssPeer ss))"

definition tableOK :: "(sid \<times> wgkey) list \<Rightarrow> bool" where
  "tableOK t \<longleftrightarrow> distinct (map fst t) \<and> length t \<le> 512 \<and> (\<forall>p. length (filter (\<lambda>e. snd e = p) t) \<le> 64)"

definition approved :: "('k, 'r) secure \<Rightarrow> wgkey set" where
  "approved s = fst ` set (secPeers s)"

lemma approved_iff: "map_of (secPeers s) p = None \<longleftrightarrow> p \<notin> approved s"
  by (simp add: approved_def map_of_eq_None_iff)

lemma approved_update [simp]:
  "approved (s\<lparr>secSessions := xs\<rparr>) = approved s" "approved (s\<lparr>secRandom := r\<rparr>) = approved s"
  "approved (s\<lparr>secGlobal := g\<rparr>) = approved s" "approved (s\<lparr>secOpenRate := g\<rparr>) = approved s"
  "approved (s\<lparr>secIds := k\<rparr>) = approved s" "approved (s\<lparr>secSerial := n\<rparr>) = approved s"
  "approved (expire now s) = approved s"
  "approved (s\<lparr>secPeers := AList.update p v (secPeers s)\<rparr>) = insert p (approved s)"
  by (simp_all add: approved_def expire_def keys_update)

definition sessionOK :: "('k, 'r) secure \<Rightarrow> sid \<times> 'k secureSession \<Rightarrow> bool" where
  "sessionOK s e = (case e of (i, ss) \<Rightarrow> i \<noteq> 0 \<and> ssPeer ss \<in> approved s \<and>
     (ssReady ss \<longrightarrow> ssTx ss \<noteq> None \<and> ssRx ss \<noteq> None) \<and> (ssTx ss = None \<longleftrightarrow> ssRx ss = None))"

definition secOK :: "('k, 'r) secure \<Rightarrow> bool" where
  "secOK s \<longleftrightarrow> tableOK (shape (secSessions s)) \<and> (\<forall>e \<in> set (secSessions s). sessionOK s e)"

lemma shape_simps [simp]: "length (shape xs) = length xs" "map fst (shape xs) = map fst xs" "shape [] = []"
  "shape (xs @ ys) = shape xs @ shape ys" "shape ((i, ss) # xs) = (i, ssPeer ss) # shape xs"
  by (simp_all add: shape_def split_beta)

lemma length_filter_shape: "length (filter (\<lambda>(_, ss). ssPeer ss = p) xs) = length (filter (\<lambda>e. snd e = p) (shape xs))"
  by (induction xs) (auto simp: shape_def)

lemma tableOK_subset:
  assumes "tableOK t" and "distinct (map fst t')" and "length t' \<le> length t"
    and "\<And>p. length (filter (\<lambda>e. snd e = p) t') \<le> length (filter (\<lambda>e. snd e = p) t)"
  shows "tableOK t'"
  using assms unfolding tableOK_def by (meson order_trans)

lemma count_filter: "length (filter (\<lambda>e. snd e = p) (shape (filter P xs))) \<le> length (filter (\<lambda>e. snd e = p) (shape xs))"
  by (induction xs) auto

lemma tableOK_filter:
  assumes "tableOK (shape xs)"
  shows "tableOK (shape (filter P xs))"
  by (rule tableOK_subset[OF assms]) (use assms in \<open>auto simp: tableOK_def count_filter intro: distinct_map_filter\<close>)

lemma shape_replace: "map_of xs i = Some ss \<Longrightarrow> ssPeer ss' = ssPeer ss \<Longrightarrow> shape (AList.update i ss' xs) = shape xs"
  by (induction xs) auto

lemma sessionOK_peers: "approved s' = approved s \<Longrightarrow> sessionOK s' = sessionOK s"
  by (auto simp: sessionOK_def fun_eq_iff)

lemma secOK_expire: "secOK s \<Longrightarrow> secOK (expire now s)"
  using sessionOK_peers[of "expire now s" s] by (auto simp: secOK_def expire_def tableOK_filter)

lemma secOK_insert:
  assumes "secOK s" and "room peer s" and "map_of (secSessions s) i = None" and "sessionOK s (i, ss)" and "ssPeer ss = peer"
  shows "secOK (s\<lparr>secSessions := AList.update i ss (secSessions s)\<rparr>)"
proof -
  let ?s = "s\<lparr>secSessions := AList.update i ss (secSessions s)\<rparr>"
  have "tableOK (shape (secSessions s) @ [(i, peer)])"
    using assms(1-3) unfolding secOK_def tableOK_def room_def
    by (auto simp: length_filter_shape map_of_eq_None_iff Suc_le_eq le_less)
  moreover have "sessionOK ?s = sessionOK s" by (rule sessionOK_peers) simp
  ultimately show ?thesis using assms by (auto simp: secOK_def update_absent)
qed

lemma secOK_replace:
  assumes "secOK s" and "map_of (secSessions s) i = Some ss" and "ssPeer ss' = ssPeer ss" and "sessionOK s (i, ss')"
  shows "secOK (s\<lparr>secSessions := AList.update i ss' (secSessions s)\<rparr>)"
  using assms sessionOK_peers[of "s\<lparr>secSessions := AList.update i ss' (secSessions s)\<rparr>" s]
  by (auto simp: secOK_def shape_replace dest: set_update_cases)

lemma secOK_frame:
  assumes "secSessions s' = secSessions s" and "approved s' = approved s"
  shows "secOK s' \<longleftrightarrow> secOK s"
  using sessionOK_peers[OF assms(2)] assms(1) by (simp add: secOK_def)

lemma secOK_session: "secOK s \<Longrightarrow> map_of (secSessions s) i = Some ss \<Longrightarrow> sessionOK s (i, ss)"
  by (auto simp: secOK_def dest: map_of_SomeD)

lemma pruneSession_Some:
  assumes "pruneSession used now (i, ss) = Some e"
  obtains ss' where "e = (i, ss')" and "ssPeer ss' = ssPeer ss" and "ssTx ss' = ssTx ss" and "ssRx ss' = ssRx ss"
    and "ssReady ss' = ssReady ss" and "ssNext ss' = ssNext ss" and "ssHighest ss' = ssHighest ss"
    and "ssWindow ss' = ssWindow ss"
proof -
  from assms have "e = (i, ss\<lparr>ssUnusedSince := ssUnusedSince (snd e)\<rparr>)"
    by (auto simp: pruneSession_def split: if_splits)
  then show thesis by (rule that) simp_all
qed

lemma shape_prune:
  "set (map fst (List.map_filter (pruneSession used now) xs)) \<subseteq> set (map fst xs) \<and>
   (distinct (map fst xs) \<longrightarrow> distinct (map fst (List.map_filter (pruneSession used now) xs))) \<and>
   length (List.map_filter (pruneSession used now) xs) \<le> length xs \<and>
   length (filter (\<lambda>e. snd e = p) (shape (List.map_filter (pruneSession used now) xs))) \<le> length (filter (\<lambda>e. snd e = p) (shape xs))"
proof (induction xs)
  case Nil
  then show ?case by (simp add: map_filter_simps)
next
  case (Cons e xs)
  obtain i ss where e: "e = (i, ss)" by (cases e)
  show ?case
  proof (cases "pruneSession used now e")
    case None
    with Cons show ?thesis by (auto simp: map_filter_simps e)
  next
    case (Some e')
    with e obtain ss' where "e' = (i, ss')" "ssPeer ss' = ssPeer ss" by (auto elim: pruneSession_Some)
    with Cons Some show ?thesis by (auto simp: map_filter_simps e)
  qed
qed

lemma prune_member:
  assumes "x \<in> set (List.map_filter (pruneSession used now) xs)"
  obtains i ss where "(i, ss) \<in> set xs" and "pruneSession used now (i, ss) = Some x"
  using assms by (auto simp: map_filter_def)

lemma secOK_Prune:
  assumes "secOK s"
  shows "secOK (Prune used now s)"
proof -
  let ?s = "expire now s"
  let ?t = "List.map_filter (pruneSession used now) (secSessions ?s)"
  have e: "secOK ?s" using assms by (rule secOK_expire)
  have peers: "sessionOK (Prune used now s) = sessionOK ?s"
    by (rule sessionOK_peers) (simp add: Prune_def Let_def)
  have "tableOK (shape ?t)"
  proof (rule tableOK_subset)
    show "tableOK (shape (secSessions ?s))" using e by (simp add: secOK_def)
    then show "distinct (map fst (shape ?t))" using shape_prune[of used now "secSessions ?s"] by (auto simp: tableOK_def)
  qed (use shape_prune[of used now "secSessions ?s"] in auto)
  moreover have "sessionOK ?s x" if "x \<in> set ?t" for x
  proof -
    from that obtain i ss where m: "(i, ss) \<in> set (secSessions ?s)" and p: "pruneSession used now (i, ss) = Some x"
      by (rule prune_member)
    from m e have "sessionOK ?s (i, ss)" by (simp add: secOK_def)
    with p show ?thesis by (auto simp: sessionOK_def elim: pruneSession_Some)
  qed
  moreover have "secSessions (Prune used now s) = ?t" by (simp add: Prune_def Let_def)
  ultimately show ?thesis by (simp add: secOK_def peers)
qed

section \<open>Effects of the operations\<close>

lemma readRandom_wp:
  assumes "\<And>x r. Q x (s\<lparr>secRandom := r\<rparr>)" and "\<And>e r. E e (s\<lparr>secRandom := r\<rparr>)"
  shows "wpE (readRandom cr n) Q E s"
  using assms by (auto simp: wpE_def readRandom_def split: prod.split sum.split)

lemma wpE_putSession [wp]:
  "wpE (putSession i ss) Q E s \<longleftrightarrow> Q () (s\<lparr>secSessions := AList.update i ss (secSessions s)\<rparr>)"
  by (simp add: putSession_def wp)

lemma wpE_dropSession [wp]:
  "wpE (dropSession i) Q E s \<longleftrightarrow> Q () (s\<lparr>secSessions := AList.delete i (secSessions s)\<rparr>)"
  by (simp add: dropSession_def wp)

text \<open>Only budgets, randomness and the block cipher of the identifiers change.\<close>

definition frame :: "('k, 'r) secure \<Rightarrow> ('k, 'r) secure \<Rightarrow> bool" where
  "frame s s' \<longleftrightarrow> secSessions s' = secSessions s \<and> secPublic s' = secPublic s \<and> secPrivate s' = secPrivate s \<and>
     secEnvelopes s' = secEnvelopes s \<and> secSerial s' = secSerial s \<and> (secIds s \<noteq> None \<longrightarrow> secIds s' = secIds s) \<and>
     approved s' = approved s"

lemma frame_refl [simp]: "frame s s"
  by (simp add: frame_def)

lemma frame_trans: "frame s s' \<Longrightarrow> frame s' s'' \<Longrightarrow> frame s s''"
  by (auto simp: frame_def)

lemma frame_fields [simp]:
  "frame s (s'\<lparr>secRandom := r\<rparr>) = frame s s'" "frame s (s'\<lparr>secGlobal := g\<rparr>) = frame s s'"
  "frame s (s'\<lparr>secOpenRate := g\<rparr>) = frame s s'"
  by (simp_all add: frame_def)

lemma frame_secOK: "frame s s' \<Longrightarrow> secOK s' \<longleftrightarrow> secOK s"
  by (rule secOK_frame) (auto simp: frame_def)

lemma wrap_frame: "wpE (wrap cr peer inner) (\<lambda>_. frame s) (\<lambda>_. frame s) s"
  unfolding wrap_def by (auto simp: wp intro!: readRandom_wp split: option.split)

lemma unwrapFrom_frame: "wpE (unwrapFrom cr data now es) (\<lambda>_. frame s) (\<lambda>_. frame s) s"
proof (induction cr data now es arbitrary: s rule: unwrapFrom.induct)
  case (1 cr data now)
  then show ?case by (simp add: wp)
next
  case (2 cr data now peer e es)
  show ?case
    by (auto simp: wp frame_def intro!: wpE_mono[OF "2"] split: option.split)
qed

lemma unwrap_frame: "wpE (unwrap cr data now) (\<lambda>_. frame s) (\<lambda>_. frame s) s"
  by (simp add: unwrap_def wp unwrapFrom_frame)

lemma chargeGlobal_frame: "wpE (chargeGlobal now kind) (\<lambda>_. frame s) (\<lambda>_. frame s) s"
  by (auto simp: chargeGlobal_def wp)

lemma chargePeer_frame:
  "wpE (chargePeer now kind peer) (\<lambda>_ s'. frame s s' \<and> peer \<in> approved s) (\<lambda>_. frame s) s"
proof (cases "map_of (secPeers s) peer")
  case None
  then show ?thesis by (simp add: chargePeer_def wp)
next
  case (Some r)
  then have "peer \<in> approved s" using approved_iff[of s peer] by auto
  with Some show ?thesis by (auto simp: chargePeer_def wp frame_def)
qed

lemma ensureIds_frame: "wpE (ensureIds cr) (\<lambda>k s'. frame s s' \<and> secIds s' = Some k) (\<lambda>_. frame s) s"
  unfolding ensureIds_def
  by (auto simp: wp frame_def intro!: readRandom_wp split: option.split sum.split)

text \<open>What a packet that is let through does to its session.\<close>

definition sessionStep :: "packet \<Rightarrow> ('k, 'r) secure \<Rightarrow> 'k secureSession \<Rightarrow> bool" where
  "sessionStep p s ss' \<longleftrightarrow> ssPeer ss' = pkSender p \<and> ssTx ss' \<noteq> None \<and> ssRx ss' \<noteq> None \<and>
     (case map_of (secSessions s) (pkID p) of
        None \<Rightarrow> pkKind p = secureRequest \<and> room (pkSender p) s \<and> \<not> ssReady ss' \<and>
          ssNext ss' = 0 \<and> ssHighest ss' = 0 \<and> ssWindow ss' = 0
      | Some ss \<Rightarrow> pkKind p \<noteq> secureRequest \<and> ssReady ss' \<and> ssPeer ss = pkSender p \<and> ssNext ss' = ssNext ss \<and>
          (if pkKind p = secureReply
           then ssRx ss = None \<and> ssHighest ss' = ssHighest ss \<and> ssWindow ss' = ssWindow ss
           else ssRx ss' = ssRx ss \<and> \<not> spent (ssHighest ss, ssWindow ss) (pkCounter p) \<and>
             (ssHighest ss', ssWindow ss') = spend (ssHighest ss, ssWindow ss) (pkCounter p)))"

definition received :: "packet \<Rightarrow> ('k, 'r) secure \<Rightarrow> ('k, 'r) secure \<Rightarrow> bool" where
  "received p s s' \<longleftrightarrow> (\<exists>ss'. frame (s\<lparr>secSessions := AList.update (pkID p) ss' (secSessions s)\<rparr>) s' \<and> sessionStep p s ss')"

lemma receivedI: "sessionStep p s ss' \<Longrightarrow> received p s (s\<lparr>secSessions := AList.update (pkID p) ss' (secSessions s)\<rparr>)"
  by (auto simp: received_def intro: frame_refl)

lemma receivedI_random: "sessionStep p s ss' \<Longrightarrow>
    received p s (s\<lparr>secRandom := r, secSessions := AList.update (pkID p) ss' (secSessions s)\<rparr>)"
  by (auto simp: received_def frame_def)

lemma receiveRequest_wp:
  assumes "pkKind p = secureRequest"
  shows "wpE (receiveRequest cr data now p) (\<lambda>_. received p s) (\<lambda>_. frame s) s"
proof -
  have reply: "wpE (\<lambda>s. case crWriteReply cr h (secRandom s) of (x, r) \<Rightarrow> (x, s\<lparr>secRandom := r\<rparr>)) Q E s"
    if "\<And>x r. Q x (s\<lparr>secRandom := r\<rparr>)" "\<And>e r. E e (s\<lparr>secRandom := r\<rparr>)" for h Q E and s :: "('a, 'b) secure"
    using that by (auto simp: wpE_def split: prod.split sum.split)
  show ?thesis
    unfolding receiveRequest_def
    by (auto simp: wp assms sessionStep_def newSession_def intro!: reply receivedI_random split: sum.split)
qed

lemma markReady_fields [simp]:
  "ssPeer (markReady now ss) = ssPeer ss" "ssReady (markReady now ss)" "ssNext (markReady now ss) = ssNext ss"
  "ssTx (markReady now ss) = ssTx ss" "ssRx (markReady now ss) = ssRx ss"
  "ssHighest (markReady now ss) = ssHighest ss" "ssWindow (markReady now ss) = ssWindow ss"
  by (simp_all add: markReady_def)

lemma receiveReply_wp:
  assumes "pkKind p = secureReply" and "map_of (secSessions s) (pkID p) = Some ss" and "ssPeer ss = pkSender p"
  shows "wpE (receiveReply cr data now p ss) (\<lambda>_. received p s) (\<lambda>_. frame s) s"
  unfolding receiveReply_def
  by (auto simp: wp assms sessionStep_def intro!: receivedI split: sum.split)

lemma receiveData_wp:
  assumes "pkKind p \<noteq> secureReply" "pkKind p \<noteq> secureRequest" and "map_of (secSessions s) (pkID p) = Some ss" and "ssPeer ss = pkSender p"
    and "ssTx ss = None \<longleftrightarrow> ssRx ss = None"
  shows "wpE (receiveData cr data now p ss) (\<lambda>_. received p s) (\<lambda>_. frame s) s"
  unfolding receiveData_def using assms
  by (auto simp: wp sessionStep_def intro!: receivedI split: option.split)

lemma receiveSession_wp:
  assumes "secOK s"
  shows "wpE (receiveSession cr data now p) (\<lambda>_. received p s) (\<lambda>_. frame s) s"
proof -
  have "ssTx ss = None \<longleftrightarrow> ssRx ss = None" if "map_of (secSessions s) (pkID p) = Some ss" for ss
    using secOK_session[OF assms that] by (simp add: sessionOK_def)
  then show ?thesis
    unfolding receiveSession_def
    by (auto simp: wp intro!: receiveRequest_wp receiveReply_wp receiveData_wp split: option.split)
qed

lemma received_frame:
  assumes "frame s0 s1" and "received p s1 s'"
  shows "received p s0 s'"
proof -
  have same: "secSessions s1 = secSessions s0" using assms(1) by (simp add: frame_def)
  then have "room q s1 = room q s0" for q by (simp add: room_def)
  then have "sessionStep p s0 ss = sessionStep p s1 ss" for ss
    unfolding sessionStep_def same by (cases "map_of (secSessions s0) (pkID p)") simp_all
  then show ?thesis using assms by (auto simp: received_def frame_def)
qed

lemma receive_wp:
  assumes ok: "secOK s"
  shows "wpE (receive cr data now)
     (\<lambda>_ s'. received (parseHeader data) (expire now s) s' \<and> \<not> badPacket (secPublic s) (length data) (parseHeader data) \<and>
        pkSender (parseHeader data) \<in> approved s)
     (\<lambda>_. frame (expire now s)) s"
proof -
  let ?p = "parseHeader data" and ?s = "expire now s"
  have final: "wpE (receiveSession cr data now ?p) (\<lambda>_. received ?p ?s) (\<lambda>_. frame ?s) s2" if "frame ?s s2" for s2
    by (rule wpE_mono[OF receiveSession_wp])
      (use that frame_secOK[OF that] secOK_expire[OF ok] in \<open>auto intro: received_frame frame_trans\<close>)
  have charge: "wpE (chargePeer now (pkKind ?p) (pkSender ?p))
      (\<lambda>_ s2. frame ?s s2 \<and> pkSender ?p \<in> approved s) (\<lambda>_. frame ?s) s1" if "frame ?s s1" for s1
    by (rule wpE_mono[OF chargePeer_frame]) (use that in \<open>auto simp: frame_def expire_def\<close>)
  have pub: "secPublic ?s = secPublic s" by (simp add: expire_def)
  show ?thesis
    unfolding receive_def wp
    by (auto simp: pub intro!: wpE_mono[OF chargeGlobal_frame] wpE_mono[OF charge] wpE_mono[OF final])
qed

lemma received_secOK:
  assumes "received p s s'" and "secOK s" and "pkID p \<noteq> 0" and "pkSender p \<in> approved s"
  shows "secOK s'"
proof -
  from assms(1) obtain ss' where fr: "frame (s\<lparr>secSessions := AList.update (pkID p) ss' (secSessions s)\<rparr>) s'"
    and step: "sessionStep p s ss'" by (auto simp: received_def)
  have "sessionOK s (pkID p, ss')" using step assms(3,4) by (auto simp: sessionStep_def sessionOK_def)
  with assms(2) step have "secOK (s\<lparr>secSessions := AList.update (pkID p) ss' (secSessions s)\<rparr>)"
    by (cases "map_of (secSessions s) (pkID p)") (auto simp: sessionStep_def intro: secOK_insert secOK_replace)
  with frame_secOK[OF fr] show ?thesis by simp
qed

text \<open>Which events carry a reply.\<close>

lemma receive_event:
  "wpE (receive cr data now) (\<lambda>ev s'. evPeer ev = pkSender (parseHeader data) \<and> evID ev = pkID (parseHeader data) \<and>
      (evReply ev \<noteq> [] \<longrightarrow> pkKind (parseHeader data) = secureRequest)) (\<lambda>_ _. True) s"
proof -
  have reply: "wpE (\<lambda>s. case crWriteReply cr h (secRandom s) of (x, r) \<Rightarrow> (x, s\<lparr>secRandom := r\<rparr>)) Q (\<lambda>_ _. True) s"
    if "\<And>x r. Q x (s\<lparr>secRandom := r\<rparr>)" for h Q and s :: "('a, 'b) secure"
    using that by (auto simp: wpE_def split: prod.split sum.split)
  have "wpE (receiveSession cr data now p) (\<lambda>ev s'. evPeer ev = pkSender p \<and> evID ev = pkID p \<and>
      (evReply ev \<noteq> [] \<longrightarrow> pkKind p = secureRequest)) (\<lambda>_ _. True) s" for p and s :: "('a, 'b) secure"
    unfolding receiveSession_def receiveRequest_def receiveReply_def receiveData_def
    by (auto simp: wp intro!: reply split: option.split sum.split)
  then show ?thesis
    unfolding receive_def wp by (auto intro!: wpE_mono[OF chargeGlobal_frame] wpE_mono[OF chargePeer_frame])
qed

lemma delete_update_absent: "map_of xs i = None \<Longrightarrow> AList.delete i (AList.update i v xs) = xs"
  by (simp add: map_of_eq_None_iff delete_id)

lemma expire_frame: "frame s s1 \<Longrightarrow> frame (expire now s) (expire now s1)"
  by (simp add: frame_def) (simp add: expire_def)

lemma received_then_frame: "received p s s1 \<Longrightarrow> frame s1 s2 \<Longrightarrow> received p s s2"
  unfolding received_def using frame_trans by blast

lemma received_dropped:
  assumes "received p s s1" and "pkKind p = secureRequest" and "frame s1 s2"
  shows "frame s (s2\<lparr>secSessions := AList.delete (pkID p) (secSessions s2)\<rparr>)"
proof -
  from received_then_frame[OF assms(1,3)] obtain ss' where
    fr: "frame (s\<lparr>secSessions := AList.update (pkID p) ss' (secSessions s)\<rparr>) s2" and st: "sessionStep p s ss'"
    by (auto simp: received_def)
  from st assms(2) have "map_of (secSessions s) (pkID p) = None"
    by (auto simp: sessionStep_def split: option.splits)
  then have "AList.delete (pkID p) (AList.update (pkID p) ss' (secSessions s)) = secSessions s"
    by (rule delete_update_absent)
  with fr show ?thesis by (simp add: frame_def)
qed

definition delivered :: "time \<Rightarrow> bytes \<Rightarrow> ('k, 'r) secure \<Rightarrow> secureEvent \<Rightarrow> ('k, 'r) secure \<Rightarrow> bool" where
  "delivered now inner s ev s' \<longleftrightarrow> received (parseHeader inner) (expire now s) s' \<and>
     evPeer ev = pkSender (parseHeader inner) \<and> evID ev = pkID (parseHeader inner) \<and> pkID (parseHeader inner) \<noteq> 0 \<and>
     evPeer ev \<in> approved s"

lemma delivered_noReply: "delivered now inner s ev s' \<Longrightarrow> \<exists>inner. delivered now inner s (ev\<lparr>evReply := []\<rparr>) s'"
  by (auto simp: delivered_def)

lemma receive_delivers:
  assumes "secOK s" and fr: "frame s s1"
  shows "wpE (receive cr inner now)
     (\<lambda>ev s2. delivered now inner s ev s2 \<and> (evReply ev \<noteq> [] \<longrightarrow> pkKind (parseHeader inner) = secureRequest))
     (\<lambda>_ s2. frame (expire now s) s2) s1"
proof (rule wpE_mono[OF wpE_conj[OF receive_wp receive_event]])
  show "secOK s1" using assms(1) frame_secOK[OF fr] by simp
next
  fix ev :: secureEvent and s2
  assume a: "(received (parseHeader inner) (expire now s1) s2 \<and> \<not> badPacket (secPublic s1) (length inner) (parseHeader inner) \<and>
      pkSender (parseHeader inner) \<in> approved s1) \<and> evPeer ev = pkSender (parseHeader inner) \<and>
      evID ev = pkID (parseHeader inner) \<and> (evReply ev \<noteq> [] \<longrightarrow> pkKind (parseHeader inner) = secureRequest)"
  then have "received (parseHeader inner) (expire now s) s2"
    using received_frame[OF expire_frame[OF fr]] by blast
  moreover have "pkID (parseHeader inner) \<noteq> 0" using a by (simp add: badPacket_def)
  moreover have "approved s1 = approved s" using fr by (simp add: frame_def)
  ultimately show "delivered now inner s ev s2 \<and> (evReply ev \<noteq> [] \<longrightarrow> pkKind (parseHeader inner) = secureRequest)"
    using a by (simp add: delivered_def)
next
  fix e s2
  assume "frame (expire now s1) s2 \<and> True"
  then show "frame (expire now s) s2" using frame_trans[OF expire_frame[OF fr]] by blast
qed

lemma Receive_wp:
  assumes ok: "secOK s"
  shows "wpE (Receive cr data now) (\<lambda>ev s'. \<exists>inner. delivered now inner s (ev\<lparr>evReply := []\<rparr>) s')
     (\<lambda>_ s'. frame s s' \<or> frame (expire now s) s') s"
proof -
  have reply: "wpE (bindE (tryE (wrap cr (evPeer ev) (evReply ev))) (\<lambda>res. case res of
        Inl e \<Rightarrow> thenE (dropSession (evID ev)) (throwE e) | Inr reply \<Rightarrow> returnE (ev\<lparr>evReply := reply\<rparr>)))
      (\<lambda>ev s'. \<exists>inner. delivered now inner s (ev\<lparr>evReply := []\<rparr>) s') (\<lambda>_ s'. frame s s' \<or> frame (expire now s) s') s2"
    if d: "delivered now inner s ev s2" and k: "pkKind (parseHeader inner) = secureRequest" for ev inner s2
    unfolding wpE_bindE wpE_tryE
  proof (rule wpE_mono[OF wrap_frame])
    fix reply s3 assume f: "frame s2 s3"
    have "delivered now inner s (ev\<lparr>evReply := []\<rparr>) s3"
      using d received_then_frame[OF _ f] by (auto simp: delivered_def)
    then show "wpE (case Inr reply of Inl e \<Rightarrow> thenE (dropSession (evID ev)) (throwE e) | Inr reply \<Rightarrow> returnE (ev\<lparr>evReply := reply\<rparr>))
        (\<lambda>ev s'. \<exists>inner. delivered now inner s (ev\<lparr>evReply := []\<rparr>) s') (\<lambda>_ s'. frame s s' \<or> frame (expire now s) s') s3"
      by (auto simp: wp)
  next
    fix e s3 assume f: "frame s2 s3"
    have "frame (expire now s) (s3\<lparr>secSessions := AList.delete (evID ev) (secSessions s3)\<rparr>)"
      using d received_dropped[OF _ k f] by (simp add: delivered_def)
    then show "wpE (case Inl e of Inl e \<Rightarrow> thenE (dropSession (evID ev)) (throwE e) | Inr reply \<Rightarrow> returnE (ev\<lparr>evReply := reply\<rparr>))
        (\<lambda>ev s'. \<exists>inner. delivered now inner s (ev\<lparr>evReply := []\<rparr>) s') (\<lambda>_ s'. frame s s' \<or> frame (expire now s) s') s3"
      by (auto simp: wp)
  qed
  show ?thesis
    unfolding Receive_def wpE_bindE[of "unwrap _ _ _"] wpE_bindE[of "receive _ _ _"]
  proof (rule wpE_mono[OF unwrap_frame])
    fix inner s1 assume f: "frame s s1"
    show "wpE (receive cr inner now) (\<lambda>ev. wpE (if evReply ev = [] then returnE ev
        else bindE (tryE (wrap cr (evPeer ev) (evReply ev))) (\<lambda>res. case res of
          Inl e \<Rightarrow> thenE (dropSession (evID ev)) (throwE e) | Inr reply \<Rightarrow> returnE (ev\<lparr>evReply := reply\<rparr>)))
        (\<lambda>ev s'. \<exists>inner. delivered now inner s (ev\<lparr>evReply := []\<rparr>) s') (\<lambda>_ s'. frame s s' \<or> frame (expire now s) s'))
        (\<lambda>_ s'. frame s s' \<or> frame (expire now s) s') s1"
      by (rule wpE_mono[OF receive_delivers[OF ok f]]) (auto simp: wpE_returnE intro!: reply dest: delivered_noReply)
  qed blast
qed

end
