(* ===== verification/SecureRuns.thy ===== *)
theory SecureRuns
  imports SecureSafety
begin

text \<open>
  Runs of the control channel: its exported operations in any order and at any
  times, successful or not.  The session table stays bounded, identifiers and
  counters are never reused, and an accepted packet is never accepted again
  while its session lives.
\<close>

section \<open>Starting and sealing\<close>

definition started :: "('k, 'h, 'r) crypto \<Rightarrow> wgkey \<Rightarrow> ('k, 'r) secure \<Rightarrow> sid \<Rightarrow> ('k, 'r) secure \<Rightarrow> bool" where
  "started cr peer s i s' \<longleftrightarrow> (\<exists>k seed exp. secIds s' = Some k \<and> secSerial s \<noteq> - 1 \<and>
     i = crPermute cr k (ucast (secSerial s + 1)) \<and> i \<noteq> 0 \<and> map_of (secSessions s) i = None \<and> room peer s \<and>
     peer \<in> approved s \<and>
     frame (s\<lparr>secSerial := secSerial s + 1,
              secSessions := AList.update i (newSession peer seed None None exp) (secSessions s)\<rparr>) s')"

definition burned :: "('k, 'r) secure \<Rightarrow> ('k, 'r) secure \<Rightarrow> bool" where
  "burned s s' \<longleftrightarrow> frame s s' \<or> (secSerial s \<noteq> - 1 \<and> frame (s\<lparr>secSerial := secSerial s + 1\<rparr>) s')"

lemma nextId_wp:
  "wpE (nextId cr k) (\<lambda>i s'. s' = s\<lparr>secSerial := secSerial s + 1\<rparr> \<and> i = crPermute cr k (ucast (secSerial s + 1)) \<and>
      i \<noteq> 0 \<and> map_of (secSessions s) i = None) (\<lambda>_ s'. s' = s\<lparr>secSerial := secSerial s + 1\<rparr>) s"
  by (simp add: nextId_def wp)

lemma startSession_wp:
  "wpE (startSession cr peer now i) (\<lambda>r s'. fst r = i \<and> (\<exists>seed exp.
      frame (s\<lparr>secSessions := AList.update i (newSession peer seed None None exp) (secSessions s)\<rparr>) s')) (\<lambda>_. frame s) s"
  unfolding startSession_def
  by (auto simp: wp frame_def intro!: readRandom_wp split: sum.split) blast

lemma frame_serial: "frame s s1 \<Longrightarrow> frame (s\<lparr>secSerial := n\<rparr>) (s1\<lparr>secSerial := n\<rparr>)"
  by (simp add: frame_def)

lemma frame_sessions: "frame s s1 \<Longrightarrow> frame (s\<lparr>secSessions := xs\<rparr>) (s1\<lparr>secSessions := xs\<rparr>)"
  by (simp add: frame_def)

lemma start_wp:
  "wpE (start cr peer now) (\<lambda>r s'. started cr peer (expire now s) (fst r) s') (\<lambda>_ s'. burned (expire now s) s') s"
proof -
  let ?s = "expire now s"
  have run: "wpE (nextId cr k) (\<lambda>i. wpE (startSession cr peer now i) (\<lambda>r s'. started cr peer ?s (fst r) s') (\<lambda>_ s'. burned ?s s'))
      (\<lambda>_ s'. burned ?s s') s1"
    if fr: "frame ?s s1" and ids: "secIds s1 = Some k" and ok: "secSerial ?s \<noteq> - 1" "room peer ?s" "peer \<in> approved ?s" for k s1
  proof (rule wpE_mono[OF nextId_wp])
    fix i s2
    assume i: "s2 = s1\<lparr>secSerial := secSerial s1 + 1\<rparr> \<and> i = crPermute cr k (ucast (secSerial s1 + 1)) \<and> i \<noteq> 0 \<and>
        map_of (secSessions s1) i = None"
    have same: "secSerial s1 = secSerial ?s" "secSessions s1 = secSessions ?s" using fr by (auto simp: frame_def)
    have f2: "frame (?s\<lparr>secSerial := secSerial ?s + 1\<rparr>) s2" using i frame_serial[OF fr] same by simp
    have ids2: "secIds s2 = Some k" using i ids by simp
    show "wpE (startSession cr peer now i) (\<lambda>r s'. started cr peer ?s (fst r) s') (\<lambda>_ s'. burned ?s s') s2"
    proof (rule wpE_mono[OF startSession_wp])
      fix r s3
      assume "fst r = i \<and> (\<exists>seed exp. frame (s2\<lparr>secSessions := AList.update i (newSession peer seed None None exp) (secSessions s2)\<rparr>) s3)"
      then obtain seed exp where r: "fst r = i"
        and f3: "frame (s2\<lparr>secSessions := AList.update i (newSession peer seed None None exp) (secSessions s2)\<rparr>) s3" by blast
      have "secIds s3 = Some k" using f3 ids2 by (simp add: frame_def)
      moreover have "frame (?s\<lparr>secSerial := secSerial ?s + 1,
          secSessions := AList.update i (newSession peer seed None None exp) (secSessions ?s)\<rparr>) s3"
        using frame_trans[OF frame_sessions[OF f2] f3] i same by simp
      ultimately show "started cr peer ?s (fst r) s3"
        unfolding started_def using i r ok same by auto
    qed (use f2 ok in \<open>auto simp: burned_def dest: frame_trans\<close>)
  next
    fix e s2 assume "s2 = s1\<lparr>secSerial := secSerial s1 + 1\<rparr>"
    with frame_serial[OF fr] fr ok show "burned ?s s2" by (auto simp: burned_def frame_def)
  qed
  show ?thesis
    unfolding start_def wp
    by (auto simp: approved_iff burned_def intro!: wpE_mono[OF ensureIds_frame] wpE_mono[OF run])
qed

lemma Start_wp:
  "wpE (Start cr peer now) (\<lambda>r s'. started cr peer (expire now s) (fst r) s') (\<lambda>_ s'. burned (expire now s) s') s"
proof -
  let ?s = "expire now s"
  have drop: "burned ?s (s2\<lparr>secSessions := AList.delete i (secSessions s2)\<rparr>)"
    if st: "started cr peer ?s i s1" and f: "frame s1 s2" for i s1 s2
  proof -
    from st obtain ss where none: "map_of (secSessions ?s) i = None" and ok: "secSerial ?s \<noteq> - 1"
      and f1: "frame (?s\<lparr>secSerial := secSerial ?s + 1, secSessions := AList.update i ss (secSessions ?s)\<rparr>) s1"
      by (auto simp: started_def)
    have "secSessions s2 = AList.update i ss (secSessions ?s)" using frame_trans[OF f1 f] by (simp add: frame_def)
    then have "AList.delete i (secSessions s2) = secSessions ?s" using delete_update_absent[OF none] by simp
    with frame_trans[OF f1 f] ok show ?thesis by (simp add: burned_def frame_def)
  qed
  have keep: "started cr peer ?s i s2" if "started cr peer ?s i s1" and "frame s1 s2" for i s1 s2
  proof -
    have "secIds s1 \<noteq> None \<longrightarrow> secIds s2 = secIds s1" using that(2) by (simp add: frame_def)
    with that show ?thesis unfolding started_def using frame_trans by force
  qed
  show ?thesis
    unfolding Start_def wp
    by (rule wpE_mono[OF start_wp]) (auto simp: wp intro!: wpE_mono[OF wrap_frame] intro: drop keep)
qed

definition sealed :: "('k, 'h, 'r) crypto \<Rightarrow> sid \<Rightarrow> bytes \<Rightarrow> ('k, 'r) secure \<Rightarrow> wgkey \<times> bytes \<Rightarrow> ('k, 'r) secure \<Rightarrow> bool" where
  "sealed cr i body s r s' \<longleftrightarrow> (\<exists>ss tx. map_of (secSessions s) i = Some ss \<and> ssReady ss \<and> ssNext ss \<le> maxNonce \<and>
     ssTx ss = Some tx \<and> s' = s\<lparr>secSessions := AList.update i (ss\<lparr>ssNext := ssNext ss + 1\<rparr>) (secSessions s)\<rparr> \<and>
     (let h = secureHeader secureData (secPublic s) (ssPeer ss) i (ssNext ss)
      in r = (ssPeer ss, h @ crEncrypt cr tx (ssNext ss) h body)))"

lemma seal_wp:
  "wpE (seal cr i body now) (\<lambda>r s'. sealed cr i body (expire now s) r s') (\<lambda>_ s'. s' = expire now s) s"
  unfolding seal_def wp
  by (auto simp: wp sealed_def Let_def split: option.split)

lemma Seal_wp:
  "wpE (Seal cr i body now)
     (\<lambda>_ s'. \<exists>r s1. sealed cr i body (expire now s) r s1 \<and> frame s1 s')
     (\<lambda>_ s'. s' = expire now s \<or> (\<exists>r s1. sealed cr i body (expire now s) r s1 \<and> frame s1 s')) s"
  unfolding Seal_def wp
  by (rule wpE_mono[OF seal_wp]) (auto simp: wp intro!: wpE_mono[OF wrap_frame])

section \<open>Steps and runs\<close>

inductive sec_step :: "('k, 'h, 'r) crypto \<Rightarrow> time \<Rightarrow> ('k, 'r) secure \<Rightarrow> ('k, 'r) secure \<Rightarrow> bool" for cr now where
  sec_start: "sec_step cr now s (snd (Start cr peer now s))"
| sec_receive: "sec_step cr now s (snd (Receive cr data now s))"
| sec_seal: "sec_step cr now s (snd (Seal cr i body now s))"
| sec_prune: "sec_step cr now s (Prune used now s)"

inductive sec_run :: "('k, 'h, 'r) crypto \<Rightarrow> ('k, 'r) secure \<Rightarrow> ('k, 'r) secure \<Rightarrow> bool" for cr where
  sec_done: "sec_run cr s s"
| sec_more: "sec_run cr s s' \<Longrightarrow> sec_step cr now s' s'' \<Longrightarrow> sec_run cr s s''"

text \<open>Every step is one of these changes.\<close>

datatype change_kind = Framed | Got packet | Began wgkey sid | Burned | Sent sid bytes | Pruned "sid \<Rightarrow> bool"

fun change :: "('k, 'h, 'r) crypto \<Rightarrow> time \<Rightarrow> change_kind \<Rightarrow> ('k, 'r) secure \<Rightarrow> ('k, 'r) secure \<Rightarrow> bool" where
  "change cr now Framed s s' \<longleftrightarrow> frame s s' \<or> frame (expire now s) s'"
| "change cr now (Got p) s s' \<longleftrightarrow> received p (expire now s) s' \<and> pkID p \<noteq> 0 \<and> pkSender p \<in> approved s"
| "change cr now (Began peer i) s s' \<longleftrightarrow> started cr peer (expire now s) i s'"
| "change cr now Burned s s' \<longleftrightarrow> burned (expire now s) s'"
| "change cr now (Sent i body) s s' \<longleftrightarrow> (\<exists>r s1. sealed cr i body (expire now s) r s1 \<and> frame s1 s')"
| "change cr now (Pruned used) s s' \<longleftrightarrow> s' = Prune used now s"

lemma wpE_change:
  assumes "wpE m Q E s" and "\<And>a s'. Q a s' \<Longrightarrow> \<exists>k. change cr now k s s'" and "\<And>e s'. E e s' \<Longrightarrow> \<exists>k. change cr now k s s'"
  shows "\<exists>k. change cr now k s (snd (m s))"
  using assms by (auto simp: wpE_def split: prod.splits sum.splits)

lemma sec_step_change:
  assumes "sec_step cr now s s'" and "secOK s"
  shows "\<exists>k. change cr now k s s'"
  using assms(1)
proof cases
  case (sec_start peer)
  show ?thesis unfolding sec_start
    by (rule wpE_change[OF Start_wp]) (metis change.simps(3), metis change.simps(4))
next
  case (sec_receive data)
  show ?thesis unfolding sec_receive
  proof (rule wpE_change[OF Receive_wp[OF assms(2)]])
    fix ev s1 assume "\<exists>inner. delivered now inner s (ev\<lparr>evReply := []\<rparr>) s1"
    then obtain inner where "change cr now (Got (parseHeader inner)) s s1" by (auto simp: delivered_def)
    then show "\<exists>k. change cr now k s s1" ..
  qed (metis change.simps(1))
next
  case (sec_seal i body)
  show ?thesis unfolding sec_seal
    by (rule wpE_change[OF Seal_wp]) (metis change.simps(5), metis change.simps(1,5) frame_refl)
next
  case (sec_prune used)
  then have "change cr now (Pruned used) s s'" by simp
  then show ?thesis ..
qed

lemma change_secOK:
  assumes "change cr now k s s'" and "secOK s"
  shows "secOK s'"
proof -
  let ?s = "expire now s"
  have e: "secOK ?s" using assms(2) by (rule secOK_expire)
  show ?thesis
  proof (cases k)
    case Framed
    with assms e show ?thesis using frame_secOK[of s s'] frame_secOK[of ?s s'] by auto
  next
    case (Got p)
    with assms e show ?thesis by (auto intro: received_secOK)
  next
    case (Began peer i)
    with assms obtain seed exp where none: "map_of (secSessions ?s) i = None" and rm: "room peer ?s"
      and p: "i \<noteq> 0" "peer \<in> approved ?s"
      and fr: "frame (?s\<lparr>secSerial := secSerial ?s + 1,
         secSessions := AList.update i (newSession peer seed None None exp) (secSessions ?s)\<rparr>) s'"
      by (auto simp: started_def)
    have "secOK (?s\<lparr>secSessions := AList.update i (newSession peer seed None None exp) (secSessions ?s)\<rparr>)"
      using p by (intro secOK_insert[OF e rm none]) (simp_all add: sessionOK_def newSession_def)
    then have "secOK (?s\<lparr>secSerial := secSerial ?s + 1,
         secSessions := AList.update i (newSession peer seed None None exp) (secSessions ?s)\<rparr>)"
      by (rule iffD1[OF secOK_frame, rotated -1]) simp_all
    with frame_secOK[OF fr] show ?thesis by simp
  next
    case Burned
    have "secOK (?s\<lparr>secSerial := secSerial ?s + 1\<rparr>) = secOK ?s" by (rule secOK_frame) simp_all
    with Burned assms e show ?thesis using frame_secOK by (auto simp: burned_def)
  next
    case (Sent i body)
    with assms(1) obtain ss s1 where ss: "map_of (secSessions ?s) i = Some ss"
      and s1: "s1 = ?s\<lparr>secSessions := AList.update i (ss\<lparr>ssNext := ssNext ss + 1\<rparr>) (secSessions ?s)\<rparr>" and fr: "frame s1 s'"
      by (auto simp: sealed_def)
    have "secOK s1" unfolding s1
      using secOK_session[OF e ss] by (intro secOK_replace[OF e ss]) (simp_all add: sessionOK_def)
    with frame_secOK[OF fr] show ?thesis by simp
  next
    case (Pruned used)
    with assms show ?thesis by (simp add: secOK_Prune)
  qed
qed

lemma frame_approved: "frame s s' \<Longrightarrow> approved s' = approved s"
  by (simp add: frame_def)

lemma approved_Prune: "approved (Prune used now s) = approved s"
  by (simp add: Prune_def Let_def)

lemma change_approved:
  assumes "change cr now k s s'"
  shows "approved s' = approved s"
proof (cases k)
  case (Sent i body)
  with assms obtain xs where "frame ((expire now s)\<lparr>secSessions := xs\<rparr>) s'" by (auto simp: sealed_def)
  then show ?thesis by (auto dest: frame_approved)
next
  case (Began peer i)
  with assms obtain n xs where "frame ((expire now s)\<lparr>secSerial := n, secSessions := xs\<rparr>) s'" by (auto simp: started_def)
  then show ?thesis by (auto dest: frame_approved)
qed (use assms in \<open>auto simp: received_def burned_def approved_Prune dest: frame_approved\<close>)

lemma sec_run_inv:
  assumes "sec_run cr s s'" and "secOK s"
  shows "secOK s' \<and> approved s' = approved s"
  using assms
proof induction
  case (sec_done s)
  then show ?case by simp
next
  case (sec_more s s' now s'')
  then have ok: "secOK s'" and a: "approved s' = approved s" by simp_all
  obtain k where "change cr now k s' s''" using sec_step_change[OF sec_more.hyps(2) ok] ..
  with change_secOK[OF this ok] change_approved[OF this] a show ?case by simp
qed

lemma addEnvelopes_fields:
  "secSessions (fold (addEnvelope cr) peers s) = secSessions s \<and> secPublic (fold (addEnvelope cr) peers s) = secPublic s \<and>
   approved (fold (addEnvelope cr) peers s) \<subseteq> approved s \<union> {p \<in> set peers. p \<noteq> 0 \<and> p \<noteq> secPublic s}"
proof (induction peers arbitrary: s)
  case Nil
  then show ?case by simp
next
  case (Cons p peers)
  have "secSessions (addEnvelope cr p s) = secSessions s" "secPublic (addEnvelope cr p s) = secPublic s"
    "approved (addEnvelope cr p s) \<subseteq> approved s \<union> (if p \<noteq> 0 \<and> p \<noteq> secPublic s then {p} else {})"
    by (auto simp: addEnvelope_def newEnvelope_def approved_def keys_update split: option.splits if_splits)
  with Cons.IH[of "addEnvelope cr p s"] show ?case by (auto split: if_splits)
qed

lemma newSecure_fields:
  "secSessions (newSecure cr random private peers) = []"
  "approved (newSecure cr random private peers) \<subseteq> {p \<in> set peers. p \<noteq> 0 \<and> p \<noteq> crPublic cr private}"
  using addEnvelopes_fields[of cr peers "\<lparr>secPrivate = private, secPublic = crPublic cr private, secPeers = [],
      secSessions = [], secGlobal = zeroRate, secRandom = random, secIds = None, secSerial = 0, secEnvelopes = [],
      secOpenRate = zeroRate\<rparr>"]
  by (auto simp: newSecure_def Let_def approved_def)

lemma newSecure_secOK: "secOK (newSecure cr random private peers)"
  by (simp add: secOK_def newSecure_fields tableOK_def)

text \<open>
  C30: Session tables are bounded.  In every run from a new channel, there are at most 512
  sessions and at most 64 with any one peer, identifiers are distinct and nonzero, every
  session is with one of the configured peers (never with the node itself), and a session is
  ready only when it has both of its keys.
\<close>

theorem sessions_bounded:
  assumes "sec_run cr (newSecure cr random private peers) s"
  shows "length (secSessions s) \<le> 512 \<and>
    length (filter (\<lambda>(_, ss). ssPeer ss = p) (secSessions s)) \<le> 64 \<and>
    distinct (map fst (secSessions s)) \<and>
    (\<forall>(i, ss) \<in> set (secSessions s). i \<noteq> 0 \<and> ssPeer ss \<in> set peers \<and> ssPeer ss \<noteq> crPublic cr private \<and>
       (ssReady ss \<longrightarrow> ssTx ss \<noteq> None \<and> ssRx ss \<noteq> None))"
  using sec_run_inv[OF assms newSecure_secOK] newSecure_fields(2)[of cr random "private" peers]
  by (fastforce simp: secOK_def tableOK_def sessionOK_def length_filter_shape)

section \<open>The life of a session\<close>

definition alive :: "sid \<Rightarrow> time \<Rightarrow> ('k, 'r) secure \<Rightarrow> bool" where
  "alive i now s \<longleftrightarrow> (\<exists>ss. map_of (secSessions s) i = Some ss \<and> now < ssExpires ss)"

text \<open>Steps during which the session \<open>i\<close> neither expires nor is removed.\<close>

inductive sec_life :: "('k, 'h, 'r) crypto \<Rightarrow> sid \<Rightarrow> ('k, 'r) secure \<Rightarrow> ('k, 'r) secure \<Rightarrow> bool" for cr i where
  life_done: "sec_life cr i s s"
| life_more: "sec_life cr i s s' \<Longrightarrow> alive i now s' \<Longrightarrow> sec_step cr now s' s'' \<Longrightarrow> map_of (secSessions s'') i \<noteq> None \<Longrightarrow>
    sec_life cr i s s''"

definition ages :: "'k secureSession \<Rightarrow> 'k secureSession \<Rightarrow> bool" where
  "ages ss ss' \<longleftrightarrow> ssPeer ss' = ssPeer ss \<and> ssNext ss \<le> ssNext ss' \<and>
     (\<forall>n. spent (ssHighest ss, ssWindow ss) n \<longrightarrow> spent (ssHighest ss', ssWindow ss') n)"

lemma ages_refl [simp]: "ages ss ss"
  by (simp add: ages_def)

lemma ages_trans: "ages a b \<Longrightarrow> ages b c \<Longrightarrow> ages a c"
  by (auto simp: ages_def)

lemma spend_self: "spent (spend (h, w) n) n"
proof (cases "h < n")
  case True
  then show ?thesis by (simp add: spend_def spent_bit bit_or_iff bit_1_iff)
next
  case False
  then have le: "n \<le> h" by simp
  then show ?thesis
    using unat_sub[OF le] by (auto simp: spend_def spent_bit bit_or_iff bit_exp_iff not_le)
qed

lemma spend_mono:
  assumes "spent (h, w) n"
  shows "spent (spend (h, w) m) n"
proof (cases "h < m")
  case True
  have "n \<le> h" using assms by (simp add: spent_bit)
  with True have nat: "unat n \<le> unat h" "unat h < unat m" "unat (m - h) = unat m - unat h" "n \<le> m"
    using unat_sub[of h m] by (auto simp: word_le_nat_alt word_less_nat_alt)
  have "bit (push_bit (unat (m - h)) w) (unat m - unat n)" if "unat m - unat n < 64"
    using assms nat that by (auto simp: spent_bit bit_push_bit_iff)
  with True nat show ?thesis by (auto simp: spend_def spent_bit bit_or_iff not_le)
next
  case False
  with assms show ?thesis by (auto simp: spend_def spent_bit bit_or_iff)
qed

lemma sessionStep_ages:
  assumes "sessionStep p s ss'" and "map_of (secSessions s) (pkID p) = Some ss"
  shows "ages ss ss'"
  using assms spend_mono[of "ssHighest ss" "ssWindow ss" _ "pkCounter p"]
  by (auto simp: sessionStep_def ages_def split: if_splits)

lemma alive_expire:
  assumes "secOK s" and "map_of (secSessions s) i = Some ss" and "now < ssExpires ss"
  shows "map_of (secSessions (expire now s)) i = Some ss"
proof -
  have "distinct (map fst (secSessions s))" using assms(1) by (auto simp: secOK_def tableOK_def)
  then have "distinct (map fst (secSessions (expire now s)))" by (simp add: expire_def distinct_map_filter)
  then show ?thesis
    using map_of_SomeD[OF assms(2)] assms(3) by (intro map_of_is_SomeI) (auto simp: expire_def)
qed

lemma next_up: "ss \<le> maxNonce \<Longrightarrow> ss < ss + 1"
proof -
  assume "ss \<le> maxNonce"
  then have "unat ss \<le> 2 ^ 64 - 2" by (simp add: maxNonce_def word_le_nat_alt)
  then have "unat (ss + 1) = unat ss + 1" by (simp add: unat_word_ariths)
  then show ?thesis by (simp add: word_less_nat_alt)
qed

lemma change_ages:
  assumes ch: "change cr now k s s'" and ok: "secOK s"
    and ss: "map_of (secSessions s) i = Some ss" and fresh: "now < ssExpires ss" and ss': "map_of (secSessions s') i = Some ss'"
  shows "ages ss ss'"
proof -
  let ?s = "expire now s"
  have live: "map_of (secSessions ?s) i = Some ss" by (rule alive_expire[OF ok ss fresh])
  show ?thesis
  proof (cases k)
    case Framed
    with ch ss live ss' show ?thesis by (auto simp: frame_def)
  next
    case (Got p)
    with ch obtain q where q: "sessionStep p ?s q"
      and f: "frame (?s\<lparr>secSessions := AList.update (pkID p) q (secSessions ?s)\<rparr>) s'" by (auto simp: received_def)
    from f have "secSessions s' = AList.update (pkID p) q (secSessions ?s)" by (simp add: frame_def)
    with ss' live sessionStep_ages[OF q, of ss] show ?thesis
      by (cases "i = pkID p") (auto simp: AList.update_conv')
  next
    case (Began peer j)
    with ch obtain q where none: "map_of (secSessions ?s) j = None" and st: "secSessions s' = AList.update j q (secSessions ?s)"
      by (auto simp: started_def frame_def)
    have "j \<noteq> i" using none live by auto
    with st ss' live show ?thesis by (auto simp: AList.update_conv')
  next
    case Burned
    with ch live ss' show ?thesis by (auto simp: burned_def frame_def)
  next
    case (Sent j body)
    with ch obtain q where q: "map_of (secSessions ?s) j = Some q" "ssNext q \<le> maxNonce"
      and st: "secSessions s' = AList.update j (q\<lparr>ssNext := ssNext q + 1\<rparr>) (secSessions ?s)"
      by (auto simp: sealed_def frame_def)
    have "ages q (q\<lparr>ssNext := ssNext q + 1\<rparr>)" using next_up[OF q(2)] by (simp add: ages_def)
    with st ss' live q(1) show ?thesis by (cases "j = i") (auto simp: AList.update_conv')
  next
    case (Pruned used)
    with ch have st: "secSessions s' = List.map_filter (pruneSession used now) (secSessions ?s)"
      by (simp add: Prune_def Let_def)
    from map_of_SomeD[OF ss'] obtain j q where m: "(j, q) \<in> set (secSessions ?s)"
      and pr: "pruneSession used now (j, q) = Some (i, ss')" unfolding st by (rule prune_member)
    from pr have j: "j = i" and same: "ages q ss'" by (auto simp: ages_def elim: pruneSession_Some)
    have "distinct (map fst (secSessions ?s))" using secOK_expire[OF ok, of now] by (auto simp: secOK_def tableOK_def)
    with m j live have "q = ss" by (metis map_of_is_SomeI option.inject)
    with same show ?thesis by simp
  qed
qed

lemma sec_life_ages:
  assumes "sec_life cr i s s'" and "secOK s" and "map_of (secSessions s) i = Some ss"
  shows "secOK s' \<and> (\<exists>ss'. map_of (secSessions s') i = Some ss' \<and> ages ss ss')"
  using assms
proof induction
  case (life_done s)
  then show ?case by auto
next
  case (life_more s s' now s'')
  then obtain a where ok: "secOK s'" and a: "map_of (secSessions s') i = Some a" "ages ss a" by blast
  with life_more.hyps obtain b where b: "now < ssExpires a" "map_of (secSessions s'') i = Some b"
    by (auto simp: alive_def)
  obtain k where k: "change cr now k s' s''" using sec_step_change[OF life_more.hyps(3) ok] ..
  from change_secOK[OF k ok] change_ages[OF k ok a(1) b] a(2) b(2) show ?case by (auto intro: ages_trans)
qed

section \<open>Headers\<close>

lemma be_roundtrip [simp]:
  "be_word (be_bytes 32 x) = (x :: 256 word)" "be_word (be_bytes 16 y) = (y :: 128 word)" "be_word (be_bytes 8 z) = (z :: 64 word)"
  by (simp_all add: be_word_be_bytes take_bit_word_eq_self)

lemma length_secureHeader [simp]: "length (secureHeader kind a b i n) = 90"
  by (simp add: secureHeader_def)

lemma parseHeader_fields [simp]:
  "pkKind (parseHeader (secureHeader kind a b i n @ body)) = kind" "pkSender (parseHeader (secureHeader kind a b i n @ body)) = a"
  "pkRecipient (parseHeader (secureHeader kind a b i n @ body)) = b" "pkID (parseHeader (secureHeader kind a b i n @ body)) = i"
  "pkCounter (parseHeader (secureHeader kind a b i n @ body)) = n"
  by (simp_all add: parseHeader_def secureHeader_def)

text \<open>
  Header round trip.  Parsing a packet that starts with an encoded header gives back its
  kind, sender, recipient, session and counter.
\<close>

theorem parseHeader_secureHeader:
  "parseHeader (secureHeader kind sender recipient i n @ body) =
    \<lparr>pkKind = kind, pkSender = sender, pkRecipient = recipient, pkID = i, pkCounter = n\<rparr>"
  by (simp add: parseHeader_def secureHeader_def)

section \<open>No replay, no counter twice, no identifier twice\<close>

lemma received_data:
  assumes "received p s s'" and "pkKind p = secureData"
  obtains ss ss' where "map_of (secSessions s) (pkID p) = Some ss" and "\<not> spent (ssHighest ss, ssWindow ss) (pkCounter p)"
    and "map_of (secSessions s') (pkID p) = Some ss'" and "spent (ssHighest ss', ssWindow ss') (pkCounter p)"
proof -
  from assms(1) obtain ss' where st: "sessionStep p s ss'"
    and fr: "frame (s\<lparr>secSessions := AList.update (pkID p) ss' (secSessions s)\<rparr>) s'" by (auto simp: received_def)
  have "secSessions s' = AList.update (pkID p) ss' (secSessions s)" using fr by (simp add: frame_def)
  then have now: "map_of (secSessions s') (pkID p) = Some ss'" by (simp add: AList.update_conv')
  from st assms(2) obtain ss where old: "map_of (secSessions s) (pkID p) = Some ss"
    "\<not> spent (ssHighest ss, ssWindow ss) (pkCounter p)"
    and win: "(ssHighest ss', ssWindow ss') = spend (ssHighest ss, ssWindow ss) (pkCounter p)"
    by (auto simp: sessionStep_def split: option.splits)
  show thesis by (rule that[OF old now]) (simp add: win spend_self)
qed

text \<open>
  C28: No replay.  Once a data packet has been accepted, no data packet with the same session
  and counter is accepted again, whatever its other bytes are and whatever packets, starts,
  seals and prunings happen in between, as long as the session lives; and none is accepted
  when the session has meanwhile expired.
\<close>

theorem no_replay:
  assumes "sec_run cr (newSecure cr random private peers) s"
    and "receive cr data now s = (Inr ev, s1)" and "pkKind (parseHeader data) = 3"
    and "sec_life cr (pkID (parseHeader data)) s1 s2"
    and "pkKind (parseHeader data') = 3" and "pkID (parseHeader data') = pkID (parseHeader data)"
    and "pkCounter (parseHeader data') = pkCounter (parseHeader data)"
  shows "\<exists>e. fst (receive cr data' now' s2) = Inl e"
proof (rule ccontr)
  let ?p = "parseHeader data" and ?q = "parseHeader data'"
  assume "\<nexists>e. fst (receive cr data' now' s2) = Inl e"
  then obtain ev' s3 where ok2: "receive cr data' now' s2 = (Inr ev', s3)"
    by (cases "receive cr data' now' s2"; cases "fst (receive cr data' now' s2)") auto
  have s: "secOK s" using sec_run_inv[OF assms(1) newSecure_secOK] by simp
  from wpE_InrD[OF receive_wp[OF s] assms(2)] have r: "received ?p (expire now s) s1" "pkID ?p \<noteq> 0" "pkSender ?p \<in> approved s"
    by (auto simp: badPacket_def)
  obtain a where a: "map_of (secSessions s1) (pkID ?p) = Some a" "spent (ssHighest a, ssWindow a) (pkCounter ?p)"
    using received_data[OF r(1)] assms(3) by blast
  have s1: "secOK s1" using received_secOK[OF r(1) secOK_expire[OF s] r(2)] r(3) by simp
  obtain b where s2: "secOK s2" and b: "map_of (secSessions s2) (pkID ?p) = Some b" "ages a b"
    using sec_life_ages[OF assms(4) s1 a(1)] by blast
  from wpE_InrD[OF receive_wp[OF s2] ok2] have "received ?q (expire now' s2) s3" by simp
  then obtain c where c: "map_of (secSessions (expire now' s2)) (pkID ?p) = Some c"
    "\<not> spent (ssHighest c, ssWindow c) (pkCounter ?p)"
    using received_data[of ?q] assms(5-7) by metis
  have "(pkID ?p, c) \<in> set (secSessions s2)" using map_of_SomeD[OF c(1)] by (simp add: expire_def)
  moreover have "distinct (map fst (secSessions s2))" using s2 by (auto simp: secOK_def tableOK_def)
  ultimately have "c = b" using b(1) by (metis map_of_is_SomeI option.inject)
  with b(2) a(2) c(2) show False by (simp add: ages_def)
qed

text \<open>
  C31: No counter is used twice.  Two successful seals on a living session put different
  counters into their headers, the later one the larger, and so never encrypt twice under the
  same key and counter; the counter stops before it could wrap around.
\<close>

theorem seal_counters_increase:
  assumes "sec_run cr (newSecure cr random private peers) s"
    and "seal cr i body now s = (Inr (peer, inner), s1)"
    and "sec_life cr i (snd (wrap cr peer inner s1)) s2" and "alive i now' s2"
    and "seal cr i body' now' s2 = (Inr (peer', inner'), s3)"
  shows "pkCounter (parseHeader inner) < pkCounter (parseHeader inner') \<and>
    pkCounter (parseHeader inner') \<le> maxNonce \<and> pkID (parseHeader inner') = i"
proof -
  have s: "secOK s" using sec_run_inv[OF assms(1) newSecure_secOK] by simp
  from wpE_InrD[OF seal_wp assms(2)] obtain a where a: "map_of (secSessions (expire now s)) i = Some a" "ssNext a \<le> maxNonce"
    "s1 = (expire now s)\<lparr>secSessions := AList.update i (a\<lparr>ssNext := ssNext a + 1\<rparr>) (secSessions (expire now s))\<rparr>"
    and inner: "pkCounter (parseHeader inner) = ssNext a"
    by (auto simp: sealed_def Let_def)
  let ?w = "snd (wrap cr peer inner s1)"
  have fr: "frame s1 ?w" using wrap_frame[of cr peer inner s1] by (auto simp: wpE_def split: prod.splits sum.splits)
  have "secOK s1" unfolding a(3)
    using secOK_session[OF secOK_expire[OF s] a(1)] by (intro secOK_replace[OF secOK_expire[OF s] a(1)]) (simp_all add: sessionOK_def)
  then have w: "secOK ?w" using frame_secOK[OF fr] by simp
  have "map_of (secSessions ?w) i = Some (a\<lparr>ssNext := ssNext a + 1\<rparr>)"
    using fr a(3) by (simp add: frame_def AList.update_conv')
  from sec_life_ages[OF assms(3) w this] obtain b where s2: "secOK s2"
    and b: "map_of (secSessions s2) i = Some b" "ssNext a + 1 \<le> ssNext b" by (auto simp: ages_def)
  from wpE_InrD[OF seal_wp assms(5)] obtain c where c: "map_of (secSessions (expire now' s2)) i = Some c" "ssNext c \<le> maxNonce"
    and inner': "pkCounter (parseHeader inner') = ssNext c" "pkID (parseHeader inner') = i"
    by (auto simp: sealed_def Let_def)
  have "c = b" using alive_expire[OF s2 b(1)] assms(4) b(1) c(1) by (auto simp: alive_def)
  with inner inner' b(2) c(2) next_up[OF a(2)] show ?thesis by simp
qed

lemma serial_up:
  assumes "n \<noteq> - 1"
  shows "n < n + (1 :: 64 word)"
proof -
  have "1 + n \<noteq> 0" using assms by (metis add.commute eq_neg_iff_add_eq_0)
  then have "unat (1 + n) = Suc (unat n)" by (rule unatSuc)
  then show ?thesis by (simp add: word_less_nat_alt add.commute)
qed

lemma ucast_sid_inject:
  assumes "(ucast (x :: 64 word) :: sid) = ucast y"
  shows "x = y"
proof (rule bit_word_eqI)
  fix n assume "n < LENGTH(64)"
  then show "bit x n = bit y n" using arg_cong[OF assms, of "\<lambda>w. bit w n"] by (simp add: bit_ucast_iff)
qed

lemma change_serial:
  assumes "change cr now k s s'"
  shows "secSerial s \<le> secSerial s' \<and> (secIds s \<noteq> None \<longrightarrow> secIds s' = secIds s)"
proof -
  have e: "secSerial (expire now s) = secSerial s" "secIds (expire now s) = secIds s" by (simp_all add: expire_def)
  have f: "frame s1 s' \<Longrightarrow> secSerial s' = secSerial s1 \<and> (secIds s1 \<noteq> None \<longrightarrow> secIds s' = secIds s1)" for s1
    by (simp add: frame_def)
  show ?thesis
  proof (cases k)
    case (Began peer i)
    with assms obtain xs where "secSerial s \<noteq> - 1" "frame ((expire now s)\<lparr>secSerial := secSerial s + 1, secSessions := xs\<rparr>) s'"
      by (auto simp: started_def e)
    with serial_up[of "secSerial s"] show ?thesis by (auto dest!: f simp: e)
  next
    case Burned
    with assms serial_up[of "secSerial s"] show ?thesis by (auto simp: burned_def e dest!: f)
  next
    case (Sent i body)
    with assms obtain xs where "frame ((expire now s)\<lparr>secSessions := xs\<rparr>) s'" by (auto simp: sealed_def)
    then show ?thesis by (auto dest!: f simp: e)
  next
    case (Pruned used)
    with assms show ?thesis by (simp add: Prune_def Let_def e)
  qed (use assms in \<open>auto simp: received_def e dest!: f\<close>)
qed

lemma sec_run_serial:
  assumes "sec_run cr s s'" and "secOK s"
  shows "secSerial s \<le> secSerial s' \<and> (secIds s \<noteq> None \<longrightarrow> secIds s' = secIds s)"
  using assms
proof induction
  case (sec_done s)
  then show ?case by simp
next
  case (sec_more s s' now s'')
  have ok: "secOK s'" using sec_run_inv[OF sec_more.hyps(1) sec_more.prems] by simp
  obtain k where "change cr now k s' s''" using sec_step_change[OF sec_more.hyps(2) ok] ..
  with sec_more.IH[OF sec_more.prems] change_serial[OF this] show ?case by auto
qed

text \<open>
  Local identifiers are never reused.  Two successful starts in one run, however far
  apart, name different sessions: expiry never frees an identifier for reuse.
\<close>

theorem local_ids_unique:
  assumes "sec_run cr (newSecure cr random private peers) s" and "\<And>k. inj (crPermute cr k)"
    and "Start cr peer now s = (Inr (i, packet), s1)" and "sec_run cr s1 s2"
    and "Start cr peer' now' s2 = (Inr (j, packet'), s3)"
  shows "i \<noteq> j"
proof -
  have s: "secOK s" using sec_run_inv[OF assms(1) newSecure_secOK] by simp
  have st: "change cr now (Began peer i) s s1" using wpE_InrD[OF Start_wp assms(3)] by simp
  have s1: "secOK s1" using change_secOK[OF st s] .
  from st obtain k where k: "secIds s1 = Some k" "i = crPermute cr k (ucast (secSerial s1))"
    by (auto simp: started_def frame_def)
  have run: "secSerial s1 \<le> secSerial s2" "secIds s2 = Some k" using sec_run_serial[OF assms(4) s1] k(1) by auto
  from wpE_InrD[OF Start_wp assms(5)] obtain k' where k': "secIds s3 = Some k'" "j = crPermute cr k' (ucast (secSerial s2 + 1))"
    "secSerial s2 \<noteq> - 1" "secIds s2 \<noteq> None \<longrightarrow> secIds s3 = secIds s2"
    by (auto simp: started_def frame_def expire_def)
  have "secSerial s1 < secSerial s2 + 1" using run(1) serial_up[OF k'(3)] by simp
  then have "(ucast (secSerial s1) :: sid) \<noteq> ucast (secSerial s2 + 1)" by (auto dest: ucast_sid_inject)
  moreover have "k' = k" using k' run(2) by simp
  ultimately show ?thesis using k(2) k'(2) assms(2)[of k] by (auto dest: injD)
qed

text \<open>
  C29: A refused packet changes no session.  When \<open>Receive\<close> returns an error, whatever the
  packet was, every session is as before, except that expired ones may have been removed; in
  particular a forged or replayed packet cannot advance a replay window, make a session ready
  or spoil a pending handshake.
\<close>

theorem Receive_refused:
  assumes "sec_run cr (newSecure cr random private peers) s" and "Receive cr data now s = (Inl e, s')"
  shows "secSessions s' = secSessions s \<or> secSessions s' = filter (\<lambda>(_, ss). now < ssExpires ss) (secSessions s)"
proof -
  have "secOK s" using sec_run_inv[OF assms(1) newSecure_secOK] by simp
  from wpE_InlD[OF Receive_wp[OF this] assms(2)] show ?thesis by (auto simp: frame_def expire_def)
qed

end
