(* ===== verification/MeshInv.thy ===== *)
theory MeshInv
  imports Coordinate SecureRuns
begin

text \<open>
  The invariant of a peer and the contract of the route controller.  The locale
  \<open>route_control\<close> fixes what the event loop calls and assumes what the controller
  promises about the set of managed peers; inside it every operation of
  \<open>mesh.go\<close> and \<open>psk.go\<close> is shown to keep the invariant, not to panic, and to keep
  the managed peers in step with the phases.
\<close>

named_theorems calls \<open>rules for calls that change nothing of the peer\<close>
named_theorems keeps \<open>rules for operations that keep the invariant\<close>

section \<open>The invariant of a peer\<close>

definition direct :: "meshPeer \<Rightarrow> bool" where
  "direct p \<longleftrightarrow> rsPhase (mpRoute p) = PTrial \<or> rsPhase (mpRoute p) = PActive"

text \<open>Only the peer with the smaller key proposes, only the other one accepts.\<close>

definition roleOK :: "wgkey \<Rightarrow> wgkey \<Rightarrow> phase \<Rightarrow> bool" where
  "roleOK public k ph \<longleftrightarrow> (ph = PPrepare \<longrightarrow> public < k) \<and> (ph = PPrepared \<longrightarrow> k < public)"

text \<open>A path that may be installed: it exists and has no link-local IPv6 endpoint.\<close>

definition usablePath :: "path list \<Rightarrow> nat \<Rightarrow> bool" where
  "usablePath heap i \<longleftrightarrow> i < length heap \<and>
     \<not> (is6 (apAddr (ptAddr (heap ! i))) \<and> isLinkLocalUnicast (apAddr (ptAddr (heap ! i))))"

definition routeOK :: "wgkey \<Rightarrow> wgkey \<Rightarrow> path list \<Rightarrow> routeState \<Rightarrow> bool" where
  "routeOK public k heap r \<longleftrightarrow>
     (rsPhase r = PNone \<longleftrightarrow> rsSelected r = None) \<and> (\<forall>i. rsSelected r = Some i \<longrightarrow> usablePath heap i) \<and>
     roleOK public k (rsPhase r) \<and> (rsPhase r = PActive \<longrightarrow> rsCommitted r \<and> rsLocalGood r) \<and>
     measurementsOK (rsTunnel r)"

definition transitionOK :: "wgkey \<Rightarrow> bool \<Rightarrow> wgkey \<Rightarrow> pskTransition \<Rightarrow> bool" where
  "transitionOK public canRekey k t \<longleftrightarrow>
     rkKey t \<noteq> 0 \<and> (rkPhase t = ROffer \<longrightarrow> public < k) \<and> (rkPhase t = RWaiting \<or> rkPhase t = RPrepared \<longrightarrow> \<not> public < k) \<and>
     (rkPhase t = RObserving \<longrightarrow> canRekey)"

text \<open>What is recorded besides the route: paths, probes, retired tokens.\<close>

definition storeOK :: "meshPeer \<Rightarrow> bool" where
  "storeOK p \<longleftrightarrow>
     list_all (\<lambda>pt. measurementsOK (ptStats pt)) (mpHeap p) \<and>
     list_all (\<lambda>(_, i). i < length (mpHeap p)) (mpPaths p) \<and> length (mpPaths p) \<le> 16 \<and>
     list_all (\<lambda>(_, q). \<forall>i. pbPath q = Some i \<longrightarrow> i < length (mpHeap p)) (mpPending p) \<and> length (mpPending p) \<le> 2048 \<and>
     (\<forall>i. mpRosenpassPath p = Some i \<longrightarrow> i < length (mpHeap p)) \<and> length (mpRetired p) \<le> 1024"

definition roundOK :: "wgkey \<Rightarrow> bool \<Rightarrow> bool \<Rightarrow> meshPeer \<Rightarrow> bool" where
  "roundOK public canRekey dry p \<longleftrightarrow>
    (let heap = mpHeap p; k = psKey (mpSpec p); r = mpRoute p in
     routeOK public k heap r \<and>
     (\<forall>old. mpPrevious p = Some old \<longrightarrow> rsPhase r = PTrial \<and> rsPhase old = PActive \<and> routeOK public k heap old) \<and>
     (\<forall>q. mpReplacement p = Some q \<longrightarrow> rsPhase r = PActive \<and> usablePath heap (rpPath q) \<and>
        (rpPhase q = PPrepare \<or> rpPhase q = PPrepared) \<and> roleOK public k (rpPhase q)) \<and>
     (\<forall>t. mpRekey p = Some t \<longrightarrow> rsPhase r = PActive \<and> mpReplacement p = None \<and>
        psFile (mpSpec p) \<noteq> [] \<and> transitionOK public canRekey k t) \<and>
     (mpCompletedRekey p \<noteq> None \<longrightarrow> direct p) \<and> (dry \<longrightarrow> rsPhase r = PNone))"

text \<open>The specification is a configured one but for the key of a peer with a key file.\<close>

definition keyedOK :: "config \<Rightarrow> meshPeer \<Rightarrow> bool" where
  "keyedOK c p \<longleftrightarrow> (mpPskValid p \<longrightarrow> psPsk (mpSpec p) \<noteq> 0) \<and>
     (\<exists>spec \<in> set (cfPeers c). mpSpec p = spec\<lparr>psPsk := psPsk (mpSpec p)\<rparr> \<and>
        (psFile spec = [] \<longrightarrow> psPsk (mpSpec p) = psPsk spec))"

definition peerOK :: "('k, 'h, 'r, 'w) meshEnv \<Rightarrow> meshPeer \<Rightarrow> bool" where
  "peerOK env p \<longleftrightarrow> storeOK p \<and> keyedOK (enConfig env) p \<and> roundOK (enPublic env) (enRekey env \<noteq> None) (enDry env) p"

lemma peerOK_new: "spec \<in> set (cfPeers (enConfig env)) \<Longrightarrow> peerOK env (meshPeerOf spec)"
  by (auto simp: peerOK_def storeOK_def roundOK_def meshPeerOf_def routeOK_def zeroRoute_def roleOK_def zeroMeasurements_def
      direct_def keyedOK_def Let_def intro!: bexI[of _ spec])

text \<open>What a call of the controller's \<open>Apply\<close> must be like.\<close>

definition admissible :: "config \<Rightarrow> wgkey \<Rightarrow> addr \<Rightarrow> wgkey \<Rightarrow> addrPort \<Rightarrow> bool" where
  "admissible c k ip psk ep \<longleftrightarrow>
     (\<exists>spec \<in> set (cfPeers c). psKey spec = k \<and> psIP spec = ip \<and>
        (if psFile spec = [] then psk = psPsk spec else psk \<noteq> 0)) \<and>
     apPort ep \<noteq> 0 \<and> \<not> (is6 (apAddr ep) \<and> isLinkLocalUnicast (apAddr ep))"

lemma length_update_le: "length (AList.update k v al) \<le> Suc (length al)"
  by (induction al) auto

lemma storeOK_retired: "storeOK p \<Longrightarrow> storeOK (retired token now p)"
  by (auto simp: storeOK_def retired_def Let_def intro: order_trans[OF length_update_le]
    intro!: antisym order_trans[OF length_filter_le])

lemma retired_fields [simp]:
  "mpRoute (retired token now p) = mpRoute p" "mpSpec (retired token now p) = mpSpec p" "mpHeap (retired token now p) = mpHeap p"
  "mpPrevious (retired token now p) = mpPrevious p" "mpReplacement (retired token now p) = mpReplacement p"
  "mpRekey (retired token now p) = mpRekey p" "mpCompletedRekey (retired token now p) = mpCompletedRekey p"
  "mpPskValid (retired token now p) = mpPskValid p"
  "mpPaths (retired token now p) = mpPaths p" "direct (retired token now p) = direct p" "mpCooldown (retired token now p) = mpCooldown p"
  by (simp_all add: retired_def Let_def direct_def)

lemma roundOK_retired [simp]: "roundOK public canRekey dry (retired token now p) = roundOK public canRekey dry p"
  by (simp add: roundOK_def Let_def)

lemma keyedOK_retired [simp]: "keyedOK c (retired token now p) = keyedOK c p"
  by (simp add: keyedOK_def)

lemma peerOK_retired [simp]: "peerOK env p \<Longrightarrow> peerOK env (retired token now p)"
  by (simp add: peerOK_def storeOK_retired)

lemma pathAt_retired [simp]: "pathAt (retired token now p) i = pathAt p i"
  by (simp add: pathAt_def)

section \<open>Operations on the peer alone\<close>

lemma wpE_modPeer [wp]: "wpE (modPeer f) Q E s \<longleftrightarrow> Q () (s\<lparr>cxPeer := f (cxPeer s)\<rparr>)"
  by (simp add: modPeer_def wp)

lemma wpE_modRoute [wp]: "wpE (modRoute f) Q E s \<longleftrightarrow> Q () (s\<lparr>cxPeer := (cxPeer s)\<lparr>mpRoute := f (mpRoute (cxPeer s))\<rparr>\<rparr>)"
  by (simp add: modRoute_def wp)

lemma wpE_modRekey [wp]: "wpE (modRekey f) Q E s \<longleftrightarrow> Q () (s\<lparr>cxPeer := (cxPeer s)\<lparr>mpRekey := map_option f (mpRekey (cxPeer s))\<rparr>\<rparr>)"
  by (simp add: modRekey_def wp)

lemma wpE_retire [wp]: "wpE (retire token now) Q E s \<longleftrightarrow> Q () (s\<lparr>cxPeer := retired token now (cxPeer s)\<rparr>)"
  by (simp add: retire_def wp)

lemma wpE_panicE [wp]: "wpE panicE Q E s \<longleftrightarrow> E goPanic (s\<lparr>cxPanic := True\<rparr>)"
  by (simp add: panicE_def wpE_def)

text \<open>What cancelling a replacement, dropping the previous route and restoring make of a peer.\<close>

definition droppedPrevious :: "time \<Rightarrow> meshPeer \<Rightarrow> meshPeer" where
  "droppedPrevious now p = (case mpPrevious p of
      None \<Rightarrow> p
    | Some old \<Rightarrow> (retired (rsTrial old) now p)\<lparr>mpPrevious := None\<rparr>)"

definition cancelledPeer :: "config \<Rightarrow> time \<Rightarrow> meshPeer \<Rightarrow> meshPeer" where
  "cancelledPeer c now p = (case mpReplacement p of
      None \<Rightarrow> p
    | Some r \<Rightarrow> (retired (rpToken r) now p)\<lparr>mpReplacement := None, mpCooldown := now + cfCooldown c\<rparr>)"

definition restoredPeer :: "config \<Rightarrow> time \<Rightarrow> meshPeer \<Rightarrow> meshPeer" where
  "restoredPeer c now p = (let q = cancelledPeer c now p in
     stablePeer c now (droppedPrevious now (retired (rsTrial (mpRoute q)) now q)))"

lemma wpE_dropPrevious [wp]: "wpE (dropPrevious now) Q E s \<longleftrightarrow> Q () (s\<lparr>cxPeer := droppedPrevious now (cxPeer s)\<rparr>)"
  by (simp add: dropPrevious_def droppedPrevious_def wp)

lemma droppedPrevious_fields [simp]:
  "mpRoute (droppedPrevious now p) = mpRoute p" "mpSpec (droppedPrevious now p) = mpSpec p" "mpHeap (droppedPrevious now p) = mpHeap p"
  "mpPrevious (droppedPrevious now p) = None" "mpReplacement (droppedPrevious now p) = mpReplacement p"
  "mpRekey (droppedPrevious now p) = mpRekey p" "mpCompletedRekey (droppedPrevious now p) = mpCompletedRekey p"
  "mpPskValid (droppedPrevious now p) = mpPskValid p" "direct (droppedPrevious now p) = direct p"
  by (auto simp: droppedPrevious_def direct_def split: option.split)

lemma cancelledPeer_fields [simp]:
  "mpRoute (cancelledPeer c now p) = mpRoute p" "mpSpec (cancelledPeer c now p) = mpSpec p" "mpHeap (cancelledPeer c now p) = mpHeap p"
  "mpPrevious (cancelledPeer c now p) = mpPrevious p" "mpReplacement (cancelledPeer c now p) = None"
  "mpRekey (cancelledPeer c now p) = mpRekey p" "mpCompletedRekey (cancelledPeer c now p) = mpCompletedRekey p"
  "mpPskValid (cancelledPeer c now p) = mpPskValid p" "direct (cancelledPeer c now p) = direct p"
  by (auto simp: cancelledPeer_def direct_def split: option.split)

lemma restoredPeer_fields [simp]:
  "mpSpec (restoredPeer c now p) = mpSpec p" "mpHeap (restoredPeer c now p) = mpHeap p" "mpPrevious (restoredPeer c now p) = None"
  "mpReplacement (restoredPeer c now p) = None" "mpRekey (restoredPeer c now p) = None" "mpCompletedRekey (restoredPeer c now p) = None"
  "rsPhase (mpRoute (restoredPeer c now p)) = PNone" "rsSelected (mpRoute (restoredPeer c now p)) = None"
  "mpPskValid (restoredPeer c now p) = mpPskValid p" "\<not> direct (restoredPeer c now p)"
  by (simp_all add: restoredPeer_def stablePeer_def direct_def Let_def)

lemma storeOK_fields:
  "storeOK (p\<lparr>mpRoute := r\<rparr>) = storeOK p" "storeOK (p\<lparr>mpPrevious := v\<rparr>) = storeOK p"
  "storeOK (p\<lparr>mpReplacement := q\<rparr>) = storeOK p" "storeOK (p\<lparr>mpRekey := t\<rparr>) = storeOK p"
  "storeOK (p\<lparr>mpCompletedRekey := t\<rparr>) = storeOK p" "storeOK (p\<lparr>mpCooldown := c\<rparr>) = storeOK p"
  "storeOK (p\<lparr>mpSpec := spec\<rparr>) = storeOK p" "storeOK (p\<lparr>mpPskValid := b\<rparr>) = storeOK p"
  "storeOK (p\<lparr>mpPskStatus := st\<rparr>) = storeOK p" "storeOK (p\<lparr>mpPskLogAfter := n\<rparr>) = storeOK p"
  "storeOK (p\<lparr>mpRetiredUntil := n\<rparr>) = storeOK p" "storeOK (p\<lparr>mpRosenpassToken := tk\<rparr>) = storeOK p"
  "storeOK (p\<lparr>mpDiscovery := d\<rparr>) = storeOK p"
  by (simp_all add: storeOK_def)

lemma keyedOK_fields [simp]:
  "keyedOK c (p\<lparr>mpRoute := r\<rparr>) = keyedOK c p" "keyedOK c (p\<lparr>mpPrevious := v\<rparr>) = keyedOK c p"
  "keyedOK c (p\<lparr>mpReplacement := q\<rparr>) = keyedOK c p" "keyedOK c (p\<lparr>mpRekey := t\<rparr>) = keyedOK c p"
  "keyedOK c (p\<lparr>mpCompletedRekey := t\<rparr>) = keyedOK c p" "keyedOK c (p\<lparr>mpCooldown := n\<rparr>) = keyedOK c p"
  "keyedOK c (p\<lparr>mpPskStatus := st\<rparr>) = keyedOK c p" "keyedOK c (p\<lparr>mpPskLogAfter := n\<rparr>) = keyedOK c p"
  "keyedOK c (p\<lparr>mpRetiredUntil := n\<rparr>) = keyedOK c p" "keyedOK c (p\<lparr>mpRosenpassToken := tk\<rparr>) = keyedOK c p"
  "keyedOK c (p\<lparr>mpDiscovery := d\<rparr>) = keyedOK c p" "keyedOK c (p\<lparr>mpRosenpassPath := i\<rparr>) = keyedOK c p"
  "keyedOK c (p\<lparr>mpPending := ps\<rparr>) = keyedOK c p" "keyedOK c (p\<lparr>mpPaths := ns\<rparr>) = keyedOK c p"
  "keyedOK c (p\<lparr>mpHeap := h\<rparr>) = keyedOK c p"
  by (simp_all add: keyedOK_def)

lemma roundOK_fields [simp]:
  "roundOK pk cr dry (p\<lparr>mpCooldown := n\<rparr>) = roundOK pk cr dry p" "roundOK pk cr dry (p\<lparr>mpPskStatus := st\<rparr>) = roundOK pk cr dry p"
  "roundOK pk cr dry (p\<lparr>mpPskLogAfter := n\<rparr>) = roundOK pk cr dry p" "roundOK pk cr dry (p\<lparr>mpRetiredUntil := n\<rparr>) = roundOK pk cr dry p"
  "roundOK pk cr dry (p\<lparr>mpRosenpassToken := tk\<rparr>) = roundOK pk cr dry p" "roundOK pk cr dry (p\<lparr>mpDiscovery := d\<rparr>) = roundOK pk cr dry p"
  "roundOK pk cr dry (p\<lparr>mpRosenpassPath := i\<rparr>) = roundOK pk cr dry p" "roundOK pk cr dry (p\<lparr>mpPending := ps\<rparr>) = roundOK pk cr dry p"
  "roundOK pk cr dry (p\<lparr>mpPaths := ns\<rparr>) = roundOK pk cr dry p" "roundOK pk cr dry (p\<lparr>mpPskValid := b\<rparr>) = roundOK pk cr dry p"
  by (simp_all add: roundOK_def direct_def Let_def)

lemma storeOK_pending_Nil: "storeOK p \<Longrightarrow> storeOK (p\<lparr>mpPending := []\<rparr>)"
  by (simp add: storeOK_def)

lemma storeOK_dropped: "storeOK p \<Longrightarrow> storeOK (droppedPrevious now p)"
  by (auto simp: droppedPrevious_def storeOK_retired storeOK_fields split: option.split)

lemma storeOK_cancelled: "storeOK p \<Longrightarrow> storeOK (cancelledPeer c now p)"
  by (auto simp: cancelledPeer_def storeOK_retired storeOK_fields split: option.split)

lemma storeOK_restored: "storeOK p \<Longrightarrow> storeOK (restoredPeer c now p)"
  by (simp add: restoredPeer_def stablePeer_def Let_def storeOK_fields storeOK_pending_Nil storeOK_dropped storeOK_retired storeOK_cancelled)

lemmas storeOK_kept = storeOK_fields storeOK_pending_Nil storeOK_dropped storeOK_cancelled storeOK_restored storeOK_retired

lemma peerOK_dropped: "peerOK env p \<Longrightarrow> peerOK env (droppedPrevious now p)"
  by (auto simp: peerOK_def storeOK_kept keyedOK_def roundOK_def Let_def)

lemma peerOK_cancelled: "peerOK env p \<Longrightarrow> peerOK env (cancelledPeer c now p)"
  by (auto simp: peerOK_def storeOK_kept keyedOK_def roundOK_def Let_def)

lemma rsTunnel_restored: "measurementsOK (rsTunnel (mpRoute (restoredPeer c now p)))"
  by (simp add: restoredPeer_def stablePeer_def Let_def)

lemma peerOK_restored: "peerOK env p \<Longrightarrow> peerOK env (restoredPeer c now p)"
  by (simp add: peerOK_def storeOK_kept keyedOK_def roundOK_def Let_def routeOK_def roleOK_def rsTunnel_restored)

lemma peerOK_dry: "peerOK env p \<Longrightarrow> rsPhase (mpRoute p) \<noteq> PNone \<Longrightarrow> \<not> enDry env"
  by (auto simp: peerOK_def roundOK_def Let_def)

section \<open>The contract of the controller\<close>

text \<open>
  \<open>steady\<close> says of a serving state that it has not panicked, that the control
  channel was only driven through its own operations since \<open>c0\<close>, and that the
  world is one in which the controller manages exactly the peers \<open>M\<close>; \<open>failed\<close> is
  what remains after an error.
\<close>

definition steady :: "('k, 'h, 'r, 'w) meshEnv \<Rightarrow> (wgkey set \<Rightarrow> 'w \<Rightarrow> bool) \<Rightarrow> ('k, 'r) secure \<Rightarrow> wgkey set \<Rightarrow> ('k, 'r, 'w) serving \<Rightarrow> bool" where
  "steady env W c0 M s \<longleftrightarrow>
     \<not> cxPanic s \<and> sec_run (enCrypto env) c0 (cxCrypto s) \<and> W M (cxWorld s)"

lemma wpE_returnE_fun: "wpE (returnE a) Q E = Q a"
  by (simp add: wp fun_eq_iff)

definition failed :: "('w \<Rightarrow> bool) \<Rightarrow> error \<Rightarrow> ('k, 'r, 'w) serving \<Rightarrow> bool" where
  "failed F e s \<longleftrightarrow> \<not> cxPanic s \<and> F (cxWorld s)"

lemma steady_peer [simp]: "steady env W c0 M (s\<lparr>cxPeer := p\<rparr>) = steady env W c0 M s"
  by (simp add: steady_def)

lemma steady_starts [simp]: "steady env W c0 M (s\<lparr>cxStarts := st\<rparr>) = steady env W c0 M s"
  by (simp add: steady_def)

locale route_control =
  fixes env :: "('k, 'h, 'r, 'w) meshEnv" and W :: "wgkey set \<Rightarrow> 'w \<Rightarrow> bool" and F :: "'w \<Rightarrow> bool"
  assumes apply_law: "\<not> enDry env \<Longrightarrow> admissible (enConfig env) k ip psk ep \<Longrightarrow> W M w \<Longrightarrow>
      enApply env k ip psk ep w = (Inr u, w') \<Longrightarrow> W (insert k M) w'"
    and apply_fails: "\<not> enDry env \<Longrightarrow> admissible (enConfig env) k ip psk ep \<Longrightarrow> W M w \<Longrightarrow>
      enApply env k ip psk ep w = (Inl e, w') \<Longrightarrow> F w'"
    and restore_law: "\<not> enDry env \<Longrightarrow> W M w \<Longrightarrow> enRestore env k w = (Inr u, w') \<Longrightarrow> W (M - {k}) w'"
    and restore_fails: "\<not> enDry env \<Longrightarrow> W M w \<Longrightarrow> enRestore env k w = (Inl e, w') \<Longrightarrow> F w'"
    and rekey_law: "\<not> enDry env \<Longrightarrow> enRekey env = Some control \<Longrightarrow> new \<noteq> 0 \<Longrightarrow> W M w \<Longrightarrow>
      W M (snd (fst control k old new w))"
    and handshake_law: "enRekey env = Some control \<Longrightarrow> W M w \<Longrightarrow> W M (snd (snd control k w))"
    and check_law: "W M w \<Longrightarrow> W M (snd (enCheck env w))"
    and verify_law: "enVerify env = Some m \<Longrightarrow> W M w \<Longrightarrow> W M (snd (m w))"
    and inspect_law: "enInspect env = Some m \<Longrightarrow> W M w \<Longrightarrow> W M (snd (m w))"
    and notify_law: "enNotify env = Some f \<Longrightarrow> W M w \<Longrightarrow> W M (f w)"
    and now_law: "W M w \<Longrightarrow> W M (snd (enNow env w))"
    and text_law: "W M w \<Longrightarrow> W M (snd (enText env w))"
    and send_law: "W M w \<Longrightarrow> W M (snd (enSend env data ap l w))"
    and links_law: "W M w \<Longrightarrow> W M (snd (enLinks env w))"
    and file_law: "W M w \<Longrightarrow> W M (snd (enPskFile env name w))"
    and rosenpass_law: "W M w \<Longrightarrow> W M (snd (enRosenpass env name request w))"
    and path_order_law: "W M w \<Longrightarrow> W M (snd (enPathOrder env names w))"
    and peer_order_law: "W M w \<Longrightarrow> W M (snd (enPeerOrder env keys w))"
    and failing: "W M w \<Longrightarrow> F w"
    and now_fails: "F w \<Longrightarrow> F (snd (enNow env w))"
    and send_fails: "F w \<Longrightarrow> F (snd (enSend env data ap l w))"
begin

section \<open>Rules for the calls\<close>

lemma steady_failed [intro]: "steady env W c0 M s \<Longrightarrow> failed F e s"
  by (auto simp: steady_def failed_def failing)

lemma world_rule:
  assumes "\<And>M w. W M w \<Longrightarrow> W M (snd (m w))" and "steady env W c0 M s"
    and "\<And>a s'. steady env W c0 M s' \<Longrightarrow> cxPeer s' = cxPeer s \<Longrightarrow> cxLinks s' = cxLinks s \<Longrightarrow> Q a s'"
    and "\<And>e s'. steady env W c0 M s' \<Longrightarrow> cxPeer s' = cxPeer s \<Longrightarrow> cxLinks s' = cxLinks s \<Longrightarrow> E e s'"
  shows "wpE (worldE m) Q E s"
proof -
  obtain r w where m: "m (cxWorld s) = (r, w)" by (cases "m (cxWorld s)")
  with assms(1)[of M "cxWorld s"] assms(2) have "steady env W c0 M (s\<lparr>cxWorld := w\<rparr>)"
    by (simp add: steady_def)
  with assms(3,4) m show ?thesis
    by (cases r) (simp_all add: wpE_def worldE_def)
qed

lemma draw_rule:
  assumes "\<And>M w. W M w \<Longrightarrow> W M (snd (f w))" and "steady env W c0 M s"
    and "\<And>a s'. steady env W c0 M s' \<Longrightarrow> cxPeer s' = cxPeer s \<Longrightarrow> cxLinks s' = cxLinks s \<Longrightarrow> Q a s'"
  shows "wpE (drawE f) Q E s"
proof -
  obtain a w where f: "f (cxWorld s) = (a, w)" by (cases "f (cxWorld s)")
  with assms(1)[of M "cxWorld s"] assms(2) have "steady env W c0 M (s\<lparr>cxWorld := w\<rparr>)"
    by (simp add: steady_def)
  with assms(3) f show ?thesis by (simp add: wpE_def drawE_def worldE_def)
qed

lemma crypto_rule:
  assumes "\<And>c. sec_step (enCrypto env) now c (snd (m c))" and "steady env W c0 M s"
    and "\<And>a s'. steady env W c0 M s' \<Longrightarrow> cxPeer s' = cxPeer s \<Longrightarrow> cxLinks s' = cxLinks s \<Longrightarrow> Q a s'"
    and "\<And>e s'. steady env W c0 M s' \<Longrightarrow> cxPeer s' = cxPeer s \<Longrightarrow> cxLinks s' = cxLinks s \<Longrightarrow> E e s'"
  shows "wpE (cryptoE m) Q E s"
proof -
  obtain r c where m: "m (cxCrypto s) = (r, c)" by (cases "m (cxCrypto s)")
  with assms(1)[of "cxCrypto s"] assms(2) have "steady env W c0 M (s\<lparr>cxCrypto := c\<rparr>)"
    by (auto simp: steady_def intro: sec_more)
  with assms(3,4) m show ?thesis
    by (cases r) (simp_all add: wpE_def cryptoE_def)
qed

text \<open>
  Every operation below that changes nothing of the peer gets a rule of the same
  form: whatever holds of all such states holds after it.
\<close>

lemma clock_rule [calls]:
  assumes "steady env W c0 M s"
    and "\<And>a s'. steady env W c0 M s' \<Longrightarrow> cxPeer s' = cxPeer s \<Longrightarrow> cxLinks s' = cxLinks s \<Longrightarrow> Q a s'"
  shows "wpE (clock env) Q E s"
  unfolding clock_def by (rule draw_rule[OF now_law assms])

lemma elapsed_rule [calls]:
  assumes "steady env W c0 M s"
    and "\<And>a s'. steady env W c0 M s' \<Longrightarrow> cxPeer s' = cxPeer s \<Longrightarrow> cxLinks s' = cxLinks s \<Longrightarrow> Q a s'"
  shows "wpE (elapsed env now t0) Q E s"
  using assms by (auto simp: elapsed_def wp intro!: calls)

lemma randText_rule [calls]:
  assumes "steady env W c0 M s"
    and "\<And>a s'. steady env W c0 M s' \<Longrightarrow> cxPeer s' = cxPeer s \<Longrightarrow> cxLinks s' = cxLinks s \<Longrightarrow> Q a s'"
  shows "wpE (randText env) Q E s"
  unfolding randText_def by (rule draw_rule[OF text_law assms])

lemma sendMessage_rule [calls]:
  assumes "steady env W c0 M s"
    and "\<And>a s'. steady env W c0 M s' \<Longrightarrow> cxPeer s' = cxPeer s \<Longrightarrow> cxLinks s' = cxLinks s \<Longrightarrow> Q a s'"
  shows "wpE (sendMessage env i msg addr link now) Q E s"
proof -
  have send: "wpE (worldE (enSend env data addr link)) (\<lambda>_. Q True) (\<lambda>_. Q False) t"
    if "steady env W c0 M t" "cxPeer t = cxPeer s" "cxLinks t = cxLinks s" for data t
    by (rule world_rule[OF send_law that(1)]) (use assms(2) that in auto)
  show ?thesis
    unfolding sendMessage_def
    by (simp add: wp, rule crypto_rule[OF sec_seal assms(1)]) (auto simp: wp wpE_returnE_fun intro: assms(2) send)
qed

lemma pathCommand_rule [calls]:
  assumes "steady env W c0 M s"
    and "\<And>a s'. steady env W c0 M s' \<Longrightarrow> cxPeer s' = cxPeer s \<Longrightarrow> cxLinks s' = cxLinks s \<Longrightarrow> Q a s'"
  shows "wpE (pathCommand env c token op now) Q E s"
  using assms by (auto simp: pathCommand_def wp intro!: calls split: option.split)

lemma command_rule [calls]:
  assumes "steady env W c0 M s"
    and "\<And>a s'. steady env W c0 M s' \<Longrightarrow> cxPeer s' = cxPeer s \<Longrightarrow> cxLinks s' = cxLinks s \<Longrightarrow> Q a s'"
  shows "wpE (command env op now) Q E s"
  using assms by (auto simp: command_def wp intro!: calls)

lemma verifyE_rule [calls]:
  assumes "steady env W c0 M s"
    and "\<And>s'. steady env W c0 M s' \<Longrightarrow> cxPeer s' = cxPeer s \<Longrightarrow> cxLinks s' = cxLinks s \<Longrightarrow> Q () s'"
    and "\<And>e s'. steady env W c0 M s' \<Longrightarrow> E e s'"
  shows "wpE (verifyE env) Q E s"
proof (cases "enVerify env")
  case None
  with assms show ?thesis by (simp add: verifyE_def wp)
next
  case (Some m)
  then show ?thesis
    unfolding verifyE_def by simp (rule world_rule[OF verify_law[OF Some] assms(1)]; simp add: assms)
qed

lemma rekeyCommand_rule [calls]:
  assumes "steady env W c0 M s" and "rsSelected (mpRoute (cxPeer s)) \<noteq> None"
    and "\<And>a s'. steady env W c0 M s' \<Longrightarrow> cxPeer s' = cxPeer s \<Longrightarrow> cxLinks s' = cxLinks s \<Longrightarrow> Q a s'"
  shows "wpE (rekeyCommand env r op now) Q E s"
  using assms by (auto simp: rekeyCommand_def wp intro!: calls)

section \<open>Rules for the operations that change the controller\<close>

lemma cancelReplacement_rule [calls]:
  assumes "steady env W c0 M s"
    and "\<And>s'. steady env W c0 M s' \<Longrightarrow> cxPeer s' = cancelledPeer (enConfig env) now (cxPeer s) \<Longrightarrow> cxLinks s' = cxLinks s \<Longrightarrow> Q () s'"
  shows "wpE (cancelReplacement env now) Q E s"
proof (cases "mpReplacement (cxPeer s)")
  case None
  with assms show ?thesis by (auto simp: cancelReplacement_def cancelledPeer_def wp intro!: calls)
next
  case (Some r)
  with assms show ?thesis by (auto simp: cancelReplacement_def cancelledPeer_def wp intro!: calls)
qed

lemma restore_rule:
  assumes "steady env W c0 M s" and "\<not> enDry env"
    and "\<And>s'. steady env W c0 (M - {psKey (mpSpec (cxPeer s))}) s' \<Longrightarrow>
      cxPeer s' = restoredPeer (enConfig env) now (cxPeer s) \<Longrightarrow> cxLinks s' = cxLinks s \<Longrightarrow> Q () s'"
  shows "wpE (meshRestore env now) Q (failed F) s"
proof -
  have call: "wpE (worldE (enRestore env (psKey (mpSpec (cxPeer s))))) (\<lambda>_. wpE
      (thenE (retire (rsTrial (mpRoute (cxPeer s))) now) (thenE (dropPrevious now) (modPeer (stablePeer (enConfig env) now))))
      Q (failed F)) (failed F) t"
    if t: "steady env W c0 M t" "cxPeer t = cancelledPeer (enConfig env) now (cxPeer s)" "cxLinks t = cxLinks s" for t
  proof -
    obtain r w where m: "enRestore env (psKey (mpSpec (cxPeer s))) (cxWorld t) = (r, w)"
      by (cases "enRestore env (psKey (mpSpec (cxPeer s))) (cxWorld t)")
    show ?thesis
    proof (cases r)
      case (Inl e)
      with m restore_fails[OF assms(2), of M "cxWorld t"] t show ?thesis
        by (auto simp: wpE_def worldE_def failed_def steady_def)
    next
      case (Inr u)
      with m restore_law[OF assms(2), of M "cxWorld t"] t
      have "steady env W c0 (M - {psKey (mpSpec (cxPeer s))}) (t\<lparr>cxWorld := w\<rparr>)"
        by (auto simp: steady_def)
      then have "wpE (thenE (retire (rsTrial (mpRoute (cxPeer s))) now) (thenE (dropPrevious now) (modPeer (stablePeer (enConfig env) now))))
          Q (failed F) (t\<lparr>cxWorld := w\<rparr>)"
        using t by (auto simp: wp restoredPeer_def Let_def intro!: assms(3))
      with Inr m show ?thesis by (simp add: wpE_def[of "worldE _"] worldE_def)
    qed
  qed
  show ?thesis
    unfolding meshRestore_def
    by (auto simp: wp intro!: calls assms(1) call)
qed

lemma control_apply_rule:
  assumes "steady env W c0 M s" and "\<not> enDry env"
    and "admissible (enConfig env) (psKey (mpSpec (cxPeer s))) (psIP (mpSpec (cxPeer s))) (psPsk (mpSpec (cxPeer s))) (endpointOf (cxPeer s) c)"
    and "\<And>s'. steady env W c0 (insert (psKey (mpSpec (cxPeer s))) M) s' \<Longrightarrow> cxPeer s' = cxPeer s \<Longrightarrow> cxLinks s' = cxLinks s \<Longrightarrow> Q () s'"
    and "\<And>e s'. failed F e s' \<Longrightarrow> cxPeer s' = cxPeer s \<Longrightarrow> sec_run (enCrypto env) c0 (cxCrypto s') \<Longrightarrow> E e s'"
  shows "wpE (controlApply env c) Q E s"
proof -
  let ?p = "cxPeer s"
  obtain r w where m: "enApply env (psKey (mpSpec ?p)) (psIP (mpSpec ?p)) (psPsk (mpSpec ?p)) (endpointOf ?p c) (cxWorld s) = (r, w)"
    by (cases "enApply env (psKey (mpSpec ?p)) (psIP (mpSpec ?p)) (psPsk (mpSpec ?p)) (endpointOf ?p c) (cxWorld s)")
  show ?thesis
  proof (cases r)
    case (Inl e)
    with m apply_fails[OF assms(2,3), of M "cxWorld s"] assms(1) show ?thesis
      by (auto simp: controlApply_def bindE_def getsE_def wpE_def worldE_def failed_def steady_def intro!: assms(5))
  next
    case (Inr u)
    with m apply_law[OF assms(2,3), of M "cxWorld s"] assms(1)
    have "steady env W c0 (insert (psKey (mpSpec ?p)) M) (s\<lparr>cxWorld := w\<rparr>)"
      by (auto simp: steady_def)
    with Inr m show ?thesis
      by (auto simp: controlApply_def bindE_def getsE_def wpE_def worldE_def intro!: assms(4))
  qed
qed

end

end
