(* ===== verification/PskSafety.thy ===== *)
theory PskSafety
  imports MeshInv
begin

text \<open>
  The operations of \<^verbatim>\<open>psk.go\<close> keep the invariant of the peer they serve, under the
  contract \<open>route_control\<close>.  \<open>kept\<close> is the state between two operations: the peer
  satisfies its invariant, is managed exactly when its phase says so, and has not
  lost any of its first \<open>n\<close> paths.
\<close>

section \<open>Between operations\<close>

definition kept :: "('k, 'h, 'r, 'w) meshEnv \<Rightarrow> (wgkey set \<Rightarrow> 'w \<Rightarrow> bool) \<Rightarrow> ('k, 'r) secure \<Rightarrow> wgkey \<Rightarrow> wgkey set \<Rightarrow> nat \<Rightarrow>
    ('k, 'r, 'w) serving \<Rightarrow> bool" where
  "kept env W c0 k M0 n s \<longleftrightarrow> k \<notin> M0 \<and> peerOK env (cxPeer s) \<and> psKey (mpSpec (cxPeer s)) = k \<and>
     n \<le> length (mpHeap (cxPeer s)) \<and> steady env W c0 (if direct (cxPeer s) then insert k M0 else M0) s"

text \<open>A peer whose key may be used now.\<close>

definition keyReady :: "meshPeer \<Rightarrow> bool" where
  "keyReady p \<longleftrightarrow> psFile (mpSpec p) = [] \<or> mpPskValid p"

lemma keptD:
  assumes "kept env W c0 k M0 n s"
  shows "peerOK env (cxPeer s)" and "psKey (mpSpec (cxPeer s)) = k" and "k \<notin> M0"
    and "steady env W c0 (if direct (cxPeer s) then insert k M0 else M0) s" and "n \<le> length (mpHeap (cxPeer s))"
  using assms by (auto simp: kept_def)

lemma kept_update:
  assumes "kept env W c0 k M0 n s" and "peerOK env q" and "psKey (mpSpec q) = psKey (mpSpec (cxPeer s))" and "direct q = direct (cxPeer s)"
    and "length (mpHeap (cxPeer s)) \<le> length (mpHeap q)"
  shows "kept env W c0 k M0 n (s\<lparr>cxPeer := q\<rparr>)"
  using assms by (simp add: kept_def)

lemma kept_starts [simp]: "kept env W c0 k M0 n (s\<lparr>cxStarts := st\<rparr>) = kept env W c0 k M0 n s"
  by (simp add: kept_def)

lemma kept_same:
  assumes "kept env W c0 k M0 n s" and "steady env W c0 (if direct (cxPeer s) then insert k M0 else M0) s'" and "cxPeer s' = cxPeer s"
  shows "kept env W c0 k M0 n s'"
  using assms by (simp add: kept_def)

lemmas peer_defs = peerOK_def storeOK_def keyedOK_def roundOK_def routeOK_def roleOK_def transitionOK_def direct_def Let_def

lemma admissible_peer:
  assumes "peerOK env p" and "keyReady p" and "usablePath (mpHeap p) c" and "freshPath (enConfig env) (pathAt p c) now"
  shows "admissible (enConfig env) (psKey (mpSpec p)) (psIP (mpSpec p)) (psPsk (mpSpec p)) (endpointOf p c)"
proof -
  from assms(1) obtain spec where spec: "spec \<in> set (cfPeers (enConfig env))" "mpSpec p = spec\<lparr>psPsk := psPsk (mpSpec p)\<rparr>"
    "psFile spec = [] \<longrightarrow> psPsk (mpSpec p) = psPsk spec" and valid: "mpPskValid p \<longrightarrow> psPsk (mpSpec p) \<noteq> 0"
    by (auto simp: peerOK_def keyedOK_def)
  then have fields: "psKey (mpSpec p) = psKey spec" "psIP (mpSpec p) = psIP spec" "psFile (mpSpec p) = psFile spec"
    by (metis (no_types, lifting) peerSpec.select_convs peerSpec.surjective peerSpec.update_convs(9))+
  have "if psFile spec = [] then psPsk (mpSpec p) = psPsk spec else psPsk (mpSpec p) \<noteq> 0"
    using spec(3) valid assms(2) fields(3) by (auto simp: keyReady_def)
  with spec(1) fields assms(3,4) show ?thesis
    by (auto simp: admissible_def endpointOf_def usablePath_def pathAt_def freshPath_def)
qed

lemma peerOK_neutral [simp]:
  "peerOK env (p\<lparr>mpPskStatus := st\<rparr>) = peerOK env p" "peerOK env (p\<lparr>mpPskLogAfter := t\<rparr>) = peerOK env p"
  "peerOK env (p\<lparr>mpRosenpassToken := tk\<rparr>) = peerOK env p" "peerOK env (p\<lparr>mpCooldown := t\<rparr>) = peerOK env p"
  "peerOK env (p\<lparr>mpRetiredUntil := t\<rparr>) = peerOK env p" "peerOK env (p\<lparr>mpDiscovery := d\<rparr>) = peerOK env p"
  by (simp_all add: peerOK_def storeOK_fields)

lemma direct_neutral [simp]:
  "direct (p\<lparr>mpPskStatus := st\<rparr>) = direct p" "direct (p\<lparr>mpPskLogAfter := t\<rparr>) = direct p" "direct (p\<lparr>mpRosenpassToken := tk\<rparr>) = direct p"
  "direct (p\<lparr>mpCooldown := t\<rparr>) = direct p" "direct (p\<lparr>mpRetiredUntil := t\<rparr>) = direct p" "direct (p\<lparr>mpDiscovery := d\<rparr>) = direct p"
  "direct (p\<lparr>mpRosenpassPath := c\<rparr>) = direct p" "direct (p\<lparr>mpPskValid := b\<rparr>) = direct p" "direct (p\<lparr>mpSpec := spec\<rparr>) = direct p"
  "direct (p\<lparr>mpRekey := t'\<rparr>) = direct p" "direct (p\<lparr>mpPending := ps\<rparr>) = direct p" "direct (p\<lparr>mpHeap := h\<rparr>) = direct p"
  "direct (p\<lparr>mpPaths := ns\<rparr>) = direct p" "direct (p\<lparr>mpReplacement := q\<rparr>) = direct p" "direct (p\<lparr>mpCompletedRekey := t'\<rparr>) = direct p"
  "direct (p\<lparr>mpPrevious := v\<rparr>) = direct p"
  by (simp_all add: direct_def)

lemma leastFresh_path:
  assumes "leastFresh env links p now = Some i"
  shows "i \<in> snd ` set (mpPaths p)"
proof -
  have "fold (\<lambda>(_, i) c. if linkedFresh env links p now i \<and> (case c of None \<Rightarrow> True | Some j \<Rightarrow> nameOf env p i < nameOf env p j)
      then Some i else c) xs c0 = Some i \<Longrightarrow> c0 = Some i \<or> i \<in> snd ` set xs" for xs c0
    by (induction xs arbitrary: c0) (fastforce split: if_splits)+
  with assms show ?thesis unfolding leastFresh_def by blast
qed

lemma readKeyFile_nonzero: "readKeyFile env spec now f = Some key \<Longrightarrow> key \<noteq> 0"
  by (auto simp: readKeyFile_def Let_def split: option.splits if_splits)

text \<open>
  The peer that is served: its key, the peers managed besides it, the state
  of the control channel at the start and the paths known then are fixed throughout.
\<close>

locale served_peer = route_control env W F
  for env :: "('k, 'h, 'r, 'w) meshEnv" and W F +
  fixes c0 :: "('k, 'r) secure" and k :: wgkey and M0 :: "wgkey set" and n :: nat
begin

lemma kept_lift:
  assumes "kept env W c0 k M0 n s"
    and "\<And>M P. steady env W c0 M s \<Longrightarrow> (\<And>a s'. steady env W c0 M s' \<Longrightarrow> cxPeer s' = cxPeer s \<Longrightarrow> cxLinks s' = cxLinks s \<Longrightarrow> P a s') \<Longrightarrow> wpE m P E s"
    and "\<And>a s'. kept env W c0 k M0 n s' \<Longrightarrow> cxPeer s' = cxPeer s \<Longrightarrow> cxLinks s' = cxLinks s \<Longrightarrow> Q a s'"
  shows "wpE m Q E s"
  by (rule assms(2)[OF keptD(4)[OF assms(1)]]) (simp add: assms(3) kept_same[OF assms(1)])

lemma kept_failed [intro]: "kept env W c0 k M0 n s \<Longrightarrow> failed F e s"
  by (auto simp: kept_def)

lemma clock_kept [keeps]:
  "kept env W c0 k M0 n s \<Longrightarrow> (\<And>a s'. kept env W c0 k M0 n s' \<Longrightarrow> cxPeer s' = cxPeer s \<Longrightarrow> cxLinks s' = cxLinks s \<Longrightarrow> Q a s') \<Longrightarrow>
    wpE (clock env) Q E s"
  by (rule kept_lift) (auto intro: calls)

lemma elapsed_kept [keeps]:
  "kept env W c0 k M0 n s \<Longrightarrow> (\<And>a s'. kept env W c0 k M0 n s' \<Longrightarrow> cxPeer s' = cxPeer s \<Longrightarrow> cxLinks s' = cxLinks s \<Longrightarrow> Q a s') \<Longrightarrow>
    wpE (elapsed env now t0) Q E s"
  by (rule kept_lift) (auto intro: calls)

lemma randText_kept [keeps]:
  "kept env W c0 k M0 n s \<Longrightarrow> (\<And>a s'. kept env W c0 k M0 n s' \<Longrightarrow> cxPeer s' = cxPeer s \<Longrightarrow> cxLinks s' = cxLinks s \<Longrightarrow> Q a s') \<Longrightarrow>
    wpE (randText env) Q E s"
  by (rule kept_lift) (auto intro: calls)

lemma sendMessage_kept [keeps]:
  "kept env W c0 k M0 n s \<Longrightarrow> (\<And>a s'. kept env W c0 k M0 n s' \<Longrightarrow> cxPeer s' = cxPeer s \<Longrightarrow> cxLinks s' = cxLinks s \<Longrightarrow> Q a s') \<Longrightarrow>
    wpE (sendMessage env i msg addr link now) Q E s"
  by (rule kept_lift) (auto intro: calls)

lemma pathCommand_kept [keeps]:
  "kept env W c0 k M0 n s \<Longrightarrow> (\<And>a s'. kept env W c0 k M0 n s' \<Longrightarrow> cxPeer s' = cxPeer s \<Longrightarrow> cxLinks s' = cxLinks s \<Longrightarrow> Q a s') \<Longrightarrow>
    wpE (pathCommand env c token op now) Q E s"
  by (rule kept_lift) (auto intro: calls)

lemma command_kept [keeps]:
  "kept env W c0 k M0 n s \<Longrightarrow> (\<And>a s'. kept env W c0 k M0 n s' \<Longrightarrow> cxPeer s' = cxPeer s \<Longrightarrow> cxLinks s' = cxLinks s \<Longrightarrow> Q a s') \<Longrightarrow>
    wpE (command env op now) Q E s"
  by (rule kept_lift) (auto intro: calls)

lemma rekeyCommand_kept [keeps]:
  "kept env W c0 k M0 n s \<Longrightarrow> rsPhase (mpRoute (cxPeer s)) \<noteq> PNone \<Longrightarrow>
    (\<And>a s'. kept env W c0 k M0 n s' \<Longrightarrow> cxPeer s' = cxPeer s \<Longrightarrow> cxLinks s' = cxLinks s \<Longrightarrow> Q a s') \<Longrightarrow>
    wpE (rekeyCommand env r op now) Q E s"
proof (rule kept_lift)
  assume "kept env W c0 k M0 n s" "rsPhase (mpRoute (cxPeer s)) \<noteq> PNone"
  then have "rsSelected (mpRoute (cxPeer s)) \<noteq> None" by (auto simp: kept_def peer_defs)
  then show "wpE (rekeyCommand env r op now) P E s"
    if "steady env W c0 M s" "\<And>a s'. steady env W c0 M s' \<Longrightarrow> cxPeer s' = cxPeer s \<Longrightarrow> cxLinks s' = cxLinks s \<Longrightarrow> P a s'" for M P
    using that by (auto intro: calls)
qed auto

lemma verifyE_kept [keeps]:
  "kept env W c0 k M0 n s \<Longrightarrow> (\<And>s'. kept env W c0 k M0 n s' \<Longrightarrow> cxPeer s' = cxPeer s \<Longrightarrow> cxLinks s' = cxLinks s \<Longrightarrow> Q () s') \<Longrightarrow>
    wpE (verifyE env) Q (failed F) s"
  by (rule kept_lift) (auto intro: calls)

lemma cancelReplacement_kept [keeps]:
  assumes "kept env W c0 k M0 n s"
    and "\<And>s'. kept env W c0 k M0 n s' \<Longrightarrow> cxPeer s' = cancelledPeer (enConfig env) now (cxPeer s) \<Longrightarrow> cxLinks s' = cxLinks s \<Longrightarrow> Q () s'"
  shows "wpE (cancelReplacement env now) Q E s"
proof (rule cancelReplacement_rule[OF keptD(4)[OF assms(1)]])
  fix s' assume s': "steady env W c0 (if direct (cxPeer s) then insert k M0 else M0) s'"
    "cxPeer s' = cancelledPeer (enConfig env) now (cxPeer s)" "cxLinks s' = cxLinks s"
  then have "kept env W c0 k M0 n s'"
    using keptD(1-3,5)[OF assms(1)] by (simp add: kept_def peerOK_cancelled)
  with s' assms(2) show "Q () s'" by blast
qed

lemma restore_kept [keeps]:
  assumes "kept env W c0 k M0 n s" and "\<not> enDry env"
    and "\<And>s'. kept env W c0 k M0 n s' \<Longrightarrow> cxPeer s' = restoredPeer (enConfig env) now (cxPeer s) \<Longrightarrow> cxLinks s' = cxLinks s \<Longrightarrow> Q () s'"
  shows "wpE (meshRestore env now) Q (failed F) s"
proof (rule restore_rule[OF keptD(4)[OF assms(1)] assms(2)])
  fix s' assume s': "steady env W c0 ((if direct (cxPeer s) then insert k M0 else M0) - {psKey (mpSpec (cxPeer s))}) s'"
    "cxPeer s' = restoredPeer (enConfig env) now (cxPeer s)" "cxLinks s' = cxLinks s"
  have "(if direct (cxPeer s) then insert k M0 else M0) - {psKey (mpSpec (cxPeer s))} = M0"
    using keptD(2,3)[OF assms(1)] by auto
  with s' have "kept env W c0 k M0 n s'"
    using keptD(1-3,5)[OF assms(1)] by (simp add: kept_def peerOK_restored)
  with s' assms(3) show "Q () s'" by blast
qed

text \<open>Reading the key: what is returned is never the zero key.\<close>

lemma readPSKFile_kept [keeps]:
  assumes "kept env W c0 k M0 n s"
    and "\<And>r s'. kept env W c0 k M0 n s' \<Longrightarrow> cxPeer s' = cxPeer s \<Longrightarrow> cxLinks s' = cxLinks s \<Longrightarrow> r \<noteq> Some 0 \<Longrightarrow> Q r s'"
  shows "wpE (readPSKFile env now) Q E s"
  unfolding readPSKFile_def
proof (simp add: wp, rule draw_rule[OF file_law keptD(4)[OF assms(1)]])
  fix f s' assume s': "steady env W c0 (if direct (cxPeer s) then insert k M0 else M0) s'" "cxPeer s' = cxPeer s" "cxLinks s' = cxLinks s"
  have "readKeyFile env (mpSpec (cxPeer s)) now f \<noteq> Some 0" using readKeyFile_nonzero by blast
  from assms(2)[OF kept_same[OF assms(1) s'(1,2)] s'(2,3) this]
  show "wpE (returnE (readKeyFile env (mpSpec (cxPeer s)) now f)) Q E s'" by (simp add: wp)
qed

lemma peerOK_rosenpass:
  "peerOK env p \<Longrightarrow> (\<And>i. c = Some i \<Longrightarrow> i < length (mpHeap p)) \<Longrightarrow> peerOK env (p\<lparr>mpRosenpassPath := c\<rparr>)"
  by (simp add: peerOK_def storeOK_def)

lemma peerOK_paths: "peerOK env p \<Longrightarrow> i \<in> snd ` set (mpPaths p) \<Longrightarrow> i < length (mpHeap p)"
  by (auto simp: peerOK_def storeOK_def list_all_iff)

lemma chooseEndpoint_kept [keeps]:
  assumes "kept env W c0 k M0 n s"
    and "\<And>r s'. kept env W c0 k M0 n s' \<Longrightarrow> mpRoute (cxPeer s') = mpRoute (cxPeer s) \<Longrightarrow> mpSpec (cxPeer s') = mpSpec (cxPeer s) \<Longrightarrow>
      cxLinks s' = cxLinks s \<Longrightarrow> Q r s'"
  shows "wpE (chooseEndpoint env now) Q E s"
proof -
  have ok: "peerOK env (cxPeer s)" by (rule keptD(1)[OF assms(1)])
  have least: "i < length (mpHeap (cxPeer s))" if "leastFresh env links (cxPeer s) now = Some i" for links i
    by (rule peerOK_paths[OF ok leastFresh_path[OF that]])
  have old: "i < length (mpHeap (cxPeer s))" if "mpRosenpassPath (cxPeer s) = Some i" for i
    using ok that by (auto simp: peerOK_def storeOK_def)
  show ?thesis
    unfolding chooseEndpoint_def using ok
    by (auto simp: wp intro!: keeps assms kept_update peerOK_rosenpass dest: old keptD(1))
      (rule least)
qed

lemma selectEndpoint_kept [keeps]:
  "kept env W c0 k M0 n s \<Longrightarrow> (\<And>s'. kept env W c0 k M0 n s' \<Longrightarrow> cxPeer s' = cxPeer s \<Longrightarrow> cxLinks s' = cxLinks s \<Longrightarrow> Q () s') \<Longrightarrow>
    wpE (selectEndpoint env c now) Q E s"
  by (auto simp: selectEndpoint_def wp intro!: keeps split: option.split)

lemma rosenpass_kept:
  assumes "kept env W c0 k M0 n s"
    and "\<And>a s'. kept env W c0 k M0 n s' \<Longrightarrow> cxPeer s' = cxPeer s \<Longrightarrow> cxLinks s' = cxLinks s \<Longrightarrow> Q a s'"
    and "\<And>e s'. kept env W c0 k M0 n s' \<Longrightarrow> cxPeer s' = cxPeer s \<Longrightarrow> cxLinks s' = cxLinks s \<Longrightarrow> E e s'"
  shows "wpE (worldE (enRosenpass env socket request)) Q E s"
  by (rule world_rule[OF rosenpass_law keptD(4)[OF assms(1)]]) (auto intro!: assms kept_same[OF assms(1)])

lemma askAdapter_kept [keeps]:
  "kept env W c0 k M0 n s \<Longrightarrow> (\<And>a s'. kept env W c0 k M0 n s' \<Longrightarrow> cxPeer s' = cxPeer s \<Longrightarrow> cxLinks s' = cxLinks s \<Longrightarrow> Q a s') \<Longrightarrow>
    wpE (askAdapter env request expected now t0) Q E s"
  by (auto simp: askAdapter_def wp wpE_returnE_fun intro!: rosenpass_kept keeps)

lemma confirmKey_kept [keeps]:
  assumes "kept env W c0 k M0 n s"
    and "\<And>r s'. kept env W c0 k M0 n s' \<Longrightarrow> cxPeer s' = cxPeer s \<Longrightarrow> cxLinks s' = cxLinks s \<Longrightarrow> (\<forall>st. r \<noteq> Some (0, st)) \<Longrightarrow> Q r s'"
  shows "wpE (confirmKey env request now t0) Q E s"
  by (auto simp: confirmKey_def wp intro!: keeps assms split: option.split)

lemma readPeerPSK_kept [keeps]:
  assumes "kept env W c0 k M0 n s"
    and "\<And>r s'. kept env W c0 k M0 n s' \<Longrightarrow> mpRoute (cxPeer s') = mpRoute (cxPeer s) \<Longrightarrow> mpSpec (cxPeer s') = mpSpec (cxPeer s) \<Longrightarrow>
      cxLinks s' = cxLinks s \<Longrightarrow> (\<forall>st. r \<noteq> Some (0, st)) \<Longrightarrow> Q r s'"
  shows "wpE (readPeerPSK env now) Q E s"
  by (auto simp: readPeerPSK_def wp intro!: keeps assms)

text \<open>
  Noticing a change: the phase stays or falls back to none, and a key is ready
  when the poll says so.
\<close>

lemma peerOK_key:
  assumes "peerOK env p" and "spec0 = mpSpec p" and "psFile spec0 \<noteq> []" and "valid \<Longrightarrow> key \<noteq> 0"
  shows "peerOK env (p\<lparr>mpSpec := spec0\<lparr>psPsk := key\<rparr>, mpPskValid := valid\<rparr>)"
proof -
  from assms(1) obtain spec where spec: "spec \<in> set (cfPeers (enConfig env))" "mpSpec p = spec\<lparr>psPsk := psPsk (mpSpec p)\<rparr>"
    by (auto simp: peerOK_def keyedOK_def)
  then have "psFile spec \<noteq> []" "spec0\<lparr>psPsk := key\<rparr> = spec\<lparr>psPsk := key\<rparr>"
    using assms(2,3) by (metis peerSpec.select_convs(4) peerSpec.surjective peerSpec.update_convs(9))+
  with spec(1) assms(4) have "keyedOK (enConfig env) (p\<lparr>mpSpec := spec0\<lparr>psPsk := key\<rparr>, mpPskValid := valid\<rparr>)"
    by (auto simp: keyedOK_def intro!: bexI[of _ spec])
  with assms(1,2) show ?thesis
    by (simp add: peerOK_def storeOK_fields) (simp add: roundOK_def direct_def Let_def)
qed

lemma adoptKey_kept [keeps]:
  assumes "kept env W c0 k M0 n s" and "psFile (mpSpec (cxPeer s)) \<noteq> []" and "valid \<Longrightarrow> key \<noteq> 0"
    and "\<And>s'. kept env W c0 k M0 n s' \<Longrightarrow> rsPhase (mpRoute (cxPeer s')) = PNone \<Longrightarrow> mpPskValid (cxPeer s') = valid \<Longrightarrow>
      cxLinks s' = cxLinks s \<Longrightarrow> Q valid s'"
  shows "wpE (adoptKey env now key valid status) Q (failed F) s"
proof -
  have ok: "peerOK env (cxPeer s)" by (rule keptD(1)[OF assms(1)])
  have dry: "\<not> enDry env" if "rsSelected (mpRoute (cxPeer s)) \<noteq> None \<or> rsPhase (mpRoute (cxPeer s)) \<noteq> PNone"
    using ok that by (auto simp: peerOK_def roundOK_def routeOK_def Let_def)
  show ?thesis
    unfolding adoptKey_def using dry assms(2) ok
    by (auto simp: wp intro!: keeps assms kept_update peerOK_key peerOK_restored)
qed

lemma startRekey_kept [keeps]:
  assumes "kept env W c0 k M0 n s" and "rsPhase (mpRoute (cxPeer s)) = PActive" and "psFile (mpSpec (cxPeer s)) \<noteq> []" and "key \<noteq> 0"
    and "\<And>s'. kept env W c0 k M0 n s' \<Longrightarrow> mpRoute (cxPeer s') = mpRoute (cxPeer s) \<Longrightarrow> mpSpec (cxPeer s') = mpSpec (cxPeer s) \<Longrightarrow>
      mpPskValid (cxPeer s') = mpPskValid (cxPeer s) \<Longrightarrow> cxLinks s' = cxLinks s \<Longrightarrow> Q () s'"
  shows "wpE (startRekey env now key) Q (failed F) s"
proof (cases "mpRekey (cxPeer s)")
  case (Some r)
  with assms show ?thesis by (simp add: startRekey_def wp)
next
  case None
  have "peerOK env (cancelledPeer (enConfig env) now (cxPeer s))" by (rule peerOK_cancelled[OF keptD(1)[OF assms(1)]])
  with None assms(2-4) show ?thesis
    unfolding startRekey_def
    by (auto simp: wp intro!: keeps assms(1,5) kept_update)
      (auto simp: peerOK_def storeOK_fields roundOK_def routeOK_def transitionOK_def direct_def Let_def)
qed

lemma peerOK_dropped_live [simp]: "peerOK env p \<Longrightarrow> peerOK env (droppedPrevious now p)"
  by (rule peerOK_dropped)

lemma dropped_poll [simp]: "mpPskStatus (droppedPrevious now p) = mpPskStatus p"
  by (auto simp: droppedPrevious_def retired_def Let_def split: option.split)

lemma pollFile_kept [keeps]:
  assumes "kept env W c0 k M0 n s" and "psFile (mpSpec (cxPeer s)) \<noteq> []" and "\<forall>st. res \<noteq> Some (0, st)"
    and "\<And>ok s'. kept env W c0 k M0 n s' \<Longrightarrow>
      rsPhase (mpRoute (cxPeer s')) = rsPhase (mpRoute (cxPeer s)) \<or> rsPhase (mpRoute (cxPeer s')) = PNone \<Longrightarrow>
      ok \<longrightarrow> keyReady (cxPeer s') \<Longrightarrow> cxLinks s' = cxLinks s \<Longrightarrow> Q ok s'"
  shows "wpE (pollFile env now res) Q (failed F) s"
proof -
  have ok: "peerOK env (cxPeer s)" by (rule keptD(1)[OF assms(1)])
  show ?thesis
  proof (cases res)
    case None
    with assms(2) ok show ?thesis
      unfolding pollFile_def by (auto simp: wp Let_def keyReady_def intro!: keeps assms kept_update)
  next
    case (Some r)
    then obtain key st where r: "res = Some (key, st)" "key \<noteq> 0" using assms(3) by (cases r) auto
    show ?thesis
      unfolding pollFile_def r(1) using assms(2) ok r(2)
      by (simp add: wp Let_def) (auto simp: wp keyReady_def intro!: keeps assms kept_update, erule keptD(1))
  qed
qed

lemma pollPSK_kept [keeps]:
  assumes "kept env W c0 k M0 n s"
    and "\<And>ok s'. kept env W c0 k M0 n s' \<Longrightarrow>
      rsPhase (mpRoute (cxPeer s')) = rsPhase (mpRoute (cxPeer s)) \<or> rsPhase (mpRoute (cxPeer s')) = PNone \<Longrightarrow>
      ok \<longrightarrow> keyReady (cxPeer s') \<Longrightarrow> cxLinks s' = cxLinks s \<Longrightarrow> Q ok s'"
  shows "wpE (pollPSK env now) Q (failed F) s"
  unfolding pollPSK_def by (auto simp: wp keyReady_def intro!: keeps assms)

section \<open>Replacing the key of a direct path\<close>

lemma kept_rekey:
  assumes "kept env W c0 k M0 n s" and "mpRekey (cxPeer s) = Some r"
  shows "rsPhase (mpRoute (cxPeer s)) = PActive" and "mpReplacement (cxPeer s) = None" and "\<not> enDry env"
    and "psFile (mpSpec (cxPeer s)) \<noteq> []" and "transitionOK (enPublic env) (enRekey env \<noteq> None) k r"
  using keptD(1,2)[OF assms(1)] assms(2) by (auto simp: peerOK_def roundOK_def Let_def)

lemma kept_modRekey:
  assumes "kept env W c0 k M0 n s" and "mpRekey (cxPeer s) = Some r"
    and "transitionOK (enPublic env) (enRekey env \<noteq> None) k (f r)"
  shows "kept env W c0 k M0 n (s\<lparr>cxPeer := (cxPeer s)\<lparr>mpRekey := Some (f r)\<rparr>\<rparr>)"
  using assms kept_rekey[OF assms(1,2)] keptD[OF assms(1)]
  by (auto intro!: kept_update simp: peerOK_def storeOK_fields) (auto simp: roundOK_def direct_def Let_def)

lemma peerOK_psk:
  assumes "peerOK env p" and "spec0 = mpSpec p" and "psFile spec0 \<noteq> []" and "key \<noteq> 0"
  shows "peerOK env (p\<lparr>mpSpec := spec0\<lparr>psPsk := key\<rparr>\<rparr>)"
proof -
  have "p\<lparr>mpSpec := spec0\<lparr>psPsk := key\<rparr>\<rparr> = p\<lparr>mpSpec := spec0\<lparr>psPsk := key\<rparr>, mpPskValid := mpPskValid p\<rparr>"
    by simp
  then show ?thesis using peerOK_key[OF assms(1-3), of "mpPskValid p" key] assms(4) by simp
qed

lemma rekey_call_kept:
  assumes "kept env W c0 k M0 n s" and "enRekey env = Some control" and "\<not> enDry env" and "new \<noteq> 0"
    and "\<And>a s'. kept env W c0 k M0 n s' \<Longrightarrow> cxPeer s' = cxPeer s \<Longrightarrow> cxLinks s' = cxLinks s \<Longrightarrow> Q a s'"
    and "\<And>e s'. kept env W c0 k M0 n s' \<Longrightarrow> cxPeer s' = cxPeer s \<Longrightarrow> cxLinks s' = cxLinks s \<Longrightarrow> E e s'"
  shows "wpE (worldE (fst control key old new)) Q E s"
  by (rule world_rule[OF rekey_law[OF assms(3,2,4)] keptD(4)[OF assms(1)]]) (auto intro!: assms(5,6) kept_same[OF assms(1)])

lemma handshake_call_kept:
  assumes "kept env W c0 k M0 n s" and "enRekey env = Some control"
    and "\<And>a s'. kept env W c0 k M0 n s' \<Longrightarrow> cxPeer s' = cxPeer s \<Longrightarrow> cxLinks s' = cxLinks s \<Longrightarrow> Q a s'"
    and "\<And>e s'. kept env W c0 k M0 n s' \<Longrightarrow> cxPeer s' = cxPeer s \<Longrightarrow> cxLinks s' = cxLinks s \<Longrightarrow> E e s'"
  shows "wpE (worldE (snd control key)) Q E s"
  by (rule world_rule[OF handshake_law[OF assms(2)] keptD(4)[OF assms(1)]]) (auto intro!: assms(3,4) kept_same[OF assms(1)])

lemma installRekey_kept:
  assumes "kept env W c0 k M0 n s" and "enRekey env = Some control" and "mpRekey (cxPeer s) = Some r"
    and "\<And>s'. kept env W c0 k M0 n s' \<Longrightarrow> cxLinks s' = cxLinks s \<Longrightarrow> Q () s'"
  shows "wpE (installRekey env control now t0 r) Q (failed F) s"
proof -
  note r = kept_rekey[OF assms(1,3)]
  have "rkKey r \<noteq> 0" using r(5) by (simp add: transitionOK_def)
  have applied: "kept env W c0 k M0 n (s'\<lparr>cxPeer := p\<lparr>mpSpec := (mpSpec p)\<lparr>psPsk := rkKey r\<rparr>, mpRekey := Some (r\<lparr>rkPhase := RObserving, rkAppliedAt := t, rkHandshake := hs\<rparr>)\<rparr>\<rparr>)"
    if "kept env W c0 k M0 n s'" "p = cxPeer s" "cxPeer s' = p\<lparr>mpSpec := (mpSpec p)\<lparr>psPsk := rkKey r\<rparr>\<rparr>" for s' p t hs
    using kept_modRekey[OF that(1), of r "\<lambda>r. r\<lparr>rkPhase := RObserving, rkAppliedAt := t, rkHandshake := hs\<rparr>"] that assms(2,3) r(5)
    by (simp add: transitionOK_def)
  show ?thesis
    unfolding installRekey_def using assms(3) r \<open>rkKey r \<noteq> 0\<close> keptD(1)[OF assms(1)]
    by (auto simp: wp intro!: handshake_call_kept[OF _ assms(2)] rekey_call_kept[OF _ assms(2)] keeps assms(1,4) kept_update peerOK_psk
        applied)
qed

lemma applyRekey_kept [keeps]:
  assumes "kept env W c0 k M0 n s" and "\<And>s'. kept env W c0 k M0 n s' \<Longrightarrow> cxLinks s' = cxLinks s \<Longrightarrow> Q () s'"
  shows "wpE (applyRekey env now) Q (failed F) s"
  unfolding applyRekey_def
  by (auto simp: wp intro!: keeps assms installRekey_kept split: option.split) (drule (1) kept_rekey(3), simp)+

lemma transitionOK_update:
  assumes "transitionOK public can k r"
  shows "transitionOK public can k (r\<lparr>rkRemoteApplied := b\<rparr>)" "transitionOK public can k (r\<lparr>rkRemoteObserved := t\<rparr>)"
    "transitionOK public can k (adoptOffer (public < k) msg r)"
  using assms by (auto simp: transitionOK_def adoptOffer_def)

lemma rekeyMessage_kept:
  assumes "kept env W c0 k M0 n s" and "mpRekey (cxPeer s) = Some r" and "\<And>s'. kept env W c0 k M0 n s' \<Longrightarrow> cxLinks s' = cxLinks s \<Longrightarrow> Q () s'"
  shows "wpE (rekeyMessage env msg now r) Q (failed F) s"
proof -
  note r = kept_rekey[OF assms(1,2)]
  have seen: "kept env W c0 k M0 n (s'\<lparr>cxPeer := (cxPeer s')\<lparr>mpRekey := Some (r'\<lparr>rkRemoteApplied := True\<rparr>)\<rparr>\<rparr>)"
    "kept env W c0 k M0 n (s'\<lparr>cxPeer := (cxPeer s')\<lparr>mpRekey := Some (r'\<lparr>rkRemoteApplied := True, rkRemoteObserved := t\<rparr>)\<rparr>\<rparr>)"
    "rsPhase (mpRoute (cxPeer s')) = PActive"
    if "kept env W c0 k M0 n s'" "mpRekey (cxPeer s') = Some r'" for s' r' t
    using kept_modRekey[OF that, of "\<lambda>r. r\<lparr>rkRemoteApplied := True\<rparr>"] kept_modRekey[OF that, of "\<lambda>r. r\<lparr>rkRemoteApplied := True, rkRemoteObserved := t\<rparr>"]
      kept_rekey[OF that] by (simp_all add: transitionOK_update)
  show ?thesis
    unfolding rekeyMessage_def using assms(2) r
    by (auto simp: wp intro!: keeps assms(1,3) seen(1,2) split: option.split; use seen in force)
qed

lemma answerRekey_kept [keeps]:
  assumes "kept env W c0 k M0 n s" and "\<And>s'. kept env W c0 k M0 n s' \<Longrightarrow> cxLinks s' = cxLinks s \<Longrightarrow> Q () s'"
  shows "wpE (answerRekey env msg now) Q (failed F) s"
proof (cases "mpRekey (cxPeer s)")
  case None
  have "rsPhase (mpRoute (cxPeer s)) \<noteq> PNone" if "mpCompletedRekey (cxPeer s) = Some d" for d
    using keptD(1)[OF assms(1)] that by (auto simp: peerOK_def roundOK_def direct_def Let_def)
  with None show ?thesis
    unfolding answerRekey_def by (auto simp: wp intro!: keeps assms split: option.split)
next
  case (Some r)
  note r = kept_rekey[OF assms(1) Some]
  have "kept env W c0 k M0 n (s\<lparr>cxPeer := (cxPeer s)\<lparr>mpRekey := Some (adoptOffer (leads env (cxPeer s)) msg r)\<rparr>\<rparr>)"
    using kept_modRekey[OF assms(1) Some, of "adoptOffer (leads env (cxPeer s)) msg"] r(5) keptD(2)[OF assms(1)]
    by (simp add: transitionOK_update)
  with Some r show ?thesis
    unfolding answerRekey_def by (auto simp: wp Let_def intro!: keeps assms rekeyMessage_kept)
qed

lemma coordinateRekey_kept [keeps]:
  assumes "kept env W c0 k M0 n s" and "\<And>s'. kept env W c0 k M0 n s' \<Longrightarrow> cxLinks s' = cxLinks s \<Longrightarrow> Q () s'"
  shows "wpE (coordinateRekey env c msg now) Q (failed F) s"
  unfolding coordinateRekey_def by (auto simp: wp intro!: keeps assms)

lemma finishRekey_kept:
  assumes "kept env W c0 k M0 n s" and "mpRekey (cxPeer s) = Some r" and "\<And>s'. kept env W c0 k M0 n s' \<Longrightarrow> cxLinks s' = cxLinks s \<Longrightarrow> Q () s'"
  shows "wpE (finishRekey r now) Q E s"
proof -
  note r = kept_rekey[OF assms(1,2)]
  have "peerOK env ((cxPeer s)\<lparr>mpRekey := None, mpCompletedRekey := d, mpCooldown := t, mpRoute := (mpRoute (cxPeer s))\<lparr>rsRemoteAt := now\<rparr>\<rparr>)"
    "peerOK env ((cxPeer s)\<lparr>mpRekey := None, mpCompletedRekey := d, mpRoute := (mpRoute (cxPeer s))\<lparr>rsRemoteAt := now\<rparr>\<rparr>)" for d t
    using keptD(1)[OF assms(1)] r(1,2) by (auto simp: peerOK_def storeOK_fields) (auto simp: roundOK_def routeOK_def direct_def Let_def)
  then show ?thesis
    unfolding finishRekey_def by (simp only: wp) (auto simp: direct_def intro!: assms kept_update)
qed

lemma advanceRekey_kept:
  assumes "kept env W c0 k M0 n s" and "mpRekey (cxPeer s) = Some r" and "\<And>s'. kept env W c0 k M0 n s' \<Longrightarrow> cxLinks s' = cxLinks s \<Longrightarrow> Q () s'"
  shows "wpE (advanceRekey env now r) Q (failed F) s"
proof -
  note r = kept_rekey[OF assms(1,2)]
  have observe: "wpE (observeRekey env now r) Q (failed F) t"
    if t: "kept env W c0 k M0 n t" "cxPeer t = cxPeer s" "cxLinks t = cxLinks s" and obs: "rkPhase r = RObserving" for t
  proof -
    obtain control where "enRekey env = Some control"
      using r(5) obs by (cases "enRekey env") (auto simp: transitionOK_def)
    with t r(1) assms(2) show ?thesis
      unfolding observeRekey_def by (auto simp: wp intro!: handshake_call_kept keeps assms(3) finishRekey_kept)
  qed
  show ?thesis
    unfolding advanceRekey_def using r by (auto simp: wp intro!: keeps assms(1,3) observe)
qed

end

end
