(* ===== verification/MeshSafety.thy ===== *)
theory MeshSafety
  imports PskSafety
begin

text \<open>
  The coordination of \<^verbatim>\<open>mesh.go\<close> keeps the invariant: installing, rolling back, the
  timer's work on each phase and every message of the other side.
\<close>

section \<open>Transitions of the peer\<close>

lemma peerOK_trial:
  assumes "peerOK env p" and "rsPhase (mpRoute p) = PPrepare \<or> rsPhase (mpRoute p) = PPrepared"
  shows "peerOK env (trialPeer t p)"
  using assms by (auto simp: peerOK_def trialPeer_def storeOK_kept) (auto simp: roundOK_def routeOK_def roleOK_def direct_def Let_def)

lemma peerOK_take:
  assumes "peerOK env p" and "mpReplacement p = Some r"
  shows "peerOK env (trialPeer t (takeReplacement (rpPath r) r p))"
  using assms by (auto simp: peerOK_def trialPeer_def takeReplacement_def storeOK_kept)
    (auto simp: roundOK_def routeOK_def roleOK_def direct_def Let_def)

lemma trialPeer_fields [simp]:
  "direct (trialPeer t p)" "mpHeap (trialPeer t p) = mpHeap p" "mpHeap (takeReplacement c r p) = mpHeap p" "mpSpec (trialPeer t p) = mpSpec p" "mpSpec (takeReplacement c r p) = mpSpec p"
  by (simp_all add: trialPeer_def takeReplacement_def direct_def)

lemma peerOK_route:
  assumes "peerOK env p" and "rsPhase r' = rsPhase (mpRoute p)" and "routeOK (enPublic env) (psKey (mpSpec p)) (mpHeap p) r'"
  shows "peerOK env (p\<lparr>mpRoute := r'\<rparr>)"
  using assms by (simp add: peerOK_def storeOK_kept roundOK_def direct_def Let_def)

lemma peerOK_routeOK: "peerOK env p \<Longrightarrow> routeOK (enPublic env) (psKey (mpSpec p)) (mpHeap p) (mpRoute p)"
  by (simp add: peerOK_def roundOK_def Let_def)

lemma peerOK_previousOK:
  "peerOK env p \<Longrightarrow> mpPrevious p = Some old \<Longrightarrow>
    rsPhase (mpRoute p) = PTrial \<and> rsPhase old = PActive \<and> routeOK (enPublic env) (psKey (mpSpec p)) (mpHeap p) old"
  by (simp add: peerOK_def roundOK_def Let_def)

lemma peerOK_setPrevious:
  assumes "peerOK env p" and "mpPrevious p = Some old" and "rsPhase v = PActive" and "routeOK (enPublic env) (psKey (mpSpec p)) (mpHeap p) v"
  shows "peerOK env (p\<lparr>mpPrevious := Some v\<rparr>)"
proof -
  have "rsPhase (mpRoute p) = PTrial" using assms(1,2) by (simp add: peerOK_def roundOK_def Let_def)
  with assms show ?thesis by (auto simp: peerOK_def storeOK_kept roundOK_def direct_def Let_def)
qed

lemma routeOK_flags:
  assumes "routeOK public key heap r"
  shows "routeOK public key heap (r\<lparr>rsRemoteGood := b\<rparr>)" and "routeOK public key heap (r\<lparr>rsRemoteAt := t\<rparr>)"
    and "routeOK public key heap (r\<lparr>rsCommitted := True\<rparr>)" and "routeOK public key heap (r\<lparr>rsRemoteRekey := b\<rparr>)"
    and "routeOK public key heap (r\<lparr>rsResumed := t\<rparr>)"
    and "rsPhase r \<noteq> PActive \<or> b \<Longrightarrow> routeOK public key heap (r\<lparr>rsLocalGood := b\<rparr>)"
  using assms by (simp_all add: routeOK_def)

lemma peerOK_resume:
  assumes "peerOK env p" and "mpPrevious p = Some old"
  shows "peerOK env (resumePrevious c t old p)"
proof -
  have none: "mpReplacement p = None" "mpRekey p = None"
    using assms by (auto simp: peerOK_def roundOK_def Let_def)
  have "routeOK (enPublic env) (psKey (mpSpec p)) (mpHeap p) (old\<lparr>rsResumed := t\<rparr>)" "rsPhase old = PActive" "\<not> enDry env"
    using peerOK_previousOK[OF assms] assms(1) by (auto intro: routeOK_flags simp: peerOK_dry)
  with assms(1) none show ?thesis
    by (simp add: peerOK_def resumePrevious_def storeOK_kept roundOK_def direct_def Let_def)
qed

lemma resumePrevious_fields:
  "rsPhase old = PActive \<Longrightarrow> direct (resumePrevious c t old p)" "mpSpec (resumePrevious c t old p) = mpSpec p"
  by (simp_all add: resumePrevious_def direct_def)

lemma peerOK_promote:
  assumes "peerOK env p" and "rsPhase (mpRoute p) = PTrial" and "mpPrevious p = None" and "rsCommitted (mpRoute p)" and "rsLocalGood (mpRoute p)"
  shows "peerOK env (promotePeer c t p)"
  using assms by (auto simp: peerOK_def promotePeer_def storeOK_kept) (auto simp: roundOK_def routeOK_def roleOK_def direct_def Let_def)

lemma peerOK_propose:
  assumes "peerOK env p" and "usablePath (mpHeap p) c" and "ph = PPrepare \<or> ph = PPrepared"
    and "roleOK (enPublic env) (psKey (mpSpec p)) ph" and "\<not> enDry env" and "mpRekey p = None" and "mpReplacement p = None"
    and "rsPhase (mpRoute p) = PNone \<or> rsPhase (mpRoute p) = PActive"
  shows "peerOK env (proposedPeer c ph token t base rk p)"
  using assms by (auto simp: peerOK_def proposedPeer_def storeOK_kept) (auto simp: roundOK_def routeOK_def roleOK_def direct_def Let_def)

lemma direct_propose:
  "rsPhase (mpRoute p) = PNone \<or> rsPhase (mpRoute p) = PActive \<Longrightarrow> ph = PPrepare \<or> ph = PPrepared \<Longrightarrow>
    direct (proposedPeer c ph token t base rk p) = direct p"
  by (auto simp: proposedPeer_def direct_def)

lemma proposedPeer_fields [simp]: "mpSpec (proposedPeer c ph token t base rk p) = mpSpec p" "mpHeap (proposedPeer c ph token t base rk p) = mpHeap p"
  by (simp_all add: proposedPeer_def)

lemma direct_flags [simp]:
  "direct (p\<lparr>mpRoute := (mpRoute p)\<lparr>rsRemoteGood := b\<rparr>\<rparr>) = direct p" "direct (p\<lparr>mpRoute := (mpRoute p)\<lparr>rsRemoteGood := b, rsRemoteAt := t\<rparr>\<rparr>) = direct p"
  "direct (p\<lparr>mpRoute := (mpRoute p)\<lparr>rsCommitted := b\<rparr>\<rparr>) = direct p" "direct (p\<lparr>mpRoute := (mpRoute p)\<lparr>rsRemoteRekey := b\<rparr>\<rparr>) = direct p"
  "direct (p\<lparr>mpRoute := (mpRoute p)\<lparr>rsLocalGood := b\<rparr>\<rparr>) = direct p"
  by (simp_all add: direct_def)

lemma peerOK_previous:
  assumes "peerOK env p" and "mpPrevious p = Some old"
  shows "peerOK env (p\<lparr>mpPrevious := None\<rparr>)"
    and "peerOK env (p\<lparr>mpPrevious := Some (old\<lparr>rsRemoteGood := b\<rparr>)\<rparr>)"
    and "peerOK env (p\<lparr>mpPrevious := Some (old\<lparr>rsRemoteGood := b, rsRemoteAt := t\<rparr>)\<rparr>)"
proof -
  show "peerOK env (p\<lparr>mpPrevious := None\<rparr>)"
    using assms(1) by (simp add: peerOK_def storeOK_kept roundOK_def direct_def Let_def)
qed (use peerOK_previousOK[OF assms] in \<open>simp_all add: peerOK_setPrevious[OF assms] routeOK_flags\<close>)

lemma peerOK_replacement:
  assumes "peerOK env p" and "mpReplacement p = Some r"
  shows "peerOK env (p\<lparr>mpReplacement := Some (r\<lparr>rpRemoteRekey := b\<rparr>)\<rparr>)"
  using assms by (auto simp: peerOK_def storeOK_kept) (auto simp: roundOK_def routeOK_def roleOK_def direct_def Let_def)

lemma peerOK_facts:
  assumes "peerOK env p"
  shows "rsSelected (mpRoute p) = Some i \<Longrightarrow> usablePath (mpHeap p) i" and "rsSelected (mpRoute p) = None \<longleftrightarrow> rsPhase (mpRoute p) = PNone"
    and "mpReplacement p = Some r \<Longrightarrow> rsPhase (mpRoute p) = PActive \<and> usablePath (mpHeap p) (rpPath r) \<and> mpRekey p = None"
    and "mpPrevious p = Some old \<Longrightarrow> rsPhase (mpRoute p) = PTrial \<and> (\<exists>i. rsSelected old = Some i \<and> usablePath (mpHeap p) i)"
  using assms by (auto simp: peerOK_def roundOK_def routeOK_def Let_def)

lemma qualifiedPath_usable:
  assumes "peerOK env p" and "i < length (mpHeap p)"
  shows "\<exists>r. qualifiedPath env p i now = Inr r" and "qualifiedPath env p i now = Inr (Some base) \<Longrightarrow> usablePath (mpHeap p) i"
proof -
  have "rsPhase (mpRoute p) = PActive \<Longrightarrow> rsSelected (mpRoute p) \<noteq> None"
    using peerOK_facts(2)[OF assms(1)] by auto
  then show "\<exists>r. qualifiedPath env p i now = Inr r"
    by (auto simp: qualifiedPath_def Let_def split: option.splits)
  show "usablePath (mpHeap p) i" if "qualifiedPath env p i now = Inr (Some base)"
    using that assms(2) by (auto simp: qualifiedPath_def usablePath_def pathAt_def Let_def split: if_splits)
qed

section \<open>Installing a path\<close>

context route_control
begin

text \<open>After the controller failed, the message that aborts the round is still sent.\<close>

lemma elapsed_failed:
  assumes "failed F e s" and "\<And>a s'. failed F e s' \<Longrightarrow> Q a s'"
  shows "wpE (elapsed env now t0) Q E s"
  using assms(1) now_fails[of "cxWorld s"]
  by (cases "enNow env (cxWorld s)")
    (auto simp: elapsed_def clock_def drawE_def worldE_def wpE_def bindE_def returnE_def failed_def intro!: assms(2))

lemma pathCommand_failed:
  assumes "failed F e s" and "\<And>s'. failed F e s' \<Longrightarrow> Q () s'"
  shows "wpE (pathCommand env c token op now) Q E s"
proof -
  have send: "wpE (worldE (enSend env data addr link)) Q (\<lambda>_. Q ()) t" if "failed F e t" for data addr link t
    using that send_fails[of "cxWorld t" data addr link]
    by (cases "enSend env data addr link (cxWorld t)"; cases "fst (enSend env data addr link (cxWorld t))")
      (auto simp: worldE_def wpE_def failed_def intro!: assms(2))
  have crypto: "failed F e (s\<lparr>cxCrypto := c\<rparr>)" for c
    using assms(1) by (simp add: failed_def)
  show ?thesis
    using assms(1) crypto
    by (auto simp: pathCommand_def sendMessage_def wp wpE_returnE_fun cryptoE_def wpE_def[of "cryptoE _"]
        intro!: assms(2) send split: option.split sum.split prod.split)
qed

end

context served_peer
begin

lemma kept_trial:
  assumes "kept env W c0 k M0 n s" and "steady env W c0 (insert k (if direct (cxPeer s) then insert k M0 else M0)) s'"
    and "peerOK env q" and "direct q" and "mpSpec q = mpSpec (cxPeer s)" and "mpHeap q = mpHeap (cxPeer s)"
  shows "kept env W c0 k M0 n (s'\<lparr>cxPeer := q\<rparr>)"
  using assms by (simp add: kept_def split: if_splits)

lemma installPath_kept:
  assumes "kept env W c0 k M0 n s" and "\<not> enDry env" and "keyReady (cxPeer s)" and "usablePath (mpHeap (cxPeer s)) c"
    and "freshPath (enConfig env) (pathAt (cxPeer s) c) checked"
    and "case rep of None \<Rightarrow> rsPhase (mpRoute (cxPeer s)) = PPrepare \<or> rsPhase (mpRoute (cxPeer s)) = PPrepared
      | Some r \<Rightarrow> mpReplacement (cxPeer s) = Some r \<and> c = rpPath r"
    and "\<And>s'. kept env W c0 k M0 n s' \<Longrightarrow> cxLinks s' = cxLinks s \<Longrightarrow> Q () s'"
  shows "wpE (installPath env now t0 leader c token rep) Q (failed F) s"
proof -
  note key = keptD(2)[OF assms(1)]
  have abort: "wpE (bindE (elapsed env now t0) (\<lambda>t. thenE (pathCommand env (Some c) token ''abort'' t) (throwE (Wrap ''apply direct path'' e))))
      Q (failed F) s'" if "failed F e s'" for e s'
    using that by (auto simp: wp failed_def intro!: elapsed_failed[where e = e] pathCommand_failed[where e = e])
  have install: "wpE (thenE (case rep of None \<Rightarrow> returnE () | Some r \<Rightarrow> modPeer (takeReplacement c r))
        (bindE (elapsed env now t0) (\<lambda>t. thenE (modPeer (trialPeer t)) (if leader then command env ''commit'' t else returnE ()))))
      Q (failed F) s'"
    if s': "steady env W c0 (insert k (if direct (cxPeer s) then insert k M0 else M0)) s'" "cxPeer s' = cxPeer s" "cxLinks s' = cxLinks s" for s'
  proof (cases rep)
    case None
    have "kept env W c0 k M0 n (t\<lparr>cxPeer := trialPeer u (cxPeer s)\<rparr>)"
      if "steady env W c0 (insert k (if direct (cxPeer s) then insert k M0 else M0)) t" for t u
      using assms(6) None peerOK_trial[OF keptD(1)[OF assms(1)]] by (auto intro!: kept_trial[OF assms(1) that])
    with s' None show ?thesis by (auto simp: wp intro!: elapsed_rule command_kept assms(7))
  next
    case (Some r)
    have "kept env W c0 k M0 n (t\<lparr>cxPeer := trialPeer u (takeReplacement c r (cxPeer s))\<rparr>)"
      if "steady env W c0 (insert k (if direct (cxPeer s) then insert k M0 else M0)) t" for t u
      using assms(6) Some peerOK_take[OF keptD(1)[OF assms(1)]] by (auto intro!: kept_trial[OF assms(1) that])
    with s' Some show ?thesis by (auto simp: wp intro!: elapsed_rule command_kept assms(7))
  qed
  show ?thesis
    unfolding installPath_def wpE_bindE wpE_tryE
    by (rule control_apply_rule[OF keptD(4)[OF assms(1)] assms(2) admissible_peer[OF keptD(1)[OF assms(1)] assms(3-5)]])
      (use key install abort in \<open>simp_all\<close>)
qed

lemma kept_dry:
  assumes "kept env W c0 k M0 n s" and "rsPhase (mpRoute (cxPeer s)) \<noteq> PNone"
  shows "\<not> enDry env"
  using keptD(1)[OF assms(1)] assms(2) by (rule peerOK_dry)

lemma applyReplacement_kept:
  assumes "kept env W c0 k M0 n s" and "keyReady (cxPeer s)" and "\<And>s'. kept env W c0 k M0 n s' \<Longrightarrow> cxLinks s' = cxLinks s \<Longrightarrow> Q () s'"
  shows "wpE (applyReplacement env now t0 leader checkedAt r) Q (failed F) s"
proof (cases "mpReplacement (cxPeer s) = Some r")
  case False
  with assms show ?thesis by (simp add: applyReplacement_def wp)
next
  case True
  note facts = peerOK_facts(3)[OF keptD(1)[OF assms(1)] True]
  obtain j where j: "rsSelected (mpRoute (cxPeer s)) = Some j"
    using facts peerOK_facts(2)[OF keptD(1)[OF assms(1)]] by (cases "rsSelected (mpRoute (cxPeer s))") auto
  have dry: "\<not> enDry env" using kept_dry[OF assms(1)] facts by simp
  show ?thesis
    unfolding applyReplacement_def using True j facts dry
    by (auto simp: wp intro!: keeps installPath_kept[where checked = checkedAt] assms)
qed

lemma applySelected_kept:
  assumes "kept env W c0 k M0 n s" and "keyReady (cxPeer s)"
    and "rsPhase (mpRoute (cxPeer s)) = PPrepare \<or> rsPhase (mpRoute (cxPeer s)) = PPrepared \<or> rsPhase (mpRoute (cxPeer s)) = PNone"
    and "\<And>s'. kept env W c0 k M0 n s' \<Longrightarrow> cxLinks s' = cxLinks s \<Longrightarrow> Q () s'"
  shows "wpE (applySelected env now t0 leader checkedAt) Q (failed F) s"
proof (cases "rsSelected (mpRoute (cxPeer s))")
  case None
  with assms show ?thesis by (simp add: applySelected_def wp)
next
  case (Some c)
  note ok = keptD(1)[OF assms(1)]
  have ph: "rsPhase (mpRoute (cxPeer s)) = PPrepare \<or> rsPhase (mpRoute (cxPeer s)) = PPrepared"
    using assms(3) Some peerOK_facts(2)[OF ok] by auto
  then have dry: "\<not> enDry env" using kept_dry[OF assms(1)] by auto
  show ?thesis
    unfolding applySelected_def using Some ph dry peerOK_facts(1)[OF ok Some]
    by (auto simp: wp intro!: keeps installPath_kept[where checked = checkedAt] assms)
qed

lemma meshApply_kept [keeps]:
  assumes "kept env W c0 k M0 n s"
    and "mpReplacement (cxPeer s) = None \<longrightarrow> rsPhase (mpRoute (cxPeer s)) = PPrepare \<or> rsPhase (mpRoute (cxPeer s)) = PPrepared"
    and "\<And>s'. kept env W c0 k M0 n s' \<Longrightarrow> cxLinks s' = cxLinks s \<Longrightarrow> Q () s'"
  shows "wpE (meshApply env now) Q (failed F) s"
proof (cases "mpReplacement (cxPeer s)")
  case None
  with assms(2) show ?thesis
    unfolding meshApply_def by (auto simp: wp intro!: keeps applySelected_kept assms(1,3))
next
  case (Some r)
  then show ?thesis
    unfolding meshApply_def by (auto simp: wp intro!: keeps applyReplacement_kept assms(1,3))
qed

section \<open>Going back\<close>

lemma rollbackTo_kept:
  assumes "kept env W c0 k M0 n s" and "keyReady (cxPeer s)" and "mpPrevious (cxPeer s) = Some old"
    and "\<And>s'. kept env W c0 k M0 n s' \<Longrightarrow> cxLinks s' = cxLinks s \<Longrightarrow> Q () s'"
  shows "wpE (rollbackTo env now t0 old) Q (failed F) s"
proof -
  note ok = keptD(1)[OF assms(1)]
  obtain c where c: "rsSelected old = Some c" "usablePath (mpHeap (cxPeer s)) c" and ph: "rsPhase (mpRoute (cxPeer s)) = PTrial"
    using peerOK_facts(4)[OF ok assms(3)] by blast
  have dry: "\<not> enDry env" using kept_dry[OF assms(1)] ph by simp
  have direct: "direct (cxPeer s)" using ph by (simp add: direct_def)
  have resumed: "kept env W c0 k M0 n (t\<lparr>cxPeer := resumePrevious (enConfig env) u old (retired token u (cxPeer s))\<rparr>)"
    if "kept env W c0 k M0 n t" "cxPeer t = cxPeer s" for t u token
  proof (rule kept_update[OF that(1)])
    have "peerOK env (retired token u (cxPeer s))" "mpPrevious (retired token u (cxPeer s)) = Some old"
      using ok assms(3) by simp_all
    then show "peerOK env (resumePrevious (enConfig env) u old (retired token u (cxPeer s)))" by (rule peerOK_resume)
    show "direct (resumePrevious (enConfig env) u old (retired token u (cxPeer s))) = direct (cxPeer t)"
      using peerOK_previousOK[OF ok assms(3)] direct that(2) by (simp add: resumePrevious_fields)
  qed (simp_all add: resumePrevious_def that(2))
  have installed: "wpE (controlApply env c) Q' (failed F) t"
    if t: "kept env W c0 k M0 n t" "cxPeer t = cxPeer s" "cxLinks t = cxLinks s" "freshPath (enConfig env) (pathAt (cxPeer s) c) u"
      and "\<And>t'. kept env W c0 k M0 n t' \<Longrightarrow> cxPeer t' = cxPeer s \<Longrightarrow> cxLinks t' = cxLinks s \<Longrightarrow> Q' () t'" for t u Q'
    by (rule control_apply_rule[OF keptD(4)[OF t(1)] dry admissible_peer[where now = u]])
      (use t assms(2) c(2) direct keptD(2,3,5)[OF t(1)] ok in \<open>auto intro!: that(5) simp: kept_def insert_absorb\<close>)
  show ?thesis
    unfolding rollbackTo_def using c dry
    by (auto simp: wp intro!: keeps resumed installed assms(1,4))
qed

lemma meshRollback_kept [keeps]:
  assumes "kept env W c0 k M0 n s" and "\<not> enDry env" and "\<And>s'. kept env W c0 k M0 n s' \<Longrightarrow> cxLinks s' = cxLinks s \<Longrightarrow> Q () s'"
  shows "wpE (meshRollback env now) Q (failed F) s"
  unfolding meshRollback_def by (auto simp: wp intro!: keeps rollbackTo_kept assms split: option.split)

section \<open>The timer\<close>

lemma kept_route:
  assumes "kept env W c0 k M0 n s" and "rsPhase r' = rsPhase (mpRoute (cxPeer s))" and "routeOK (enPublic env) k (mpHeap (cxPeer s)) r'"
  shows "kept env W c0 k M0 n (s\<lparr>cxPeer := (cxPeer s)\<lparr>mpRoute := r'\<rparr>\<rparr>)"
  by (rule kept_update[OF assms(1)]) (use assms(2,3) keptD(1,2)[OF assms(1)] in \<open>simp_all add: peerOK_route direct_def\<close>)

lemma kept_routeOK: "kept env W c0 k M0 n s \<Longrightarrow> routeOK (enPublic env) k (mpHeap (cxPeer s)) (mpRoute (cxPeer s))"
  using keptD(1,2)[of env W c0 k M0 n s] peerOK_routeOK[of env "cxPeer s"] by simp

lemma judgeTrial_kept:
  assumes "kept env W c0 k M0 n s" and "rsPhase (mpRoute (cxPeer s)) = PTrial"
    and "\<And>go s'. kept env W c0 k M0 n s' \<Longrightarrow> go \<longrightarrow> rsPhase (mpRoute (cxPeer s')) = PTrial \<Longrightarrow> cxLinks s' = cxLinks s \<Longrightarrow> Q go s'"
  shows "wpE (judgeTrial env now) Q (failed F) s"
proof -
  have good: "kept env W c0 k M0 n (s\<lparr>cxPeer := (cxPeer s)\<lparr>mpRoute := (mpRoute (cxPeer s))\<lparr>rsLocalGood := b\<rparr>\<rparr>\<rparr>)" for b
    by (rule kept_route[OF assms(1)]) (use kept_routeOK[OF assms(1)] assms(2) in \<open>auto intro: routeOK_flags(6)\<close>)
  show ?thesis
    unfolding judgeTrial_def leaveRound_def using assms(2) kept_dry[OF assms(1)]
    by (auto simp: wp intro!: good keeps assms(3) split: option.split)
qed

lemma settleTrial_kept:
  assumes "kept env W c0 k M0 n s" and "rsPhase (mpRoute (cxPeer s)) = PTrial"
    and "\<And>go s'. kept env W c0 k M0 n s' \<Longrightarrow> cxLinks s' = cxLinks s \<Longrightarrow> Q go s'"
  shows "wpE (settleTrial env now) Q (failed F) s"
proof -
  have promoted: "kept env W c0 k M0 n (s\<lparr>cxPeer := promotePeer (enConfig env) now (droppedPrevious now (cxPeer s))\<rparr>)"
    if "rsCommitted (mpRoute (cxPeer s))" "rsLocalGood (mpRoute (cxPeer s))"
  proof (rule kept_update[OF assms(1)])
    show "peerOK env (promotePeer (enConfig env) now (droppedPrevious now (cxPeer s)))"
      using that assms(2) keptD(1)[OF assms(1)] by (simp add: peerOK_promote)
  qed (use assms(2) in \<open>simp_all add: promotePeer_def direct_def\<close>)
  show ?thesis
    unfolding settleTrial_def leaveRound_def using assms(2) kept_dry[OF assms(1)]
    by (auto simp: wp intro!: promoted keeps assms(1,3))
qed

lemma advanceLive_kept:
  assumes "kept env W c0 k M0 n s" and "direct (cxPeer s)" and "\<And>go s'. kept env W c0 k M0 n s' \<Longrightarrow> cxLinks s' = cxLinks s \<Longrightarrow> Q go s'"
  shows "wpE (advanceLive env now) Q (failed F) s"
proof -
  have "\<not> enDry env" using kept_dry[OF assms(1)] assms(2) by (auto simp: direct_def)
  then show ?thesis
    unfolding advanceLive_def advanceTrial_def leaveRound_def
    by (auto simp: wp intro!: keeps judgeTrial_kept settleTrial_kept assms(1,3))
qed

lemma advancePhase_kept:
  assumes "kept env W c0 k M0 n s" and "\<And>go s'. kept env W c0 k M0 n s' \<Longrightarrow> cxLinks s' = cxLinks s \<Longrightarrow> Q go s'"
  shows "wpE (advancePhase env now) Q (failed F) s"
  using kept_dry[OF assms(1)]
  by (cases "rsPhase (mpRoute (cxPeer s))")
    (auto simp: advancePhase_def leaveRound_def wp direct_def intro!: keeps advanceLive_kept assms)

lemma advanceReplacement_kept [keeps]:
  assumes "kept env W c0 k M0 n s" and "\<And>s'. kept env W c0 k M0 n s' \<Longrightarrow> cxLinks s' = cxLinks s \<Longrightarrow> Q () s'"
  shows "wpE (advanceReplacement env now) Q (failed F) s"
  unfolding advanceReplacement_def by (auto simp: wp intro!: keeps assms split: option.split)

lemma meshAdvance_kept [keeps]:
  assumes "kept env W c0 k M0 n s" and "rsPhase (mpRoute (cxPeer s)) \<noteq> PNone"
    and "\<And>s'. kept env W c0 k M0 n s' \<Longrightarrow> cxLinks s' = cxLinks s \<Longrightarrow> Q () s'"
  shows "wpE (meshAdvance env now) Q (failed F) s"
proof -
  have "rsSelected (mpRoute (cxPeer s)) \<noteq> None" "\<not> enDry env"
    using peerOK_facts(2)[OF keptD(1)[OF assms(1)]] kept_dry[OF assms(1)] assms(2) by auto
  then show ?thesis
    unfolding meshAdvance_def by (auto simp: wp intro!: keeps advanceRekey_kept advancePhase_kept assms(1,3) split: option.split)
qed

section \<open>Messages of the other side\<close>

lemma kept_flags:
  assumes "kept env W c0 k M0 n s"
  shows "kept env W c0 k M0 n (s\<lparr>cxPeer := (cxPeer s)\<lparr>mpRoute := (mpRoute (cxPeer s))\<lparr>rsRemoteGood := b\<rparr>\<rparr>\<rparr>)"
    and "kept env W c0 k M0 n (s\<lparr>cxPeer := (cxPeer s)\<lparr>mpRoute := (mpRoute (cxPeer s))\<lparr>rsRemoteGood := b, rsRemoteAt := t\<rparr>\<rparr>\<rparr>)"
    and "kept env W c0 k M0 n (s\<lparr>cxPeer := (cxPeer s)\<lparr>mpRoute := (mpRoute (cxPeer s))\<lparr>rsCommitted := True\<rparr>\<rparr>\<rparr>)"
    and "kept env W c0 k M0 n (s\<lparr>cxPeer := (cxPeer s)\<lparr>mpRoute := (mpRoute (cxPeer s))\<lparr>rsRemoteRekey := b\<rparr>\<rparr>\<rparr>)"
  using kept_routeOK[OF assms] by (simp_all add: kept_route[OF assms] routeOK_flags)

lemma kept_proposed:
  assumes "kept env W c0 k M0 n s" and "usablePath (mpHeap (cxPeer s)) c" and "ph = PPrepare \<or> ph = PPrepared"
    and "roleOK (enPublic env) k ph" and "\<not> enDry env" and "mpRekey (cxPeer s) = None" and "mpReplacement (cxPeer s) = None"
    and "rsPhase (mpRoute (cxPeer s)) = PNone \<or> rsPhase (mpRoute (cxPeer s)) = PActive"
  shows "kept env W c0 k M0 n (s\<lparr>cxPeer := proposedPeer c ph token t base rk (cxPeer s)\<rparr>)"
proof (rule kept_update[OF assms(1)])
  show "peerOK env (proposedPeer c ph token t base rk (cxPeer s))"
    using keptD(1,2)[OF assms(1)] assms(2-8) by (auto intro!: peerOK_propose)
qed (use assms(3,8) in \<open>simp_all add: direct_propose\<close>)

lemma acceptProposal_kept:
  assumes "kept env W c0 k M0 n s" and "opensRound env c msg now (cxPeer s)" and "c < n" and "\<not> enDry env"
    and "\<And>s'. kept env W c0 k M0 n s' \<Longrightarrow> cxLinks s' = cxLinks s \<Longrightarrow> Q () s'"
  shows "wpE (acceptProposal env c msg now) Q (failed F) s"
proof -
  note ok = keptD(1)[OF assms(1)]
  have c: "c < length (mpHeap (cxPeer s))" using assms(3) keptD(5)[OF assms(1)] by simp
  have retired: "kept env W c0 k M0 n (s\<lparr>cxPeer := retired token now (cxPeer s)\<rparr>)" for token
    by (rule kept_update[OF assms(1)]) (use ok in simp_all)
  obtain r where r: "qualifiedPath env (cxPeer s) c now = Inr r" using qualifiedPath_usable(1)[OF ok c] by blast
  show ?thesis
  proof (cases r)
    case None
    with r show ?thesis by (simp add: acceptProposal_def wp retired assms(5))
  next
    case (Some base)
    have "usablePath (mpHeap (cxPeer s)) c" using qualifiedPath_usable(2)[OF ok c] r Some by blast
    moreover have "k < enPublic env" using assms(2) keptD(2)[OF assms(1)] by (simp add: opensRound_def)
    ultimately have p: "kept env W c0 k M0 n (s\<lparr>cxPeer := proposedPeer c PPrepared token t b rk (cxPeer s)\<rparr>)" for token t b rk
      using assms(2,4) by (intro kept_proposed[OF assms(1)]) (auto simp: roleOK_def opensRound_def)
    from p kept_flags(4)[OF p, simplified] Some r show ?thesis
      unfolding acceptProposal_def by (auto simp: wp intro!: pathCommand_kept assms(5))
  qed
qed

lemma answerReplacement_kept:
  assumes "kept env W c0 k M0 n s" and "mpReplacement (cxPeer s) = Some r" and "\<And>s'. kept env W c0 k M0 n s' \<Longrightarrow> cxLinks s' = cxLinks s \<Longrightarrow> Q () s'"
  shows "wpE (answerReplacement env c msg rcv t0 now r) Q (failed F) s"
proof -
  have "kept env W c0 k M0 n (s\<lparr>cxPeer := (cxPeer s)\<lparr>mpReplacement := Some (r\<lparr>rpRemoteRekey := b\<rparr>)\<rparr>\<rparr>)" for b
    by (rule kept_update[OF assms(1)]) (use peerOK_replacement[OF keptD(1)[OF assms(1)] assms(2)] in simp_all)
  then show ?thesis
    unfolding answerReplacement_def using assms(2)
    by (auto simp: wp intro!: keeps kept_flags(3) assms(1,3))
qed

lemma answerPrevious_kept:
  assumes "kept env W c0 k M0 n s" and "mpPrevious (cxPeer s) = Some old" and "\<And>s'. kept env W c0 k M0 n s' \<Longrightarrow> cxLinks s' = cxLinks s \<Longrightarrow> Q () s'"
  shows "wpE (answerPrevious msg now old) Q E s"
proof -
  note ok = keptD(1)[OF assms(1)]
  have previous: "kept env W c0 k M0 n (s\<lparr>cxPeer := q\<lparr>mpPrevious := v\<rparr>\<rparr>)"
    if "peerOK env (q\<lparr>mpPrevious := v\<rparr>)" "mpRoute q = mpRoute (cxPeer s)" "mpSpec q = mpSpec (cxPeer s)" "mpHeap q = mpHeap (cxPeer s)" for q v
    by (rule kept_update[OF assms(1)]) (use that in \<open>simp_all add: direct_def\<close>)
  have "peerOK env ((retired token now (cxPeer s))\<lparr>mpPrevious := None\<rparr>)" for token
    using peerOK_previous(1)[of env "retired token now (cxPeer s)"] ok assms(2) by simp
  then show ?thesis
    unfolding answerPrevious_def using peerOK_previous[OF ok assms(2)] by (auto simp: wp intro!: previous assms(1,3))
qed

lemma answerSelected_kept:
  assumes "kept env W c0 k M0 n s" and "\<not> enDry env" and "\<And>s'. kept env W c0 k M0 n s' \<Longrightarrow> cxLinks s' = cxLinks s \<Longrightarrow> Q () s'"
  shows "wpE (answerSelected env msg rcv t0 now) Q (failed F) s"
  unfolding answerSelected_def answerCommit_def using assms(2) by (auto simp: wp intro!: keeps kept_flags assms(1,3))

lemma answerRound_kept:
  assumes "kept env W c0 k M0 n s" and "\<not> enDry env" and "c < n" and "\<And>s'. kept env W c0 k M0 n s' \<Longrightarrow> cxLinks s' = cxLinks s \<Longrightarrow> Q () s'"
  shows "wpE (answerRound env c msg rcv t0 now) Q (failed F) s"
proof -
  have retired: "kept env W c0 k M0 n (s\<lparr>cxPeer := retired token now (cxPeer s)\<rparr>)" for token
    by (rule kept_update[OF assms(1)]) (use keptD(1)[OF assms(1)] in simp_all)
  show ?thesis
    unfolding answerRound_def replacementFor_def previousFor_def using assms(2,3)
    by (auto simp: wp intro!: retired acceptProposal_kept answerReplacement_kept answerPrevious_kept answerSelected_kept assms(1,4)
        split: option.splits if_splits)
qed

lemma coordinate_kept [keeps]:
  assumes "kept env W c0 k M0 n s" and "c < n" and "\<And>s'. kept env W c0 k M0 n s' \<Longrightarrow> cxLinks s' = cxLinks s \<Longrightarrow> Q () s'"
  shows "wpE (coordinate env c msg now) Q (failed F) s"
proof -
  have admit: "wpE (admitMessage env c msg rcv t0) Q (failed F) t"
    if "kept env W c0 k M0 n t" "cxLinks t = cxLinks s" "\<not> enDry env" for t rcv t0
    unfolding admitMessage_def using that assms(2) by (auto simp: wp intro!: keeps answerRound_kept assms(3))
  have select: "kept env W c0 k M0 n (t\<lparr>cxPeer := (cxPeer t)\<lparr>mpRosenpassPath := Some c, mpRosenpassToken := tk\<rparr>\<rparr>)"
    if "kept env W c0 k M0 n t" for t tk
    by (rule kept_update[OF that]) (use peerOK_rosenpass[OF keptD(1)[OF that], of "Some c"] keptD(5)[OF that] assms(2) in simp_all)
  have until: "kept env W c0 k M0 n (t\<lparr>cxPeer := (cxPeer t)\<lparr>mpRetiredUntil := u\<rparr>\<rparr>)" if "kept env W c0 k M0 n t" for t u
    by (rule kept_update[OF that]) (use keptD(1)[OF that] in simp_all)
  show ?thesis
    unfolding coordinate_def by (auto simp: wp intro!: clock_kept coordinateRekey_kept admit assms(1,3)) (auto dest: select until)
qed

end

end
