(* ===== verification/EventSafety.thy ===== *)
theory EventSafety
  imports MeshSafety Events
begin

text \<open>
  The events of \<^verbatim>\<open>mesh.go\<close> keep the invariant: candidates, probes and announcements,
  every received datagram, the timer and a change of the interfaces; and with them
  every run of the loop.
\<close>

section \<open>Paths and probes\<close>

lemma list_all_update: "list_all P al \<Longrightarrow> P (k, v) \<Longrightarrow> list_all P (AList.update k v al)"
  by (induction al) auto

lemma list_all_delete: "list_all P al \<Longrightarrow> list_all P (AList.delete k al)"
  by (auto simp: AList.delete_eq list_all_iff)

lemma usablePath_heap:
  assumes "usablePath h i" and "length h \<le> length h'" and "\<And>i. i < length h \<Longrightarrow> ptAddr (h' ! i) = ptAddr (h ! i)"
  shows "usablePath h' i"
  using assms by (auto simp: usablePath_def)

lemma routeOK_heap:
  assumes "routeOK pk k h r" and "length h \<le> length h'" and "\<And>i. i < length h \<Longrightarrow> ptAddr (h' ! i) = ptAddr (h ! i)"
  shows "routeOK pk k h' r"
  using assms(1) usablePath_heap[OF _ assms(2,3)] by (auto simp: routeOK_def)

lemma peerOK_heap:
  assumes "peerOK env p" and "length (mpHeap p) \<le> length h" and "\<And>i. i < length (mpHeap p) \<Longrightarrow> ptAddr (h ! i) = ptAddr (mpHeap p ! i)"
    and "list_all (\<lambda>pt. measurementsOK (ptStats pt)) h"
  shows "peerOK env (p\<lparr>mpHeap := h\<rparr>)"
proof -
  have "storeOK (p\<lparr>mpHeap := h\<rparr>)"
    using assms(1,2,4) by (fastforce simp: peerOK_def storeOK_def list_all_iff)
  moreover have "roundOK (enPublic env) (enRekey env \<noteq> None) (enDry env) (p\<lparr>mpHeap := h\<rparr>)"
    using assms(1) usablePath_heap[OF _ assms(2,3)] routeOK_heap[OF _ assms(2,3)]
    by (simp add: peerOK_def roundOK_def direct_def Let_def)
  ultimately show ?thesis using assms(1) by (simp add: peerOK_def)
qed

lemma peerOK_setPaths:
  assumes "peerOK env p" and "list_all (\<lambda>(_, i). i < length (mpHeap p)) ps" and "length ps \<le> 16"
  shows "peerOK env (p\<lparr>mpPaths := ps\<rparr>)"
  using assms by (simp add: peerOK_def storeOK_def)

lemma peerOK_setPending:
  assumes "peerOK env p" and "list_all (\<lambda>(_, q). \<forall>i. pbPath q = Some i \<longrightarrow> i < length (mpHeap p)) ps" and "length ps \<le> 2048"
  shows "peerOK env (p\<lparr>mpPending := ps\<rparr>)"
  using assms by (simp add: peerOK_def storeOK_def)

lemma peerOK_stored:
  assumes "peerOK env p"
  shows "list_all (\<lambda>(_, i). i < length (mpHeap p)) (mpPaths p)" "length (mpPaths p) \<le> 16"
    "list_all (\<lambda>(_, q). \<forall>i. pbPath q = Some i \<longrightarrow> i < length (mpHeap p)) (mpPending p)" "length (mpPending p) \<le> 2048"
    "list_all (\<lambda>pt. measurementsOK (ptStats pt)) (mpHeap p)"
  using assms by (simp_all add: peerOK_def storeOK_def)

lemma peerOK_lookup: "peerOK env p \<Longrightarrow> map_of (mpPaths p) name = Some i \<Longrightarrow> i < length (mpHeap p)"
  by (auto dest!: map_of_SomeD peerOK_stored(1) simp: list_all_iff)

lemma peerOK_deletePath: "peerOK env p \<Longrightarrow> peerOK env (p\<lparr>mpPaths := AList.delete name (mpPaths p)\<rparr>)"
  using peerOK_stored[of env p] length_delete_le[of name "mpPaths p"] by (auto intro!: peerOK_setPaths list_all_delete)

lemma peerOK_modPath:
  assumes "peerOK env p" and "\<And>pt. ptAddr (f pt) = ptAddr pt" and "\<And>pt. measurementsOK (ptStats pt) \<Longrightarrow> measurementsOK (ptStats (f pt))"
  shows "peerOK env (p\<lparr>mpHeap := (mpHeap p)[i := f (pathAt p i)]\<rparr>)"
proof (cases "i < length (mpHeap p)")
  case True
  then show ?thesis
    using assms(2,3) peerOK_stored(5)[OF assms(1)]
    by (intro peerOK_heap[OF assms(1)]) (auto simp: nth_list_update pathAt_def list_all_length)
next
  case False
  then show ?thesis using assms(1) by (simp add: list_update_beyond)
qed

context served_peer
begin

lemma modPath_kept [keeps]:
  assumes "kept env W c0 k M0 n s" and "\<And>pt. ptAddr (f pt) = ptAddr pt" and "\<And>pt. measurementsOK (ptStats pt) \<Longrightarrow> measurementsOK (ptStats (f pt))"
    and "\<And>s'. kept env W c0 k M0 n s' \<Longrightarrow> Q () s'"
  shows "wpE (modPath i f) Q E s"
  unfolding modPath_def wpE_modPeer
  by (rule assms(4), rule kept_update[OF assms(1)]) (use peerOK_modPath[OF keptD(1)[OF assms(1)] assms(2,3)] in simp_all)

lemma kept_deletePath:
  "kept env W c0 k M0 n s \<Longrightarrow> kept env W c0 k M0 n (s\<lparr>cxPeer := (cxPeer s)\<lparr>mpPaths := AList.delete name (mpPaths (cxPeer s))\<rparr>\<rparr>)"
  using keptD(1)[of env W c0 k M0 n s] by (simp add: kept_update peerOK_deletePath)

lemma kept_discovery: "kept env W c0 k M0 n s \<Longrightarrow> kept env W c0 k M0 n (s\<lparr>cxPeer := (cxPeer s)\<lparr>mpDiscovery := d\<rparr>\<rparr>)"
  using keptD(1)[of env W c0 k M0 n s] by (simp add: kept_update)

lemma kept_cooldown: "kept env W c0 k M0 n s \<Longrightarrow> kept env W c0 k M0 n (s\<lparr>cxPeer := (cxPeer s)\<lparr>mpCooldown := t\<rparr>\<rparr>)"
  using keptD(1)[of env W c0 k M0 n s] by (simp add: kept_update)

lemma candidate_kept [keeps]:
  assumes "kept env W c0 k M0 n s"
    and "\<And>r s'. kept env W c0 k M0 n s' \<Longrightarrow> \<forall>i. r = Some i \<longrightarrow> i < length (mpHeap (cxPeer s')) \<Longrightarrow> cxStarts s' = cxStarts s \<Longrightarrow> Q r s'"
  shows "wpE (candidate env link addr now) Q E s"
proof -
  let ?p = "cxPeer s" and ?pt = "\<lparr>ptLink = link, ptAddr = addr, ptSession = 0, ptIncoming = 0, ptPort = 0, ptLastPong = 0, ptStats = newMeasurements now\<rparr>"
  note ok = keptD(1)[OF assms(1)]
  have heap: "peerOK env (?p\<lparr>mpHeap := mpHeap ?p @ [?pt]\<rparr>)"
    using peerOK_stored(5)[OF ok] by (intro peerOK_heap[OF ok]) (auto simp: nth_append)
  have "peerOK env (?p\<lparr>mpHeap := mpHeap ?p @ [?pt], mpPaths := AList.update name (length (mpHeap ?p)) (mpPaths ?p)\<rparr>)"
    if "length (mpPaths ?p) < 16" for name
    using peerOK_stored(1)[OF heap] that length_update_le[of name _ "mpPaths ?p"]
    by (intro peerOK_setPaths[OF heap]) (auto intro!: list_all_update order_trans[OF length_update_le])
  then have "kept env W c0 k M0 n (s\<lparr>cxPeer := ?p\<lparr>mpHeap := mpHeap ?p @ [?pt], mpPaths := AList.update name (length (mpHeap ?p)) (mpPaths ?p)\<rparr>\<rparr>)"
    if "length (mpPaths ?p) < 16" for name
    using that by (intro kept_update[OF assms(1)]) simp_all
  then show ?thesis
    unfolding candidate_def using peerOK_lookup[OF ok] by (auto simp: wp intro!: assms split: option.split)
qed

lemma ping_kept [keeps]:
  assumes "kept env W c0 k M0 n s" and "\<forall>j. cand = Some j \<longrightarrow> j < length (mpHeap (cxPeer s))"
    and "\<And>s'. kept env W c0 k M0 n s' \<Longrightarrow> mpRoute (cxPeer s') = mpRoute (cxPeer s) \<Longrightarrow> Q () s'"
  shows "wpE (ping env cand i multicast now) Q E s"
proof -
  have "kept env W c0 k M0 n (t\<lparr>cxPeer := (cxPeer s)\<lparr>mpPending := AList.update token
      \<lparr>pbPath = cand, pbAt = now, pbSession = i, pbMulticast = multicast, pbMeasure = m\<rparr> (mpPending (cxPeer s))\<rparr>\<rparr>)"
    if "kept env W c0 k M0 n t" "cxPeer t = cxPeer s" "length (mpPending (cxPeer s)) < 2048" for t token m
  proof (rule kept_update[OF that(1)])
    have ok: "peerOK env (cxPeer s)" using keptD(1)[OF that(1)] that(2) by simp
    show "peerOK env ((cxPeer s)\<lparr>mpPending := AList.update token
        \<lparr>pbPath = cand, pbAt = now, pbSession = i, pbMulticast = multicast, pbMeasure = m\<rparr> (mpPending (cxPeer s))\<rparr>)"
      using assms(2) peerOK_stored(3)[OF ok] that(3)
      by (intro peerOK_setPending[OF ok]) (auto intro!: list_all_update order_trans[OF length_update_le])
  qed (use that(2) in simp_all)
  then show ?thesis
    unfolding ping_def by (auto simp: wp Let_def intro!: randText_kept sendMessage_kept assms(1,3))
qed

lemma announce_kept [keeps]:
  assumes "kept env W c0 k M0 n s" and "\<And>s'. kept env W c0 k M0 n s' \<Longrightarrow> cxPeer s' = cxPeer s \<Longrightarrow> Q () s'"
  shows "wpE (announce env link dest multicast now) Q E s"
proof -
  have send: "wpE (worldE (enSend env data addr link)) (\<lambda>a. wpE (modifyE (\<lambda>s. s\<lparr>cxStarts := f s\<rparr>)) Q E) (\<lambda>_. Q ()) t"
    if "kept env W c0 k M0 n t" "cxPeer t = cxPeer s" for data addr f t
    by (rule world_rule[OF send_law keptD(4)[OF that(1)]])
      (auto simp: wp that(2) intro!: assms(2) kept_same[OF that(1)])
  show ?thesis
    unfolding announce_def
    by (simp add: wp, rule crypto_rule[OF sec_start keptD(4)[OF assms(1)]])
      (auto simp: wp wpE_returnE_fun intro!: assms(2) send kept_same[OF assms(1)] split: prod.split)
qed

section \<open>Receiving\<close>

lemma receiveStarted_kept:
  assumes "kept env W c0 k M0 n s" and "\<And>s'. kept env W c0 k M0 n s' \<Longrightarrow> Q () s'"
  shows "wpE (receiveStarted env pk link ev now) Q E s"
  unfolding receiveStarted_def by (auto simp: wp intro!: keeps assms split: option.split)

lemma receivePing_kept:
  assumes "kept env W c0 k M0 n s" and "\<And>s'. kept env W c0 k M0 n s' \<Longrightarrow> Q () s'"
  shows "wpE (receivePing env pk link tunnel ev now msg cand) Q E s"
  unfolding receivePing_def by (auto simp: wp intro!: keeps assms split: option.split)

lemma kept_pending:
  assumes "kept env W c0 k M0 n s"
  shows "kept env W c0 k M0 n (s\<lparr>cxPeer := (cxPeer s)\<lparr>mpPending := AList.delete token (mpPending (cxPeer s))\<rparr>\<rparr>)"
    and "kept env W c0 k M0 n (s\<lparr>cxPeer := (cxPeer s)\<lparr>mpPending := filter f (mpPending (cxPeer s))\<rparr>\<rparr>)"
proof -
  note ok = keptD(1)[OF assms] and le = length_delete_le[of token "mpPending (cxPeer s)"]
  have "peerOK env ((cxPeer s)\<lparr>mpPending := AList.delete token (mpPending (cxPeer s))\<rparr>)"
    using peerOK_stored(3,4)[OF ok] le by (auto intro!: peerOK_setPending[OF ok] list_all_delete)
  then show "kept env W c0 k M0 n (s\<lparr>cxPeer := (cxPeer s)\<lparr>mpPending := AList.delete token (mpPending (cxPeer s))\<rparr>\<rparr>)"
    by (simp add: kept_update[OF assms])
  have "peerOK env ((cxPeer s)\<lparr>mpPending := filter f (mpPending (cxPeer s))\<rparr>)"
    using peerOK_stored(3,4)[OF ok] by (intro peerOK_setPending[OF ok]) (auto simp: list_all_iff intro!: order_trans[OF length_filter_le])
  then show "kept env W c0 k M0 n (s\<lparr>cxPeer := (cxPeer s)\<lparr>mpPending := filter f (mpPending (cxPeer s))\<rparr>\<rparr>)"
    by (simp add: kept_update[OF assms])
qed

lemma kept_tunnel:
  assumes "kept env W c0 k M0 n s" and "measurementsOK (rsTunnel (mpRoute (cxPeer s))) \<Longrightarrow> measurementsOK w"
  shows "kept env W c0 k M0 n (s\<lparr>cxPeer := (cxPeer s)\<lparr>mpRoute := (mpRoute (cxPeer s))\<lparr>rsTunnel := w\<rparr>\<rparr>\<rparr>)"
    and "kept env W c0 k M0 n (s\<lparr>cxPeer := (cxPeer s)\<lparr>mpRoute := (mpRoute (cxPeer s))\<lparr>rsTunnel := w, rsLastTunnel := t\<rparr>\<rparr>\<rparr>)"
  by (rule kept_route[OF assms(1)]; use kept_routeOK[OF assms(1)] assms(2) in \<open>simp add: routeOK_def\<close>)+

lemma kept_proven:
  assumes "kept env W c0 k M0 n s"
  shows "kept env W c0 k M0 n (s\<lparr>cxPeer := provenPeer link now (cxPeer s)\<rparr>)"
  using kept_discovery[OF assms] assms by (auto simp: provenPeer_def split: option.split)

lemma receivePong_kept:
  assumes "kept env W c0 k M0 n s" and "\<And>s'. kept env W c0 k M0 n s' \<Longrightarrow> Q () s'"
  shows "wpE (receivePong env link tunnel ev now msg cand) Q E s"
proof -
  have path: "wpE (modPath i (\<lambda>pt. pt\<lparr>ptSession := sd, ptPort := p, ptLastPong := now,
      ptStats := (if m then addSample (ptStats pt) now rtt w else ptStats pt)\<rparr>)) P E t"
    if "kept env W c0 k M0 n t" "\<And>s'. kept env W c0 k M0 n s' \<Longrightarrow> P () s'" for i sd p m rtt w t P
    using that by (auto intro!: modPath_kept)
  have tunnel: "Q () (t\<lparr>cxPeer := (cxPeer t)\<lparr>mpRoute := (mpRoute (cxPeer t))\<lparr>rsTunnel := addSample (rsTunnel (mpRoute (cxPeer t))) now rtt w, rsLastTunnel := u\<rparr>\<rparr>\<rparr>)"
    if "kept env W c0 k M0 n t" for t rtt w u
    by (rule assms(2), rule kept_tunnel(2)[OF that]) simp
  show ?thesis
    unfolding receivePong_def using tunnel[OF kept_pending(1)[OF assms(1), of "mgToken msg"]]
    by (auto simp: wp intro!: path kept_pending(1) kept_proven assms split: option.split)
qed

lemma receiveMessage_kept:
  assumes "kept env W c0 k M0 n s" and "length (mpHeap (cxPeer s)) = n" and "\<And>s'. kept env W c0 k M0 n s' \<Longrightarrow> Q () s'"
  shows "wpE (receiveMessage env pk link tunnel ev now t0 msg) Q (failed F) s"
  unfolding receiveMessage_def using peerOK_lookup[OF keptD(1)[OF assms(1)]] assms(2)
  by (auto simp: wp intro!: keeps receivePing_kept receivePong_kept assms(1,3) split: option.split)

lemma receiveEvent_kept:
  assumes "kept env W c0 k M0 n s" and "length (mpHeap (cxPeer s)) = n" and "\<And>s'. kept env W c0 k M0 n s' \<Longrightarrow> Q () s'"
  shows "wpE (receiveEvent env pk link tunnel ev now t0) Q (failed F) s"
proof -
  have send: "wpE (worldE (enSend env data addr l)) Q (\<lambda>_. Q ()) s" for data addr l
    by (rule world_rule[OF send_law keptD(4)[OF assms(1)]]) (auto intro!: assms(3) kept_same[OF assms(1)])
  show ?thesis
    unfolding receiveEvent_def
    by (auto simp: wp wpE_returnE_fun intro!: assms send receiveStarted_kept receiveMessage_kept split: option.split)
qed

section \<open>The timer\<close>

lemma pathNames_kept [keeps]:
  assumes "kept env W c0 k M0 n s" and "\<And>a s'. kept env W c0 k M0 n s' \<Longrightarrow> cxPeer s' = cxPeer s \<Longrightarrow> Q a s'"
  shows "wpE (pathNames env) Q E s"
  unfolding pathNames_def
  by (simp add: wp, rule draw_rule[OF path_order_law keptD(4)[OF assms(1)]]) (auto intro!: assms(2) kept_same[OF assms(1)])

lemma deletePath_kept [keeps]:
  "kept env W c0 k M0 n s \<Longrightarrow> (\<And>s'. kept env W c0 k M0 n s' \<Longrightarrow> Q () s') \<Longrightarrow> wpE (deletePath name) Q E s"
  by (auto simp: deletePath_def wp intro: kept_deletePath)

lemma discoverLink_kept [keeps]:
  assumes "kept env W c0 k M0 n s" and "\<And>s'. kept env W c0 k M0 n s' \<Longrightarrow> Q () s'"
  shows "wpE (discoverLink env now link) Q E s"
  unfolding discoverLink_def Let_def
  by (auto simp: wp intro!: announce_kept kept_discovery assms)

lemma pingPaths_kept [keeps]:
  assumes "kept env W c0 k M0 n s" and "\<And>i s'. kept env W c0 k M0 n s' \<Longrightarrow> Q i s'"
  shows "wpE (pingPaths env now names session) Q E s"
  using assms
proof (induction names arbitrary: s session)
  case Nil
  then show ?case by (simp add: wp)
next
  case (Cons name names)
  then show ?case
    using peerOK_lookup[OF keptD(1)[OF Cons.prems(1)]]
    by (auto simp: wp Let_def intro!: Cons.IH keeps Cons.prems split: option.split)
qed

lemma pingTunnel_kept [keeps]:
  assumes "kept env W c0 k M0 n s" and "\<And>s'. kept env W c0 k M0 n s' \<Longrightarrow> Q () s'"
  shows "wpE (pingTunnel env now session) Q E s"
proof -
  have "kept env W c0 k M0 n (s\<lparr>cxPeer := (cxPeer s)\<lparr>mpRoute := (mpRoute (cxPeer s))\<lparr>rsTunnel := (rsTunnel (mpRoute (cxPeer s)))\<lparr>msSince := now\<rparr>\<rparr>\<rparr>\<rparr>)"
    by (rule kept_tunnel(1)[OF assms(1)]) (simp add: measurementsOK_def)
  then show ?thesis
    unfolding pingTunnel_def Let_def by (auto simp: wp intro!: ping_kept assms)
qed

lemma bestPath_usable:
  assumes "peerOK env p" and "\<forall>x. best = Some x \<longrightarrow> usablePath (mpHeap p) (fst x)"
  shows "\<exists>r. bestPath env p now names best = Inr r \<and> (\<forall>x. r = Some x \<longrightarrow> usablePath (mpHeap p) (fst x))"
  using assms(2)
proof (induction names arbitrary: best)
  case Nil
  then show ?case by simp
next
  case (Cons name names)
  show ?case
  proof (cases "map_of (mpPaths p) name")
    case None
    then show ?thesis using Cons by simp
  next
    case (Some i)
    note i = peerOK_lookup[OF assms(1) Some]
    obtain r where r: "qualifiedPath env p i now = Inr r" using qualifiedPath_usable(1)[OF assms(1) i] by blast
    have "\<forall>x. r = Some x \<longrightarrow> usablePath (mpHeap p) i"
      using r qualifiedPath_usable(2)[OF assms(1) i] by blast
    with Some r Cons show ?thesis by (auto simp: Let_def split: option.split)
  qed
qed

lemma seekPath_kept:
  assumes "kept env W c0 k M0 n s" and "rsPhase (mpRoute (cxPeer s)) = PNone \<or> rsPhase (mpRoute (cxPeer s)) = PActive"
    and "\<And>s'. kept env W c0 k M0 n s' \<Longrightarrow> Q () s'"
  shows "wpE (seekPath env now pskOK) Q E s"
proof -
  note ok = keptD(1)[OF assms(1)] and key = keptD(2)[OF assms(1)]
  have propose: "wpE (propose env now i base) Q E t"
    if t: "kept env W c0 k M0 n t" "cxPeer t = cxPeer s" and i: "usablePath (mpHeap (cxPeer s)) i"
      and free: "mpRekey (cxPeer s) = None" "mpReplacement (cxPeer s) = None" "enPublic env < k" for t i base
  proof -
    have "kept env W c0 k M0 n (u\<lparr>cxPeer := proposedPeer i PPrepare token now base False (cxPeer s)\<rparr>)"
      if "kept env W c0 k M0 n u" "cxPeer u = cxPeer s" "\<not> enDry env" for u token
      using kept_proposed[OF that(1), of i PPrepare] that(2,3) i free assms(2) by (simp add: roleOK_def)
    moreover have "kept env W c0 k M0 n (t\<lparr>cxPeer := (cxPeer s)\<lparr>mpCooldown := u\<rparr>\<rparr>)" for u
      using kept_cooldown[OF t(1)] t(2) by simp
    ultimately show ?thesis
      unfolding propose_def using t by (auto simp: wp intro!: randText_kept pathCommand_kept assms(3))
  qed
  obtain r where r: "bestPath env (cxPeer s) now names None = Inr (r names)"
    and usable: "\<forall>x. r names = Some x \<longrightarrow> usablePath (mpHeap (cxPeer s)) (fst x)" for names
    using bestPath_usable[OF ok, of None now] by simp metis
  have "usablePath (mpHeap (cxPeer s)) i" if "r names = Some (i, rtt, base)" for names i rtt base
    using usable that by (metis fst_conv)
  then show ?thesis
    unfolding seekPath_def using key by (auto simp: wp r intro!: pathNames_kept propose assms(1,3) split: option.split)
qed

lemma tickPeer_kept:
  assumes "kept env W c0 k M0 n s" and "\<And>s'. kept env W c0 k M0 n s' \<Longrightarrow> Q () s'"
  shows "wpE (tickPeer env now t0) Q (failed F) s"
proof -
  have discover: "wpE (forE links (discoverLink env now)) P (failed F) t"
    if "kept env W c0 k M0 n t" "\<And>t. kept env W c0 k M0 n t \<Longrightarrow> P () t" for links t P
  proof -
    have "wpE (forE links (discoverLink env now)) (\<lambda>_. kept env W c0 k M0 n) (failed F) t"
      by (rule wpE_forE_inv) (auto intro!: keeps that)
    then show ?thesis by (rule wpE_mono) (auto intro: that(2))
  qed
  show ?thesis
    unfolding tickPeer_def by (auto simp: wp intro!: keeps discover kept_pending(2) seekPath_kept assms)
qed

section \<open>A change of the interfaces\<close>

lemma refreshPeer_kept:
  assumes "kept env W c0 k M0 n s" and "\<And>s'. kept env W c0 k M0 n s' \<Longrightarrow> Q () s'"
  shows "wpE (refreshPeer env now) Q (failed F) s"
proof -
  have path: "wpE (refreshPath env now name) (\<lambda>_. kept env W c0 k M0 n) (failed F) t" if "kept env W c0 k M0 n t" for name t
  proof -
    have "\<not> enDry env" if "rsSelected (mpRoute (cxPeer t)) = Some i" for i
      using peerOK_facts(2)[OF keptD(1)] kept_dry \<open>kept env W c0 k M0 n t\<close> that by (metis option.distinct(1))
    then show ?thesis
      unfolding refreshPath_def using that by (auto simp: wp intro!: keeps split: option.split)
  qed
  have "wpE (forE names (refreshPath env now)) Q (failed F) t" if "kept env W c0 k M0 n t" for names t
    by (rule wpE_mono[OF wpE_forE_inv[where I = "kept env W c0 k M0 n"]]) (auto intro: path that assms(2))
  then show ?thesis
    unfolding refreshPeer_def by (auto simp: wp intro!: pathNames_kept kept_discovery assms(1))
qed

end

end
