(* ===== verification/MeshRuns.thy ===== *)
theory MeshRuns
  imports EventSafety
begin

text \<open>
  Whole runs of the event loop: every peer satisfies its invariant, nothing panics,
  the control channel is only driven through its own operations, and the managed
  peers are those whose direct path is on trial or active.
\<close>

definition directKeys :: "('k, 'r, 'w) mesh \<Rightarrow> wgkey set" where
  "directKeys s = {key. \<exists>p. (key, p) \<in> set (mePeers s) \<and> direct p}"

definition meshTable :: "('k, 'h, 'r, 'w) meshEnv \<Rightarrow> ('k, 'r, 'w) mesh \<Rightarrow> bool" where
  "meshTable env s \<longleftrightarrow> distinct (map fst (mePeers s)) \<and> (\<forall>(key, p) \<in> set (mePeers s). peerOK env p \<and> psKey (mpSpec p) = key)"

definition meshOK :: "('k, 'h, 'r, 'w) meshEnv \<Rightarrow> (wgkey set \<Rightarrow> 'w \<Rightarrow> bool) \<Rightarrow> ('k, 'r) secure \<Rightarrow> ('k, 'r, 'w) mesh \<Rightarrow> bool" where
  "meshOK env W c0 s \<longleftrightarrow> meshTable env s \<and> \<not> mePanic s \<and> sec_run (enCrypto env) c0 (meCrypto s) \<and> W (directKeys s) (meWorld s)"

definition meshFailed :: "('w \<Rightarrow> bool) \<Rightarrow> error \<Rightarrow> ('k, 'r, 'w) mesh \<Rightarrow> bool" where
  "meshFailed F e s \<longleftrightarrow> \<not> mePanic s \<and> F (meWorld s)"

lemma set_update_distinct:
  assumes "distinct (map fst al)"
  shows "set (AList.update k v al) = insert (k, v) {(k', v') \<in> set al. k' \<noteq> k}"
proof -
  have "distinct (map fst (AList.update k v al))" using assms by (rule distinct_update)
  then have "(a, b) \<in> set (AList.update k v al) \<longleftrightarrow> map_of (AList.update k v al) a = Some b" for a b
    by (auto simp: map_of_eq_Some_iff)
  moreover have "(a, b) \<in> set al \<longleftrightarrow> map_of al a = Some b" for a b using assms by auto
  ultimately show ?thesis by (auto simp: update_conv' split: if_splits)
qed

lemma meshTable_new: "meshTable env (newMesh env random priv w)" "directKeys (newMesh env random priv w) = {}"
proof -
  let ?I = "\<lambda>al. distinct (map fst al) \<and> (\<forall>(key, p) \<in> set al. peerOK env p \<and> psKey (mpSpec p) = key \<and> \<not> direct p)"
  have "?I (fold (\<lambda>spec. AList.update (psKey spec) (meshPeerOf spec)) specs al)"
    if "?I al" "set specs \<subseteq> set (cfPeers (enConfig env))" for specs al
    using that
  proof (induction specs arbitrary: al)
    case (Cons spec specs)
    have "peerOK env (meshPeerOf spec)" using Cons.prems(2) by (auto intro: peerOK_new)
    moreover have "psKey (mpSpec (meshPeerOf spec)) = psKey spec" "\<not> direct (meshPeerOf spec)"
      by (simp_all add: meshPeerOf_def direct_def zeroRoute_def)
    ultimately have "?I (AList.update (psKey spec) (meshPeerOf spec) al)"
      using Cons.prems(1) by (auto simp: set_update_distinct distinct_update)
    then show ?case using Cons by simp
  qed simp
  from this[of "[]" "cfPeers (enConfig env)"]
  show "meshTable env (newMesh env random priv w)" "directKeys (newMesh env random priv w) = {}"
    by (auto simp: meshTable_def directKeys_def newMesh_def)
qed

lemma meshTable_served:
  assumes "meshTable env s" and "peerOK env (cxPeer c)" and "psKey (mpSpec (cxPeer c)) = key"
  shows "meshTable env (servedBack key c s)"
    and "directKeys (servedBack key c s) = (if direct (cxPeer c) then insert key (directKeys s - {key}) else directKeys s - {key})"
  using assms by (auto simp: meshTable_def servedBack_def directKeys_def set_update_distinct distinct_update)

lemma directKeys_lookup:
  assumes "meshTable env s" and "map_of (mePeers s) key = Some p"
  shows "directKeys s = (if direct p then insert key (directKeys s - {key}) else directKeys s - {key})"
proof -
  have "distinct (map fst (mePeers s))" using assms(1) by (simp add: meshTable_def)
  then have "(key, q) \<in> set (mePeers s) \<longleftrightarrow> q = p" for q
    using assms(2) by (metis map_of_eq_Some_iff option.inject)
  then have "key \<in> directKeys s \<longleftrightarrow> direct p" by (simp add: directKeys_def)
  then show ?thesis by (simp add: insert_absorb)
qed

lemma directKeys_fields [simp]:
  "directKeys (s\<lparr>meWorld := w\<rparr>) = directKeys s" "directKeys (s\<lparr>meCrypto := c\<rparr>) = directKeys s" "directKeys (s\<lparr>meLinks := l\<rparr>) = directKeys s"
  "directKeys (s\<lparr>meStarts := st\<rparr>) = directKeys s"
  by (simp_all add: directKeys_def)

lemma meshTable_fields [simp]:
  "meshTable env (s\<lparr>meWorld := w\<rparr>) = meshTable env s" "meshTable env (s\<lparr>meCrypto := c\<rparr>) = meshTable env s"
  "meshTable env (s\<lparr>meLinks := l\<rparr>) = meshTable env s" "meshTable env (s\<lparr>meStarts := st\<rparr>) = meshTable env s"
  by (simp_all add: meshTable_def)

lemma meshOK_fields [simp]:
  "meshOK env W c0 (s\<lparr>meLinks := l\<rparr>) = meshOK env W c0 s" "meshOK env W c0 (s\<lparr>meStarts := st\<rparr>) = meshOK env W c0 s"
  by (simp_all add: meshOK_def)

context route_control
begin

lemma served: "served_peer env W F" ..

lemma meshOK_failed [intro]: "meshOK env W c0 s \<Longrightarrow> meshFailed F e s"
  by (auto simp: meshOK_def meshFailed_def failing)

lemma serve_rule:
  assumes "meshOK env W c0 s"
    and "\<And>M n c. kept env W c0 key M n c \<Longrightarrow> length (mpHeap (cxPeer c)) = n \<Longrightarrow> wpE m (\<lambda>_. kept env W c0 key M n) (failed F) c"
  shows "wpE (servePeer key m) (\<lambda>_. meshOK env W c0) (meshFailed F) s"
proof (cases "map_of (mePeers s) key")
  case None
  with assms(1) show ?thesis by (simp add: servePeer_def wpE_def)
next
  case (Some p)
  let ?M = "directKeys s - {key}" and ?c = "servingOf p s" and ?n = "length (mpHeap p)"
  have p: "peerOK env p" "psKey (mpSpec p) = key" and t: "meshTable env s"
    using assms(1) map_of_SomeD[OF Some] by (auto simp: meshOK_def meshTable_def)
  have "kept env W c0 key ?M ?n ?c"
    using assms(1) p directKeys_lookup[OF t Some] by (simp add: kept_def servingOf_def steady_def meshOK_def)
  then have "wpE m (\<lambda>_. kept env W c0 key ?M ?n) (failed F) ?c" by (rule assms(2)) (simp add: servingOf_def)
  moreover have "meshOK env W c0 (servedBack key c s)" if "kept env W c0 key ?M ?n c" for c
    using that meshTable_served[OF t, of c key] by (auto simp: kept_def steady_def meshOK_def) (auto simp: servedBack_def)
  moreover have "meshFailed F e (servedBack key c s)" if "failed F e c" for e c
    using that by (simp add: failed_def meshFailed_def servedBack_def)
  ultimately show ?thesis
    using Some by (auto simp: servePeer_def wpE_def split: prod.splits sum.splits)
qed

lemma on_world_rule:
  assumes "meshOK env W c0 s" and "\<And>M w. W M w \<Longrightarrow> W M (snd (m w))"
    and "\<And>a s'. meshOK env W c0 s' \<Longrightarrow> Q a s'" and "\<And>e s'. meshOK env W c0 s' \<Longrightarrow> E e s'"
  shows "wpE (onWorld m) Q E s"
proof -
  obtain r w where m: "m (meWorld s) = (r, w)" by (cases "m (meWorld s)")
  with assms(1) assms(2)[of "directKeys s" "meWorld s"] have "meshOK env W c0 (s\<lparr>meWorld := w\<rparr>)" by (simp add: meshOK_def)
  with m assms(3,4) show ?thesis by (cases r) (simp_all add: onWorld_def wpE_def)
qed

lemma draw_world_rule:
  assumes "meshOK env W c0 s" and "\<And>M w. W M w \<Longrightarrow> W M (snd (f w))" and "\<And>a s'. meshOK env W c0 s' \<Longrightarrow> Q a s'"
  shows "wpE (drawWorld f) Q E s"
proof -
  obtain a w where f: "f (meWorld s) = (a, w)" by (cases "f (meWorld s)")
  with assms(1) assms(2)[of "directKeys s" "meWorld s"] have "meshOK env W c0 (s\<lparr>meWorld := w\<rparr>)" by (simp add: meshOK_def)
  with f assms(3) show ?thesis by (simp add: drawWorld_def onWorld_def wpE_def)
qed

lemma atNow_ok:
  assumes "meshOK env W c0 s" and "\<And>now s. meshOK env W c0 s \<Longrightarrow> wpE (f now) Q (meshFailed F) s"
  shows "wpE (atNow env f) Q (meshFailed F) s"
  unfolding atNow_def wp by (rule draw_world_rule[OF assms(1) now_law assms(2)])

lemma forPeers_ok:
  assumes "meshOK env W c0 s"
    and "\<And>k M n c. kept env W c0 k M n c \<Longrightarrow> length (mpHeap (cxPeer c)) = n \<Longrightarrow> wpE m (\<lambda>_. kept env W c0 k M n) (failed F) c"
  shows "wpE (forPeers env m) (\<lambda>_. meshOK env W c0) (meshFailed F) s"
  unfolding forPeers_def
  by (auto simp: wp intro!: draw_world_rule[OF assms(1), where f = "enPeerOrder env _"] peer_order_law wpE_forE_inv serve_rule assms(2))

lemma refresh_ok: "meshOK env W c0 s \<Longrightarrow> wpE (refresh env now) (\<lambda>_. meshOK env W c0) (meshFailed F) s"
  unfolding refresh_def
  by (auto simp: wp intro!: on_world_rule[OF _ links_law] forPeers_ok served_peer.refreshPeer_kept[OF served])

lemma receive_ok: "meshOK env W c0 s \<Longrightarrow> wpE (meshReceive env pk now) (\<lambda>_. meshOK env W c0) (meshFailed F) s"
proof -
  have crypto: "wpE (onCrypto (Receive (enCrypto env) data now)) Q E s"
    if "meshOK env W c0 s" "\<And>a s'. meshOK env W c0 s' \<Longrightarrow> Q a s'" "\<And>e s'. meshOK env W c0 s' \<Longrightarrow> E e s'" for data Q E s
  proof -
    obtain r c where m: "Receive (enCrypto env) data now (meCrypto s) = (r, c)" by (cases "Receive (enCrypto env) data now (meCrypto s)")
    have "meshOK env W c0 (s\<lparr>meCrypto := c\<rparr>)"
      using that(1) sec_more[OF _ sec_receive[of "enCrypto env" now "meCrypto s" data]] m by (simp add: meshOK_def)
    with m that(2,3) show ?thesis by (cases r) (simp_all add: onCrypto_def wpE_def)
  qed
  assume "meshOK env W c0 s"
  then show ?thesis
    unfolding meshReceive_def Let_def
    by (auto simp: wp wpE_returnE_fun intro!: draw_world_rule[OF _ now_law] crypto serve_rule served_peer.receiveEvent_kept[OF served])
qed

lemma inspect_ok:
  assumes "meshOK env W c0 s" and "\<And>s'. meshOK env W c0 s' \<Longrightarrow> Q () s'"
  shows "wpE (inspectMesh env) Q (meshFailed F) s"
proof (cases "enInspect env")
  case (Some m)
  with assms show ?thesis by (auto simp: inspectMesh_def intro!: on_world_rule[OF _ inspect_law[OF Some]])
next
  case None
  have "wpE (onWorld m) Q (meshFailed F) t" if "enVerify env = Some m" "meshOK env W c0 t" for m t
    using that(2) assms(2) by (auto intro!: on_world_rule[OF _ verify_law[OF that(1)]])
  with None assms show ?thesis
    by (auto simp: inspectMesh_def wp intro!: on_world_rule[OF _ check_law] split: option.split)
qed

lemma tick_ok: "meshOK env W c0 s \<Longrightarrow> wpE (tick env now) (\<lambda>_. meshOK env W c0) (meshFailed F) s"
proof -
  have "meshOK env W c0 (t\<lparr>meStarts := st, meCrypto := Prune used now (meCrypto t)\<rparr>)" if "meshOK env W c0 t" for t st used
    using that sec_more[OF _ sec_prune[of "enCrypto env" now "meCrypto t" used]] by (simp add: meshOK_def directKeys_def meshTable_def)
  then show "wpE (tick env now) (\<lambda>_. meshOK env W c0) (meshFailed F) s" if "meshOK env W c0 s"
    unfolding tick_def using that
    by (auto simp: wp intro!: draw_world_rule[OF _ now_law] inspect_ok forPeers_ok served_peer.tickPeer_kept[OF served])
qed

lemma timer_ok: "meshOK env W c0 s \<Longrightarrow> wpE (timerEvent env) (\<lambda>_. meshOK env W c0) (meshFailed F) s"
proof -
  have notify: "wpE (notifyE env) (\<lambda>_. meshOK env W c0) (meshFailed F) t" if "meshOK env W c0 t" for t
    using that notify_law by (auto simp: notifyE_def wp meshOK_def split: option.split)
  have ticked: "wpE (atNow env (tick env)) (\<lambda>_. wpE (notifyE env) (\<lambda>_. meshOK env W c0) (meshFailed F)) (meshFailed F) t"
    if "meshOK env W c0 t" for t
    by (rule wpE_mono[OF atNow_ok[OF that tick_ok]]) (auto intro: notify)
  assume "meshOK env W c0 s"
  from atNow_ok[OF this refresh_ok] show ?thesis
    unfolding timerEvent_def wp by (rule wpE_mono) (auto intro: ticked)
qed

lemma loop_ok: "meshOK env W c0 s \<Longrightarrow> wpE (meshLoop env es) (\<lambda>_. meshOK env W c0) (meshFailed F) s"
proof (induction es arbitrary: s)
  case Nil
  then show ?case by (simp add: wp)
next
  case (Cons e es)
  note received = wpE_mono[OF atNow_ok[OF Cons.prems receive_ok]] and refreshed = wpE_mono[OF atNow_ok[OF Cons.prems refresh_ok]]
    and timed = wpE_mono[OF timer_ok[OF Cons.prems]]
  show ?case
  proof (cases e)
    case (Incoming d)
    with Cons show ?thesis by (cases d) (auto simp: wp intro!: received)
  qed (use Cons in \<open>auto simp: wp intro!: refreshed timed\<close>)
qed

lemma run_ok:
  assumes "meshOK env W c0 s"
  shows "wpE (meshRun env es) (\<lambda>_. meshOK env W c0) (meshFailed F) s"
proof -
  have ticked: "wpE (atNow env (tick env)) (\<lambda>_. wpE (meshLoop env es) (\<lambda>_. meshOK env W c0) (meshFailed F)) (meshFailed F) t"
    if "meshOK env W c0 t" for t
    by (rule wpE_mono[OF atNow_ok[OF that tick_ok]]) (auto intro: loop_ok)
  from atNow_ok[OF assms refresh_ok] show ?thesis
    unfolding meshRun_def wp by (rule wpE_mono) (auto intro: ticked)
qed

theorem mesh_run:
  assumes "W {} w" and "meshRun env es (newMesh env random priv w) = (r, s)"
  shows "case r of Inr _ \<Rightarrow> meshOK env W (newSecure (enCrypto env) random priv (map psKey (cfPeers (enConfig env)))) s | Inl e \<Rightarrow> meshFailed F e s"
proof -
  let ?c0 = "newSecure (enCrypto env) random priv (map psKey (cfPeers (enConfig env)))"
  have "meshOK env W ?c0 (newMesh env random priv w)"
    using meshTable_new[of env random priv w] assms(1) by (simp add: meshOK_def) (simp add: newMesh_def sec_done)
  from run_ok[OF this, of es] assms(2) show ?thesis by (auto simp: wpE_def split: sum.split)
qed

end

end
