(* ===== verification/Calls.thy ===== *)
theory Calls
  imports MeshRuns Wiring
begin

text \<open>
  What the event loop asks of the route controller, and what holds of every run.  The contract \<open>route_control\<close> is interpreted twice without any
  assumption on the environment: on the recorded calls, and on an arbitrary
  environment for what holds of every run.
\<close>

text \<open>
  Calls the loop may make: none in a dry run; \<open>Apply\<close> only for a configured peer,
  with its own address and key and an endpoint that can be used; \<open>Rekey\<close> never
  with the zero key.
\<close>

fun okCall :: "('k, 'h, 'r, 'w) meshEnv \<Rightarrow> call \<Rightarrow> bool" where
  "okCall env (CallApply key ip psk endpoint) \<longleftrightarrow> \<not> enDry env \<and> admissible (enConfig env) key ip psk endpoint"
| "okCall env (CallRestore key) \<longleftrightarrow> \<not> enDry env"
| "okCall env (CallRekey key old new) \<longleftrightarrow> \<not> enDry env \<and> new \<noteq> 0"

interpretation calls_made: route_control "traceCalls env" "\<lambda>_ w. list_all (okCall env) (snd w)" "\<lambda>w. list_all (okCall env) (snd w)"
  for env :: "('k, 'h, 'r, 'w) meshEnv"
  by unfold_locales
    (auto simp: traceCalls_def mapEnv_def putFst_def dest!: record_call_result split: prod.splits)

interpretation any_run: route_control env "\<lambda>_ _. True" "\<lambda>_. True"
  for env :: "('k, 'h, 'r, 'w) meshEnv"
  by unfold_locales simp_all

interpretation peer_run: served_peer env "\<lambda>_ _. True" "\<lambda>_. True" c0 k M n
  for env :: "('k, 'h, 'r, 'w) meshEnv" and c0 k M n
  by unfold_locales

text \<open>
  C5: In every run of the event loop, whatever the network, the clock, the files and the
  controller do and whatever events arrive, every call that changes routes is one the loop may
  make: a dry run makes none; \<^verbatim>\<open>Apply\<close> is called only for a configured peer, with that peer's
  address, with its configured pre-shared key (a key that is not zero when the peer has a key
  file), and with an endpoint that has a port and is not a link-local IPv6 address; and \<^verbatim>\<open>Rekey\<close>
  is never called with the zero key.
\<close>

theorem run_calls_admissible:
  "list_all (okCall env) (snd (meWorld (snd (meshRun (traceCalls env) es (newMesh (traceCalls env) random priv (w, []))))))"
  using calls_made.mesh_run[of env "(w, [])" es random priv]
  by (cases "meshRun (traceCalls env) es (newMesh (traceCalls env) random priv (w, []))")
    (auto simp: meshOK_def meshFailed_def split: sum.splits)

text \<open>
  C6: No run of the event loop panics: no nil pointer is dereferenced and no type assertion
  fails, in any environment and for any sequence of events, also when an error ends the run.
\<close>

theorem run_never_panics:
  "\<not> mePanic (snd (meshRun env es (newMesh env random priv w)))"
  using any_run.mesh_run[of env es random priv w]
  by (cases "meshRun env es (newMesh env random priv w)") (auto simp: meshOK_def meshFailed_def split: sum.splits)

section \<open>What holds of every peer between events\<close>

lemma run_peer:
  assumes "meshRun env es (newMesh env random priv w) = (Inr (), s)" and "(key, p) \<in> set (mePeers s)"
  shows "peerOK env p" and "psKey (mpSpec p) = key"
  using any_run.mesh_run[OF _ assms(1)] assms(2) by (auto simp: meshOK_def meshTable_def)

text \<open>
  C10: The tables a peer keeps are bounded in every run: at most 16 paths, 2048 pending probes
  and 1024 retired tokens, and at most 1024 samples in each measurement window.
\<close>

theorem run_tables_bounded:
  assumes "meshRun env es (newMesh env random priv w) = (Inr (), s)" and "(key, p) \<in> set (mePeers s)"
  shows "length (mpPaths p) \<le> 16 \<and> length (mpPending p) \<le> 2048 \<and> length (mpRetired p) \<le> 1024 \<and>
    length (msSamples (rsTunnel (mpRoute p))) \<le> 1024 \<and> list_all (\<lambda>pt. length (msSamples (ptStats pt)) \<le> 1024) (mpHeap p)"
  using run_peer[OF assms] by (simp add: peerOK_def storeOK_def roundOK_def routeOK_def measurementsOK_def Let_def)

text \<open>
  C7: The phases of a peer are consistent in every run: a path is selected exactly when there
  is a phase, and it exists and is not a link-local IPv6 address; only the side with the
  smaller key proposes and only the other one accepts; an active path was committed and passed
  its local measurement; a replacement is proposed only next to an active path and a previous
  path is kept only during a trial; and a key is renewed only on an active path with no
  replacement under way, for a peer with a key file and with a key that is not zero.
\<close>

theorem run_phases_consistent:
  assumes "meshRun env es (newMesh env random priv w) = (Inr (), s)" and "(key, p) \<in> set (mePeers s)"
  shows "(rsPhase (mpRoute p) = PNone \<longleftrightarrow> rsSelected (mpRoute p) = None) \<and>
    (case rsSelected (mpRoute p) of None \<Rightarrow> True | Some i \<Rightarrow> usablePath (mpHeap p) i) \<and>
    (rsPhase (mpRoute p) = PPrepare \<longrightarrow> enPublic env < key) \<and> (rsPhase (mpRoute p) = PPrepared \<longrightarrow> key < enPublic env) \<and>
    (rsPhase (mpRoute p) = PActive \<longrightarrow> rsCommitted (mpRoute p) \<and> rsLocalGood (mpRoute p)) \<and>
    (mpReplacement p \<noteq> None \<longrightarrow> rsPhase (mpRoute p) = PActive) \<and> (mpPrevious p \<noteq> None \<longrightarrow> rsPhase (mpRoute p) = PTrial) \<and>
    (case mpRekey p of None \<Rightarrow> True
     | Some t \<Rightarrow> rsPhase (mpRoute p) = PActive \<and> mpReplacement p = None \<and> psFile (mpSpec p) \<noteq> [] \<and> rkKey t \<noteq> 0)"
  using run_peer[OF assms] by (auto simp: peerOK_def roundOK_def routeOK_def roleOK_def transitionOK_def Let_def split: option.splits)

end
