(* ===== verification/Ownership.thy ===== *)
theory Ownership
  imports Control
begin

text \<open>
  What \<open>controlOwner\<close> computes: the unique longest-prefix match over the allowed
  IPs of a device.  The specification is the set \<open>matching\<close> of all pairs of a
  peer key and a masked prefix that contain the address; the loop returns its
  best element and refuses a device on which two peers share that place.
\<close>

definition matching :: "wgDevice \<Rightarrow> addr \<Rightarrow> wgkey \<Rightarrow> (wgkey \<times> prefix) set" where
  "matching d ip skip = {(PublicKey p, masked n) | p n.
     p \<in> set (devPeers d) \<and> PublicKey p \<noteq> skip \<and> Net n \<in> set (AllowedIPs p) \<and> contains (masked n) ip}"

definition parses :: "wgDevice \<Rightarrow> bool" where
  "parses d \<longleftrightarrow> (\<forall>p \<in> set (devPeers d). \<forall>n \<in> set (AllowedIPs p). \<exists>q. n = Net q)"

definition noTies :: "(wgkey \<times> prefix) set \<Rightarrow> bool" where
  "noTies M \<longleftrightarrow> (\<forall>x \<in> M. \<forall>y \<in> M. pBits (snd x) = pBits (snd y) \<longrightarrow> fst x = fst y)"

lemma noTiesD: "noTies M \<Longrightarrow> (k, b) \<in> M \<Longrightarrow> (l, c) \<in> M \<Longrightarrow> pBits b = pBits c \<Longrightarrow> k = l"
  by (auto simp: noTies_def)

text \<open>The accumulator of the loops is best among the matches seen so far.\<close>

definition best :: "(wgkey \<times> prefix) set \<Rightarrow> wgkey \<times> prefix \<Rightarrow> bool" where
  "best M acc \<longleftrightarrow> (M = {} \<and> acc = (0, noPrefix)) \<or>
     (acc \<in> M \<and> (\<forall>(k, b) \<in> M. pBits b \<le> pBits (snd acc) \<and> (pBits b = pBits (snd acc) \<longrightarrow> k = fst acc)))"

definition netMatches :: "wgkey \<Rightarrow> addr \<Rightarrow> ipnet list \<Rightarrow> (wgkey \<times> prefix) set" where
  "netMatches pk ip ns = {(pk, masked n) | n. Net n \<in> set ns \<and> contains (masked n) ip}"

definition peerMatches :: "wgkey \<Rightarrow> addr \<Rightarrow> wgPeer list \<Rightarrow> (wgkey \<times> prefix) set" where
  "peerMatches skip ip ps = (\<Union>p \<in> {p \<in> set ps. PublicKey p \<noteq> skip}. netMatches (PublicKey p) ip (AllowedIPs p))"

lemma matching_peerMatches: "matching d ip skip = peerMatches skip ip (devPeers d)"
  by (auto simp: matching_def peerMatches_def netMatches_def)

lemma netMatches_Nil [simp]: "netMatches pk ip [] = {}"
  by (simp add: netMatches_def)

lemma netMatches_Net [simp]:
  "netMatches pk ip (Net n # ns) =
    (if contains (masked n) ip then insert (pk, masked n) (netMatches pk ip ns) else netMatches pk ip ns)"
  by (auto simp: netMatches_def)

lemma netMatches_Bad [simp]: "netMatches pk ip (BadNet b # ns) = netMatches pk ip ns"
  by (auto simp: netMatches_def)

lemma peerMatches_Nil [simp]: "peerMatches skip ip [] = {}"
  by (simp add: peerMatches_def)

lemma peerMatches_Cons [simp]:
  "peerMatches skip ip (p # ps) =
    (if PublicKey p = skip then peerMatches skip ip ps
     else netMatches (PublicKey p) ip (AllowedIPs p) \<union> peerMatches skip ip ps)"
  by (auto simp: peerMatches_def)

lemma best_insert:
  assumes "best M (k, b)" and "0 \<le> pBits q" and "pBits b \<le> pBits q" and "pBits q = pBits b \<longrightarrow> k = pk"
  shows "best (insert (pk, q) M) (pk, q)"
  using assms by (fastforce simp: best_def noPrefix_def)

lemma best_insert_worse:
  assumes "best M (k, b)" and "0 \<le> pBits q" and "\<not> pBits b \<le> pBits q"
  shows "best (insert (pk, q) M) (k, b)"
  using assms by (auto simp: best_def noPrefix_def)

lemma ownerNets_best:
  "ownerNets pk ip ns acc = Inr acc' \<Longrightarrow> best M acc \<Longrightarrow> best (M \<union> netMatches pk ip ns) acc'"
proof (induction pk ip ns acc arbitrary: M rule: ownerNets.induct)
  case (1 pk ip acc)
  then show ?case by simp
next
  case (2 pk ip b ns acc)
  then show ?case by simp
next
  case (3 pk ip n ns owner b)
  show ?case
  proof (cases "contains (masked n) ip")
    case False
    with 3 show ?thesis by (simp add: Let_def)
  next
    case True
    then have bits: "0 \<le> pBits (masked n)" by (rule contains_bits)
    show ?thesis
    proof (cases "pBits b \<le> pBits (masked n)")
      case better: True
      with "3.prems" True have "pBits (masked n) = pBits b \<longrightarrow> owner = pk"
        and rest: "ownerNets pk ip ns (pk, masked n) = Inr acc'"
        by (auto simp: Let_def split: if_splits)
      with "3.prems"(2) bits better have "best (insert (pk, masked n) M) (pk, masked n)"
        by (intro best_insert) auto
      with "3.IH"(1)[OF refl _ _ rest, of "insert (pk, masked n) M"] True better "3.prems" show ?thesis
        by (simp add: Let_def split: if_splits)
    next
      case worse: False
      with "3.prems" True have rest: "ownerNets pk ip ns (owner, b) = Inr acc'"
        by (simp add: Let_def)
      from "3.prems"(2) bits worse have "best (insert (pk, masked n) M) (owner, b)"
        by (rule best_insert_worse)
      with "3.IH"(2)[OF refl _ rest, of "insert (pk, masked n) M"] True worse show ?thesis by simp
    qed
  qed
qed

lemma ownerPeers_best:
  "ownerPeers skip ip ps acc = Inr acc' \<Longrightarrow> best M acc \<Longrightarrow> best (M \<union> peerMatches skip ip ps) acc'"
proof (induction ps arbitrary: acc M)
  case Nil
  then show ?case by simp
next
  case (Cons p ps)
  show ?case
  proof (cases "PublicKey p = skip")
    case True
    with Cons show ?thesis by simp
  next
    case False
    with Cons.prems(1) obtain acc1 where acc1: "ownerNets (PublicKey p) ip (AllowedIPs p) acc = Inr acc1"
      and rest: "ownerPeers skip ip ps acc1 = Inr acc'"
      by (auto split: sum.splits)
    from acc1 Cons.prems(2) have "best (M \<union> netMatches (PublicKey p) ip (AllowedIPs p)) acc1"
      by (rule ownerNets_best)
    with rest False show ?thesis by (simp add: Cons.IH Un_assoc[symmetric])
  qed
qed

lemma controlOwner_best: "controlOwner d ip skip = Inr acc \<Longrightarrow> best (matching d ip skip) acc"
  using ownerPeers_best[of skip ip "devPeers d" "(0, noPrefix)" acc "{}"]
  by (simp add: controlOwner_def matching_peerMatches best_def)

text \<open>Two masked prefixes of one length that contain the same address are equal.\<close>

lemma masked_form:
  "contains (masked m) ip \<Longrightarrow> zone ip = [] \<and> masked m = masked (Prefix ip (pBits (masked m)))"
  by (cases m rule: masked.cases; cases ip) (auto simp: drop_bit_xor_0_iff split: if_splits)

lemma masked_contains_unique:
  assumes "contains (masked m) ip" and "contains (masked n) ip" and "pBits (masked m) = pBits (masked n)"
  shows "masked m = masked n"
  using masked_form[OF assms(1)] masked_form[OF assms(2)] assms(3) by simp

text \<open>The other direction: where no two peers tie, the loops return a value.\<close>

lemma ownerNets_total:
  assumes "\<forall>n \<in> set ns. \<exists>q. n = Net q"
    and "noTies (M \<union> netMatches pk ip ns)"
    and "best M acc"
  shows "\<exists>acc'. ownerNets pk ip ns acc = Inr acc'"
  using assms
proof (induction pk ip ns acc arbitrary: M rule: ownerNets.induct)
  case (1 pk ip acc)
  then show ?case by simp
next
  case (2 pk ip b ns acc)
  then show ?case by simp
next
  case (3 pk ip n ns owner b)
  show ?case
  proof (cases "contains (masked n) ip")
    case False
    with "3.IH"(2)[OF refl, of M] "3.prems" show ?thesis by (simp add: Let_def)
  next
    case True
    then have bits: "0 \<le> pBits (masked n)" by (rule contains_bits)
    show ?thesis
    proof (cases "pBits b \<le> pBits (masked n)")
      case better: True
      have tie: "pBits (masked n) = pBits b \<longrightarrow> owner = pk"
      proof
        assume same: "pBits (masked n) = pBits b"
        with "3.prems"(3) bits have "(owner, b) \<in> M" by (auto simp: best_def noPrefix_def)
        with "3.prems"(2) True same show "owner = pk" by (auto dest: noTiesD[of _ owner b pk "masked n"])
      qed
      with "3.prems"(3) bits better have "best (insert (pk, masked n) M) (pk, masked n)"
        by (intro best_insert) auto
      with "3.IH"(1)[OF refl, of "insert (pk, masked n) M"] True better tie "3.prems"(1,2) show ?thesis
        by (simp add: Let_def)
    next
      case worse: False
      from "3.prems"(3) bits worse have "best (insert (pk, masked n) M) (owner, b)"
        by (rule best_insert_worse)
      with "3.IH"(2)[OF refl, of "insert (pk, masked n) M"] True worse "3.prems"(1,2) show ?thesis
        by (simp add: Let_def)
    qed
  qed
qed

lemma ownerPeers_total:
  assumes "\<forall>p \<in> set ps. \<forall>n \<in> set (AllowedIPs p). \<exists>q. n = Net q"
    and "noTies (M \<union> peerMatches skip ip ps)"
    and "best M acc"
  shows "\<exists>acc'. ownerPeers skip ip ps acc = Inr acc'"
  using assms
proof (induction ps arbitrary: acc M)
  case Nil
  then show ?case by simp
next
  case (Cons p ps)
  show ?case
  proof (cases "PublicKey p = skip")
    case True
    with Cons show ?thesis by simp
  next
    case False
    let ?N = "netMatches (PublicKey p) ip (AllowedIPs p)"
    have "\<exists>acc1. ownerNets (PublicKey p) ip (AllowedIPs p) acc = Inr acc1"
      by (rule ownerNets_total[where M = M]) (use Cons.prems False in \<open>auto simp: noTies_def\<close>)
    then obtain acc1 where acc1: "ownerNets (PublicKey p) ip (AllowedIPs p) acc = Inr acc1" by blast
    then have "best (M \<union> ?N) acc1" using Cons.prems(3) by (rule ownerNets_best)
    with Cons.IH[of "M \<union> ?N" acc1] Cons.prems(1,2) False acc1 show ?thesis
      by (simp add: Un_assoc)
  qed
qed

lemma controlOwner_total:
  "parses d \<Longrightarrow> noTies (matching d ip skip) \<Longrightarrow> \<exists>acc. controlOwner d ip skip = Inr acc"
  using ownerPeers_total[of "devPeers d" "{}" skip ip "(0, noPrefix)"]
  by (simp add: controlOwner_def matching_peerMatches parses_def best_def)

lemma matching_same_bits:
  "(k, b) \<in> matching d ip skip \<Longrightarrow> (l, c) \<in> matching d ip skip \<Longrightarrow> pBits b = pBits c \<Longrightarrow> b = c"
  by (auto simp: matching_def dest: masked_contains_unique)

lemma best_unique:
  assumes "best (matching d ip skip) x" and "best (matching d ip skip) y"
  shows "x = y"
proof (cases "matching d ip skip = {}")
  case True
  with assms show ?thesis by (simp add: best_def)
next
  case False
  obtain k b l c where xy: "x = (k, b)" "y = (l, c)" by (cases x; cases y)
  from assms False have mem: "(k, b) \<in> matching d ip skip" "(l, c) \<in> matching d ip skip"
    by (auto simp: best_def xy)
  from assms mem have "pBits b \<le> pBits c" "pBits c \<le> pBits b" by (auto simp: best_def xy)
  moreover from assms mem calculation have "k = l" by (auto simp: best_def xy)
  ultimately show ?thesis using matching_same_bits[OF mem] xy by simp
qed

text \<open>The owner is determined by the matches alone, not by the order of peers and prefixes.\<close>

lemma controlOwner_eqI:
  assumes "controlOwner d ip skip = Inr x" and "matching d' ip skip' = matching d ip skip"
    and "parses d'" and "noTies (matching d ip skip)"
  shows "controlOwner d' ip skip' = Inr x"
proof -
  obtain y where y: "controlOwner d' ip skip' = Inr y"
    using controlOwner_total[of d' ip skip'] assms by auto
  have "x = y"
    using controlOwner_best[OF assms(1)] controlOwner_best[OF y] assms(2) by (auto intro: best_unique)
  with y show ?thesis by simp
qed

text \<open>
  C26: Longest-prefix match.  On a device whose allowed IPs parse and on which no two different
  peers carry prefixes of one length around the address, the two loops return exactly the best
  match: the longest prefix containing the address and its unique carrier, or the zero key and
  the zero prefix when nothing matches.
\<close>

theorem controlOwner_longest_match:
  assumes "parses d" and "noTies (matching d ip skip)"
  shows "controlOwner d ip skip = Inr x \<longleftrightarrow> best (matching d ip skip) x"
proof
  show "controlOwner d ip skip = Inr x \<Longrightarrow> best (matching d ip skip) x" by (rule controlOwner_best)
  assume x: "best (matching d ip skip) x"
  obtain y where y: "controlOwner d ip skip = Inr y" using controlOwner_total[OF assms] by blast
  with best_unique[OF x controlOwner_best[OF y]] show "controlOwner d ip skip = Inr x" by simp
qed

end
