(* ===== verification/ControlSafety.thy ===== *)
theory ControlSafety
  imports Ownership
begin

text \<open>
  What a successful controller operation guarantees, for every kernel whose
  reads are truthful.  The only hypothesis, \<open>observes\<close>, says that reading a
  device returns it and changes nothing and that file operations do not touch
  it; nothing is assumed about what a configuration call does, so the
  guarantees rest on the controller's own checks.
\<close>

definition keeps :: "('s \<Rightarrow> 'b) \<Rightarrow> ('s \<Rightarrow> 'a \<times> 's) \<Rightarrow> bool" where
  "keeps f m \<longleftrightarrow> (\<forall>s. f (snd (m s)) = f s)"

definition fileOps :: "('w \<Rightarrow> 'b) \<Rightarrow> 'w controlIO \<Rightarrow> bool" where
  "fileOps f io \<longleftrightarrow>
     (\<forall>p. keeps f (ioLstat io p) \<and> keeps f (ioMkdir io p) \<and> keeps f (ioReadJournal io p) \<and>
          keeps f (ioOpenDir io p) \<and> keeps f (ioCreateTemp io p) \<and> keeps f (ioChmod io p) \<and>
          (\<forall>d. keeps f (ioWrite io p d)) \<and> keeps f (ioSync io p) \<and> keeps f (ioClose io p) \<and>
          (\<forall>q. keeps f (ioRename io p q)) \<and> (\<forall>w. f (ioRemove io p w) = f w))"

definition observes :: "'w controlIO \<Rightarrow> ('w \<Rightarrow> wgDevice) \<Rightarrow> bool" where
  "observes io dev \<longleftrightarrow> fileOps dev io \<and>
     (\<forall>n. keeps dev (ioDevice io n)) \<and> (\<forall>n w d. fst (ioDevice io n w) = Inr d \<longrightarrow> d = dev w)"

section \<open>What computations keep\<close>

named_theorems keep \<open>closure rules for what a computation leaves unchanged\<close>

lemma keeps_returnE [keep]: "keeps f (returnE a)"
  by (simp add: keeps_def returnE_def)

lemma keeps_throwE [keep]: "keeps f (throwE e)"
  by (simp add: keeps_def throwE_def)

lemma keeps_bindE [keep]:
  assumes "keeps f m" and "\<And>a. keeps f (k a)"
  shows "keeps f (bindE m k)"
  unfolding keeps_def
proof
  fix s
  show "f (snd (bindE m k s)) = f s"
  proof (cases "m s")
    case (Pair r s')
    with assms(1) have "f s' = f s" by (metis keeps_def snd_conv)
    with assms(2) Pair show ?thesis by (cases r) (auto simp: keeps_def bindE_def)
  qed
qed

lemma keeps_thenE [keep]: "keeps f m \<Longrightarrow> keeps f n \<Longrightarrow> keeps f (thenE m n)"
  by (simp add: thenE_def keep)

lemma keeps_tryE [keep]: "keeps f m \<Longrightarrow> keeps f (tryE m)"
  by (simp add: keeps_def tryE_def split_beta)

lemma keeps_getsE [keep]: "keeps f (getsE g)"
  by (simp add: keeps_def getsE_def)

lemma keeps_modifyE [keep]: "(\<And>s. f (g s) = f s) \<Longrightarrow> keeps f (modifyE g)"
  by (simp add: keeps_def modifyE_def)

lemma keeps_failIf [keep]: "keeps f (failIf b e)"
  by (simp add: failIf_def keep)

lemma keeps_liftErr [keep]: "keeps f (liftErr e)"
  by (cases e) (simp_all add: liftErr_def keep)

lemma keeps_bothE [keep]: "keeps f m \<Longrightarrow> keeps f n \<Longrightarrow> keeps f (bothE m n)"
  unfolding bothE_def by (intro keep) (auto intro: keep split: sum.split)

lemma keeps_sub: "keeps f m \<Longrightarrow> keeps (\<lambda>s. g (f s)) m"
  by (simp add: keeps_def)

lemma controlCheckDir_keeps [keep]: "fileOps f io \<Longrightarrow> keeps f (controlCheckDir io p)"
  unfolding keeps_def controlCheckDir_def fileOps_def
  by (auto split: prod.splits sum.splits fsError.splits) (metis snd_conv)+

lemma checkOldJournal_keeps [keep]: "fileOps f io \<Longrightarrow> keeps f (checkOldJournal io p)"
  unfolding keeps_def checkOldJournal_def fileOps_def
  by (auto split: prod.splits sum.splits fsError.splits) (metis snd_conv)+

lemma controlSyncDir_keeps [keep]: "fileOps f io \<Longrightarrow> keeps f (controlSyncDir io p)"
  unfolding controlSyncDir_def by (intro keep) (auto simp: fileOps_def)

lemma writeTemp_keeps [keep]: "fileOps f io \<Longrightarrow> keeps f (writeTemp io t d)"
  unfolding writeTemp_def by (intro keep) (auto simp: fileOps_def)

lemma saveTo_keeps [keep]:
  assumes "fileOps f io"
  shows "keeps f (saveTo io path j)"
  unfolding saveTo_def
  by (intro keep assms conjI allI impI, cases "ioMarshal io j")
    (auto intro!: keep assms split: sum.split simp: assms[unfolded fileOps_def])

section \<open>Weakest preconditions of the primitives\<close>

lemma wpE_keeps:
  assumes "keeps f m" and "\<And>a s'. f s' = f s \<Longrightarrow> Q a s'" and "\<And>e s'. f s' = f s \<Longrightarrow> E e s'"
  shows "wpE m Q E s"
proof -
  have "f (snd (m s)) = f s" using assms(1) by (simp add: keeps_def)
  with assms(2,3) show ?thesis by (auto simp: wpE_def split: prod.split sum.split)
qed

lemma wpE_inWorld:
  "wpE (inWorld m) Q E s \<longleftrightarrow> wpE m (\<lambda>a w. Q a (s\<lparr>ctlWorld := w\<rparr>)) (\<lambda>e w. E e (s\<lparr>ctlWorld := w\<rparr>)) (ctlWorld s)"
  by (simp add: wpE_def inWorld_def split: prod.split sum.split)

lemma wpE_liftErr [wp]: "wpE (liftErr e) Q E s \<longleftrightarrow> (case e of None \<Rightarrow> Q () s | Some x \<Rightarrow> E x s)"
  by (simp add: liftErr_def wp split: option.split)

lemma device_wp:
  assumes "observes io dev"
    and "\<And>w. dev w = dev (ctlWorld s) \<Longrightarrow> devPublic (dev w) = jPublic (ctlJournal s) \<Longrightarrow> Q (dev (ctlWorld s)) (s\<lparr>ctlWorld := w\<rparr>)"
    and "\<And>e w. dev w = dev (ctlWorld s) \<Longrightarrow> E e (s\<lparr>ctlWorld := w\<rparr>)"
  shows "wpE (device io) Q E s"
proof -
  let ?n = "jName (ctlJournal s)"
  have same: "dev (snd (ioDevice io ?n (ctlWorld s))) = dev (ctlWorld s)"
    and read: "\<And>d. fst (ioDevice io ?n (ctlWorld s)) = Inr d \<Longrightarrow> d = dev (ctlWorld s)"
    using assms(1) by (auto simp: observes_def keeps_def)
  have "wpE (ioDevice io ?n) (\<lambda>d w. d = dev w \<and> dev w = dev (ctlWorld s))
      (\<lambda>e w. dev w = dev (ctlWorld s)) (ctlWorld s)"
    using same read by (auto simp: wpE_def split: prod.split sum.split)
  then show ?thesis
    unfolding device_def wp wpE_inWorld
    by (rule wpE_mono) (auto intro: assms)
qed

lemma save_wp:
  assumes "fileOps f io"
    and "\<And>w. f w = f (ctlWorld s) \<Longrightarrow> Q () (s\<lparr>ctlWorld := w\<rparr>)"
    and "\<And>e w. f w = f (ctlWorld s) \<Longrightarrow> E e (s\<lparr>ctlWorld := w\<rparr>)"
  shows "wpE (save io) Q E s"
  unfolding save_def wp wpE_inWorld
  by (rule wpE_keeps[OF saveTo_keeps[OF assms(1)]]) (auto intro: assms)

lemma configure_wp:
  assumes "\<And>w. Q () (s\<lparr>ctlWorld := w\<rparr>)" and "\<And>e w. E e (s\<lparr>ctlWorld := w\<rparr>)"
  shows "wpE (configure io pc) Q E s"
  unfolding configure_def wp wpE_inWorld
  by (auto simp: wpE_def assms split: prod.split sum.split)

lemma wpE_setPeer [wp]:
  "wpE (setPeer key r) Q E s \<longleftrightarrow>
    Q () (s\<lparr>ctlJournal := (ctlJournal s)\<lparr>jPeers := AList.update key r (jPeers (ctlJournal s))\<rparr>\<rparr>)"
  by (simp add: setPeer_def wp)

lemma wpE_dropPeer [wp]:
  "wpE (dropPeer key) Q E s \<longleftrightarrow>
    Q () (s\<lparr>ctlJournal := (ctlJournal s)\<lparr>jPeers := AList.delete key (jPeers (ctlJournal s))\<rparr>\<rparr>)"
  by (simp add: dropPeer_def wp)

lemma wpE_getPeer [wp]: "wpE (getPeer key) Q E s \<longleftrightarrow> Q (map_of (jPeers (ctlJournal s)) key) s"
  by (simp add: getPeer_def wp)

lemma observes_fileOps: "observes io dev \<Longrightarrow> fileOps dev io"
  by (simp add: observes_def)

lemma checkedDevice_wp:
  assumes "observes io dev"
    and "\<And>w. dev w = dev (ctlWorld s) \<Longrightarrow> devPublic (dev w) = jPublic (ctlJournal s) \<Longrightarrow>
      checkPeer (ioHash io) (dev w) key r = None \<Longrightarrow> Q (dev (ctlWorld s)) (s\<lparr>ctlWorld := w\<rparr>)"
    and "\<And>e w. dev w = dev (ctlWorld s) \<Longrightarrow> E e (s\<lparr>ctlWorld := w\<rparr>)"
  shows "wpE (checkedDevice io key r) Q E s"
  unfolding checkedDevice_def wp
  by (rule device_wp[OF assms(1)]) (auto simp: wp intro: assms split: option.split)

section \<open>A successful restore\<close>

lemma checkPeer_gone:
  assumes "checkPeer sha d key r = None" and "controlFindPeer d key = None"
  shows "controlOwner d (cpIP r) (if exact r then 0 else key) = Inr (cpOwner r, cpPrefix r)"
    and "controlFindPeer d (cpOwner r) \<noteq> None"
  using assms by (auto simp: checkPeer_def Let_def split: if_splits sum.splits prod.splits option.splits)

lemma restoringPhase_frame [simp]:
  "cpIP (restoringPhase r) = cpIP r" "cpOwner (restoringPhase r) = cpOwner r"
  "cpPrefix (restoringPhase r) = cpPrefix r" "exact (restoringPhase r) = exact r"
  by (simp_all add: restoringPhase_def exact_def)

definition restored :: "'w controlIO \<Rightarrow> ('w \<Rightarrow> wgDevice) \<Rightarrow> wgkey \<Rightarrow> controlPeer \<Rightarrow> 'w controller \<Rightarrow> bool" where
  "restored io dev key r s \<longleftrightarrow>
     controlFindPeer (dev (ctlWorld s)) key = None \<and>
     controlFindPeer (dev (ctlWorld s)) (cpOwner r) \<noteq> None \<and>
     controlOwner (dev (ctlWorld s)) (cpIP r) (if exact r then 0 else key) = Inr (cpOwner r, cpPrefix r)"

lemma restoreFinish_wp:
  assumes "observes io dev"
  shows "wpE (restoreFinish io key r) (\<lambda>_ s'. restored io dev key r s' \<and>
      jPeers (ctlJournal s') = AList.delete key (jPeers (ctlJournal s))) (\<lambda>_ _. True) s"
  unfolding restoreFinish_def wp
  by (rule checkedDevice_wp[OF assms])
    (auto simp: wp restored_def dest: checkPeer_gone intro!: save_wp[OF observes_fileOps[OF assms]] split: sum.split)

lemma restoreRemove_frame:
  assumes "observes io dev"
  shows "wpE (restoreRemove io key r) (\<lambda>_ s'. ctlJournal s' = ctlJournal s) (\<lambda>_ _. True) s"
  unfolding restoreRemove_def wp
  by (rule checkedDevice_wp[OF assms]) (auto simp: wp intro!: configure_wp split: sum.split)

lemma restoreMove_frame:
  assumes "observes io dev"
  shows "wpE (restoreMove io key r) (\<lambda>_ s'. ctlJournal s' = ctlJournal s) (\<lambda>_ _. True) s"
proof (cases "exact r")
  case True
  then show ?thesis
    unfolding restoreMove_def
    by (simp add: wp) (rule checkedDevice_wp[OF assms], auto simp: wp intro!: configure_wp split: sum.split)
next
  case False
  then show ?thesis by (simp add: restoreMove_def wp)
qed

lemma restoreIntent_frame:
  assumes "observes io dev"
  shows "wpE (restoreIntent io key r) (\<lambda>r' s'. r' = restoringPhase r \<and>
      ctlJournal s' = (ctlJournal s)\<lparr>jPeers := AList.update key r' (jPeers (ctlJournal s))\<rparr>) (\<lambda>_ _. True) s"
  unfolding restoreIntent_def wp
  by (rule device_wp[OF assms]) (auto simp: wp intro!: save_wp[OF observes_fileOps[OF assms]] split: option.split)

lemma restore_wp:
  assumes obs: "observes io dev" and r: "map_of (jPeers (ctlJournal s)) key = Some r"
  shows "wpE (restore io key) (\<lambda>_ s'. restored io dev key r s' \<and>
      jPeers (ctlJournal s') = AList.delete key (jPeers (ctlJournal s))) (\<lambda>_ _. True) s"
  unfolding restore_def wp r option.case
  by (auto simp: restored_def intro!: wpE_mono[OF restoreIntent_frame[OF obs]] wpE_mono[OF restoreMove_frame[OF obs]]
      wpE_mono[OF restoreRemove_frame[OF obs]] wpE_mono[OF restoreFinish_wp[OF obs]])

section \<open>A successful apply\<close>

definition plannedFor :: "'w controlIO \<Rightarrow> wgDevice \<Rightarrow> wgkey \<Rightarrow> addr \<Rightarrow> wgkey \<Rightarrow> controlJournal \<Rightarrow> controlPeer \<Rightarrow> bool" where
  "plannedFor io d key ip psk j r \<longleftrightarrow> cpIP r = ip \<and> cpPSKHash r = ioHash io psk \<and>
     (map_of (jPeers j) key = None \<longrightarrow> cpPhase r = Planning \<and> cpNextHash r = None \<and>
        controlOwner d ip 0 = Inr (cpOwner r, cpPrefix r))"

lemma applyPlan_wp:
  assumes "observes io dev"
  shows "wpE (applyPlan io d key ip psk) (\<lambda>r s'. plannedFor io d key ip psk (ctlJournal s) r \<and>
      map_of (jPeers (ctlJournal s')) key = Some r \<and> dev (ctlWorld s') = dev (ctlWorld s)) (\<lambda>_ _. True) s"
  unfolding applyPlan_def
  by (auto simp: wp plannedFor_def AList.update_conv' Let_def intro!: save_wp[OF observes_fileOps[OF assms]]
      split: option.split sum.split if_split)

lemma applyRecheck_wp:
  assumes "observes io dev"
  shows "wpE (applyRecheck io key r) (\<lambda>_ s'. ctlJournal s' = ctlJournal s \<and>
      dev (ctlWorld s') = dev (ctlWorld s)) (\<lambda>_ _. True) s"
  unfolding applyRecheck_def wp
  by (rule device_wp[OF assms]) (auto simp: wp split: option.split)

lemma applyAdding_wp:
  assumes "observes io dev"
  shows "wpE (applyAdding io key r) (\<lambda>r' s'. r'\<lparr>cpPhase := Active\<rparr> = r\<lparr>cpPhase := Active\<rparr>) (\<lambda>_ _. True) s"
  unfolding applyAdding_def
  by (auto simp: wp intro!: save_wp[OF observes_fileOps[OF assms]] split: sum.split)

lemma applyInstall_wp:
  assumes "observes io dev"
  shows "wpE (applyInstall io key ip psk endpoint r) (\<lambda>_ s'.
      checkPeer (ioHash io) (dev (ctlWorld s')) key (r\<lparr>cpPhase := Active\<rparr>) = None \<and>
      map_of (jPeers (ctlJournal s')) key = Some (r\<lparr>cpPhase := Active\<rparr>)) (\<lambda>_ _. True) s"
  unfolding applyInstall_def wp
  by (rule configure_wp) (auto simp: wp AList.update_conv' intro!: checkedDevice_wp[OF assms]
      save_wp[OF observes_fileOps[OF assms]])

definition routedTo :: "wgDevice \<Rightarrow> addr \<Rightarrow> wgkey \<Rightarrow> bool" where
  "routedTo d ip key \<longleftrightarrow>
     (\<exists>b. (key, b) \<in> matching d ip 0 \<and> (\<forall>(k, c) \<in> matching d ip 0. k \<noteq> key \<longrightarrow> pBits c < pBits b))"

lemma find_peer_mem: "controlFindPeer d key = Some p \<Longrightarrow> p \<in> set (devPeers d) \<and> PublicKey p = key"
  by (auto simp: controlFindPeer_def find_Some_iff)

lemma find_peer_none: "controlFindPeer d key = None \<longleftrightarrow> (\<forall>p \<in> set (devPeers d). PublicKey p \<noteq> key)"
  by (auto simp: controlFindPeer_def find_None_iff)

lemma masked_hostPrefix [simp]: "zone ip = [] \<Longrightarrow> masked (hostPrefix ip) = hostPrefix ip"
  by (cases ip) (auto simp: hostPrefix_def prefixFrom_def)

lemma masked_idem [simp]: "masked (masked p) = masked p"
  by (cases p rule: masked.cases) auto

lemma contains_bits_le: "contains (masked n) ip \<Longrightarrow> pBits (masked n) \<le> bitLen ip"
  by (cases n rule: masked.cases; cases ip) (auto split: if_splits)

lemma matching_bits_le: "(k, b) \<in> matching d ip skip \<Longrightarrow> pBits b \<le> bitLen ip"
  by (auto simp: matching_def contains_bits_le)

lemma matching_skip: "k \<noteq> skip' \<Longrightarrow> (k, b) \<in> matching d ip skip \<Longrightarrow> (k, b) \<in> matching d ip skip'"
  by (auto simp: matching_def)

text \<open>
  A device that passes the check of an active record routes the recorded
  address to the direct peer, whatever else it holds.
\<close>

lemma checkPeer_active:
  assumes chk: "checkPeer sha d key r = None" and phase: "cpPhase r = Active"
  obtains p where "controlFindPeer d key = Some p" and "AllowedIPs p = [Net (hostPrefix (cpIP r))]"
    and "KeepaliveInterval p = 0" and "sha (PresharedKey p) = cpPSKHash r \<or> cpNextHash r = Some (sha (PresharedKey p))"
    and "controlFindPeer d (cpOwner r) \<noteq> None"
    and "controlOwner d (cpIP r) (if exact r then 0 else key) = Inr (if exact r then key else cpOwner r, cpPrefix r)"
proof -
  from assms obtain p where p: "controlFindPeer d key = Some p" and ok: "\<not> badPeer sha r p"
    and own: "controlFindPeer d (cpOwner r) \<noteq> None"
    by (auto simp: checkPeer_def Let_def split: if_splits option.splits)
  from ok phase have nets: "AllowedIPs p = [Net (hostPrefix (cpIP r))]"
    by (cases "AllowedIPs p") (auto simp: badPeer_def Let_def)
  show thesis
  proof (rule that[OF p nets])
    show "KeepaliveInterval p = 0" and "sha (PresharedKey p) = cpPSKHash r \<or> cpNextHash r = Some (sha (PresharedKey p))"
      using ok phase by (auto simp: badPeer_def Let_def)
    show "controlFindPeer d (cpOwner r) \<noteq> None" by (rule own)
    show "controlOwner d (cpIP r) (if exact r then 0 else key) = Inr (if exact r then key else cpOwner r, cpPrefix r)"
      using chk phase p nets ok
      by (auto simp: checkPeer_def Let_def split: if_splits sum.splits prod.splits)
  qed
qed

lemma checkPeer_active_routes:
  assumes chk: "checkPeer sha d key r = None" and "cpPhase r = Active" and "key \<noteq> 0" and "controlHost (cpIP r)"
  shows "routedTo d (cpIP r) key"
proof -
  obtain p where p: "controlFindPeer d key = Some p" and nets: "AllowedIPs p = [Net (hostPrefix (cpIP r))]"
    and owner: "controlOwner d (cpIP r) (if exact r then 0 else key) = Inr (if exact r then key else cpOwner r, cpPrefix r)"
    using checkPeer_active[OF chk] assms(2) by blast
  let ?h = "hostPrefix (cpIP r)"
  have ip: "cpIP r \<noteq> NoAddr" "zone (cpIP r) = []" using assms(4) by (auto simp: controlHost_def)
  then have zoneless: "withZone [] (cpIP r) = cpIP r" by (cases "cpIP r") auto
  have "p \<in> set (devPeers d)" "PublicKey p = key" using find_peer_mem[OF p] by auto
  then have mem: "(key, ?h) \<in> matching d (cpIP r) 0"
    unfolding matching_def using nets ip assms(3) zoneless
    by (intro CollectI exI[of _ p] exI[of _ ?h]) auto
  have "pBits c < bitLen (cpIP r)" if kc: "(k, c) \<in> matching d (cpIP r) 0" and "k \<noteq> key" for k c
  proof (cases "exact r")
    case True
    with controlOwner_best[OF owner] kc that(2) show ?thesis
      by (auto simp: best_def exact_def order.strict_iff_order)
  next
    case False
    from kc that(2) have "(k, c) \<in> matching d (cpIP r) key" by (auto intro: matching_skip)
    with controlOwner_best[OF owner] False have "pBits c \<le> pBits (cpPrefix r)"
      and "(cpOwner r, cpPrefix r) \<in> matching d (cpIP r) key"
      by (auto simp: best_def)
    with False show ?thesis
      using matching_bits_le[of "cpOwner r" "cpPrefix r" d "cpIP r" key] by (simp add: exact_def)
  qed
  with mem ip show ?thesis by (auto simp: routedTo_def intro!: exI[of _ ?h])
qed

lemma restored_routes:
  assumes "restored io dev key r s" and "cpOwner r \<noteq> 0" and "pBits (cpPrefix r) \<noteq> - 1"
  shows "routedTo (dev (ctlWorld s)) (cpIP r) (cpOwner r)"
proof -
  let ?d = "dev (ctlWorld s)"
  let ?skip = "if exact r then 0 else key"
  have gone: "controlFindPeer ?d key = None"
    and own: "controlOwner ?d (cpIP r) ?skip = Inr (cpOwner r, cpPrefix r)"
    using assms(1) by (auto simp: restored_def)
  have sub: "(k, c) \<in> matching ?d (cpIP r) 0 \<Longrightarrow> (k, c) \<in> matching ?d (cpIP r) ?skip" for k c
    using gone by (auto simp: matching_def find_peer_none)
  from controlOwner_best[OF own] assms(2,3) have b: "(cpOwner r, cpPrefix r) \<in> matching ?d (cpIP r) 0"
    and best: "best (matching ?d (cpIP r) ?skip) (cpOwner r, cpPrefix r)"
    by (auto simp: best_def noPrefix_def intro: matching_skip)
  have "pBits c < pBits (cpPrefix r)" if "(k, c) \<in> matching ?d (cpIP r) 0" and "k \<noteq> cpOwner r" for k c
    using best sub[OF that(1)] that(2) by (auto simp: best_def order.strict_iff_order)
  with b show ?thesis by (auto simp: routedTo_def)
qed

lemma liftErr_firstErr:
  "firstErr f xs = None \<longleftrightarrow> (\<forall>x \<in> set xs. f x = None)"
  by (induction xs) (auto split: option.splits)

lemma applyCommit_wp:
  assumes "observes io dev"
  shows "wpE (applyCommit io key ip psk endpoint r) (\<lambda>_ s'.
      checkPeer (ioHash io) (dev (ctlWorld s')) key (r\<lparr>cpPhase := Active\<rparr>) = None \<and>
      map_of (jPeers (ctlJournal s')) key = Some (r\<lparr>cpPhase := Active\<rparr>)) (\<lambda>_ _. True) s"
  unfolding applyCommit_def wp
  by (rule wpE_mono[OF applyInstall_wp[OF assms]]) (auto simp: wp)

definition installed :: "'w controlIO \<Rightarrow> ('w \<Rightarrow> wgDevice) \<Rightarrow> wgkey \<Rightarrow> addr \<Rightarrow> wgkey \<Rightarrow> 'w controller \<Rightarrow> controlPeer \<Rightarrow> bool" where
  "installed io dev key ip psk s r \<longleftrightarrow>
     map_of (jPeers (ctlJournal s)) key = Some r \<and> cpPhase r = Active \<and> cpIP r = ip \<and>
     cpPSKHash r = ioHash io psk \<and> checkPeer (ioHash io) (dev (ctlWorld s)) key r = None"

lemma Apply_wp:
  assumes obs: "observes io dev"
  shows "wpE (Apply io key ip psk endpoint) (\<lambda>_ s'. key \<noteq> 0 \<and> controlHost ip \<and>
      (\<exists>r. installed io dev key ip psk s' r \<and>
         (map_of (jPeers (ctlJournal s)) key = None \<longrightarrow>
            cpNextHash r = None \<and> controlOwner (dev (ctlWorld s)) ip 0 = Inr (cpOwner r, cpPrefix r))))
    (\<lambda>_ _. True) s" (is "wpE _ ?Q _ _")
proof -
  obtain Q where Q: "Q = ?Q" by simp
  have commit: "wpE (applyAdding io key r) (\<lambda>r'. wpE (applyCommit io key ip psk endpoint r') Q (\<lambda>_ _. True))
      (\<lambda>_ _. True) s1"
    if "key \<noteq> 0" "controlHost ip" "plannedFor io (dev (ctlWorld s)) key ip psk (ctlJournal s) r" for r s1
  proof (rule wpE_mono[OF applyAdding_wp[OF obs]])
    fix r' s2
    assume same: "r'\<lparr>cpPhase := Active\<rparr> = r\<lparr>cpPhase := Active\<rparr>"
    show "wpE (applyCommit io key ip psk endpoint r') Q (\<lambda>_ _. True) s2"
      by (rule wpE_mono[OF applyCommit_wp[OF obs]])
        (use that in \<open>auto simp: Q same installed_def plannedFor_def intro!: exI[of _ "r\<lparr>cpPhase := Active\<rparr>"]\<close>)
  qed simp
  show ?thesis
    unfolding Apply_def wpE_bindE wpE_thenE wpE_getsE wpE_failIf wpE_liftErr Q[symmetric]
    by (auto simp: invalidTarget_def intro!: device_wp[OF obs] wpE_mono[OF applyPlan_wp[OF obs]]
        wpE_mono[OF applyRecheck_wp[OF obs]] commit split: option.split)
qed

text \<open>
  C19: When \<open>Apply\<close> returns without an error on a kernel that answers reads truthfully, the
  device routes the host address to the direct peer (its \<open>/32\<close> or \<open>/128\<close> is the unique
  longest match), the direct peer is allowed that one address and nothing else, and the
  journal in memory holds an active record for it.  For a peer that was not managed before, the
  recorded stable owner and prefix are the ones that routed the address when \<open>Apply\<close> was called.
\<close>

theorem Apply_routes_direct:
  assumes "observes io dev" and "Apply io key ip psk endpoint s = (Inr (), s')"
  shows "routedTo (dev (ctlWorld s')) ip key \<and>
    (\<exists>p. controlFindPeer (dev (ctlWorld s')) key = Some p \<and> AllowedIPs p = [Net (hostPrefix ip)]) \<and>
    (\<exists>r. map_of (jPeers (ctlJournal s')) key = Some r \<and> cpPhase r = Active \<and> cpIP r = ip \<and>
      cpPSKHash r = ioHash io psk \<and>
      (map_of (jPeers (ctlJournal s)) key = None \<longrightarrow>
        controlOwner (dev (ctlWorld s)) ip 0 = Inr (cpOwner r, cpPrefix r)))"
proof -
  obtain r where "key \<noteq> 0" "controlHost ip" and inst: "installed io dev key ip psk s' r"
    and fresh: "map_of (jPeers (ctlJournal s)) key = None \<longrightarrow>
        controlOwner (dev (ctlWorld s)) ip 0 = Inr (cpOwner r, cpPrefix r)"
    using wpE_InrD[OF Apply_wp[OF assms(1)] assms(2)] by auto
  moreover obtain p where "controlFindPeer (dev (ctlWorld s')) key = Some p"
    and "AllowedIPs p = [Net (hostPrefix ip)]"
    using inst by (auto simp: installed_def elim: checkPeer_active)
  ultimately show ?thesis
    using checkPeer_active_routes[of "ioHash io" "dev (ctlWorld s')" key r]
    by (auto simp: installed_def)
qed

text \<open>
  C20: When \<open>Restore\<close> of a managed peer returns without an error, the direct peer is gone from
  the device, the recorded stable owner is present and again routes the host address through
  the recorded prefix, and exactly this record has left the journal.
\<close>

theorem Restore_reinstates_owner:
  assumes "observes io dev" and "map_of (jPeers (ctlJournal s)) key = Some r"
    and "cpOwner r \<noteq> 0" and "pValid (cpPrefix r)" and "Restore io key s = (Inr (), s')"
  shows "controlFindPeer (dev (ctlWorld s')) key = None \<and>
    controlFindPeer (dev (ctlWorld s')) (cpOwner r) \<noteq> None \<and>
    routedTo (dev (ctlWorld s')) (cpIP r) (cpOwner r) \<and>
    (cpOwner r, cpPrefix r) \<in> matching (dev (ctlWorld s')) (cpIP r) 0 \<and>
    jPeers (ctlJournal s') = AList.delete key (jPeers (ctlJournal s))"
proof -
  have "restored io dev key r s'" and "jPeers (ctlJournal s') = AList.delete key (jPeers (ctlJournal s))"
    using wpE_InrD[OF restore_wp[OF assms(1,2)] assms(5)[unfolded Restore_def]] by auto
  moreover from this(1) have "(cpOwner r, cpPrefix r) \<in> matching (dev (ctlWorld s')) (cpIP r) 0"
    using assms(3,4) controlOwner_best
    by (fastforce simp: restored_def best_def noPrefix_def pValid_def intro: matching_skip)
  ultimately show ?thesis
    using restored_routes[of io dev key r s'] assms(3,4) by (auto simp: restored_def pValid_def)
qed

section \<open>Rekey, check and start\<close>

lemma rekeyCheck_wp:
  assumes "observes io dev"
  shows "wpE (rekeyCheck io key expected) (\<lambda>_ s'. ctlJournal s' = ctlJournal s \<and> dev (ctlWorld s') = dev (ctlWorld s) \<and>
      (map_of (jPeers (ctlJournal s)) key \<noteq> None \<longrightarrow> checkPeer (ioHash io) (dev (ctlWorld s)) key expected = None))
    (\<lambda>_ _. True) s"
  unfolding rekeyCheck_def wp
  by (rule device_wp[OF assms])
    (fastforce simp: wp liftErr_firstErr rekeyConflict_def Let_def dest: map_of_SomeD split: option.split if_splits)+

lemma Rekey_wp:
  fixes io :: "'w controlIO"
  assumes obs: "observes io dev" and r: "map_of (jPeers (ctlJournal s)) key = Some r"
  shows "wpE (Rekey io key oldPSK newPSK) (\<lambda>_ s'. newPSK \<noteq> 0 \<and> cpPhase r = Active \<and>
      checkPeer (ioHash io) (dev (ctlWorld s')) key (r\<lparr>cpPSKHash := ioHash io newPSK\<rparr>) = None \<and>
      map_of (jPeers (ctlJournal s')) key = Some (r\<lparr>cpPSKHash := ioHash io newPSK\<rparr>)) (\<lambda>_ _. True) s"
proof -
  let ?p = "r\<lparr>cpPhase := Rekeying, cpNextHash := Some (ioHash io newPSK)\<rparr>"
  let ?n = "r\<lparr>cpPSKHash := ioHash io newPSK\<rparr>"
  let ?Q = "\<lambda>_ (s' :: 'w controller). newPSK \<noteq> 0 \<and> cpPhase r = Active \<and> checkPeer (ioHash io) (dev (ctlWorld s')) key ?n = None \<and>
      map_of (jPeers (ctlJournal s')) key = Some ?n"
  obtain Q :: "unit \<Rightarrow> 'w controller \<Rightarrow> bool" where Q: "Q = ?Q" by simp
  have tail: "wpE (thenE (setPeer key ?n) (bindE (tryE (save io))
      (case_sum (\<lambda>e. thenE (setPeer key ?p) (throwE e)) returnE))) Q (\<lambda>_ _. True) s1"
    if "checkPeer (ioHash io) (dev (ctlWorld s1)) key ?n = None" "newPSK \<noteq> 0" "cpPhase r = Active" for s1
    unfolding Q using that by (auto simp: wp AList.update_conv' intro!: save_wp[OF observes_fileOps[OF obs]])
  show ?thesis
    unfolding Q[symmetric] Rekey_def wpE_bindE[of "getPeer _"] wpE_getPeer r option.case wpE_thenE[of "failIf _ _"] wpE_failIf
      wpE_thenE[of "rekeyCheck _ _ r"] wpE_Let wpE_thenE[of "setPeer _ _"] wpE_setPeer wpE_thenE[of "save _"]
      wpE_thenE[of "configure _ _"] wpE_thenE[of "rekeyCheck _ _ _"] wpE_thenE
    by (auto simp: AList.update_conv' intro!: wpE_mono[OF rekeyCheck_wp[OF obs]]
        save_wp[OF observes_fileOps[OF obs]] configure_wp tail[unfolded wpE_thenE wpE_setPeer])
qed

text \<open>
  C25: When \<open>Rekey\<close> of a managed peer returns without an error, the direct peer on the device
  carries a preshared key with the fingerprint of the new key, it still routes the address and
  is allowed nothing else, and the record differs from the old one in that fingerprint only.
\<close>

theorem Rekey_installs_key:
  assumes "observes io dev" and r: "map_of (jPeers (ctlJournal s)) key = Some r" and "cpNextHash r = None"
    and "key \<noteq> 0" and "controlHost (cpIP r)" and "Rekey io key oldPSK newPSK s = (Inr (), s')"
  shows "(\<exists>p. controlFindPeer (dev (ctlWorld s')) key = Some p \<and> ioHash io (PresharedKey p) = ioHash io newPSK \<and>
      AllowedIPs p = [Net (hostPrefix (cpIP r))]) \<and> newPSK \<noteq> 0 \<and>
    routedTo (dev (ctlWorld s')) (cpIP r) key \<and>
    map_of (jPeers (ctlJournal s')) key = Some (r\<lparr>cpPSKHash := ioHash io newPSK\<rparr>)"
proof -
  let ?n = "r\<lparr>cpPSKHash := ioHash io newPSK\<rparr>"
  from wpE_InrD[OF Rekey_wp[OF assms(1) r] assms(6)] have chk: "checkPeer (ioHash io) (dev (ctlWorld s')) key ?n = None"
    and facts: "newPSK \<noteq> 0" "cpPhase ?n = Active" "map_of (jPeers (ctlJournal s')) key = Some ?n" by auto
  obtain p where "controlFindPeer (dev (ctlWorld s')) key = Some p" "AllowedIPs p = [Net (hostPrefix (cpIP ?n))]"
    "ioHash io (PresharedKey p) = cpPSKHash ?n \<or> cpNextHash ?n = Some (ioHash io (PresharedKey p))"
    using checkPeer_active[OF chk facts(2)] by blast
  with facts checkPeer_active_routes[OF chk facts(2)] assms(3-5) show ?thesis by auto
qed

lemma managedConflict_none:
  "managedConflict io d (k, r) = None \<longleftrightarrow> checkPeer (ioHash io) d k r = None \<and> cpPhase r = Active"
  by (simp add: managedConflict_def split: option.split)

text \<open>
  When the periodic \<open>Check\<close> succeeds, every managed peer is active and the device routes
  every managed address to its direct peer.
\<close>

theorem Check_sound:
  assumes "observes io dev" and "Check io s = (Inr (), s')"
    and "\<And>k r. (k, r) \<in> set (jPeers (ctlJournal s)) \<Longrightarrow> k \<noteq> 0 \<and> controlHost (cpIP r)"
  shows "\<forall>(k, r) \<in> set (jPeers (ctlJournal s)). cpPhase r = Active \<and> routedTo (dev (ctlWorld s)) (cpIP r) k"
proof -
  have "wpE (Check io) (\<lambda>_ _. \<forall>(k, r) \<in> set (jPeers (ctlJournal s)).
      checkPeer (ioHash io) (dev (ctlWorld s)) k r = None \<and> cpPhase r = Active) (\<lambda>_ _. True) s"
    unfolding Check_def checkDevice_def wp
    by (rule device_wp[OF assms(1)])
      (auto simp: wp liftErr_firstErr managedConflict_none split: option.splits)
  from wpE_InrD[OF this assms(2)] assms(3) show ?thesis by (auto intro!: checkPeer_active_routes)
qed

lemma restoreKeys_wp:
  assumes obs: "observes io dev"
  shows "wpE (restoreKeys io ks err) (\<lambda>_ s'. err = None \<and>
      jPeers (ctlJournal s') = fold AList.delete ks (jPeers (ctlJournal s)) ) (\<lambda>_ _. True) s"
proof (induction ks arbitrary: err s)
  case Nil
  then show ?case by (cases err) (simp_all add: wp)
next
  case (Cons k ks)
  have join: "joinErr err None = err" by (cases err) simp_all
  have one: "wpE (restore io k) (\<lambda>_ s'. jPeers (ctlJournal s') = AList.delete k (jPeers (ctlJournal s))) (\<lambda>_ _. True) s"
  proof (cases "map_of (jPeers (ctlJournal s)) k")
    case None
    then have "AList.delete k (jPeers (ctlJournal s)) = jPeers (ctlJournal s)"
      by (simp add: map_of_eq_None_iff delete_id)
    with None show ?thesis by (simp add: restore_def wp)
  next
    case (Some r)
    show ?thesis by (rule wpE_mono[OF restore_wp[OF obs Some]]) auto
  qed
  have failed: "wpE (restoreKeys io ks (joinErr err (Some e))) (\<lambda>_ s'. err = None \<and>
      jPeers (ctlJournal s') = fold AList.delete ks (AList.delete k (jPeers (ctlJournal s)))) (\<lambda>_ _. True) s1" for e s1
    by (rule wpE_mono[OF Cons.IH]) (cases err; simp)+
  have passed: "wpE (restoreKeys io ks (joinErr err None)) (\<lambda>_ s'. err = None \<and>
      jPeers (ctlJournal s') = fold AList.delete ks (AList.delete k (jPeers (ctlJournal s)))) (\<lambda>_ _. True) s1"
    if "jPeers (ctlJournal s1) = AList.delete k (jPeers (ctlJournal s))" for s1
    by (rule wpE_mono[OF Cons.IH]) (simp_all add: join that)
  show ?case
    unfolding restoreKeys.simps wpE_bindE wpE_tryE
    by (rule wpE_mono[OF one]) (simp_all add: failed passed)
qed

lemma fold_delete_all: "fold AList.delete (map fst xs) ys = filter (\<lambda>(k, v). k \<notin> fst ` set xs) ys"
proof (induction xs arbitrary: ys)
  case Nil
  then show ?case by simp
next
  case (Cons x xs)
  then show ?case by (auto simp: AList.delete_eq filter_filter split_beta intro!: filter_cong)
qed

lemma RestoreAll_empties:
  assumes "observes io dev"
  shows "wpE (RestoreAll io) (\<lambda>_ s'. jPeers (ctlJournal s') = []) (\<lambda>_ _. True) s"
proof -
  have "fold AList.delete (map fst xs) xs = []" for xs :: "(wgkey \<times> controlPeer) list"
    by (force simp: fold_delete_all filter_empty_conv)
  then show ?thesis
    unfolding RestoreAll_def wp by (intro wpE_mono[OF restoreKeys_wp[OF assms]]) simp_all
qed

definition header :: "'w controller \<Rightarrow> string \<times> wgkey \<times> string" where
  "header s = (jName (ctlJournal s), jPublic (ctlJournal s), ctlPath s)"

lemma header_inWorld [keep]: "keeps header (inWorld m)"
  by (simp add: keeps_def header_def inWorld_def split_beta)

lemma header_peers [keep]: "keeps header (setPeer k r)" "keeps header (dropPeer k)"
  by (simp_all add: keeps_def header_def setPeer_def dropPeer_def modifyE_def)

lemma header_io [keep]: "keeps header (device io)" "keeps header (configure io pc)" "keeps header (save io)"
  "keeps header (checkedDevice io k r)" "keeps header (getPeer k)"
  unfolding device_def configure_def save_def checkedDevice_def getPeer_def by (intro keep)+

lemma header_restore [keep]: "keeps header (restore io k)"
proof -
  have "keeps header (restoreIntent io k r)" "keeps header (restoreMove io k r)" "keeps header (restoreRemove io k r)"
    "keeps header (restoreFinish io k r)" for r
    unfolding restoreIntent_def restoreMove_def restoreRemove_def restoreFinish_def
    by (intro keep, auto intro!: keep split: sum.split)+
  then show ?thesis
    unfolding restore_def by (intro keep) (auto intro!: keep split: option.split)
qed

lemma header_RestoreAll [keep]: "keeps header (RestoreAll io)"
proof -
  have "keeps header (restoreKeys io ks err)" for ks err
    by (induction ks arbitrary: err) (auto intro!: keep)
  then show ?thesis unfolding RestoreAll_def by (intro keep)
qed

lemma recoverController_wp:
  assumes obs: "observes io dev"
  shows "wpE (recoverController io) (\<lambda>_ s'. jPeers (ctlJournal s') = [] \<and> header s' = header s \<and>
      devPublic (dev (ctlWorld s')) = jPublic (ctlJournal s') \<and>
      Identity s' = (devPrivate (dev (ctlWorld s')), devPort (dev (ctlWorld s')))) (\<lambda>_ _. True) s"
proof -
  have read: "wpE (ioDevice io n) (\<lambda>d w'. d = dev w') (\<lambda>_ _. True) w" for n w
    using obs unfolding observes_def keeps_def
    by (auto simp: wpE_def split: prod.split sum.split) (metis fst_conv snd_conv)
  have "wpE (RestoreAll io) (\<lambda>_ s'. jPeers (ctlJournal s') = [] \<and> header s' = header s) (\<lambda>_ _. True) s"
    by (rule wpE_mono[OF wpE_conj[OF RestoreAll_empties[OF obs] wpE_keeps[OF header_RestoreAll,
          where Q = "\<lambda>_ s'. header s' = header s" and E = "\<lambda>_ _. True"]]]) auto
  then show ?thesis
    unfolding recoverController_def wpE_bindE[of "tryE _"] wpE_tryE
    by (rule wpE_mono) (auto simp: wp wpE_inWorld header_def Identity_def intro!: wpE_mono[OF read])
qed

lemma validateJournal_name: "validateJournal io name d loaded = Inr j \<Longrightarrow> jName j = name"
  by (auto simp: validateJournal_def Let_def split: option.splits if_splits)

text \<open>
  C24: A new controller starts clean.  When \<open>newController\<close> succeeds, whatever journal a previous
  process left behind has been worked off completely: no peer is managed, and the private key
  and port come from a device with the recorded identity.
\<close>

theorem newController_clean:
  assumes "observes io dev" and "newController io name path w = (Inr s, w')"
  shows "jPeers (ctlJournal s) = [] \<and> jName (ctlJournal s) = name \<and> ctlPath s = path \<and>
    devPublic (dev (ctlWorld s)) = jPublic (ctlJournal s) \<and>
    Identity s = (devPrivate (dev (ctlWorld s)), devPort (dev (ctlWorld s)))"
proof -
  from assms(2) obtain j w1 where
    j: "thenE (prepareDir io (ioDir io path)) (bindE (loadJournal io path) (\<lambda>loaded.
          bindE (ioDevice io name) (\<lambda>d. case validateJournal io name d loaded of
            Inl e \<Rightarrow> throwE e | Inr j \<Rightarrow> returnE j))) w = (Inr j, w1)"
    and run: "recoverController io (startController path j w1) = (Inr (), s)"
    by (auto simp: newController_def split: if_splits prod.splits sum.splits)
  have "jName j = name"
    using j by (auto simp: thenE_def bindE_def returnE_def throwE_def validateJournal_name
        split: prod.splits sum.splits)
  moreover note wpE_InrD[OF recoverController_wp[OF assms(1)] run]
  ultimately show ?thesis by (simp add: header_def startController_def)
qed

end
