(* ===== verification/ControlJournal.thy ===== *)
theory ControlJournal
  imports ControlSafety
begin

text \<open>
  The recovery journal: \<open>save\<close> replaces the file atomically, every journal the
  controller holds or writes is well formed, and the start-up validation accepts
  every well-formed journal.  The hypothesis \<open>durable\<close> states what POSIX says of
  the file operations the code uses: only the rename changes the journal file,
  it does so all at once, and a temporary file gets a name of its own.
\<close>

section \<open>Atomic replacement of the journal file\<close>

definition durable :: "'w controlIO \<Rightarrow> ('w \<Rightarrow> string \<Rightarrow> bytes option) \<Rightarrow> string \<Rightarrow> bool" where
  "durable io files path \<longleftrightarrow>
     (\<forall>n. keeps files (ioDevice io n)) \<and> (\<forall>n c. keeps files (ioConfigure io n c)) \<and>
     (\<forall>p. keeps files (ioLstat io p) \<and> keeps files (ioMkdir io p) \<and> keeps files (ioReadJournal io p) \<and>
          keeps files (ioOpenDir io p) \<and> keeps files (ioChmod io p) \<and> keeps files (ioSync io p) \<and>
          keeps files (ioClose io p)) \<and>
     (\<forall>d w. files (snd (ioCreateTemp io d w)) path = files w path \<and>
            (\<forall>f. fst (ioCreateTemp io d w) = Inr f \<longrightarrow> f \<noteq> path)) \<and>
     (\<forall>f d w. f \<noteq> path \<longrightarrow> files (snd (ioWrite io f d w)) path = files w path \<and>
            (\<forall>u. fst (ioWrite io f d w) = Inr u \<longrightarrow> files (snd (ioWrite io f d w)) f = Some d)) \<and>
     (\<forall>f w. f \<noteq> path \<longrightarrow> (case ioRename io f path w of
            (Inr _, w') \<Rightarrow> files w' path = files w f | (Inl _, w') \<Rightarrow> files w' path = files w path)) \<and>
     (\<forall>f w. f \<noteq> path \<longrightarrow> files (ioRemove io f w) path = files w path)"

lemma createTemp_wp:
  assumes "durable io files path"
    and "\<And>f w'. f \<noteq> path \<Longrightarrow> files w' path = files w path \<Longrightarrow> Q f w'"
    and "\<And>e w'. files w' path = files w path \<Longrightarrow> E e w'"
  shows "wpE (ioCreateTemp io d) Q E w"
  using assms(1)[unfolded durable_def] assms(2,3)
  by (auto simp: wpE_def split: prod.split sum.split) (metis fst_conv snd_conv)+

lemma write_wp:
  assumes "durable io files path" and "f \<noteq> path"
    and "\<And>w'. files w' f = Some d \<Longrightarrow> files w' path = files w path \<Longrightarrow> Q () w'"
    and "\<And>e w'. files w' path = files w path \<Longrightarrow> E e w'"
  shows "wpE (ioWrite io f d) Q E w"
  using assms(1)[unfolded durable_def] assms(2-)
  by (auto simp: wpE_def split: prod.split sum.split) (metis fst_conv snd_conv)+

lemma rename_wp:
  assumes "durable io files path" and "f \<noteq> path"
    and "\<And>w'. files w' path = files w f \<Longrightarrow> Q () w'" and "\<And>e w'. files w' path = files w path \<Longrightarrow> E e w'"
  shows "wpE (ioRename io f path) Q E w"
proof -
  have "case ioRename io f path w of
      (Inr _, w') \<Rightarrow> files w' path = files w f | (Inl _, w') \<Rightarrow> files w' path = files w path"
    using assms(1,2) by (simp add: durable_def)
  with assms(3,4) show ?thesis
    by (auto simp: wpE_def split: prod.splits sum.splits)
qed

lemma durable_keeps:
  assumes "durable io files path"
  shows "keeps files (controlCheckDir io p)" "keeps files (checkOldJournal io p)" "keeps files (controlSyncDir io p)"
    "keeps files (ioChmod io p)" "keeps files (ioSync io p)" "keeps files (ioClose io p)"
    "keeps files (ioDevice io n)" "keeps files (ioConfigure io n c)"
proof -
  have basic: "keeps files (ioLstat io q)" "keeps files (ioOpenDir io q)" "keeps files (ioSync io q)"
    "keeps files (ioClose io q)" "keeps files (ioChmod io q)" for q
    using assms by (simp_all add: durable_def)
  show "keeps files (controlCheckDir io p)" "keeps files (checkOldJournal io p)"
    unfolding keeps_def controlCheckDir_def checkOldJournal_def
    using basic(1)[unfolded keeps_def] by (auto split: prod.splits sum.splits fsError.splits) (metis snd_conv)+
  show "keeps files (controlSyncDir io p)"
    unfolding controlSyncDir_def by (intro keep basic)
  show "keeps files (ioChmod io p)" "keeps files (ioSync io p)" "keeps files (ioClose io p)"
    by (rule basic)+
  show "keeps files (ioDevice io n)" "keeps files (ioConfigure io n c)"
    using assms by (simp_all add: durable_def)
qed

lemma writeTemp_wp:
  assumes dur: "durable io files path" and "f \<noteq> path"
    and ok: "\<And>w'. files w' f = Some d \<Longrightarrow> files w' path = files w path \<Longrightarrow> Q () w'"
    and err: "\<And>e w'. files w' path = files w path \<Longrightarrow> E e w'"
  shows "wpE (writeTemp io f d) Q E w"
proof -
  have ok': "files w2 = files w1 \<Longrightarrow> files w1 f = Some d \<Longrightarrow> files w1 path = files w path \<Longrightarrow> Q () w2" for w1 w2
    by (rule ok) simp_all
  show ?thesis
    unfolding writeTemp_def bothE_def wp
    by (rule wpE_keeps[OF durable_keeps(4)[OF dur]])
      (auto simp: wp intro!: write_wp[OF dur assms(2)] wpE_keeps[OF durable_keeps(5)[OF dur]]
        wpE_keeps[OF durable_keeps(6)[OF dur]] intro: err ok')
qed

lemma saveTo_wp:
  assumes dur: "durable io files path"
    and ok: "\<And>w' data. ioMarshal io j = Inr data \<Longrightarrow> files w' path = Some data \<Longrightarrow> Q () w'"
    and err: "\<And>e w'. files w' path = files w path \<or> (\<exists>data. ioMarshal io j = Inr data \<and> files w' path = Some data) \<Longrightarrow> E e w'"
  shows "wpE (saveTo io path j) Q E w"
proof -
  have rest: "wpE (case ioMarshal io j of
       Inl e \<Rightarrow> throwE e
     | Inr data \<Rightarrow>
        thenE (failIf (length data > 1048576) (Msg ''recovery journal exceeds 1 MiB''))
       (bindE (ioCreateTemp io (ioDir io path)) (\<lambda>f.
        bindE (tryE (thenE (writeTemp io f data)
                    (thenE (ioRename io f path) (controlSyncDir io (ioDir io path))))) (\<lambda>r.
        thenE (modifyE (ioRemove io f)) (case r of Inl e \<Rightarrow> throwE e | Inr _ \<Rightarrow> returnE ()))))) Q E w1"
    if w1: "files w1 = files w" for w1
  proof (cases "ioMarshal io j")
    case (Inl e)
    then show ?thesis by (simp add: wp err w1)
  next
    case (Inr data)
    have remove: "files (ioRemove io f w') path = files w' path" if "f \<noteq> path" for f w'
      using dur that by (simp add: durable_def)
    show ?thesis
      unfolding Inr sum.case wp
      by (auto simp: wp w1 intro!: createTemp_wp[OF dur] writeTemp_wp[OF dur] rename_wp[OF dur]
          wpE_keeps[OF durable_keeps(3)[OF dur]] intro: err ok[OF Inr] simp: remove Inr)
  qed
  show ?thesis
    unfolding saveTo_def wpE_thenE
    by (auto intro!: wpE_keeps[OF durable_keeps(1)[OF dur]] wpE_keeps[OF durable_keeps(2)[OF dur]] rest err)
qed

text \<open>
  C23: Saving the journal is atomic.  Whatever file operation fails, afterwards the journal
  file holds either exactly what it held before or exactly the new journal; after a successful
  save it holds the new journal.
\<close>

theorem save_atomic:
  assumes "durable io files path"
  shows "case saveTo io path j w of
      (Inr _, w') \<Rightarrow> \<exists>data. ioMarshal io j = Inr data \<and> files w' path = Some data
    | (Inl _, w') \<Rightarrow> files w' path = files w path \<or> (\<exists>data. ioMarshal io j = Inr data \<and> files w' path = Some data)"
  using saveTo_wp[OF assms, of j "\<lambda>_ w'. \<exists>data. ioMarshal io j = Inr data \<and> files w' path = Some data" w
      "\<lambda>_ w'. files w' path = files w path \<or> (\<exists>data. ioMarshal io j = Inr data \<and> files w' path = Some data)"]
  by (auto simp: wpE_def split: prod.splits sum.splits)


section \<open>Well-formed journals\<close>

definition recordOK :: "wgkey \<Rightarrow> wgkey \<Rightarrow> controlPeer \<Rightarrow> bool" where
  "recordOK public key r \<longleftrightarrow>
     key \<noteq> 0 \<and> key \<noteq> public \<and> controlHost (cpIP r) \<and>
     pValid (cpPrefix r) \<and> masked (cpPrefix r) = cpPrefix r \<and> contains (cpPrefix r) (cpIP r) \<and>
     cpOwner r \<noteq> 0 \<and> cpOwner r \<noteq> key \<and> cpOwner r \<noteq> public \<and>
     cpPSKHash r \<noteq> 0 \<and> knownPhase (cpPhase r) \<and>
     (cpPhase r = Rekeying \<longrightarrow> cpNextHash r \<noteq> None) \<and>
     (\<forall>h. cpNextHash r = Some h \<longrightarrow> h \<noteq> 0 \<and> (cpPhase r = Rekeying \<or> cpPhase r = Restoring))"

definition peersOK :: "wgkey \<Rightarrow> (wgkey \<Rightarrow> controlPeer option) \<Rightarrow> bool" where
  "peersOK public m \<longleftrightarrow>
     (\<forall>k r. m k = Some r \<longrightarrow> recordOK public k r \<and> m (cpOwner r) = None) \<and>
     (\<forall>k l r q. m k = Some r \<longrightarrow> m l = Some q \<longrightarrow> cpIP r = cpIP q \<longrightarrow> k = l)"

definition journalOK :: "controlJournal \<Rightarrow> bool" where
  "journalOK j \<longleftrightarrow> jVersion j = 1 \<and> jPublic j \<noteq> 0 \<and> distinct (map fst (jPeers j)) \<and>
     peersOK (jPublic j) (map_of (jPeers j))"

lemma peersOKD:
  assumes "peersOK public m" and "m k = Some r"
  shows "recordOK public k r" and "m (cpOwner r) = None"
  using assms by (auto simp: peersOK_def)

lemma peersOK_replace:
  assumes "peersOK public m" and "m key = Some r0" and "recordOK public key r"
    and "cpIP r = cpIP r0" and "cpOwner r = cpOwner r0"
  shows "peersOK public (m(key \<mapsto> r))"
  using assms unfolding peersOK_def by (auto simp: recordOK_def)

lemma peersOK_delete: "peersOK public m \<Longrightarrow> peersOK public (m(key := None))"
  by (auto simp: peersOK_def)

lemma peersOK_insert:
  assumes "peersOK public m" and "recordOK public key r" and "m (cpOwner r) = None"
    and fresh: "\<And>k q. m k = Some q \<Longrightarrow> cpIP q \<noteq> cpIP r \<and> cpOwner q \<noteq> key"
  shows "peersOK public (m(key \<mapsto> r))"
proof -
  have "cpOwner r \<noteq> key" using assms(2) by (simp add: recordOK_def)
  then show ?thesis
    using assms(1-3) fresh unfolding peersOK_def fun_upd_apply by (metis option.inject)
qed

lemma journalOK_update:
  assumes "journalOK j" and "peersOK (jPublic j) ((map_of (jPeers j))(key \<mapsto> r))"
  shows "journalOK (j\<lparr>jPeers := AList.update key r (jPeers j)\<rparr>)"
  using assms by (simp add: journalOK_def AList.update_conv' distinct_update)

lemma journalOK_delete:
  assumes "journalOK j"
  shows "journalOK (j\<lparr>jPeers := AList.delete key (jPeers j)\<rparr>)"
  using assms by (simp add: journalOK_def AList.delete_conv' distinct_delete peersOK_delete)

section \<open>Start-up validation\<close>

text \<open>What the decoder returns for a journal: keys in their text form, no null entry.\<close>

definition rawOf :: "'w controlIO \<Rightarrow> controlJournal \<Rightarrow> rawJournal" where
  "rawOf io j = \<lparr>rjVersion = jVersion j, rjName = jName j, rjPublic = jPublic j,
     rjPeers = Some (map (\<lambda>(k, r). (ioKeyString io k, Some r)) (jPeers j))\<rparr>"

definition keyText :: "'w controlIO \<Rightarrow> bool" where
  "keyText io \<longleftrightarrow> (\<forall>k. ioParseKey io (ioKeyString io k) = Some k)"

lemma keyText_inj: "keyText io \<Longrightarrow> ioKeyString io k = ioKeyString io l \<longleftrightarrow> k = l"
  unfolding keyText_def by (metis option.inject)

lemma map_of_keyText:
  "keyText io \<Longrightarrow> map_of (map (\<lambda>(k, r). (ioKeyString io k, Some r)) al) (ioKeyString io k) =
    map_option Some (map_of al k)"
  by (induction al) (auto simp: keyText_inj)

lemma badRecord_iff:
  assumes "keyText io"
  shows "badRecord io public (map (\<lambda>(k, r). (ioKeyString io k, Some r)) al) ips (ioKeyString io key) key r \<longleftrightarrow>
    \<not> (recordOK public key r \<and> map_of al (cpOwner r) = None \<and> cpIP r \<notin> set ips)"
  unfolding badRecord_def recordOK_def
  by (auto simp: map_of_keyText[OF assms] split: option.splits)

lemma validatePeers_accepts:
  assumes "keyText io" and "peersOK public (map_of al)" and "distinct (map fst al)" and "set rest \<subseteq> set al"
    and "distinct (map fst rest)" and "\<forall>(k, r) \<in> set rest. cpIP r \<notin> set ips"
  shows "validatePeers io public (map (\<lambda>(k, r). (ioKeyString io k, Some r)) al) ips
      (map (\<lambda>(k, r). (ioKeyString io k, Some r)) rest) = Some rest"
  using assms(4-)
proof (induction rest arbitrary: ips)
  case Nil
  then show ?case by simp
next
  case (Cons e rest)
  obtain k r where e: "e = (k, r)" by (cases e)
  have mem: "map_of al k = Some r" using Cons.prems(1) assms(3) e by (auto intro: map_of_is_SomeI)
  have fresh: "cpIP q \<noteq> cpIP r" if "(l, q) \<in> set rest" for l q
  proof
    assume "cpIP q = cpIP r"
    moreover have "map_of al l = Some q"
      using that Cons.prems(1) assms(3) by (auto intro: map_of_is_SomeI)
    ultimately have "l = k" using mem assms(2) unfolding peersOK_def by blast
    with that Cons.prems(2) e show False by (auto simp: rev_image_eqI)
  qed
  have good: "\<not> badRecord io public (map (\<lambda>(k, r). (ioKeyString io k, Some r)) al) ips (ioKeyString io k) k r"
    using peersOKD[OF assms(2) mem] Cons.prems(3) e by (auto simp: badRecord_iff[OF assms(1)])
  have "validatePeers io public (map (\<lambda>(k, r). (ioKeyString io k, Some r)) al) (cpIP r # ips)
      (map (\<lambda>(k, r). (ioKeyString io k, Some r)) rest) = Some rest"
    by (rule Cons.IH) (use Cons.prems fresh in auto)
  with good assms(1) show ?case by (simp add: e keyText_def)
qed

text \<open>
  C27: Journal round trip.  A well-formed journal that was written for this interface and this
  device identity is accepted by the start-up validation and comes back unchanged: every key,
  address, owner, prefix, fingerprint and phase is recovered.
\<close>

theorem validateJournal_roundtrip:
  assumes "keyText io" and "journalOK j" and "devPublic d = jPublic j"
  shows "validateJournal io (jName j) d (Some (rawOf io j)) = Inr j"
  using validatePeers_accepts[OF assms(1), of "jPublic j" "jPeers j" "jPeers j" "[]"] assms
  by (simp add: validateJournal_def rawOf_def journalOK_def Let_def)

text \<open>The converse: what validation lets through is well formed.\<close>

lemma validatePeers_sound:
  assumes "validatePeers io public raw ips peers = Some al" and "keyText io" and "distinct (map fst peers)"
  shows "map (\<lambda>(k, r). (ioKeyString io k, Some r)) al = peers \<and> distinct (map fst al) \<and>
    (\<forall>(k, r) \<in> set al. recordOK public k r \<and> cpIP r \<notin> set ips \<and>
       (\<forall>o'. map_of raw (ioKeyString io (cpOwner r)) \<noteq> Some (Some o'))) \<and>
    distinct (map (\<lambda>(k, r). cpIP r) al)"
  using assms(1,3)
proof (induction peers arbitrary: ips al)
  case Nil
  then show ?case by simp
next
  case (Cons e peers)
  obtain name entry where e: "e = (name, entry)" by (cases e)
  from Cons.prems(1) obtain key r al' where key: "ioParseKey io name = Some key" and r: "entry = Some r"
    and good: "\<not> badRecord io public raw ips name key r"
    and rest: "validatePeers io public raw (cpIP r # ips) peers = Some al'" and al: "al = (key, r) # al'"
    by (auto simp: e split: option.splits if_splits)
  have IH: "map (\<lambda>(k, r). (ioKeyString io k, Some r)) al' = peers" "distinct (map fst al')"
    "\<And>k q. (k, q) \<in> set al' \<Longrightarrow> recordOK public k q \<and> cpIP q \<notin> set (cpIP r # ips) \<and>
       (\<forall>o'. map_of raw (ioKeyString io (cpOwner q)) \<noteq> Some (Some o'))"
    "distinct (map (\<lambda>(k, r). cpIP r) al')"
    using Cons.IH[OF rest] Cons.prems(2) by auto
  have name: "ioKeyString io key = name" using good by (simp add: badRecord_def)
  have "recordOK public key r \<and> cpIP r \<notin> set ips \<and> (\<forall>o'. map_of raw (ioKeyString io (cpOwner r)) \<noteq> Some (Some o'))"
    using good unfolding badRecord_def recordOK_def by (auto split: option.splits)
  moreover have "key \<notin> fst ` set al'"
  proof
    assume "key \<in> fst ` set al'"
    then have "name \<in> fst ` set peers" using IH(1) name by (force simp: image_iff)
    with Cons.prems(2) e show False by simp
  qed
  moreover have "cpIP r \<notin> (\<lambda>(k, r). cpIP r) ` set al'" using IH(3) by fastforce
  ultimately show ?case using IH by (auto simp: al e r name)
qed

lemma distinct_map_snd_unique:
  "distinct (map f al) \<Longrightarrow> x \<in> set al \<Longrightarrow> y \<in> set al \<Longrightarrow> f x = f y \<Longrightarrow> x = y"
  by (auto simp: distinct_map dest: inj_onD)

text \<open>
  Start-up validation is sound.  Whatever the file held, a journal that the controller
  starts from is well formed, names the interface and carries the device's identity.
\<close>

theorem validateJournal_sound:
  assumes "keyText io" and "\<And>raw peers. loaded = Some raw \<Longrightarrow> rjPeers raw = Some peers \<Longrightarrow> distinct (map fst peers)"
    and "validateJournal io name d loaded = Inr j"
  shows "journalOK j \<and> jName j = name \<and> jPublic j = devPublic d"
proof -
  define peers where "peers = (case loaded of Some raw \<Rightarrow> the (rjPeers raw) | None \<Rightarrow> [])"
  from assms(3) have ok: "validatePeers io (devPublic d) peers [] peers = Some (jPeers j)"
    and hdr: "jVersion j = 1" "jName j = name" "jPublic j = devPublic d" "jPublic j \<noteq> 0"
    and dist: "distinct (map fst peers)"
    using assms(2) by (auto simp: validateJournal_def peers_def Let_def split: option.splits if_splits)
  note sound = validatePeers_sound[OF ok assms(1) dist]
  have raw: "map_of peers (ioKeyString io k) = map_option Some (map_of (jPeers j) k)" for k
    using sound map_of_keyText[OF assms(1), of "jPeers j" k] by auto
  have rec: "recordOK (jPublic j) k r \<and> map_of (jPeers j) (cpOwner r) = None"
    if "map_of (jPeers j) k = Some r" for k r
  proof -
    have "(k, r) \<in> set (jPeers j)" using that by (rule map_of_SomeD)
    with sound hdr have "recordOK (jPublic j) k r" "\<forall>o'. map_of peers (ioKeyString io (cpOwner r)) \<noteq> Some (Some o')"
      by auto
    then show ?thesis by (auto simp: raw)
  qed
  have "k = l" if "map_of (jPeers j) k = Some r" "map_of (jPeers j) l = Some q" "cpIP r = cpIP q" for k l r q
    using distinct_map_snd_unique[of "\<lambda>(k, r). cpIP r" "jPeers j" "(k, r)" "(l, q)"] sound that
    by (auto dest: map_of_SomeD)
  with rec sound hdr show ?thesis unfolding journalOK_def peersOK_def by blast
qed

end
