(* ===== verification/ControlWal.thy ===== *)
theory ControlWal
  imports ControlJournal
begin

text \<open>
  Write-ahead discipline of the controller.  A ghost log records, at every
  configuration call, the requested change and the content of the journal file
  at that moment.  The invariant says that the journal in memory and the one on
  disk are well formed, that every record in a phase where the kernel may hold
  the direct peer has its address, owner and prefix on disk, and that every
  change ever sent to the kernel was announced on disk before it was sent.
\<close>

section \<open>The ghost log\<close>

type_synonym wlog = "(peerConfig list \<times> bytes option) list"

definition logged :: "'w controlIO \<Rightarrow> ('w \<Rightarrow> string \<Rightarrow> bytes option) \<Rightarrow> ('w \<Rightarrow> wlog) \<Rightarrow> string \<Rightarrow> bool" where
  "logged io files log path \<longleftrightarrow> fileOps log io \<and> (\<forall>n. keeps log (ioDevice io n)) \<and>
     (\<forall>n c w. log (snd (ioConfigure io n c w)) = log w @ [(c, files w path)])"

definition traced :: "'w controlIO \<Rightarrow> ('w \<Rightarrow> string \<Rightarrow> bytes option) \<Rightarrow> string \<Rightarrow> ('w \<times> wlog) controlIO" where
  "traced io files path =
     \<lparr>ioDevice = \<lambda>n. inFst (ioDevice io n),
      ioConfigure = \<lambda>n c w. inFst (ioConfigure io n c) (fst w, snd w @ [(c, files (fst w) path)]),
      ioHash = ioHash io, ioParseKey = ioParseKey io, ioKeyString = ioKeyString io, ioMarshal = ioMarshal io,
      ioUid = ioUid io, ioDir = ioDir io,
      ioLstat = \<lambda>p. inFst (ioLstat io p), ioMkdir = \<lambda>p. inFst (ioMkdir io p),
      ioReadJournal = \<lambda>p. inFst (ioReadJournal io p), ioOpenDir = \<lambda>p. inFst (ioOpenDir io p),
      ioCreateTemp = \<lambda>p. inFst (ioCreateTemp io p), ioChmod = \<lambda>p. inFst (ioChmod io p),
      ioWrite = \<lambda>p d. inFst (ioWrite io p d), ioSync = \<lambda>p. inFst (ioSync io p), ioClose = \<lambda>p. inFst (ioClose io p),
      ioRename = \<lambda>p q. inFst (ioRename io p q), ioRemove = \<lambda>p w. (ioRemove io p (fst w), snd w)\<rparr>"

lemma keeps_inFst: "keeps f m \<Longrightarrow> keeps (f \<circ> fst) (inFst m)" "keeps snd (inFst m)"
  by (auto simp: keeps_def through_def putFst_def split_beta)

lemma traced_logged: "logged (traced io files path) (files \<circ> fst) snd path"
  by (simp add: logged_def traced_def fileOps_def keeps_inFst) (simp add: keeps_def through_def putFst_def split_beta)

lemma traced_durable:
  assumes "durable io files path"
  shows "durable (traced io files path) (files \<circ> fst) path"
  using assms unfolding durable_def traced_def
  by (simp add: keeps_inFst) (auto simp: keeps_def through_def putFst_def split_beta split: sum.splits, metis)

section \<open>The invariant\<close>

fun live :: "cphase \<Rightarrow> bool" where
  "live Adding = True"
| "live Active = True"
| "live Rekeying = True"
| "live _ = False"

definition identity :: "controlPeer \<Rightarrow> addr \<times> wgkey \<times> prefix" where
  "identity r = (cpIP r, cpOwner r, cpPrefix r)"

definition onDisk :: "'w controlIO \<Rightarrow> bytes option \<Rightarrow> controlJournal \<Rightarrow> bool" where
  "onDisk io content j \<longleftrightarrow> journalOK j \<and> (\<exists>data. ioMarshal io j = Inr data \<and> content = Some data)"

definition anchored :: "'w controlIO \<Rightarrow> controlJournal \<Rightarrow> bytes option \<Rightarrow> bool" where
  "anchored io mem content \<longleftrightarrow> (\<forall>k r. map_of (jPeers mem) k = Some r \<longrightarrow> live (cpPhase r) \<longrightarrow>
     (\<exists>j q. onDisk io content j \<and> map_of (jPeers j) k = Some q \<and> identity q = identity r))"

text \<open>
  A change is permitted by a journal if it concerns a recorded peer, or its
  recorded owner in an update that can only return the recorded address; it
  grants no other address and sets no preshared key without a recorded
  fingerprint.
\<close>

definition permitted :: "'w controlIO \<Rightarrow> controlJournal \<Rightarrow> peerConfig \<Rightarrow> bool" where
  "permitted io j pc \<longleftrightarrow> (\<exists>k r. map_of (jPeers j) k = Some r \<and>
     set (pcAllowed pc) \<subseteq> {controlHostNet (cpIP r)} \<and>
     (\<forall>psk. pcPSK pc = Some psk \<longrightarrow> ioHash io psk = cpPSKHash r \<or> cpNextHash r = Some (ioHash io psk)) \<and>
     (pcKey pc = k \<or> pcKey pc = cpOwner r \<and> pcUpdateOnly pc \<and> \<not> pcRemove pc \<and> pcPSK pc = None \<and> pcEndpoint pc = None))"

definition announced :: "'w controlIO \<Rightarrow> peerConfig list \<times> bytes option \<Rightarrow> bool" where
  "announced io e \<longleftrightarrow> (\<exists>j. onDisk io (snd e) j \<and> (\<forall>pc \<in> set (fst e). permitted io j pc))"

definition wal :: "'w controlIO \<Rightarrow> ('w \<Rightarrow> string \<Rightarrow> bytes option) \<Rightarrow> ('w \<Rightarrow> wlog) \<Rightarrow> string \<Rightarrow> bool" where
  "wal io files log path \<longleftrightarrow> durable io files path \<and> logged io files log path \<and> (\<forall>k. ioHash io k \<noteq> 0)"

definition view :: "('w \<Rightarrow> string \<Rightarrow> bytes option) \<Rightarrow> ('w \<Rightarrow> wlog) \<Rightarrow> 'w controller \<Rightarrow>
    controlJournal \<times> string \<times> bytes option \<times> wlog" where
  "view files log s = (ctlJournal s, ctlPath s, files (ctlWorld s) (ctlPath s), log (ctlWorld s))"

definition jInv :: "'w controlIO \<Rightarrow> string \<Rightarrow> controlJournal \<times> string \<times> bytes option \<times> wlog \<Rightarrow> bool" where
  "jInv io path v \<longleftrightarrow> (case v of (mem, p, content, log) \<Rightarrow>
     p = path \<and> journalOK mem \<and> (content = None \<or> (\<exists>j. onDisk io content j)) \<and> anchored io mem content \<and>
     (\<forall>e \<in> set log. announced io e))"

definition synced :: "'w controlIO \<Rightarrow> controlJournal \<times> string \<times> bytes option \<times> wlog \<Rightarrow> bool" where
  "synced io v \<longleftrightarrow> (case v of (mem, p, content, log) \<Rightarrow> onDisk io content mem)"

section \<open>Reads, saves and configuration calls\<close>

lemma device_keeps_view [keep]:
  assumes "wal io files log path"
  shows "keeps (view files log) (device io)"
proof -
  have "files (snd (ioDevice io n w)) = files w" "log (snd (ioDevice io n w)) = log w" for n w
    using assms by (auto simp: wal_def durable_def logged_def keeps_def)
  then have "keeps (view files log) (inWorld (ioDevice io n))" for n
    by (simp add: keeps_def inWorld_def view_def split_beta)
  then show ?thesis unfolding device_def by (intro keep)
qed

lemma checkedDevice_keeps_view [keep]: "wal io files log path \<Longrightarrow> keeps (view files log) (checkedDevice io key r)"
  unfolding checkedDevice_def by (intro keep)

lemma applyRecheck_keeps_view [keep]: "wal io files log path \<Longrightarrow> keeps (view files log) (applyRecheck io key r)"
  unfolding applyRecheck_def by (intro keep)

lemma rekeyCheck_keeps_view [keep]: "wal io files log path \<Longrightarrow> keeps (view files log) (rekeyCheck io key r)"
  unfolding rekeyCheck_def by (intro keep)

lemma configure_wal:
  assumes "wal io files log path" and "jInv io path (view files log s)"
    and "announced io ([pc], files (ctlWorld s) path)"
    and "\<And>w. jInv io path (view files log (s\<lparr>ctlWorld := w\<rparr>)) \<Longrightarrow> files w path = files (ctlWorld s) path \<Longrightarrow> Q () (s\<lparr>ctlWorld := w\<rparr>)"
    and "\<And>e w. jInv io path (view files log (s\<lparr>ctlWorld := w\<rparr>)) \<Longrightarrow> files w path = files (ctlWorld s) path \<Longrightarrow> E e (s\<lparr>ctlWorld := w\<rparr>)"
  shows "wpE (configure io pc) Q E s"
proof -
  let ?m = "ioConfigure io (jName (ctlJournal s)) [pc]"
  let ?w = "snd (?m (ctlWorld s))"
  have "files ?w = files (ctlWorld s)" "log ?w = log (ctlWorld s) @ [([pc], files (ctlWorld s) path)]"
    using assms(1) by (auto simp: wal_def durable_def logged_def keeps_def)
  then have "jInv io path (view files log (s\<lparr>ctlWorld := ?w\<rparr>))" "files ?w path = files (ctlWorld s) path"
    using assms(2,3) by (auto simp: jInv_def view_def)
  then show ?thesis
    unfolding configure_def wp wpE_inWorld using assms(4,5)
    by (auto simp: wpE_def split: prod.split sum.split)
qed

lemma jInv_saved:
  assumes "jInv io path (mem, path, content, log)" and "onDisk io content' mem"
  shows "jInv io path (mem, path, content', log)" and "synced io (mem, path, content', log)"
  using assms by (auto simp: jInv_def synced_def anchored_def)

lemma save_wal:
  assumes wal: "wal io files log path" and inv: "jInv io path (view files log s)"
    and ok: "\<And>w. jInv io path (view files log (s\<lparr>ctlWorld := w\<rparr>)) \<Longrightarrow> synced io (view files log (s\<lparr>ctlWorld := w\<rparr>)) \<Longrightarrow> Q () (s\<lparr>ctlWorld := w\<rparr>)"
    and err: "\<And>e w. jInv io path (view files log (s\<lparr>ctlWorld := w\<rparr>)) \<Longrightarrow> E e (s\<lparr>ctlWorld := w\<rparr>)"
  shows "wpE (save io) Q E s"
proof -
  let ?j = "ctlJournal s" and ?w = "ctlWorld s"
  have dur: "durable io files path" and log: "keeps log (saveTo io path ?j)"
    using wal by (auto simp: wal_def logged_def intro: saveTo_keeps)
  have path: "ctlPath s = path" and jok: "journalOK ?j"
    using inv by (auto simp: jInv_def view_def)
  have written: "onDisk io (files w path) ?j" if "ioMarshal io ?j = Inr data" "files w path = Some data" for w data
    using that jok by (simp add: onDisk_def)
  have saved: "jInv io path (view files log (s\<lparr>ctlWorld := w\<rparr>)) \<and> synced io (view files log (s\<lparr>ctlWorld := w\<rparr>))"
    if "onDisk io (files w path) ?j" "log w = log ?w" for w
    using jInv_saved[of io path ?j "files ?w path" "log ?w"] inv that path by (simp add: view_def)
  have "wpE (saveTo io path ?j)
      (\<lambda>_ w. (\<exists>data. ioMarshal io ?j = Inr data \<and> files w path = Some data) \<and> log w = log ?w)
      (\<lambda>_ w. (files w path = files ?w path \<or> (\<exists>data. ioMarshal io ?j = Inr data \<and> files w path = Some data)) \<and> log w = log ?w) ?w"
    by (rule wpE_conj[OF saveTo_wp[OF dur] wpE_keeps[OF log]]) auto
  then show ?thesis
    unfolding save_def wp wpE_inWorld path
  proof (rule wpE_mono)
    fix u :: unit and w
    assume "(\<exists>data. ioMarshal io ?j = Inr data \<and> files w path = Some data) \<and> log w = log ?w"
    then show "Q u (s\<lparr>ctlWorld := w\<rparr>)" using ok saved written by (cases u) blast
  next
    fix e w
    assume "(files w path = files ?w path \<or> (\<exists>data. ioMarshal io ?j = Inr data \<and> files w path = Some data)) \<and> log w = log ?w"
    then consider "files w path = files ?w path" "log w = log ?w" | "onDisk io (files w path) ?j" "log w = log ?w"
      using written by blast
    then show "E e (s\<lparr>ctlWorld := w\<rparr>)"
    proof cases
      case 1
      with inv path have "view files log (s\<lparr>ctlWorld := w\<rparr>) = view files log s" by (simp add: view_def)
      with err inv show ?thesis by simp
    next
      case 2
      with err saved show ?thesis by blast
    qed
  qed
qed

section \<open>Changes of the journal in memory\<close>

lemma jInv_journalOK: "jInv io path (view files log s) \<Longrightarrow> journalOK (ctlJournal s)"
  by (simp add: jInv_def view_def)

lemma jInv_record:
  assumes "jInv io path (view files log s)" and "map_of (jPeers (ctlJournal s)) key = Some r"
  shows "recordOK (jPublic (ctlJournal s)) key r"
  using assms by (auto dest!: jInv_journalOK peersOKD(1) simp: journalOK_def)

lemma jInv_put:
  assumes "jInv io path (view files log s)"
    and "peersOK (jPublic (ctlJournal s)) ((map_of (jPeers (ctlJournal s)))(key \<mapsto> r))"
    and "live (cpPhase r) \<Longrightarrow> \<exists>j q. onDisk io (files (ctlWorld s) path) j \<and> map_of (jPeers j) key = Some q \<and> identity q = identity r"
  shows "jInv io path (view files log
    (s\<lparr>ctlJournal := (ctlJournal s)\<lparr>jPeers := AList.update key r (jPeers (ctlJournal s))\<rparr>\<rparr>))"
  using assms journalOK_update[of "ctlJournal s" key r]
  by (auto simp: jInv_def view_def anchored_def AList.update_conv')

lemma jInv_replace:
  assumes inv: "jInv io path (view files log s)" and r0: "map_of (jPeers (ctlJournal s)) key = Some r0"
    and "recordOK (jPublic (ctlJournal s)) key r" and same: "identity r = identity r0"
    and live: "live (cpPhase r) \<Longrightarrow> live (cpPhase r0) \<or> synced io (view files log s)"
  shows "jInv io path (view files log
    (s\<lparr>ctlJournal := (ctlJournal s)\<lparr>jPeers := AList.update key r (jPeers (ctlJournal s))\<rparr>\<rparr>))"
proof (rule jInv_put[OF inv])
  have "peersOK (jPublic (ctlJournal s)) (map_of (jPeers (ctlJournal s)))"
    using inv by (auto simp: jInv_def view_def journalOK_def)
  then show "peersOK (jPublic (ctlJournal s)) ((map_of (jPeers (ctlJournal s)))(key \<mapsto> r))"
    using peersOK_replace[of _ "map_of (jPeers (ctlJournal s))" key r0 r] same r0 assms(3)
    by (auto simp: identity_def)
next
  assume "live (cpPhase r)"
  with live consider "live (cpPhase r0)" | "synced io (view files log s)" by blast
  then show "\<exists>j q. onDisk io (files (ctlWorld s) path) j \<and> map_of (jPeers j) key = Some q \<and> identity q = identity r"
  proof cases
    case 1
    with inv r0 same show ?thesis by (auto simp: jInv_def view_def anchored_def)
  next
    case 2
    with inv r0 same show ?thesis by (auto simp: jInv_def view_def synced_def)
  qed
qed

lemma jInv_drop:
  assumes "jInv io path (view files log s)"
  shows "jInv io path (view files log
    (s\<lparr>ctlJournal := (ctlJournal s)\<lparr>jPeers := AList.delete key (jPeers (ctlJournal s))\<rparr>\<rparr>))"
  using assms journalOK_delete[of "ctlJournal s" key]
  by (auto simp: jInv_def view_def anchored_def AList.delete_conv' split: if_splits)

section \<open>Every operation keeps the invariant\<close>

abbreviation stays :: "'w controlIO \<Rightarrow> ('w \<Rightarrow> string \<Rightarrow> bytes option) \<Rightarrow> ('w \<Rightarrow> wlog) \<Rightarrow> string \<Rightarrow>
    ('w controller, 'a) eff \<Rightarrow> 'w controller \<Rightarrow> bool" where
  "stays io files log path m s \<equiv>
     wpE m (\<lambda>_ s'. jInv io path (view files log s')) (\<lambda>_ s'. jInv io path (view files log s')) s"

lemma announced_sync:
  assumes "synced io (view files log s)" and "ctlPath s = path" and "permitted io (ctlJournal s) pc"
  shows "announced io ([pc], files (ctlWorld s) path)"
  using assms by (auto simp: announced_def synced_def view_def)

lemma wpE_view:
  assumes "keeps (view files log) m"
    and "\<And>a s'. view files log s' = view files log s \<Longrightarrow> Q a s'" and "\<And>e s'. view files log s' = view files log s \<Longrightarrow> E e s'"
  shows "wpE m Q E s"
  using assms by (rule wpE_keeps)

lemma view_frame:
  "view files log s' = view files log s \<Longrightarrow> ctlJournal s' = ctlJournal s \<and> ctlPath s' = ctlPath s"
  by (simp add: view_def)

lemma jInv_path: "jInv io path (view files log s) \<Longrightarrow> ctlPath s = path"
  by (simp add: jInv_def view_def)

lemma restoreMove_wal:
  assumes "wal io files log path" and "jInv io path (view files log s)" and "synced io (view files log s)"
    and "map_of (jPeers (ctlJournal s)) key = Some r"
  shows "wpE (restoreMove io key r)
     (\<lambda>_ s'. jInv io path (view files log s') \<and> synced io (view files log s') \<and> ctlJournal s' = ctlJournal s)
     (\<lambda>_ s'. jInv io path (view files log s')) s"
proof -
  have "permitted io (ctlJournal s) ((peerUpdate (cpOwner r))\<lparr>pcUpdateOnly := True, pcAllowed := [controlHostNet (cpIP r)]\<rparr>)"
    using assms(4) by (auto simp: permitted_def peerUpdate_def)
  then have call: "wpE (configure io ((peerUpdate (cpOwner r))\<lparr>pcUpdateOnly := True, pcAllowed := [controlHostNet (cpIP r)]\<rparr>))
     (\<lambda>_ s'. jInv io path (view files log s') \<and> synced io (view files log s') \<and> ctlJournal s' = ctlJournal s)
     (\<lambda>_ s'. jInv io path (view files log s')) s1" if "view files log s1 = view files log s" for s1
    using that assms view_frame[OF that] jInv_path[OF assms(2)]
    by (intro configure_wal[OF assms(1)] announced_sync[where log = log]) (auto simp: synced_def view_def)
  show ?thesis
    unfolding restoreMove_def wpE_if wpE_bindE wpE_returnE
    by (auto intro!: wpE_view[OF checkedDevice_keeps_view[OF assms(1)]] call simp: wp assms dest: view_frame split: sum.split)
qed

lemma restoreRemove_wal:
  assumes "wal io files log path" and "jInv io path (view files log s)" and "synced io (view files log s)"
    and "map_of (jPeers (ctlJournal s)) key = Some r"
  shows "wpE (restoreRemove io key r)
     (\<lambda>_ s'. jInv io path (view files log s') \<and> ctlJournal s' = ctlJournal s)
     (\<lambda>_ s'. jInv io path (view files log s')) s"
proof -
  have "permitted io (ctlJournal s) ((peerUpdate key)\<lparr>pcRemove := True\<rparr>)"
    using assms(4) by (auto simp: permitted_def peerUpdate_def)
  then have call: "wpE (configure io ((peerUpdate key)\<lparr>pcRemove := True\<rparr>))
     (\<lambda>_ s'. jInv io path (view files log s') \<and> ctlJournal s' = ctlJournal s)
     (\<lambda>_ s'. jInv io path (view files log s')) s1" if "view files log s1 = view files log s" for s1
    using that assms view_frame[OF that] jInv_path[OF assms(2)]
    by (intro configure_wal[OF assms(1)] announced_sync[where log = log]) auto
  show ?thesis
    unfolding restoreRemove_def wpE_if wpE_bindE wpE_returnE
    by (auto intro!: wpE_view[OF checkedDevice_keeps_view[OF assms(1)]] call simp: wp assms dest: view_frame split: sum.split)
qed

lemma restoreFinish_wal:
  assumes "wal io files log path" and "jInv io path (view files log s)"
    and "map_of (jPeers (ctlJournal s)) key = Some r" and "\<not> live (cpPhase r)"
  shows "stays io files log path (restoreFinish io key r) s"
proof -
  have undo: "jInv io path (view files log (s1\<lparr>ctlWorld := w,
      ctlJournal := (ctlJournal s1)\<lparr>jPeers := AList.update key r (AList.delete key (jPeers (ctlJournal s1)))\<rparr>\<rparr>))"
    if "view files log s1 = view files log s"
      and "jInv io path (view files log (s1\<lparr>ctlJournal := (ctlJournal s1)\<lparr>jPeers := AList.delete key (jPeers (ctlJournal s1))\<rparr>, ctlWorld := w\<rparr>))" for s1 w
  proof -
    have "peersOK (jPublic (ctlJournal s)) (map_of (jPeers (ctlJournal s)))"
      using assms(2) by (auto simp: jInv_def view_def journalOK_def)
    moreover have "(map_of (jPeers (ctlJournal s)))(key := None, key \<mapsto> r) = map_of (jPeers (ctlJournal s))"
      using assms(3) by auto
    ultimately show ?thesis
      using jInv_put[OF that(2), of key r] assms(4) view_frame[OF that(1)] by (simp add: AList.delete_conv')
  qed
  show ?thesis
    unfolding restoreFinish_def wpE_bindE
    by (auto intro!: wpE_view[OF checkedDevice_keeps_view[OF assms(1)]] save_wal[OF assms(1)] jInv_drop
        simp: wp assms undo split: sum.split)
qed

lemma restoringPhase_idle [simp]: "\<not> live (cpPhase (restoringPhase r))"
  by (cases "cpPhase r") (auto simp: restoringPhase_def)

lemma restoringPhase_identity [simp]: "identity (restoringPhase r) = identity r"
  by (simp add: identity_def)

lemma recordOK_restoringPhase: "recordOK public key r \<Longrightarrow> recordOK public key (restoringPhase r)"
  by (auto simp: recordOK_def restoringPhase_def)

lemma restoreIntent_wal:
  assumes "wal io files log path" and "jInv io path (view files log s)"
    and "map_of (jPeers (ctlJournal s)) key = Some r0"
  shows "wpE (restoreIntent io key r0)
     (\<lambda>r s'. r = restoringPhase r0 \<and> jInv io path (view files log s') \<and> synced io (view files log s') \<and>
        map_of (jPeers (ctlJournal s')) key = Some r)
     (\<lambda>_ s'. jInv io path (view files log s')) s"
proof -
  have "jInv io path (view files log
      (s1\<lparr>ctlJournal := (ctlJournal s1)\<lparr>jPeers := AList.update key (restoringPhase r0) (jPeers (ctlJournal s1))\<rparr>\<rparr>))"
    if "view files log s1 = view files log s" for s1
    using jInv_replace[of io path files log s1 key r0 "restoringPhase r0"]
      assms view_frame[OF that] that recordOK_restoringPhase[OF jInv_record[OF assms(2,3)]] by simp
  then show ?thesis
    unfolding restoreIntent_def wpE_bindE
    by (auto intro!: wpE_view[OF device_keeps_view[OF assms(1)]] save_wal[OF assms(1)]
        simp: wp assms AList.update_conv' split: option.split)
qed

lemma restore_wal:
  assumes "wal io files log path" and "jInv io path (view files log s)"
  shows "stays io files log path (restore io key) s"
proof (cases "map_of (jPeers (ctlJournal s)) key")
  case None
  with assms show ?thesis by (simp add: restore_def wp)
next
  case (Some r0)
  then show ?thesis
    unfolding restore_def wpE_bindE wpE_thenE wpE_getPeer Some option.case
    by (auto intro!: wpE_mono[OF restoreIntent_wal[OF assms Some]] wpE_mono[OF restoreMove_wal[OF assms(1)]]
        wpE_mono[OF restoreRemove_wal[OF assms(1)]] restoreFinish_wal[OF assms(1)])
qed

lemma restoreKeys_wal:
  assumes "wal io files log path"
  shows "jInv io path (view files log s) \<Longrightarrow> stays io files log path (restoreKeys io ks err) s"
proof (induction ks arbitrary: err s)
  case Nil
  then show ?case by (cases err) (simp_all add: wp)
next
  case (Cons k ks)
  then show ?case
    by (simp add: wp) (rule wpE_mono[OF restore_wal[OF assms]], auto)
qed

lemma RestoreAll_wal:
  "wal io files log path \<Longrightarrow> jInv io path (view files log s) \<Longrightarrow> stays io files log path (RestoreAll io) s"
  by (simp add: RestoreAll_def wp restoreKeys_wal)

section \<open>Apply and rekey keep the invariant\<close>

lemma controlOwner_record:
  assumes "controlOwner d ip 0 = Inr (owner, pfx)" and "owner \<noteq> 0"
  shows "pValid pfx \<and> masked pfx = pfx \<and> contains pfx ip"
proof -
  have "(owner, pfx) \<in> matching d ip 0" using controlOwner_best[OF assms(1)] assms(2) by (auto simp: best_def)
  then obtain n where n: "pfx = masked n" "contains (masked n) ip" by (auto simp: matching_def)
  then have "pValid pfx" by (auto simp: pValid_def dest: contains_bits)
  with n show ?thesis by simp
qed

lemma applyConflict_none:
  assumes "firstErr (applyConflict io d key ip) (jPeers j) = None" and "map_of (jPeers j) k = Some q"
  shows "cpPhase q = Active" and "controlFindPeer d (cpOwner q) \<noteq> None" and "cpIP q = ip \<longrightarrow> k = key"
proof -
  from assms have ok: "applyConflict io d key ip (k, q) = None"
    by (auto simp: liftErr_firstErr dest!: map_of_SomeD)
  then show "cpPhase q = Active" and "cpIP q = ip \<longrightarrow> k = key"
    by (auto simp: applyConflict_def split: if_splits option.splits)
  from ok have "checkPeer (ioHash io) d k q = None"
    by (auto simp: applyConflict_def split: if_splits option.splits)
  then show "controlFindPeer d (cpOwner q) \<noteq> None"
    by (auto simp: checkPeer_def Let_def split: if_splits)
qed

lemma applyPlan_wal:
  assumes wal: "wal io files log path" and inv: "jInv io path (view files log s)"
    and target: "key \<noteq> 0" "key \<noteq> jPublic (ctlJournal s)" "controlHost ip" "devPublic d = jPublic (ctlJournal s)"
    and clean: "firstErr (applyConflict io d key ip) (jPeers (ctlJournal s)) = None"
  shows "wpE (applyPlan io d key ip psk)
     (\<lambda>r s'. jInv io path (view files log s') \<and> map_of (jPeers (ctlJournal s')) key = Some r \<and>
        cpIP r = ip \<and> cpPSKHash r = ioHash io psk \<and>
        (cpPhase r = Active \<or> cpPhase r = Planning \<and> synced io (view files log s')))
     (\<lambda>_ s'. jInv io path (view files log s')) s"
proof (cases "map_of (jPeers (ctlJournal s)) key")
  case (Some r)
  with inv applyConflict_none[OF clean Some] show ?thesis by (simp add: applyPlan_def wp)
next
  case None
  let ?j = "ctlJournal s"
  let ?m = "map_of (jPeers ?j)"
  let ?r = "\<lambda>owner pfx. \<lparr>cpIP = ip, cpOwner = owner, cpPrefix = pfx, cpPSKHash = ioHash io psk,
     cpPhase = Planning, cpNextHash = None\<rparr>"
  have put: "jInv io path (view files log
      (s\<lparr>ctlJournal := ?j\<lparr>jPeers := AList.update key (?r owner pfx) (jPeers ?j)\<rparr>\<rparr>))"
    if own: "controlOwner d ip 0 = Inr (owner, pfx)" "owner \<noteq> 0" "owner \<noteq> key" "owner \<noteq> devPublic d" "?m owner = None"
      and new: "controlFindPeer d key = None" for owner pfx
  proof (rule jInv_put[OF inv])
    have "recordOK (jPublic ?j) key (?r owner pfx)"
      using own controlOwner_record[OF own(1,2)] target wal by (simp add: recordOK_def wal_def)
    moreover have "cpIP q \<noteq> ip \<and> cpOwner q \<noteq> key" if "?m k = Some q" for k q
      using applyConflict_none[OF clean that] that new None by auto
    ultimately show "peersOK (jPublic ?j) (?m(key \<mapsto> ?r owner pfx))"
      using inv own(5) by (intro peersOK_insert) (auto simp: jInv_def view_def journalOK_def)
  qed simp
  show ?thesis
    unfolding applyPlan_def
    by (auto simp: wp None Let_def inv AList.update_conv' intro!: save_wal[OF wal] put split: sum.split)
qed

lemma applyAdding_wal:
  assumes wal: "wal io files log path" and inv: "jInv io path (view files log s)"
    and r: "map_of (jPeers (ctlJournal s)) key = Some r"
    and phase: "cpPhase r = Active \<or> cpPhase r = Planning \<and> synced io (view files log s)"
  shows "wpE (applyAdding io key r)
     (\<lambda>r' s'. jInv io path (view files log s') \<and> map_of (jPeers (ctlJournal s')) key = Some r' \<and>
        identity r' = identity r \<and> cpPSKHash r' = cpPSKHash r \<and>
        (cpPhase r' = Active \<or> cpPhase r' = Adding \<and> synced io (view files log s')))
     (\<lambda>_ s'. jInv io path (view files log s')) s"
proof (cases "cpPhase r = Planning")
  case False
  with phase inv r show ?thesis by (auto simp: applyAdding_def wp)
next
  case True
  let ?u = "\<lambda>s r. s\<lparr>ctlJournal := (ctlJournal s)\<lparr>jPeers := AList.update key r (jPeers (ctlJournal s))\<rparr>\<rparr>"
  let ?a = "r\<lparr>cpPhase := Adding\<rparr>"
  have "recordOK (jPublic (ctlJournal s)) key r" by (rule jInv_record[OF inv r])
  then have ok: "recordOK (jPublic (ctlJournal s)) key r" "recordOK (jPublic (ctlJournal s)) key ?a"
    using True by (auto simp: recordOK_def)
  have add: "jInv io path (view files log (?u s ?a))"
    by (rule jInv_replace[OF inv r ok(2)]) (use phase True in \<open>auto simp: identity_def\<close>)
  have undo: "jInv io path (view files log (s\<lparr>ctlWorld := w, ctlJournal := (ctlJournal s)\<lparr>jPeers := AList.update key r (jPeers (ctlJournal s))\<rparr>\<rparr>))"
    if "jInv io path (view files log ((?u s ?a)\<lparr>ctlWorld := w\<rparr>))" for w
    using jInv_replace[OF that, of key ?a r] ok True by (simp add: identity_def AList.update_conv')
  show ?thesis
    unfolding applyAdding_def using True undo
    by (auto simp: wp identity_def AList.update_conv' intro!: save_wal[OF wal] add split: sum.split)
qed

lemma applyConfig_announced:
  assumes inv: "jInv io path (view files log s)" and r: "map_of (jPeers (ctlJournal s)) key = Some r"
    and "cpIP r = ip" and hash: "cpPSKHash r = ioHash io psk"
    and phase: "cpPhase r = Active \<or> cpPhase r = Adding \<and> synced io (view files log s)"
  shows "announced io ([applyConfig key ip psk endpoint r], files (ctlWorld s) path)"
  using phase
proof
  assume a: "cpPhase r = Active"
  with inv r obtain j q where "onDisk io (files (ctlWorld s) path) j" and q: "map_of (jPeers j) key = Some q"
    by (fastforce simp: jInv_def view_def anchored_def)
  moreover have "permitted io j (applyConfig key ip psk endpoint r)"
    using a q by (auto simp: permitted_def applyConfig_def peerUpdate_def)
  ultimately show ?thesis by (auto simp: announced_def)
next
  assume a: "cpPhase r = Adding \<and> synced io (view files log s)"
  moreover have "permitted io (ctlJournal s) (applyConfig key ip psk endpoint r)"
    using a r assms(3) hash by (auto simp: permitted_def applyConfig_def peerUpdate_def)
  ultimately show ?thesis using jInv_path[OF inv] by (auto intro: announced_sync[where log = log])
qed

lemma applyInstall_wal:
  assumes wal: "wal io files log path" and inv: "jInv io path (view files log s)"
    and r: "map_of (jPeers (ctlJournal s)) key = Some r"
    and "cpIP r = ip" and "cpPSKHash r = ioHash io psk"
    and phase: "cpPhase r = Active \<or> cpPhase r = Adding \<and> synced io (view files log s)"
  shows "stays io files log path (applyInstall io key ip psk endpoint r) s"
proof -
  have "recordOK (jPublic (ctlJournal s)) key r" by (rule jInv_record[OF inv r])
  then have ok: "recordOK (jPublic (ctlJournal s)) key (r\<lparr>cpPhase := Active\<rparr>)" and live: "live (cpPhase r)"
    using phase by (auto simp: recordOK_def)
  have put: "jInv io path (view files log
      (s2\<lparr>ctlJournal := (ctlJournal s2)\<lparr>jPeers := AList.update key (r\<lparr>cpPhase := Active\<rparr>) (jPeers (ctlJournal s2))\<rparr>\<rparr>))"
    if "jInv io path (view files log s1)" "ctlJournal s1 = ctlJournal s" "view files log s2 = view files log s1" for s1 s2
    using jInv_replace[of io path files log s2 key r "r\<lparr>cpPhase := Active\<rparr>"] that view_frame[OF that(3)] r ok live
    by (simp add: identity_def)
  show ?thesis
    unfolding applyInstall_def wpE_thenE wpE_setPeer
    by (rule configure_wal[OF wal inv applyConfig_announced[OF inv r assms(4,5) phase]])
      (auto intro!: wpE_view[OF checkedDevice_keeps_view[OF wal]] save_wal[OF wal] put)
qed

definition prepared :: "'w controlIO \<Rightarrow> ('w \<Rightarrow> string \<Rightarrow> bytes option) \<Rightarrow> ('w \<Rightarrow> wlog) \<Rightarrow> string \<Rightarrow>
    wgkey \<Rightarrow> addr \<Rightarrow> wgkey \<Rightarrow> cphase \<Rightarrow> controlPeer \<Rightarrow> 'w controller \<Rightarrow> bool" where
  "prepared io files log path key ip psk phase r s \<longleftrightarrow>
     jInv io path (view files log s) \<and> map_of (jPeers (ctlJournal s)) key = Some r \<and> cpIP r = ip \<and>
     cpPSKHash r = ioHash io psk \<and> (cpPhase r = Active \<or> cpPhase r = phase \<and> synced io (view files log s))"

lemma prepared_view:
  "view files log s' = view files log s \<Longrightarrow> prepared io files log path key ip psk phase r s \<Longrightarrow>
    prepared io files log path key ip psk phase r s'"
  using view_frame[of files log s' s] by (simp add: prepared_def)

lemma applyCommit_wal:
  assumes "wal io files log path" and "prepared io files log path key ip psk Adding r s"
  shows "stays io files log path (applyCommit io key ip psk endpoint r) s"
proof -
  have "stays io files log path (applyInstall io key ip psk endpoint r) s"
    using assms(2) unfolding prepared_def by (elim conjE) (rule applyInstall_wal[OF assms(1)])
  then show ?thesis
    unfolding applyCommit_def wpE_bindE wpE_tryE
    by (rule wpE_mono) (auto simp: wp intro!: wpE_mono[OF restore_wal[OF assms(1)]])
qed

lemma applyRest_wal:
  assumes "wal io files log path" and "prepared io files log path key ip psk Planning r s"
  shows "stays io files log path (thenE (applyRecheck io key r)
      (bindE (applyAdding io key r) (applyCommit io key ip psk endpoint))) s"
  unfolding wpE_thenE wpE_bindE
proof (rule wpE_view[OF applyRecheck_keeps_view[OF assms(1)]])
  fix s' assume "view files log s' = view files log s"
  with assms(2) have p: "prepared io files log path key ip psk Planning r s'" by (rule prepared_view[rotated])
  have "wpE (applyAdding io key r) (prepared io files log path key ip psk Adding)
      (\<lambda>_ s'. jInv io path (view files log s')) s'"
    by (rule wpE_mono[OF applyAdding_wal[OF assms(1)]]) (use p in \<open>auto simp: prepared_def identity_def\<close>)
  then show "wpE (applyAdding io key r) (\<lambda>r'. stays io files log path (applyCommit io key ip psk endpoint r'))
      (\<lambda>_ s'. jInv io path (view files log s')) s'"
    by (rule wpE_mono) (auto intro: applyCommit_wal[OF assms(1)])
qed (use assms(2) in \<open>simp add: prepared_def\<close>)

lemma Apply_wal:
  assumes wal: "wal io files log path" and inv: "jInv io path (view files log s)"
  shows "stays io files log path (Apply io key ip psk endpoint) s"
proof -
  have plan: "stays io files log path (bindE (applyPlan io d key ip psk) (\<lambda>r. thenE (applyRecheck io key r)
      (bindE (applyAdding io key r) (applyCommit io key ip psk endpoint)))) s1"
    if view: "view files log s1 = view files log s" and d: "devPublic d = jPublic (ctlJournal s)"
      and target: "\<not> invalidTarget (jPublic (ctlJournal s)) key ip endpoint"
      and clean: "firstErr (applyConflict io d key ip) (jPeers (ctlJournal s)) = None" for d s1
  proof -
    have "ctlJournal s1 = ctlJournal s" using view_frame[OF view] by simp
    then have "wpE (applyPlan io d key ip psk) (prepared io files log path key ip psk Planning)
        (\<lambda>_ s'. jInv io path (view files log s')) s1"
      using target inv d clean view
      by (intro wpE_mono[OF applyPlan_wal[OF wal]]) (auto simp: invalidTarget_def prepared_def)
    then show ?thesis
      unfolding wpE_bindE[of "applyPlan _ _ _ _ _"] by (rule wpE_mono) (auto intro: applyRest_wal[OF wal])
  qed
  have "wpE (device io) (\<lambda>d s1. view files log s1 = view files log s \<and> devPublic d = jPublic (ctlJournal s))
      (\<lambda>_ s1. view files log s1 = view files log s) s"
  proof -
    have "wpE (device io) (\<lambda>d _. devPublic d = jPublic (ctlJournal s)) (\<lambda>_ _. True) s"
      unfolding device_def wp wpE_inWorld by (auto simp: wpE_def split: prod.split sum.split)
    from wpE_conj[OF this wpE_view[OF device_keeps_view[OF wal],
        where Q = "\<lambda>_ s1. view files log s1 = view files log s" and E = "\<lambda>_ s1. view files log s1 = view files log s"]]
    show ?thesis by (auto elim: wpE_mono)
  qed
  then show ?thesis
    unfolding Apply_def wpE_bindE[of "getsE _"] wpE_getsE wpE_thenE[of "failIf _ _"] wpE_failIf wpE_bindE[of "device _"]
    by (auto simp: inv wpE_thenE[of "liftErr _"] wpE_liftErr split: option.split intro!: plan elim!: wpE_mono)
qed

text \<open>A rekey goes through three records of one identity: the old, the pending and the renewed one.\<close>

definition holds :: "'w controlIO \<Rightarrow> ('w \<Rightarrow> string \<Rightarrow> bytes option) \<Rightarrow> ('w \<Rightarrow> wlog) \<Rightarrow> string \<Rightarrow>
    wgkey \<Rightarrow> controlPeer \<Rightarrow> 'w controller \<Rightarrow> bool" where
  "holds io files log path key q s \<longleftrightarrow>
     jInv io path (view files log s) \<and> map_of (jPeers (ctlJournal s)) key = Some q"

lemma holds_put:
  assumes "holds io files log path key q0 s" and "identity q = identity q0" and "live (cpPhase q0)"
    and "\<And>public. recordOK public key q0 \<Longrightarrow> recordOK public key q"
  shows "holds io files log path key q
    (s\<lparr>ctlJournal := (ctlJournal s)\<lparr>jPeers := AList.update key q (jPeers (ctlJournal s))\<rparr>\<rparr>)"
  using jInv_replace[of io path files log s key q0 q] jInv_record[of io path files log s key q0] assms
  by (auto simp: holds_def AList.update_conv')

lemma holds_view: "view files log s' = view files log s \<Longrightarrow> holds io files log path key q s \<Longrightarrow> holds io files log path key q s'"
  using view_frame[of files log s' s] by (simp add: holds_def)

lemma holds_save:
  assumes "wal io files log path" and "holds io files log path key q s"
  shows "wpE (save io) (\<lambda>_ s'. holds io files log path key q s' \<and> synced io (view files log s'))
    (\<lambda>_. holds io files log path key q) s"
  by (rule save_wal[OF assms(1)]) (use assms(2) in \<open>auto simp: holds_def\<close>)

lemma holds_rekeyCheck:
  assumes "wal io files log path" and "holds io files log path key q s"
  shows "wpE (rekeyCheck io key r)
    (\<lambda>_ s'. holds io files log path key q s' \<and> view files log s' = view files log s)
    (\<lambda>_. holds io files log path key q) s"
  by (rule wpE_view[OF rekeyCheck_keeps_view[OF assms(1)]]) (auto intro: holds_view assms(2))

lemma holds_setPSK:
  assumes "wal io files log path" and "holds io files log path key q s" and "synced io (view files log s)"
    and "cpNextHash q = Some (ioHash io psk)"
  shows "wpE (configure io ((peerUpdate key)\<lparr>pcUpdateOnly := True, pcPSK := Some psk\<rparr>))
    (\<lambda>_. holds io files log path key q) (\<lambda>_. holds io files log path key q) s"
proof -
  have "permitted io (ctlJournal s) ((peerUpdate key)\<lparr>pcUpdateOnly := True, pcPSK := Some psk\<rparr>)"
    using assms(2,4) by (auto simp: holds_def permitted_def peerUpdate_def)
  then show ?thesis
    using assms(2,3) unfolding holds_def
    by (intro configure_wal[OF assms(1)] announced_sync[where log = log]) (auto dest: jInv_path)
qed

lemma Rekey_wal:
  assumes wal: "wal io files log path" and inv: "jInv io path (view files log s)"
  shows "stays io files log path (Rekey io key oldPSK newPSK) s"
proof (cases "\<exists>r. map_of (jPeers (ctlJournal s)) key = Some r \<and> cpPhase r = Active")
  case False
  with inv show ?thesis by (auto simp: Rekey_def wp split: option.split)
next
  case True
  then obtain r where r: "map_of (jPeers (ctlJournal s)) key = Some r" and active: "cpPhase r = Active" by blast
  let ?H = "holds io files log path key"
  let ?p = "r\<lparr>cpPhase := Rekeying, cpNextHash := Some (ioHash io newPSK)\<rparr>"
  let ?n = "r\<lparr>cpPSKHash := ioHash io newPSK\<rparr>"
  let ?u = "\<lambda>s r. s\<lparr>ctlJournal := (ctlJournal s)\<lparr>jPeers := AList.update key r (jPeers (ctlJournal s))\<rparr>\<rparr>"
  have nz: "ioHash io k \<noteq> 0" for k using wal by (simp add: wal_def)
  have H: "?H r s" using inv r by (simp add: holds_def)
  have old: "cpNextHash r = None" "cpPSKHash r \<noteq> 0"
    using jInv_record[OF inv r] active by (auto simp: recordOK_def)
  have put: "?H r s1 \<Longrightarrow> ?H ?p (?u s1 ?p)" "?H ?p s1 \<Longrightarrow> ?H ?n (?u s1 ?n)" "?H ?n s1 \<Longrightarrow> ?H ?p (?u s1 ?p)" for s1
    using active nz old by (auto intro!: holds_put simp: identity_def recordOK_def split: option.splits)
  have J: "?H q s1 \<Longrightarrow> jInv io path (view files log s1)" for q s1 by (simp add: holds_def)
  have finish: "stays io files log path (bindE (tryE (save io))
      (case_sum (\<lambda>e. thenE (setPeer key ?p) (throwE e)) returnE)) s1" if "?H ?n s1" for s1
    unfolding wpE_bindE wpE_tryE
    by (rule wpE_mono[OF holds_save[OF wal that]]) (auto simp: wp dest: J put(3))
  show ?thesis
    unfolding Rekey_def wpE_bindE[of "getPeer _"] wpE_getPeer r option.case wpE_thenE wpE_failIf wpE_Let wpE_setPeer
    using inv
    by (auto simp: active intro!: wpE_mono[OF holds_rekeyCheck[OF wal]] wpE_mono[OF holds_save[OF wal]]
        wpE_mono[OF holds_setPSK[OF wal]] finish put H dest: J)
qed

section \<open>Runs of the controller\<close>

text \<open>
  The exported methods, interleaved with changes of the world by other programs
  (\<open>env\<close>).  Every method may fail at any point; the step is taken either way.
\<close>

inductive ctl_step :: "'w controlIO \<Rightarrow> ('w \<Rightarrow> 'w \<Rightarrow> bool) \<Rightarrow> 'w controller \<Rightarrow> 'w controller \<Rightarrow> bool"
  for io env where
  step_apply: "ctl_step io env s (snd (Apply io key ip psk endpoint s))"
| step_rekey: "ctl_step io env s (snd (Rekey io key oldPSK newPSK s))"
| step_restore: "ctl_step io env s (snd (Restore io key s))"
| step_restoreAll: "ctl_step io env s (snd (RestoreAll io s))"
| step_handshake: "ctl_step io env s (snd (Handshake io key s))"
| step_check: "ctl_step io env s (snd (Check io s))"
| step_env: "env (ctlWorld s) w \<Longrightarrow> ctl_step io env s (s\<lparr>ctlWorld := w\<rparr>)"

inductive ctl_run :: "'w controlIO \<Rightarrow> ('w \<Rightarrow> 'w \<Rightarrow> bool) \<Rightarrow> 'w controller \<Rightarrow> 'w controller \<Rightarrow> bool"
  for io env where
  run_done: "ctl_run io env s s"
| run_step: "ctl_run io env s s' \<Longrightarrow> ctl_step io env s' s'' \<Longrightarrow> ctl_run io env s s''"

lemma wpE_snd: "wpE m (\<lambda>_. I) (\<lambda>_. I) s \<longleftrightarrow> I (snd (m s))"
  by (auto simp: wpE_def split: prod.split sum.split)

lemma Handshake_keeps_view: "wal io files log path \<Longrightarrow> keeps (view files log) (Handshake io key)"
  unfolding Handshake_def getPeer_def by (intro keep) (auto intro!: keep split: option.split)

lemma Check_keeps_view: "wal io files log path \<Longrightarrow> keeps (view files log) (Check io)"
  unfolding Check_def checkDevice_def by (intro keep)

lemma ctl_step_wal:
  assumes "ctl_step io env s s'" and wal: "wal io files log path"
    and env: "\<And>w w'. env w w' \<Longrightarrow> files w' path = files w path \<and> log w' = log w"
    and "jInv io path (view files log s)"
  shows "jInv io path (view files log s')"
  using assms(1,4)
proof cases
  case step_handshake
  with Handshake_keeps_view[OF wal] assms(4) show ?thesis by (simp add: keeps_def)
next
  case step_check
  with Check_keeps_view[OF wal] assms(4) show ?thesis by (simp add: keeps_def)
next
  case (step_env w)
  with env[of "ctlWorld s" w] assms(4) jInv_path[OF assms(4)] show ?thesis by (simp add: view_def)
qed (use Apply_wal[OF wal] Rekey_wal[OF wal] restore_wal[OF wal] RestoreAll_wal[OF wal] in
    \<open>simp_all add: wpE_snd Restore_def\<close>)

lemma ctl_run_wal:
  assumes "ctl_run io env s s'" and "wal io files log path"
    and "\<And>w w'. env w w' \<Longrightarrow> files w' path = files w path \<and> log w' = log w"
    and "jInv io path (view files log s)"
  shows "jInv io path (view files log s')"
  using assms(1,4)
proof induction
  case (run_done s)
  then show ?case .
next
  case (run_step s s' s'')
  show ?case by (rule ctl_step_wal[OF run_step(2) assms(2,3) run_step.IH[OF run_step.prems]])
qed

lemma traced_par [simp]:
  "ioMarshal (traced io files path) = ioMarshal io" "ioHash (traced io files path) = ioHash io"
  "onDisk (traced io files path) = onDisk io" "permitted (traced io files path) = permitted io"
  by (simp_all add: traced_def onDisk_def permitted_def fun_eq_iff)

lemma traced_run_wal:
  assumes "durable io files path" and "\<And>k. ioHash io k \<noteq> 0"
    and "\<And>w w'. env w w' \<Longrightarrow> files w' path = files w path"
    and "ctlPath s = path" and "snd (ctlWorld s) = []"
    and "journalOK (ctlJournal s)" and "ioMarshal io (ctlJournal s) = Inr data" and "files (fst (ctlWorld s)) path = Some data"
    and "ctl_run (traced io files path) (\<lambda>w w'. env (fst w) (fst w') \<and> snd w' = snd w) s s'"
  shows "jInv (traced io files path) path (view (files \<circ> fst) snd s')"
proof -
  have "wal (traced io files path) (files \<circ> fst) snd path"
    using traced_durable[OF assms(1)] assms(2) by (simp add: wal_def traced_logged)
  moreover have "jInv (traced io files path) path (view (files \<circ> fst) snd s)"
    using assms(4-8) by (auto simp: jInv_def view_def anchored_def onDisk_def)
  ultimately show ?thesis
    using assms(3) by (intro ctl_run_wal[OF assms(9)]) auto
qed

text \<open>
  C21: Write-ahead journal.  Take a controller with a well-formed, saved journal and run any
  sequence of its methods, each of which may fail at any kernel or file operation, interleaved
  with arbitrary changes of the device by other programs.  Then at the moment of every change
  sent to the kernel, the journal file already held a well-formed journal that permits the
  change: the peer is recorded (or is the recorded owner getting back the recorded address),
  no address but the recorded one is granted, and a new preshared key has its fingerprint in
  the record.
\<close>

theorem kernel_writes_announced:
  assumes "durable io files path" and "\<And>k. ioHash io k \<noteq> 0"
    and "\<And>w w'. env w w' \<Longrightarrow> files w' path = files w path"
    and "ctlPath s = path" and "snd (ctlWorld s) = []"
    and "journalOK (ctlJournal s)" and "ioMarshal io (ctlJournal s) = Inr data" and "files (fst (ctlWorld s)) path = Some data"
    and "ctl_run (traced io files path) (\<lambda>w w'. env (fst w) (fst w') \<and> snd w' = snd w) s s'"
  shows "\<forall>(changes, content) \<in> set (snd (ctlWorld s')). \<exists>j. journalOK j \<and>
      (\<exists>data. ioMarshal io j = Inr data \<and> content = Some data) \<and> (\<forall>pc \<in> set changes. permitted io j pc)"
  using traced_run_wal[OF assms] unfolding jInv_def view_def announced_def
  by (fastforce simp: onDisk_def)

text \<open>
  C22: The journal stays well formed.  Along every such run the journal in memory and the journal
  file remain well formed (no two peers share an address, no managed peer is another one's
  owner, every phase is known, fingerprints are nonzero), so the start-up validation will
  accept what is on disk, whenever the process stops; and while the kernel may hold a direct
  peer, its address, owner and prefix are on disk.
\<close>

theorem journal_stays_wellformed:
  assumes "durable io files path" and "\<And>k. ioHash io k \<noteq> 0"
    and "\<And>w w'. env w w' \<Longrightarrow> files w' path = files w path"
    and "ctlPath s = path" and "snd (ctlWorld s) = []"
    and "journalOK (ctlJournal s)" and "ioMarshal io (ctlJournal s) = Inr data" and "files (fst (ctlWorld s)) path = Some data"
    and "ctl_run (traced io files path) (\<lambda>w w'. env (fst w) (fst w') \<and> snd w' = snd w) s s'"
  shows "journalOK (ctlJournal s') \<and>
    (files (fst (ctlWorld s')) path = None \<or> (\<exists>j. onDisk io (files (fst (ctlWorld s')) path) j)) \<and>
    (\<forall>k r. map_of (jPeers (ctlJournal s')) k = Some r \<longrightarrow> cpPhase r \<in> {Adding, Active, Rekeying} \<longrightarrow>
      (\<exists>j q. onDisk io (files (fst (ctlWorld s')) path) j \<and> map_of (jPeers j) k = Some q \<and>
         cpIP q = cpIP r \<and> cpOwner q = cpOwner r \<and> cpPrefix q = cpPrefix r))"
proof -
  note inv = traced_run_wal[OF assms]
  have "live p \<longleftrightarrow> p \<in> {Adding, Active, Rekeying}" for p by (cases p) auto
  with inv jInv_path[OF inv] show ?thesis
    by (simp add: jInv_def view_def anchored_def identity_def)
qed

end
