(* ===== verification/DaemonSafety.thy ===== *)
theory DaemonSafety
  imports Daemon Calls ControlWal
begin

text \<open>
  The composition of the event loop, the controller and the sockets: the contract
  of the loop is interpreted on the controller itself and on its read-only
  stand-in, with every call of the host left arbitrary.
\<close>

section \<open>What calls of the host preserve\<close>

definition preserves :: "('s \<Rightarrow> bool) \<Rightarrow> ('s \<Rightarrow> 'a \<times> 's) \<Rightarrow> bool" where
  "preserves I m \<longleftrightarrow> (\<forall>s. I s \<longrightarrow> I (snd (m s)))"

definition envKeeps :: "('s \<Rightarrow> bool) \<Rightarrow> ('k, 'h, 'r, 's) meshEnv \<Rightarrow> bool" where
  "envKeeps I env \<longleftrightarrow> preserves I (enNow env) \<and> preserves I (enText env) \<and> (\<forall>n. preserves I (enPskFile env n)) \<and>
     (\<forall>n q. preserves I (enRosenpass env n q)) \<and> (\<forall>ns. preserves I (enPathOrder env ns)) \<and> (\<forall>ks. preserves I (enPeerOrder env ks))"

definition hostKeeps :: "('s \<Rightarrow> bool) \<Rightarrow> ('k, 'h, 'r, 's) host \<Rightarrow> bool" where
  "hostKeeps I h \<longleftrightarrow> envKeeps I (hsEnv h) \<and> preserves I (hsClient h) \<and> (\<forall>s. I s \<longrightarrow> I (hsCloseClient h s)) \<and>
     (\<forall>p. preserves I (hsStat h p)) \<and> (\<forall>p. preserves I (hsOpenConfig h p)) \<and> (\<forall>n. preserves I (hsInterface h n)) \<and>
     preserves I (hsInterfaces h) \<and> (\<forall>n. preserves I (hsInterfaceIndex h n)) \<and> (\<forall>a b. preserves I (hsRouteGet h a b)) \<and>
     (\<forall>v p. preserves I (hsListen h v p)) \<and> (\<forall>v. preserves I (hsShut h v)) \<and> preserves I (hsWatch h) \<and>
     (\<forall>m s. I s \<longrightarrow> I (hsLeave h m s)) \<and> (\<forall>m. preserves I (hsGroupJoin h m)) \<and>
     (\<forall>v d a i t. preserves I (hsWrite h v d a i t)) \<and> (\<forall>x s. I s \<longrightarrow> I (hsNotify h x s))"

named_theorems pres \<open>closure rules for what a computation preserves\<close>

lemma preserves_returnE [pres]: "preserves I (returnE a)"
  by (simp add: preserves_def returnE_def)

lemma preserves_throwE [pres]: "preserves I (throwE e)"
  by (simp add: preserves_def throwE_def)

lemma preserves_bindE [pres]: "preserves I m \<Longrightarrow> (\<And>a. preserves I (f a)) \<Longrightarrow> preserves I (bindE m f)"
  by (simp add: preserves_def bindE_def split: prod.split sum.split) (metis snd_conv)

lemma preserves_thenE [pres]: "preserves I m \<Longrightarrow> preserves I k \<Longrightarrow> preserves I (thenE m k)"
  by (simp add: thenE_def pres)

lemma preserves_tryE [pres]: "preserves I m \<Longrightarrow> preserves I (tryE m)"
  by (simp add: preserves_def tryE_def split: prod.split) (metis snd_conv)

lemma preserves_failIf [pres]: "preserves I (failIf b e)"
  by (simp add: failIf_def pres)

lemma preserves_liftSum [pres]: "preserves I (liftSum r)"
  by (cases r) (simp_all add: liftSum_def pres)

lemma preserves_liftErr [pres]: "preserves I (liftErr r)"
  by (cases r) (simp_all add: liftErr_def pres)

lemma preservesD: "preserves I m \<Longrightarrow> I s \<Longrightarrow> m s = (r, s') \<Longrightarrow> I s'"
  by (metis preserves_def snd_conv)

lemma preserves_inFst [simp]: "preserves (\<lambda>w. I (fst w)) (inFst m) = preserves I m"
  by (auto simp: preserves_def snd_through putFst_def)

section \<open>The sockets\<close>

lemma hostKeepsD:
  assumes "hostKeeps I h"
  shows "preserves I (hsWrite h v d a i t)" "preserves I (hsShut h v)" "preserves I (hsListen h v p)" "preserves I (hsWatch h)"
    "preserves I (hsOpenConfig h f)" "I s \<Longrightarrow> I (hsNotify h x s)" "preserves I (hsStat h f)" "preserves I (hsClient h)" "I s \<Longrightarrow> I (hsCloseClient h s)"
  using assms unfolding hostKeeps_def by blast+

lemma leaveStale_inv:
  assumes "\<And>m s. I s \<Longrightarrow> I (leave m s)"
  shows "I s \<Longrightarrow> I (snd (leaveStale leave wanted js s))"
  by (induction js arbitrary: s) (auto simp: assms split: prod.split, metis snd_conv)

lemma joinMissing_inv:
  assumes "\<And>m. preserves I (join m)"
  shows "I s \<Longrightarrow> I (snd (joinMissing join ws js s))"
proof (induction ws arbitrary: js s)
  case (Cons w ws)
  obtain k ps where w: "w = (k, ps)" by (cases w)
  obtain r s' where r: "join k s = (r, s')" by (cases "join k s")
  with assms[of k] Cons.prems have "I s'" by (rule_tac preservesD)
  with Cons w r show ?case by (simp split: option.split)
qed simp

lemma refreshLinks_inv:
  assumes "hostKeeps I h" and "I s"
  shows "I (snd (snd (refreshLinks h n s)))"
proof -
  obtain r s1 where r: "(if unDone n then (Inr [], s) else hsInterfaces h s) = (r, s1)" by (cases "if unDone n then (Inr [], s) else hsInterfaces h s")
  have "I s1" using assms r by (auto simp: hostKeeps_def split: if_splits dest: preservesD)
  moreover have "\<And>m s. I s \<Longrightarrow> I (hsLeave h m s)" "\<And>m. preserves I (hsGroupJoin h m)" using assms(1) by (auto simp: hostKeeps_def)
  note leaveStale_inv[of I "hsLeave h", OF this(1)] joinMissing_inv[of I "hsGroupJoin h", OF this(2)]
  ultimately show ?thesis
    unfolding refreshLinks_def r Links_def by (auto split: prod.split sum.split) (metis snd_conv)
qed

lemma underlay_inv:
  assumes "hostKeeps I h" and "I (fst w)"
  shows "I (fst (snd (underlaySend h data addr link w)))" and "I (fst (snd (underlayLinks h w)))"
proof -
  show "I (fst (snd (underlaySend h data addr link w)))"
    using assms(2) by (auto simp: underlaySend_def Send_def split: sum.split prod.split option.split intro: preservesD[OF hostKeepsD(1)[OF assms(1)]])
  show "I (fst (snd (underlayLinks h w)))"
    using refreshLinks_inv[OF assms, of "snd w"] by (auto simp: underlayLinks_def split: prod.split)
qed

lemma closeNetwork_inv:
  assumes "hostKeeps I h" and "I s"
  shows "I (snd (snd (closeNetwork (hsShut h) n s)))"
proof -
  have shut: "I (snd (if b then hsShut h v s else (None, s)))" if "I s" for b v s
    using hostKeepsD(2)[OF assms(1)] that by (simp add: preserves_def)
  from shut[OF assms(2), of "unV4 n" True] shut show ?thesis
    using assms(2) unfolding closeNetwork_def Let_def by (simp add: case_prod_unfold)
qed

lemma checkLinkRoutes_inv: "(\<And>a b. preserves I (query a b)) \<Longrightarrow> preserves I (checkLinkRoutes query index source ps)"
  by (induction ps) (auto intro!: pres)

lemma readTunnel_inv: "hostKeeps I h \<Longrightarrow> preserves I (readTunnel h name address)"
  unfolding readTunnel_def by (intro pres) (simp add: hostKeeps_def)

lemma checkRoutes_inv: "hostKeeps I h \<Longrightarrow> preserves I (checkRoutes h name source ps)"
  unfolding checkRoutes_def by (intro pres checkLinkRoutes_inv) (simp_all add: hostKeeps_def)

lemma checkRuntime_inv: "hostKeeps I h \<Longrightarrow> preserves I dev \<Longrightarrow> preserves I (checkRuntime h name c tunnel port dev)"
  unfolding checkRuntime_def by (intro pres checkLinkRoutes_inv readTunnel_inv) (simp_all add: hostKeeps_def)

lemma openNetwork_inv:
  assumes "hostKeeps I h" and "I s"
  shows "I (snd (openNetwork (hsListen h) (hsShut h) (hsWatch h) (refreshLinks h) port incl excl gs name s))"
proof -
  have fam: "I (snd (snd (snd (openFamily (hsListen h) v (n, p, e, s)))))" if "I s" for v n p e s
    using that by (auto simp: openFamily_def split: prod.split sum.split intro: preservesD[OF hostKeepsD(3)[OF assms(1)]])
  obtain n1 p1 e1 s1 where f1: "openFamily (hsListen h) True (initialNetwork incl excl gs name, port, None, s) = (n1, p1, e1, s1)"
    by (metis prod_cases4)
  obtain n2 p2 e2 s2 where f2: "openFamily (hsListen h) False (n1, p1, e1, s1) = (n2, p2, e2, s2)" by (metis prod_cases4)
  have s2: "I s2" using fam[OF assms(2), of True] fam[of s1 False n1 p1 e1] f1 f2 by (metis snd_conv)
  obtain e3 s3 where w: "hsWatch h s2 = (e3, s3)" by (cases "hsWatch h s2")
  have s3: "I s3" by (rule preservesD[OF hostKeepsD(4)[OF assms(1)] s2 w])
  obtain r n4 s4 where l: "refreshLinks h n2 s3 = (r, n4, s4)" by (metis prod_cases3)
  have s4: "I s4" using refreshLinks_inv[OF assms(1) s3, of n2] l by simp
  show ?thesis
    unfolding openNetwork_def f1 f2 prod.case w l
    using assms(2) closeNetwork_inv[OF assms(1) s2] closeNetwork_inv[OF assms(1) s3] closeNetwork_inv[OF assms(1) s4] s4
    by (simp split: option.split sum.split)
qed

section \<open>The event loop on a controller\<close>

text \<open>
  A controller for the loop: \<open>W M\<close> says that exactly the peers \<open>M\<close> are managed, \<open>F\<close>
  is what remains after an error.  The host may do anything else.
\<close>

locale host_control =
  fixes h :: "('k, 'h, 'r, 's) host" and rc :: "'s routeControl" and dry :: bool and W :: "wgkey set \<Rightarrow> 's \<Rightarrow> bool" and F :: "'s \<Rightarrow> bool"
  assumes host_W: "hostKeeps (W M) h" and host_F: "hostKeeps F h"
    and rc_apply: "\<not> dry \<Longrightarrow> W M s \<Longrightarrow> rcApply rc k ip psk ep s = (Inr u, s') \<Longrightarrow> W (insert k M) s'"
    and rc_apply_fails: "\<not> dry \<Longrightarrow> W M s \<Longrightarrow> rcApply rc k ip psk ep s = (Inl e, s') \<Longrightarrow> F s'"
    and rc_restore: "\<not> dry \<Longrightarrow> W M s \<Longrightarrow> rcRestore rc k s = (Inr u, s') \<Longrightarrow> W (M - {k}) s'"
    and rc_restore_fails: "\<not> dry \<Longrightarrow> W M s \<Longrightarrow> rcRestore rc k s = (Inl e, s') \<Longrightarrow> F s'"
    and rc_rekey: "\<not> dry \<Longrightarrow> rcRekey rc = Some control \<Longrightarrow> preserves (W M) (fst control k old new)"
    and rc_handshake: "rcRekey rc = Some control \<Longrightarrow> preserves (W M) (snd control k)"
    and rc_check: "preserves (W M) (rcCheck rc)" and rc_device: "preserves (W M) (rcDevice rc)"
    and rc_failing: "W M s \<Longrightarrow> F s"

lemma inFst_result: "inFst m w = (r, w') \<Longrightarrow> m (fst w) = (r, fst w') \<and> snd w' = snd w"
  by (auto simp: putFst_def dest!: through_result)

sublocale host_control \<subseteq> loop: route_control "daemonMesh h name c rc pk port tunnel dry" "\<lambda>M w. W M (fst w)" "\<lambda>w. F (fst w)"
  for name c pk port tunnel
proof (unfold_locales, goal_cases)
  case (1 k ip psk ep M w u w')
  then show ?case using rc_apply by (simp add: daemonMesh_def Let_def) (metis inFst_result)
next
  case (2 k ip psk ep M w e w')
  then show ?case using rc_apply_fails by (simp add: daemonMesh_def Let_def) (metis inFst_result)
next
  case (3 M w k u w')
  then show ?case using rc_restore by (simp add: daemonMesh_def Let_def) (metis inFst_result)
next
  case (4 M w k e w')
  then show ?case using rc_restore_fails by (simp add: daemonMesh_def Let_def) (metis inFst_result)
next
  case (5 control new M w k old)
  then show ?case using rc_rekey by (auto simp: daemonMesh_def Let_def snd_through putFst_def preserves_def)
next
  case (6 control M w k)
  then show ?case using rc_handshake by (auto simp: daemonMesh_def Let_def snd_through putFst_def preserves_def)
next
  case (7 M w)
  then show ?case using rc_check[of M] by (simp add: daemonMesh_def Let_def snd_through putFst_def preserves_def)
next
  case (8 m M w)
  then show ?case using checkRuntime_inv[OF host_W rc_device] by (auto simp: daemonMesh_def Let_def snd_through putFst_def preserves_def)
next
  case (9 m M w)
  then show ?case using checkRuntime_inv[OF host_W rc_device] by (auto simp: daemonMesh_def Let_def snd_through putFst_def preserves_def)
next
  case (10 f M w)
  then show ?case using hostKeepsD(6)[OF host_W] by (auto simp: daemonMesh_def Let_def)
next
  case (13 M w data ap l)
  then show ?case using underlay_inv(1)[OF host_W] by (simp add: daemonMesh_def Let_def)
next
  case (14 M w)
  then show ?case using underlay_inv(2)[OF host_W] by (simp add: daemonMesh_def Let_def)
next
  case (19 M w)
  then show ?case by (rule rc_failing)
next
  case (20 w)
  then show ?case using host_F by (simp add: daemonMesh_def mapEnv_def Let_def hostKeeps_def envKeeps_def snd_through putFst_def preserves_def)
next
  case (21 w data ap l)
  then show ?case using underlay_inv(1)[OF host_F] by (simp add: daemonMesh_def Let_def)
qed (use host_W in \<open>simp_all add: daemonMesh_def mapEnv_def Let_def hostKeeps_def envKeeps_def snd_through putFst_def preserves_def\<close>)

context host_control
begin

lemma loop_result:
  assumes "W {} s" and "meshRun (daemonMesh h name c rc pk port tunnel dry) es
      (newMesh (daemonMesh h name c rc pk port tunnel dry) random priv (s, n)) = (r, m)"
  shows "F (fst (meWorld m))" and "r = Inr () \<Longrightarrow> W (directKeys m) (fst (meWorld m))"
  using loop.mesh_run[OF _ assms(2)] assms(1) rc_failing by (auto simp: meshOK_def meshFailed_def split: sum.splits)

lemma serve_result:
  assumes "W {} s" and "preserves (W {}) dev"
  shows "F (snd (serve h dev name file rc pk port dry es random s))"
proof -
  have mesh: "F (snd (serveMesh (daemonMesh h name c rc pk port tunnel dry) h es random pk n s))" if "W {} s" for c tunnel n s
  proof -
    obtain r m where run: "meshRun (daemonMesh h name c rc pk port tunnel dry) es
        (newMesh (daemonMesh h name c rc pk port tunnel dry) random pk (hsNotify h ''READY=1'' s, n)) = (r, m)"
      by (meson surj_pair)
    have "F (fst (meWorld m))" by (rule loop_result(1)[OF hostKeepsD(6)[OF host_W that] run])
    then show ?thesis
      unfolding serveMesh_def run prod.case snd_conv by (intro closeNetwork_inv[OF host_F] hostKeepsD(6)[OF host_F])
  qed
  have last: "F (snd (case openNetwork (hsListen h) (hsShut h) (hsWatch h) (refreshLinks h) p incl excl gs name t of
        (Inl e, s') \<Rightarrow> (Inl (case e of None \<Rightarrow> goPanic | Some e \<Rightarrow> e), s')
      | (Inr n, s') \<Rightarrow> serveMesh (daemonMesh h name c rc pk port tunnel dry) h es random pk n s'))"
    if "W {} t" for p incl excl gs t c tunnel
    using openNetwork_inv[OF host_W that, of p incl excl gs name] mesh rc_failing by (auto split: prod.split sum.split)
  have step: "F (snd (bindE m f s))" if "preserves (W {}) m" "W {} s" "\<And>a s. W {} s \<Longrightarrow> F (snd (f a s))"
    for m :: "('s, 'a) eff" and f :: "'a \<Rightarrow> ('s, unit) eff" and s
    using that rc_failing by (auto simp: bindE_def preserves_def split: prod.split sum.split)
  show ?thesis
    unfolding serve_def thenE_def
    by (intro step last assms pres hostKeepsD(5)[OF host_W] readTunnel_inv[OF host_W] checkRoutes_inv[OF host_W])
qed

end

end
