(* ===== verification/DaemonRuns.thy ===== *)
theory DaemonRuns
  imports DaemonSafety
begin

text \<open>
  Whole runs of the program.  The contract \<open>host_control\<close> is interpreted on the
  controller and on its read-only stand-in; from the interpretations follow which
  peers the controller manages while the loop runs, that every change of the kernel
  is announced in the journal, what is left when the service ends, and that a dry run
  sends nothing to the kernel.
\<close>

section \<open>The peers a controller manages\<close>

definition managed :: "'w controller \<Rightarrow> wgkey set" where
  "managed s = fst ` set (jPeers (ctlJournal s))"

lemma managed_world [simp]: "managed (putWorld w s) = managed s"
  by (simp add: managed_def)

lemma managed_lookup: "map_of (jPeers (ctlJournal s)) key = None \<longleftrightarrow> key \<notin> managed s"
  by (simp add: managed_def map_of_eq_None_iff)

definition others :: "wgkey \<Rightarrow> 'w controller \<Rightarrow> wgkey set" where
  "others key s = managed s - {key}"

lemma keeps_journal_io [keep]: "keeps managed (inWorld m)" "keeps (others key) (inWorld m)"
  by (simp_all add: keeps_def inWorld_def others_def managed_def split: prod.split)

lemma keeps_io [keep]:
  "keeps managed (device io)" "keeps managed (configure io pc)" "keeps managed (save io)"
  "keeps (others key) (device io)" "keeps (others key) (configure io pc)" "keeps (others key) (save io)"
  unfolding device_def configure_def save_def by (intro keep)+

lemma keeps_checked [keep]: "keeps managed (checkedDevice io k r)" "keeps (others key) (checkedDevice io k r)"
  unfolding checkedDevice_def by (intro keep)+

lemma others_peers [keep]: "keeps (others key) (setPeer key r)" "keeps (others key) (dropPeer key)" "keeps (others key) (getPeer key)"
  by (auto simp: keeps_def setPeer_def dropPeer_def getPeer_def modifyE_def getsE_def others_def managed_def dom_update
      AList.delete_eq image_iff)

lemma others_restore [keep]: "keeps (others key) (restore io key)"
  unfolding restore_def restoreIntent_def restoreMove_def restoreRemove_def restoreFinish_def
  by (intro keep) (auto intro!: keep split: option.split sum.split prod.split if_split)

lemma others_Apply: "keeps (others key) (Apply io key ip psk endpoint)"
  unfolding Apply_def applyPlan_def applyRecheck_def applyAdding_def applyCommit_def applyInstall_def Let_def
  by (intro keep) (auto intro!: keep split: option.split sum.split prod.split if_split)

lemma wpE_last: "(\<And>a s. wpE (f a) Q (\<lambda>_ _. True) s) \<Longrightarrow> wpE (bindE m f) Q (\<lambda>_ _. True) s"
  unfolding wpE_bindE by (rule wpE_mono[OF wpE_True]) auto

lemma wpE_thenLast: "(\<And>s. wpE n Q (\<lambda>_ _. True) s) \<Longrightarrow> wpE (thenE m n) Q (\<lambda>_ _. True) s"
  unfolding thenE_def by (rule wpE_last)

lemma keeps_wp: "keeps f m \<Longrightarrow> wpE m (\<lambda>_ s'. f s' = f s) (\<lambda>_ s'. f s' = f s) s"
  by (simp add: keeps_def wpE_def split: prod.split sum.split) (metis snd_conv)

lemma save_managed: "wpE (save io) (\<lambda>_ s'. managed s' = managed s) (\<lambda>_ s'. managed s' = managed s) s"
  by (rule keeps_wp) (rule keep)

lemma setPeer_managed: "wpE (setPeer key r) (\<lambda>_ s'. managed s' = insert key (managed s)) E s"
  by (auto simp: setPeer_def wp managed_def dom_update)

lemma restore_unmanaged: "wpE (restore io key) (\<lambda>_ s'. key \<notin> managed s') (\<lambda>_ _. True) s"
proof -
  have drop: "wpE (thenE (dropPeer key) (bindE (tryE (save io)) (\<lambda>res. case res of
      Inr _ \<Rightarrow> returnE () | Inl e \<Rightarrow> thenE (setPeer key r) (throwE e)))) (\<lambda>_ s'. key \<notin> managed s') (\<lambda>_ _. True) s" for r s
    unfolding dropPeer_def wp
    by (rule wpE_mono[OF save_managed]) (auto simp: wp managed_def AList.delete_eq)
  have finish: "wpE (restoreFinish io key r) (\<lambda>_ s'. key \<notin> managed s') (\<lambda>_ _. True) s" for r s
    unfolding restoreFinish_def by (rule wpE_last, rule wpE_thenLast, rule drop)
  have "wpE (bindE (restoreIntent io key r0) (\<lambda>r. thenE (restoreMove io key r) (thenE (restoreRemove io key r) (restoreFinish io key r))))
      (\<lambda>_ s'. key \<notin> managed s') (\<lambda>_ _. True) s" for r0
    by (rule wpE_last, rule wpE_thenLast, rule wpE_thenLast, rule finish)
  then show ?thesis
    unfolding restore_def getPeer_def wpE_bindE[of "getsE _"] wpE_getsE
    by (auto simp: wpE_returnE managed_lookup split: option.split)
qed

lemma Apply_managed: "wpE (Apply io key ip psk endpoint) (\<lambda>_ s'. key \<in> managed s') (\<lambda>_ _. True) s"
proof -
  have set: "wpE (thenE (setPeer key r) (save io)) (\<lambda>_ s'. key \<in> managed s') (\<lambda>_ _. True) s" for r s
    unfolding wpE_thenE by (rule wpE_mono[OF setPeer_managed]) (rule wpE_mono[OF save_managed], auto)
  have install: "wpE (applyInstall io key ip psk endpoint r) (\<lambda>_ s'. key \<in> managed s') (\<lambda>_ _. True) s" for r s
    unfolding applyInstall_def by (rule wpE_thenLast, rule wpE_thenLast, rule set)
  have commit: "wpE (applyCommit io key ip psk endpoint r) (\<lambda>_ s'. key \<in> managed s') (\<lambda>_ _. True) s" for r s
    unfolding applyCommit_def wpE_bindE[of "tryE _"] wpE_tryE by (rule wpE_mono[OF install]) (auto simp: wpE_returnE wpE_throwE split: sum.split intro!: wpE_last)
  show ?thesis
    unfolding Apply_def by (rule wpE_last wpE_thenLast commit)+
qed

lemma managed_split: "others key s' = others key s \<Longrightarrow> managed s' = (if key \<in> managed s' then insert key (managed s - {key}) else managed s - {key})"
  unfolding others_def by auto

lemma Apply_manages: "Apply io key ip psk endpoint s = (Inr u, s') \<Longrightarrow> managed s' = insert key (managed s)"
  using wpE_InrD[OF Apply_managed, of io key ip psk endpoint s u s'] managed_split[of key s' s] others_Apply[of key io ip psk endpoint]
  by (auto simp: keeps_def dest: spec[of _ s])

lemma Restore_unmanages: "Restore io key s = (Inr u, s') \<Longrightarrow> managed s' = managed s - {key}"
  using wpE_InrD[OF restore_unmanaged, of io key s u s'] managed_split[of key s' s] others_restore[of key io]
  by (auto simp: Restore_def keeps_def dest: spec[of _ s])

lemma preserves_keeps: "keeps f m \<Longrightarrow> preserves (\<lambda>s. f s = v) m"
  by (simp add: keeps_def preserves_def)

lemma preserves_setPeer: "key \<in> M \<Longrightarrow> preserves (\<lambda>s. managed s = M) (setPeer key r)"
  by (auto simp: preserves_def setPeer_def modifyE_def managed_def dom_update)

lemma Rekey_manages: "preserves (\<lambda>s. managed s = M) (Rekey io key old new)"
proof (cases "key \<in> M")
  case True
  note io = preserves_keeps[of managed]
  have check: "keeps managed (rekeyCheck io key r)" for r unfolding rekeyCheck_def by (intro keep)
  have get: "preserves (\<lambda>s. managed s = M) (getPeer key)" unfolding getPeer_def by (intro io keep)
  show ?thesis
    unfolding Rekey_def
    by (rule preserves_bindE[OF get]) (auto simp: Let_def split: option.split sum.split intro!: pres io[OF check] io[OF keeps_io(2)] io[OF keeps_io(3)] preserves_setPeer[OF True])
next
  case False
  then show ?thesis
    by (auto simp: preserves_def Rekey_def getPeer_def bindE_def getsE_def throwE_def managed_lookup[THEN iffD2])
qed

lemma checks_manage [keep]: "keeps managed (Handshake io key)" "keeps managed (Check io)" "keeps managed (checkDevice io)"
proof -
  show check: "keeps managed (checkDevice io)" unfolding checkDevice_def by (intro keep)
  then show "keeps managed (Check io)" unfolding Check_def by (intro keep)
  show "keeps managed (Handshake io key)"
    unfolding Handshake_def getPeer_def by (rule keeps_bindE) (auto intro!: keep split: option.split)
qed

section \<open>What the host can do\<close>

text \<open>\<open>w'\<close> is reached from \<open>w\<close> by calls of the host: it satisfies every invariant of those calls that \<open>w\<close> satisfies.\<close>

definition hostReach :: "('k, 'h, 'r, 'w) host \<Rightarrow> 'w \<Rightarrow> 'w \<Rightarrow> bool" where
  "hostReach h w w' \<longleftrightarrow> (\<forall>I. hostKeeps I h \<longrightarrow> I w \<longrightarrow> I w')"

lemma hostReachI: "(\<And>I. hostKeeps I h \<Longrightarrow> I w \<Longrightarrow> I w') \<Longrightarrow> hostReach h w w'"
  unfolding hostReach_def by blast

lemma hostKeeps_mapHost:
  assumes step: "\<And>s w. I s \<Longrightarrow> hostReach h (get s) w \<Longrightarrow> I (put w s)"
  shows "hostKeeps I (mapHost get put h)"
proof -
  have call: "preserves I (through get put m)" if "\<And>J. hostKeeps J h \<Longrightarrow> preserves J m" for m :: "'b \<Rightarrow> 'z \<times> 'b"
    unfolding preserves_def snd_through
    by (intro allI impI step hostReachI) (use that in \<open>auto simp: preserves_def\<close>)
  have env: "\<And>J. hostKeeps J h \<Longrightarrow> envKeeps J (hsEnv h)" by (simp add: hostKeeps_def)
  show ?thesis
    unfolding hostKeeps_def envKeeps_def mapHost_def mapEnv_def host.simps meshEnv.simps
    by (intro conjI allI impI call; (assumption | rule step | rule hostReachI | erule hostKeepsD(1) | simp add: hostKeeps_def envKeeps_def)+)
qed

lemma hostReachD: "hostReach h w w' \<Longrightarrow> hostKeeps I h \<Longrightarrow> I w \<Longrightarrow> I w'"
  unfolding hostReach_def by (elim allE impE)

section \<open>The loop on the controller\<close>

text \<open>
  What the methods of the controller make of it, between calls of the host and the
  reads of the device that the program makes itself.
\<close>

definition outside :: "('k, 'h, 'r, 'w) host \<Rightarrow> 'w controlIO \<Rightarrow> 'w \<Rightarrow> 'w \<Rightarrow> bool" where
  "outside h io w w' \<longleftrightarrow> hostReach h w w' \<or> (\<exists>name. w' = snd (ioDevice io name w))"

abbreviation serviceRun :: "('k, 'h, 'r, 'w) host \<Rightarrow> 'w controlIO \<Rightarrow> 'w controller \<Rightarrow> 'w controller \<Rightarrow> bool" where
  "serviceRun h io \<equiv> ctl_run io (outside h io)"

lemma serviceRun_reach: "serviceRun h io s0 s \<Longrightarrow> hostReach h (ctlWorld s) w \<Longrightarrow> serviceRun h io s0 (putWorld w s)"
  by (auto simp: outside_def intro: run_step[OF _ step_env])

lemma serviceRun_host: "hostKeeps (serviceRun h io s0) (mapHost ctlWorld putWorld h)"
  by (rule hostKeeps_mapHost) (rule serviceRun_reach)

lemma serviceRun_read: "serviceRun h io s0 s \<Longrightarrow> serviceRun h io s0 (snd (inWorld (ioDevice io name) s))"
proof -
  assume "serviceRun h io s0 s"
  moreover have "ctl_step io (outside h io) s (putWorld (snd (ioDevice io name (ctlWorld s))) s)"
    by (rule step_env) (auto simp: outside_def)
  ultimately show ?thesis unfolding inWorld_def by (auto dest: run_step split: prod.split)
qed

lemma serviceRun_call:
  assumes "serviceRun h io s0 s"
  shows "serviceRun h io s0 (snd (Apply io key ip psk endpoint s))" "serviceRun h io s0 (snd (Restore io key s))"
    "serviceRun h io s0 (snd (Rekey io key old new s))" "serviceRun h io s0 (snd (Handshake io key s))"
    "serviceRun h io s0 (snd (Check io s))" "serviceRun h io s0 (snd (RestoreAll io s))"
  by (rule run_step[OF assms], rule ctl_step.intros)+

lemma snd_Check: "snd (Check io s) = snd (checkDevice io s)"
  by (simp add: Check_def thenE_def bindE_def returnE_def split: prod.split sum.split)

lemma calls_managed: "managed (snd (Rekey io key old new s)) = managed s" "managed (snd (Handshake io key s)) = managed s"
  "managed (snd (checkDevice io s)) = managed s"
  by (rule Rekey_manages[unfolded preserves_def, rule_format] checks_manage[unfolded keeps_def, rule_format], (rule refl)?)+

interpretation controlled: host_control "mapHost ctlWorld putWorld h" "controllerRoutes io" False
    "\<lambda>M s. managed s = M \<and> serviceRun h io s0 s" "serviceRun h io s0" for h io s0
proof (unfold_locales, goal_cases)
  case (1 M)
  show ?case by (rule hostKeeps_mapHost) (auto intro: serviceRun_reach)
next
  case 2
  then show ?case by (rule serviceRun_host)
next
  case (3 M s k ip psk ep u s')
  then show ?case using Apply_manages[of io k ip psk ep s u s'] serviceRun_call(1)[of io h s0 s k ip psk ep] by (auto simp: controllerRoutes_def)
next
  case (4 M s k ip psk ep e s')
  then show ?case using serviceRun_call(1)[of io h s0 s k ip psk ep] by (auto simp: controllerRoutes_def)
next
  case (5 M s k u s')
  then show ?case using Restore_unmanages[of io k s u s'] serviceRun_call(2)[of io h s0 s k] by (auto simp: controllerRoutes_def)
next
  case (6 M s k e s')
  then show ?case using serviceRun_call(2)[of io h s0 s k] by (auto simp: controllerRoutes_def)
qed (auto simp: controllerRoutes_def preserves_def serviceRun_call snd_Check[symmetric] calls_managed[folded snd_Check] calls_managed)

text \<open>
  C1: The controller manages exactly the direct peers.  Take the event loop wired to the
  controller, the sockets and the host as the program wires them, start it with nothing managed,
  and let it process any sequence of events.  As long as it runs without an error, a peer has a
  record in the controller's journal exactly when its route in the loop is on trial or active.
  Nothing is assumed about the host, the kernel or the messages of other nodes.
\<close>

theorem loop_manages_direct:
  fixes h :: "('k, 'h, 'r, 'w) host"
  defines "env \<equiv> \<lambda>io name c pk port tunnel. daemonMesh (mapHost ctlWorld putWorld h) name c (controllerRoutes io) pk port tunnel False"
  assumes "managed s = {}"
    and "meshRun (env io name c pk port tunnel) es (newMesh (env io name c pk port tunnel) random pk (s, n)) = (Inr (), m)"
  shows "managed (fst (meWorld m)) = {key. \<exists>p. (key, p) \<in> set (mePeers m) \<and> rsPhase (mpRoute p) \<in> {PTrial, PActive}}"
proof -
  have "managed s = {} \<and> serviceRun h io s s" using assms(2) by (simp add: run_done)
  from controlled.loop_result(2)[OF this assms(3)[unfolded env_def]] show ?thesis
    by (simp add: directKeys_def direct_def)
qed

section \<open>The service\<close>

lemma serve_reaches:
  assumes "managed s = {}"
  shows "serviceRun h io s (snd (serve (mapHost ctlWorld putWorld h) (inWorld (ioDevice io name)) name file (controllerRoutes io) pk port False es random s))"
proof (rule controlled.serve_result)
  show "managed s = {} \<and> serviceRun h io s s" using assms by (simp add: run_done)
  show "preserves (\<lambda>t. managed t = {} \<and> serviceRun h io s t) (inWorld (ioDevice io name))"
    using keeps_journal_io(1)[of "ioDevice io name"] by (auto simp: preserves_def keeps_def serviceRun_read)
qed

lemma snd_bothE: "snd (bothE m n s) = snd (n (snd (m s)))"
  by (simp add: bothE_def bindE_def tryE_def returnE_def throwE_def split: prod.split sum.split)

lemma bothE_Inr: "fst (bothE m n s) = Inr u \<Longrightarrow> fst (n (snd (m s))) = Inr u"
  by (auto simp: bothE_def bindE_def tryE_def returnE_def throwE_def split: prod.splits sum.splits)

lemma service_reaches:
  assumes "managed s = {}"
  shows "\<exists>t. serviceRun h io s t \<and> snd (controlService h io name file restoring es random s) = snd (RestoreAll io t) \<and>
    (fst (controlService h io name file restoring es random s) = Inr () \<longrightarrow> fst (RestoreAll io t) = Inr ())"
proof -
  define m where "m = (if restoring then returnE () else bindE (getsE Identity) (\<lambda>(private_key, port).
      serve (mapHost ctlWorld putWorld h) (inWorld (ioDevice io name)) name file (controllerRoutes io) private_key port False es random))"
  have "serviceRun h io s (snd (m s))"
    using serve_reaches[OF assms] by (auto simp: m_def returnE_def bindE_def getsE_def run_done split: prod.split)
  then show ?thesis
    unfolding controlService_def m_def[symmetric] snd_bothE by (auto dest: bothE_Inr)
qed

text \<open>
  C3: The service always ends with a restore.  However the service of a fresh controller ends
  (a configuration error, a failed check, an error of the loop, a signal), its last act is
  \<open>RestoreAll\<close> on a controller that only its own methods have changed; and when the program
  reports no error, no peer is managed any more.
\<close>

theorem service_ends_restored:
  assumes "observes io dev" and "managed s = {}" and "controlService h io name file restoring es random s = (r, s')"
  shows "(\<exists>t. serviceRun h io s t \<and> s' = snd (RestoreAll io t)) \<and> (r = Inr () \<longrightarrow> managed s' = {})"
proof -
  obtain t where t: "serviceRun h io s t" "s' = snd (RestoreAll io t)" "r = Inr () \<Longrightarrow> fst (RestoreAll io t) = Inr ()"
    using service_reaches[OF assms(2)] assms(3) by (metis fst_conv snd_conv)
  with RestoreAll_empties[OF assms(1), of t] show ?thesis
    by (auto simp: wpE_def managed_def split: prod.splits sum.splits)
qed

lemma outside_traced:
  assumes "\<And>content. hostKeeps (\<lambda>w. files w path = content) h" and "durable io files path"
    and "outside (mapHost fst putFst h) (traced io files path) w w'"
  shows "(files \<circ> fst) w' path = (files \<circ> fst) w path \<and> snd w' = snd w"
  using assms(3) unfolding outside_def
proof (elim disjE exE)
  assume reach: "hostReach (mapHost fst putFst h) w w'"
  have "hostKeeps (\<lambda>v. files (fst v) path = files (fst w) path \<and> snd v = snd w) (mapHost fst putFst h)"
    by (rule hostKeeps_mapHost) (use hostReachD[OF _ assms(1)] in \<open>auto simp: putFst_def\<close>)
  from hostReachD[OF reach this] show ?thesis by simp
next
  fix name assume "w' = snd (ioDevice (traced io files path) name w)"
  then show ?thesis
    using assms(2) by (simp add: traced_def snd_through putFst_def durable_def keeps_def)
qed

text \<open>
  C2: Every kernel write of the whole service is announced.  Run the service of a fresh
  controller on any kernel and any host that leaves the journal file alone, with any events and
  with any call failing.  At the moment of every change it sends to the kernel, including those
  of the final restore, the journal file already holds a well-formed journal that permits the
  change.
\<close>

theorem service_writes_announced:
  assumes "durable io files path" and "\<And>k. ioHash io k \<noteq> 0" and "\<And>content. hostKeeps (\<lambda>w. files w path = content) h"
    and "ctlPath s = path" and "ctlWorld s = (w, [])" and "managed s = {}"
    and "journalOK (ctlJournal s)" and "ioMarshal io (ctlJournal s) = Inr data" and "files w path = Some data"
    and "snd (controlService (mapHost fst putFst h) (traced io files path) name file restoring es random s) = s'"
  shows "\<forall>(changes, content) \<in> set (snd (ctlWorld s')). \<exists>j data. journalOK j \<and> ioMarshal io j = Inr data \<and> content = Some data \<and>
    (\<forall>pc \<in> set changes. permitted io j pc)"
proof -
  let ?io = "traced io files path"
  obtain t where t: "serviceRun (mapHost fst putFst h) ?io s t" "s' = snd (RestoreAll ?io t)"
    using service_reaches[OF assms(6)] assms(10) by metis
  have wal: "wal ?io (files \<circ> fst) snd path" using traced_durable[OF assms(1)] assms(2) by (simp add: wal_def traced_logged)
  have start: "jInv ?io path (view (files \<circ> fst) snd s)"
    using assms(4-9) by (auto simp: jInv_def view_def anchored_def onDisk_def)
  have "jInv ?io path (view (files \<circ> fst) snd t)"
    by (rule ctl_run_wal[OF t(1) wal _ start]) (rule outside_traced[OF assms(3,1)])
  from RestoreAll_wal[OF wal this] have "jInv ?io path (view (files \<circ> fst) snd s')" by (simp add: t(2) wpE_snd)
  then show ?thesis unfolding jInv_def view_def announced_def by (fastforce simp: onDisk_def)
qed

section \<open>A dry run\<close>

lemma traced_snd: "snd (snd (ioDevice (traced io files path) name w)) = snd w"
  by (simp add: traced_def)

lemma mapHost_snd: "hostKeeps (\<lambda>w. snd w = sent) (mapHost fst putFst h)"
  by (rule hostKeeps_mapHost) (simp add: putFst_def)

lemma readOnly_snd: "preserves (\<lambda>w. snd w = sent) (readOnlyDevice (traced io files path) name public)"
proof -
  have "preserves (\<lambda>w. snd w = sent) (ioDevice (traced io files path) name)" by (simp add: preserves_def traced_snd)
  then show ?thesis unfolding readOnlyDevice_def by (intro preserves_bindE) (auto intro: pres)
qed

interpretation reading: host_control "mapHost fst putFst h" "readOnlyRoutes (traced io files path) name public" True
    "\<lambda>M w. snd w = sent" "\<lambda>w. snd w = sent" for h io files path name public sent
  by unfold_locales (auto simp: readOnlyRoutes_def mapHost_snd intro!: pres readOnly_snd)

text \<open>
  C4: A dry run sends nothing to the kernel.  With \<^verbatim>\<open>-dry-run\<close>, whatever the options,
  configuration, events and answers of the host are, the program makes no configuration call:
  the log of calls it sent to the kernel is as before.
\<close>

theorem dry_run_reads_only:
  fixes h :: "('k, 'h, 'r, 'w) host"
  assumes "opDry opts" and "opAdapter opts = []"
  shows "snd (snd (daemonRun (mapHost fst putFst h) (traced io files path) opts es random (w, sent))) = sent"
proof -
  have dev: "preserves (\<lambda>w. snd w = sent) (ioDevice (traced io files path) name)" for name
    by (simp add: preserves_def traced_snd)
  have serve: "preserves (\<lambda>w. snd w = sent) (serve (mapHost fst putFst h) (ioDevice (traced io files path) name) name conf
      (readOnlyRoutes (traced io files path) name public) pk port True es random)" for name conf public pk port
    unfolding preserves_def by (intro allI impI reading.serve_result dev)
  have stat: "preserves (\<lambda>w. snd w = sent) (\<lambda>w. case hsStat (mapHost fst putFst h) state w of
         (None, w') \<Rightarrow> (Inl e1, w') | (Some NotExist, w') \<Rightarrow> (Inr (), w') | (Some Exists, w') \<Rightarrow> (Inl e2, w')
       | (Some (FsError e), w') \<Rightarrow> (Inl e, w'))" for state e1 e2
    using hostKeepsD(7)[OF mapHost_snd, of sent h state]
    by (auto simp: preserves_def split: prod.split option.split fsError.split) (metis snd_conv)+
  have run: "preserves (\<lambda>w. snd w = sent) (dryRun (mapHost fst putFst h) (traced io files path) name conf state es random)" for name conf state
    unfolding dryRun_def by (intro pres stat dev serve)
  have close: "preserves (\<lambda>w. snd w = sent) (finallyE m (hsCloseClient (mapHost fst putFst h)))" if "preserves (\<lambda>w. snd w = sent) m" for m :: "('w \<times> wlog, unit) eff"
    unfolding preserves_def finallyE_def case_prod_unfold snd_conv
    by (intro allI impI hostKeepsD(9)[OF mapHost_snd]) (rule that[unfolded preserves_def, rule_format])
  have "preserves (\<lambda>w. snd w = sent) (daemonRun (mapHost fst putFst h) (traced io files path) opts es random)"
    unfolding daemonRun_def using assms hostKeepsD(8)[OF mapHost_snd] by (auto intro!: pres close run)
  then show ?thesis by (simp add: preserves_def)
qed

end
