(* ===== verification/PskProofs.thy ===== *)
theory PskProofs
  imports Coordinate
begin

text \<open>
  What the checks of \<^verbatim>\<open>psk.go\<close> and the retired tokens of \<^verbatim>\<open>mesh.go\<close> establish: which
  key files are read, what a proof of possession is bound to, and how long a
  token that was given up stays unusable.
\<close>

section \<open>Key files\<close>

lemma mask_bit: "(m :: 32 word) AND b = 0 \<Longrightarrow> bit b i \<Longrightarrow> \<not> bit m i"
  by (metis bit_0_eq bit_and_iff bot_apply bot_bool_def)

lemma perm_bits:
  assumes "permBits m AND NOT 0x1a0 = 0"
  shows "\<not> bit m 0" "\<not> bit m 1" "\<not> bit m 2" "\<not> bit m 3" "\<not> bit m 4" "\<not> bit m 6"
proof -
  have "m AND (0x1ff AND NOT 0x1a0) = 0" using assms by (simp add: permBits_def and.assoc)
  then have "m AND 0x5f = 0" by simp
  from mask_bit[OF this]
  show "\<not> bit m 0" "\<not> bit m 1" "\<not> bit m 2" "\<not> bit m 3" "\<not> bit m 4" "\<not> bit m 6"
    by (simp_all add: bit_numeral_rec)
qed

text \<open>
  C39: A key is taken from a file only if the path led to the opened file, the file had the same
  size, mode, modification time and owner before and after it was read, all its bytes were read,
  and in that state it is a regular
  file no one but its owner can write and others cannot access at all (no write or execute bit
  for the group, no bit for others, no set-uid, set-gid or sticky bit); it belongs to root, to
  the daemon's own user, or to another user who shares one of the daemon's groups and has made
  the file readable to it; it is not from the future and not older than allowed; and its text
  is the canonical form of a key that is not zero, followed by at most one newline.
\<close>

theorem readKeyFile_safe:
  assumes "readKeyFile env spec now f = Some key"
  shows "\<exists>before info data. pfBefore f = Some before \<and> pfInfo f = Some info \<and> pfData f = Some data \<and> pfOpens f \<and> pfSame f \<and>
    pfAfter f = Some info \<and> 44 \<le> fsSize info \<and> fsSize info \<le> 45 \<and>
    isRegularMode (fsMode before) \<and> isRegularMode (fsMode info) \<and>
    \<not> bit (fsMode info) 0 \<and> \<not> bit (fsMode info) 1 \<and> \<not> bit (fsMode info) 2 \<and> \<not> bit (fsMode info) 3 \<and> \<not> bit (fsMode info) 4 \<and>
    \<not> bit (fsMode info) 20 \<and> \<not> bit (fsMode info) 22 \<and> \<not> bit (fsMode info) 23 \<and>
    (fsUid info = 0 \<or> fsUid info = enEuid env \<or>
      bit (fsMode info) 5 \<and> (\<exists>gs. enGroups env = Some gs \<and> fsGid info \<in> insert (enEgid env) (set gs))) \<and>
    fsModTime info \<le> now \<and> timeSub now (fsModTime info) < (case psMaxAge spec of None \<Rightarrow> 3 * minute | Some a \<Rightarrow> a) \<and>
    int (length data) = fsSize info \<and> (data = enKeyString env key \<or> data = enKeyString env key @ [CHR 0x0a]) \<and> key \<noteq> 0"
proof -
  from assms obtain before info data after where f: "pfBefore f = Some before" "pfInfo f = Some info" "pfData f = Some data" "pfAfter f = Some after"
    by (auto simp: readKeyFile_def split: option.splits)
  with assms have same: "pfOpens f" "after = info" by (auto simp: readKeyFile_def Let_def split: if_splits option.splits)
  from f assms have r: "isRegularMode (fsMode before)" "pfSame f" "\<not> unsafeStatus env info" "fsModTime info \<le> now"
    "timeSub now (fsModTime info) < (case psMaxAge spec of None \<Rightarrow> 3 * minute | Some a \<Rightarrow> a)" "int (length data) = fsSize info"
    "enKeyString env key = trimNewline data" "key \<noteq> 0"
    by (auto simp: readKeyFile_def Let_def not_less not_le split: if_splits option.splits)
  have unsafe: "isRegularMode (fsMode info)" "permBits (fsMode info) AND NOT 0x1a0 = 0" "fsMode info AND 0x00d00000 = 0"
    and size: "44 \<le> fsSize info" "fsSize info \<le> 45"
    using r(3) by (simp_all add: unsafeStatus_def)
  have special: "\<not> bit (fsMode info) 20" "\<not> bit (fsMode info) 22" "\<not> bit (fsMode info) 23"
    using mask_bit[OF unsafe(3)] by (simp_all add: bit_numeral_rec)
  have content: "data = enKeyString env key \<or> data = enKeyString env key @ [CHR 0x0a]"
  proof (cases "data \<noteq> [] \<and> last data = CHR 0x0a")
    case True
    then have "butlast data @ [CHR 0x0a] = data" by (metis append_butlast_last_id)
    with True r(7) show ?thesis by (simp add: trimNewline_def)
  next
    case False
    with r(7) show ?thesis by (auto simp: trimNewline_def)
  qed
  have owner: "fsUid info = 0 \<or> fsUid info = enEuid env \<or>
      bit (fsMode info) 5 \<and> (\<exists>gs. enGroups env = Some gs \<and> fsGid info \<in> insert (enEgid env) (set gs))"
  proof (cases "fsUid info = 0 \<or> fsUid info = enEuid env")
    case False
    with r(3) obtain gs where gs: "enGroups env = Some gs" "permBits (fsMode info) AND 0x20 \<noteq> 0" "fsGid info \<in> insert (enEgid env) (set gs)"
      by (auto simp: unsafeStatus_def split: option.splits)
    have "fsMode info AND push_bit 5 1 \<noteq> 0" using gs(2) by (simp add: permBits_def and.assoc)
    then have "bit (fsMode info) 5" by (metis and_exp_eq_0_iff_not_bit push_bit_of_1)
    with gs show ?thesis by blast
  qed blast
  show ?thesis
    using f same r unsafe size perm_bits[OF unsafe(2)] special content owner by auto
qed

section \<open>Proofs of possession\<close>

lemma ascii_inj [simp]: "ascii s = ascii t \<longleftrightarrow> s = t"
proof -
  have "inj (\<lambda>c. of_nat (of_char c) :: byte)"
  proof (rule injI)
    fix c d assume "(of_nat (of_char c) :: byte) = of_nat (of_char d)"
    then have "(of_char c :: nat) = of_char d" by (simp add: word_of_nat_eq_iff take_bit_eq_mod)
    then show "c = d" by simp
  qed
  then show ?thesis by (simp add: ascii_def inj_map_eq_map)
qed

lemma ascii_nul: "0 \<notin> set (ascii s) \<longleftrightarrow> CHR 0x00 \<notin> set s"
proof -
  have "ascii [c] = ascii [CHR 0x00] \<longleftrightarrow> c = CHR 0x00" for c by simp
  then have zero: "of_nat (of_char c) = (0 :: byte) \<longleftrightarrow> c = CHR 0x00" for c by (simp add: ascii_def)
  have "0 \<in> set (ascii s) \<longleftrightarrow> (\<exists>c \<in> set s. of_nat (of_char c) = (0 :: byte))" by (auto simp: ascii_def image_iff)
  then show ?thesis by (simp add: zero)
qed

lemma nul_split:
  assumes "u @ [0] @ v = u' @ [0] @ v'" and "(0 :: byte) \<notin> set u" and "0 \<notin> set u'"
  shows "u = u' \<and> v = v'"
proof -
  have "takeWhile ((\<noteq>) 0) (u @ [0] @ v) = u" "takeWhile ((\<noteq>) 0) (u' @ [0] @ v') = u'"
    using assms(2,3) by (auto simp: takeWhile_append)
  with assms(1) have "u = u'" by argo
  with assms(1) show ?thesis by simp
qed

lemma hexDigit_inj: "m < 16 \<Longrightarrow> n < 16 \<Longrightarrow> hexDigit m = hexDigit n \<Longrightarrow> m = n"
proof -
  have "distinct ''0123456789abcdef''" by simp
  moreover assume "m < 16" "n < 16" "hexDigit m = hexDigit n"
  ultimately show ?thesis using nth_eq_iff_index_eq[of "''0123456789abcdef''" m n] by (simp add: hexDigit_def)
qed

lemma hexText_inj: "hexText a = hexText b \<Longrightarrow> a = b"
proof (induction a arbitrary: b)
  case Nil
  then show ?case by (cases b) (simp_all add: hexText_def)
next
  case (Cons x xs)
  then obtain y ys where b: "b = y # ys" by (cases b) (auto simp: hexText_def)
  have less: "unat z < 256" for z :: byte using unsigned_less[of z] by simp
  from Cons.prems b have "hexDigit (unat x div 16) = hexDigit (unat y div 16)" "hexDigit (unat x mod 16) = hexDigit (unat y mod 16)"
    and tl: "hexText xs = hexText ys" by (simp_all add: hexText_def)
  then have "unat x div 16 = unat y div 16" "unat x mod 16 = unat y mod 16"
    using less[of x] less[of y] by (auto intro: hexDigit_inj)
  then have "x = y" by (metis div_mult_mod_eq word_unat_eq_iff)
  with Cons.IH[OF tl] b show ?case by simp
qed

text \<open>The authenticated text of a proof, and that its parts can be read back from it.\<close>

definition proofText :: "string \<Rightarrow> string \<Rightarrow> wgkey \<Rightarrow> wgkey \<Rightarrow> bytes" where
  "proofText op token sender receiver = ascii ''wireguard-mesh PSK confirmation v1'' @ [0] @ ascii op @ [0] @ ascii token @ [0] @
     be_bytes 32 sender @ be_bytes 32 receiver"

lemma proofText_inj:
  assumes "proofText op token a b = proofText op' token' a' b'" and "CHR 0x00 \<notin> set op" and "CHR 0x00 \<notin> set op'"
  shows "op = op' \<and> token = token' \<and> a = a' \<and> b = b'"
proof -
  have "ascii op @ [0] @ (ascii token @ [0] @ be_bytes 32 a @ be_bytes 32 b) = ascii op' @ [0] @ (ascii token' @ [0] @ be_bytes 32 a' @ be_bytes 32 b')"
    using assms(1) by (simp add: proofText_def)
  from nul_split[OF this] assms(2,3) have "op = op'" and
    rest: "ascii token @ [0] @ be_bytes 32 a @ be_bytes 32 b = ascii token' @ [0] @ be_bytes 32 a' @ be_bytes 32 b'"
    by (simp_all add: ascii_nul)
  moreover have "token = token'" "be_bytes 32 a = be_bytes 32 a'" "be_bytes 32 b = be_bytes 32 b'"
    using rest append_eq_append_conv[of "[0] @ be_bytes 32 a @ be_bytes 32 b" "[0] @ be_bytes 32 a' @ be_bytes 32 b'" "ascii token" "ascii token'"]
    by (simp_all add: append_eq_append_conv)
  ultimately show ?thesis by (simp add: be_bytes_inject)
qed

text \<open>
  C37: A proof of possession is bound to its key, its operation, its token and both peers in
  their roles: when the proof made for one key, operation, token and direction is accepted for
  another, the two authenticated texts differ under their keys and yet have the same HMAC-SHA256,
  so that these two inputs are a collision.  Operations are without NUL characters, as
  all the names the code uses are.
\<close>

theorem pskProof_binds:
  assumes "checkPSKProof env key' msg sender' receiver'" and "mgProof msg = pskProof env key op token sender receiver"
    and "key \<noteq> 0" and "key' \<noteq> 0" and "CHR 0x00 \<notin> set op" and "CHR 0x00 \<notin> set (mgOp msg)"
  shows "key' = key \<and> mgOp msg = op \<and> mgToken msg = token \<and> sender' = sender \<and> receiver' = receiver \<or>
    (key, proofText op token sender receiver) \<noteq> (key', proofText (mgOp msg) (mgToken msg) sender' receiver') \<and>
    enHmac env (be_bytes 32 key) (proofText op token sender receiver) = enHmac env (be_bytes 32 key') (proofText (mgOp msg) (mgToken msg) sender' receiver')"
proof -
  let ?m = "proofText op token sender receiver" and ?m' = "proofText (mgOp msg) (mgToken msg) sender' receiver'"
  have "hexText (enHmac env (be_bytes 32 key) ?m) = hexText (enHmac env (be_bytes 32 key') ?m')"
    using assms(1-4) by (simp add: checkPSKProof_def pskProof_def proofText_def)
  then have "enHmac env (be_bytes 32 key) ?m = enHmac env (be_bytes 32 key') ?m'" by (rule hexText_inj)
  moreover have "key' = key \<and> mgOp msg = op \<and> mgToken msg = token \<and> sender' = sender \<and> receiver' = receiver"
    if "(be_bytes 32 key, ?m) = (be_bytes 32 key', ?m')"
    using that proofText_inj[of op token sender receiver] assms(5,6) by (auto simp: be_bytes_inject)
  ultimately show ?thesis by blast
qed

section \<open>Retired tokens\<close>

text \<open>A token is refused until \<open>u\<close>: it is recorded that long, or every proposal is refused that long.\<close>

definition refused :: "string \<Rightarrow> time \<Rightarrow> meshPeer \<Rightarrow> bool" where
  "refused token u p \<longleftrightarrow> (\<exists>v \<ge> u. map_of (mpRetired p) token = Some v) \<or> u \<le> mpRetiredUntil p"

lemma map_of_filter_snd: "map_of al k = Some v \<Longrightarrow> P v \<Longrightarrow> map_of (filter (\<lambda>(_, v). P v) al) k = Some v"
  by (induction al) (auto split: if_splits)

lemma refused_retired:
  assumes "refused token u p" and "now < u" and "u \<le> now + retiredTokenLifetime"
  shows "refused token u (retired token' now p)"
proof (cases "u \<le> mpRetiredUntil p")
  case True
  with assms(3) show ?thesis by (auto simp: refused_def retired_def Let_def)
next
  case False
  then obtain v where v: "u \<le> v" "map_of (mpRetired p) token = Some v" using assms(1) by (auto simp: refused_def)
  then have "map_of (filter (\<lambda>(_, v). now < v) (mpRetired p)) token = Some v"
    using assms(2) by (auto intro!: map_of_filter_snd)
  with v assms(3) show ?thesis
    by (auto simp: refused_def retired_def Let_def update_conv')
qed

lemma refused_new: "token \<noteq> [] \<Longrightarrow> refused token (t + retiredTokenLifetime) (retired token t p)"
  by (auto simp: refused_def retired_def Let_def update_conv')

lemma refused_later:
  assumes "refused token u p" and "list_all (\<lambda>(_, now). now < u \<and> u \<le> now + retiredTokenLifetime) later"
  shows "refused token u (fold (\<lambda>(token', now). retired token' now) later p)"
  using assms by (induction later arbitrary: p) (auto intro!: refused_retired)

lemmas run_coordinate = coordinate_def clock_def drawE_def worldE_def bindE_def getsE_def returnE_def modPeer_def modifyE_def case_prod_unfold

text \<open>
  C38: A token that was given up cannot open a round for as long as a message with it may still
  arrive: after a token was retired, and however many tokens are retired after it within its
  lifetime, a proposal with that token is ignored (nothing is sent, nothing of the peer changes
  but the end of a general refusal) until the lifetime of the token is over.
\<close>

theorem retired_token_refused:
  assumes "token \<noteq> []" and "cxPeer s = fold (\<lambda>(token', now). retired token' now) later (retired token t p)"
    and "list_all (\<lambda>(_, now). t \<le> now \<and> now < t + retiredTokenLifetime) later"
    and "mgOp msg = ''prepare''" and "mgToken msg = token" and "now < t + retiredTokenLifetime"
  shows "\<exists>u. coordinate env c msg now s = (Inr (), s\<lparr>cxWorld := snd (enNow env (cxWorld s)), cxPeer := (cxPeer s)\<lparr>mpRetiredUntil := u\<rparr>\<rparr>)"
proof -
  have "refused token (t + retiredTokenLifetime) (cxPeer s)"
    unfolding assms(2) by (rule refused_later[OF refused_new[OF assms(1)]]) (use assms(3) in \<open>auto simp: list_all_iff\<close>)
  then have "now < mpRetiredUntil (cxPeer s) \<or> retiredToken (cxPeer s) token now"
    using assms(6) by (auto simp: refused_def retiredToken_def)
  then consider "now < mpRetiredUntil (cxPeer s)" | "\<not> now < mpRetiredUntil (cxPeer s)" "retiredToken (cxPeer s) token now" by blast
  then show ?thesis
  proof cases
    case 1
    with assms(4,5) show ?thesis
      by (cases "enDry env"; intro exI[of _ "if enDry env then mpRetiredUntil (cxPeer s) else now + retiredTokenLifetime"]) (simp_all add: run_coordinate)
  next
    case 2
    with assms(4,5) show ?thesis by (intro exI[of _ "mpRetiredUntil (cxPeer s)"]) (simp add: run_coordinate)
  qed
qed

end
