(* ===== verification/SecureWire.thy ===== *)
theory SecureWire
  imports SecureRuns
begin

text \<open>
  The outer envelope and the rate limits: every packet on the wire has one size,
  a packet that is let through was opened with the key of the peer it names, an
  envelope opened by its addressee gives back the inner packet, and a limiter
  grants at most twice its limit in any second.
\<close>

section \<open>Size\<close>

definition aeadLength :: "('k, 'h, 'r) crypto \<Rightarrow> bool" where
  "aeadLength cr \<longleftrightarrow> (\<forall>k n p ad. length (crSeal cr k n p ad) = length p + 16)"

definition fullReads :: "('k, 'h, 'r) crypto \<Rightarrow> bool" where
  "fullReads cr \<longleftrightarrow> (\<forall>n r x r'. crRead cr n r = (Inr x, r') \<longrightarrow> length x = n)"

lemmas secure_sizes = secureHeaderN_def secureMaxSize_def secureNonceN_def secureOverhead_def secureInnerMaxSize_def

lemma length_padded: "length inner \<le> secureInnerMaxSize \<Longrightarrow> length (padded inner) = 472"
  by (simp add: padded_def secure_sizes)

lemma readRandom_length: "fullReads cr \<Longrightarrow> wpE (readRandom cr n) (\<lambda>x _. length x = n) (\<lambda>_ _. True) s"
  by (auto simp: readRandom_def wpE_def fullReads_def split: prod.split sum.split)

lemma wrap_length:
  assumes "aeadLength cr" and "fullReads cr"
  shows "wpE (wrap cr peer inner) (\<lambda>data _. length data = secureMaxSize) (\<lambda>_ _. True) s"
  unfolding wrap_def
  by (auto simp: wp length_padded assms(1)[unfolded aeadLength_def] intro!: wpE_mono[OF readRandom_length[OF assms(2)]]
      split: option.split) (simp_all add: secure_sizes)

text \<open>
  Every packet has the same size.  Handshake requests, replies and data packets all leave
  as exactly 512 bytes, whatever they carry.
\<close>

theorem packets_512:
  assumes "aeadLength cr" and "fullReads cr"
  shows "(Start cr peer now s = (Inr (i, packet), s') \<longrightarrow> length packet = 512) \<and>
    (Seal cr j body now s = (Inr packet, s') \<longrightarrow> length packet = 512) \<and>
    (Receive cr data now s = (Inr ev, s') \<longrightarrow> evReply ev = [] \<or> length (evReply ev) = 512)"
proof (intro conjI impI)
  have size: "secureMaxSize = 512" by (simp add: secure_sizes)
  note w = wpE_mono[OF wrap_length[OF assms]]
  have start: "wpE (Start cr peer now) (\<lambda>(_, p) _. length p = 512) (\<lambda>_ _. True) s"
    unfolding Start_def wp by (rule wpE_mono[OF start_wp]) (auto simp: wp size intro!: w)
  show "length packet = 512" if "Start cr peer now s = (Inr (i, packet), s')"
    using wpE_InrD[OF start that] by simp
  have seal: "wpE (Seal cr j body now) (\<lambda>p _. length p = 512) (\<lambda>_ _. True) s"
    unfolding Seal_def wp by (rule wpE_mono[OF seal_wp]) (auto simp: wp size intro!: w)
  show "length packet = 512" if "Seal cr j body now s = (Inr packet, s')"
    using wpE_InrD[OF seal that] .
  have reply: "wpE (Receive cr data now) (\<lambda>ev _. evReply ev = [] \<or> length (evReply ev) = 512) (\<lambda>_ _. True) s"
    unfolding Receive_def wp
    by (rule wpE_mono[OF unwrap_frame], rule wpE_mono[OF receive_event]) (auto simp: wp size intro!: w)
  show "evReply ev = [] \<or> length (evReply ev) = 512" if "Receive cr data now s = (Inr ev, s')"
    using wpE_InrD[OF reply that] .
qed

section \<open>Authenticity\<close>

lemma checkPlain_sender:
  assumes "checkPlain public peer plain = Some inner"
  shows "pkSender (parseHeader inner) = peer"
  using assms by (auto simp: checkPlain_def parseHeader_def Let_def split: if_splits)

lemma unwrapFrom_opened:
  "wpE (unwrapFrom cr data now es) (\<lambda>inner s'. secPublic s' = secPublic s \<and> (\<exists>peer e plain. (peer, e) \<in> set es \<and>
      crOpen cr (seRx e) (take secureNonceN data) (drop secureNonceN data) secureEnvelopeDomain = Some plain \<and>
      checkPlain (secPublic s) peer plain = Some inner)) (\<lambda>_ _. True) s"
proof (induction cr data now es arbitrary: s rule: unwrapFrom.induct)
  case (1 cr data now)
  then show ?case by (simp add: wp)
next
  case (2 cr data now peer e es)
  show ?case by (fastforce simp: wp intro!: wpE_mono[OF "2"] split: option.split)
qed

text \<open>
  C33: A packet is attributed to the peer whose key opened it.  When \<open>Receive\<close> succeeds, the
  packet had the full size, the event names a peer of the envelope table, and that peer's own
  receiving key opened the envelope.
\<close>

theorem Receive_authentic:
  assumes "Receive cr data now s = (Inr ev, s')"
  shows "length data = 512 \<and> (\<exists>e plain. (evPeer ev, e) \<in> set (secEnvelopes s) \<and>
    crOpen cr (seRx e) (take 24 data) (drop 24 data) secureEnvelopeDomain = Some plain)"
proof -
  have "wpE (Receive cr data now) (\<lambda>ev _. length data = 512 \<and> (\<exists>e plain. (evPeer ev, e) \<in> set (secEnvelopes s) \<and>
    crOpen cr (seRx e) (take 24 data) (drop 24 data) secureEnvelopeDomain = Some plain)) (\<lambda>_ _. True) s"
  proof -
    have un: "wpE (unwrap cr data now) (\<lambda>inner _. length data = 512 \<and> (\<exists>e plain.
        (pkSender (parseHeader inner), e) \<in> set (secEnvelopes s) \<and>
        crOpen cr (seRx e) (take 24 data) (drop 24 data) secureEnvelopeDomain = Some plain)) (\<lambda>_ _. True) s"
      unfolding unwrap_def wp
      by (auto intro!: wpE_mono[OF unwrapFrom_opened] dest!: checkPlain_sender) (auto simp: secure_sizes)
    show ?thesis
      unfolding Receive_def wpE_bindE[of "unwrap _ _ _"] wpE_bindE[of "receive _ _ _"]
      by (rule wpE_mono[OF un], rule wpE_mono[OF receive_event]) (auto simp: wp intro!: wpE_mono[OF wrap_frame], blast)
  qed
  from wpE_InrD[OF this assms] show ?thesis .
qed

section \<open>Opening an envelope\<close>

lemma take_padded:
  assumes "length inner \<le> secureInnerMaxSize"
  shows "unat (be_word (take 2 (padded inner)) :: 16 word) = length inner"
    and "take (length inner) (drop 2 (padded inner)) = inner"
    and "drop (2 + length inner) (padded inner) = replicate (secureInnerMaxSize - length inner) 0"
proof -
  have "length inner < 2 ^ 16" using assms by (simp add: secure_sizes)
  then show "unat (be_word (take 2 (padded inner)) :: 16 word) = length inner"
    by (simp add: padded_def be_word_be_bytes take_bit_word_eq_self unat_of_nat)
qed (simp_all add: padded_def)

lemma checkPlain_padded:
  assumes "secureHeaderN \<le> length inner" and "length inner \<le> secureInnerMaxSize"
    and "take 32 (drop 2 inner) = be_bytes 32 peer" and "take 32 (drop 34 inner) = be_bytes 32 public"
  shows "checkPlain public peer (padded inner) = Some inner"
  using take_padded[OF assms(2)] assms by (simp add: checkPlain_def)

lemma unwrapFrom_opens:
  assumes "crOpen cr (seRx e) (take secureNonceN data) (drop secureNonceN data) secureEnvelopeDomain = Some plain"
    and "checkPlain (secPublic s) peer plain = Some inner" and "(peer, e) \<in> set es" and "distinct (map fst es)"
    and "\<And>q f. (q, f) \<in> set es \<Longrightarrow> q \<noteq> peer \<Longrightarrow>
      crOpen cr (seRx f) (take secureNonceN data) (drop secureNonceN data) secureEnvelopeDomain = None"
    and "0 \<le> srUsed (secOpenRate s)" and "srUsed (secOpenRate s) + int (length es) \<le> secureEnvelopeBudget"
  shows "fst (unwrapFrom cr data now es s) = Inr inner"
  using assms(2-)
proof (induction es arbitrary: s)
  case Nil
  then show ?case by simp
next
  case (Cons x es)
  obtain q f where x: "x = (q, f)" by (cases x)
  define r where "r = snd (allow (secOpenRate s) now secureEnvelopeBudget)"
  have ok: "allow (secOpenRate s) now secureEnvelopeBudget = (True, r)" and used: "0 \<le> srUsed r" "srUsed r \<le> srUsed (secOpenRate s) + 1"
    using Cons.prems(5,6) by (auto simp: r_def allow_def Let_def secureEnvelopeBudget_def)
  show ?case
  proof (cases "q = peer")
    case True
    then have "f = e" using Cons.prems(2,3) x by force
    with True Cons.prems(1) assms(1) ok show ?thesis
      by (simp add: x bindE_def thenE_def getsE_def modifyE_def returnE_def)
  next
    case False
    with Cons.prems(4)[of q f] x ok have "fst (unwrapFrom cr data now (x # es) s) = fst (unwrapFrom cr data now es (s\<lparr>secOpenRate := r\<rparr>))"
      by (simp add: bindE_def thenE_def getsE_def modifyE_def)
    also have "\<dots> = Inr inner"
      using Cons.prems False x used by (intro Cons.IH) auto
    finally show ?thesis .
  qed
qed

text \<open>
  C34: Envelope round trip.  If the sender's key for a recipient is the recipient's receiving
  key for that sender and no other receiving key of the recipient opens the sender's envelopes,
  then what the recipient unwraps is exactly the inner packet that was wrapped, for every order
  in which it tries its keys and as long as its budget lasts.
\<close>

theorem unwrap_wrap:
  assumes "\<And>k n p ad. crOpen cr k n (crSeal cr k n p ad) ad = Some p" and "aeadLength cr" and "fullReads cr"
    and "map_of (secEnvelopes a) (secPublic b) = Some ea" and "(secPublic a, eb) \<in> set (secEnvelopes b)" and "seRx eb = seTx ea"
    and "distinct (map fst (secEnvelopes b))"
    and "\<And>q f n p. (q, f) \<in> set (secEnvelopes b) \<Longrightarrow> q \<noteq> secPublic a \<Longrightarrow>
      crOpen cr (seRx f) n (crSeal cr (seTx ea) n p secureEnvelopeDomain) secureEnvelopeDomain = None"
    and "take 32 (drop 2 inner) = be_bytes 32 (secPublic a)" and "take 32 (drop 34 inner) = be_bytes 32 (secPublic b)"
    and "0 \<le> srUsed (secOpenRate b)" and "srUsed (secOpenRate b) + int (length (secEnvelopes b)) \<le> secureEnvelopeBudget"
    and "wrap cr (secPublic b) inner a = (Inr data, a')"
  shows "fst (unwrap cr data now b) = Inr inner"
proof -
  obtain nonce where nonce: "length nonce = secureNonceN"
    and len: "secureHeaderN \<le> length inner" "length inner \<le> secureInnerMaxSize"
    and data: "data = nonce @ crSeal cr (seTx ea) nonce (padded inner) secureEnvelopeDomain"
  proof -
    have "wpE (wrap cr (secPublic b) inner) (\<lambda>data _. secureHeaderN \<le> length inner \<and> length inner \<le> secureInnerMaxSize \<and>
        (\<exists>nonce. length nonce = secureNonceN \<and> data = nonce @ crSeal cr (seTx ea) nonce (padded inner) secureEnvelopeDomain))
        (\<lambda>_ _. True) a"
      unfolding wrap_def wp assms(4) option.case
      by (auto simp: wp intro!: wpE_mono[OF readRandom_length[OF assms(3)]])
    from wpE_InrD[OF this assms(13)] that show thesis by blast
  qed
  have size: "length data = secureMaxSize"
    using wpE_InrD[OF wrap_length[OF assms(2,3)] assms(13)] .
  have opened: "crOpen cr (seRx eb) (take secureNonceN data) (drop secureNonceN data) secureEnvelopeDomain = Some (padded inner)"
    using assms(1,6) nonce by (simp add: data)
  have "fst (unwrapFrom cr data now (secEnvelopes b) b) = Inr inner"
    using assms(5,7-12) nonce
    by (intro unwrapFrom_opens[OF opened checkPlain_padded[OF len]]) (auto simp: data)
  then show ?thesis
    using size by (simp add: unwrap_def thenE_def bindE_def failIf_def returnE_def getsE_def)
qed

text \<open>
  Both ends derive the same envelope keys.  If Diffie-Hellman gives both ends the same
  secret, the sending key of one is the receiving key of the other, in both directions.
\<close>

theorem newEnvelope_agree:
  assumes "crShared cr a (crPublic cr b) = crShared cr b (crPublic cr a)"
    and "newEnvelope cr a (crPublic cr a) (crPublic cr b) = Some ea"
    and "newEnvelope cr b (crPublic cr b) (crPublic cr a) = Some eb"
  shows "seTx ea = seRx eb \<and> seRx ea = seTx eb"
  using assms by (auto simp: newEnvelope_def split: if_splits option.splits)

section \<open>Rate limits\<close>

fun grants :: "secureRate \<Rightarrow> int \<Rightarrow> time list \<Rightarrow> int" where
  "grants r limit [] = 0"
| "grants r limit (t # ts) = (case allow r t limit of (ok, r') \<Rightarrow> (if ok then 1 else 0) + grants r' limit ts)"

lemma grants_one_window:
  "\<forall>t \<in> set ts. t < srUntil r \<Longrightarrow> 0 \<le> limit \<Longrightarrow> grants r limit ts \<le> max 0 (limit - srUsed r)"
proof (induction ts arbitrary: r)
  case Nil
  then show ?case by simp
next
  case (Cons t ts)
  have rest: "\<forall>t \<in> set ts. t < srUntil r" and t: "t < srUntil r" using Cons.prems(1) by auto
  show ?case
  proof (cases "limit \<le> srUsed r")
    case True
    with Cons.IH[OF rest Cons.prems(2)] t show ?thesis by (simp add: allow_def)
  next
    case False
    with Cons.IH[of "r\<lparr>srUsed := srUsed r + 1\<rparr>"] rest t Cons.prems(2) show ?thesis by (simp add: allow_def)
  qed
qed

lemma grants_bound:
  "\<forall>t \<in> set ts. a \<le> t \<and> t < a + second \<Longrightarrow> 0 \<le> limit \<Longrightarrow> grants r limit ts \<le> limit + max 0 (limit - srUsed r)"
proof (induction ts arbitrary: r)
  case Nil
  then show ?case by simp
next
  case (Cons t ts)
  show ?case
  proof (cases "t < srUntil r")
    case True
    with Cons.IH[of r] Cons.IH[of "r\<lparr>srUsed := srUsed r + 1\<rparr>"] Cons.prems show ?thesis by (auto simp: allow_def Let_def)
  next
    case False
    let ?r = "\<lparr>srUntil = t + second, srUsed = 0\<rparr>"
    have in_window: "\<forall>u \<in> set ts. u < t + second" using Cons.prems(1) by fastforce
    have "grants \<lparr>srUntil = t + second, srUsed = 1\<rparr> limit ts \<le> max 0 (limit - 1)" "grants ?r limit ts \<le> max 0 limit"
      using grants_one_window[of ts "\<lparr>srUntil = t + second, srUsed = 1\<rparr>" limit] grants_one_window[of ts ?r limit] in_window Cons.prems(2)
      by simp_all
    with False Cons.prems(2) show ?thesis by (auto simp: allow_def Let_def)
  qed
qed

text \<open>
  Rate limits.  Among any calls that fall within one second, in whatever order the clock
  gives them, a limiter grants at most twice its limit, from any state with a nonnegative
  count.
\<close>

theorem rate_limited:
  assumes "\<forall>t \<in> set ts. a \<le> t \<and> t < a + second" and "0 \<le> limit" and "0 \<le> srUsed r"
  shows "grants r limit ts \<le> 2 * limit"
  using grants_bound[OF assms(1,2), of r] assms(2,3) by simp

end
