(* ===== verification/SecureSim.thy ===== *)
theory SecureSim
  imports SecureWire
begin

text \<open>
  Concrete primitives for the control channel, with which the witnesses run it:
  keys are byte strings, sealing appends a tag cut from the key, and a Noise
  handshake state is its prologue.
\<close>

definition toyTag :: "bytes \<Rightarrow> bytes" where
  "toyTag k = take 16 (k @ replicate 16 0)"

definition toySeal :: "bytes \<Rightarrow> bytes \<Rightarrow> bytes \<Rightarrow> bytes \<Rightarrow> bytes" where
  "toySeal k n p ad = p @ toyTag k"

definition toyOpen :: "bytes \<Rightarrow> bytes \<Rightarrow> bytes \<Rightarrow> bytes \<Rightarrow> bytes option" where
  "toyOpen k n c ad = (if drop (length c - 16) c = toyTag k then Some (take (length c - 16) c) else None)"

definition toyCrypto :: "(bytes, bytes, nat) crypto" where
  "toyCrypto = \<lparr>
     crRead = \<lambda>n r. (Inr (replicate n (of_nat r)), r + 1),
     crPublic = \<lambda>k. k + 100, crPrivateOK = \<lambda>_. True,
     crShared = \<lambda>a p. Some [ucast (a + p)],
     crDerive = \<lambda>shared domain info. Some (shared @ info),
     crSeal = toySeal, crOpen = toyOpen,
     crBlock = Inr, crPermute = \<lambda>_ x. x,
     crHandshake = \<lambda>initiator private public peer prologue seed. Inr prologue,
     crWriteRequest = \<lambda>h. Inr (replicate 96 0, h),
     crReadRequest = \<lambda>h msg. Inr ([], h),
     crPeerStatic = \<lambda>h. take 32 (drop 19 h),
     crWriteReply = \<lambda>h r. (Inr (replicate 48 0, [1], [2]), r),
     crReadReply = \<lambda>h msg. Inr ([], [1], [2]),
     crEncrypt = \<lambda>k n ad p. p @ replicate 16 0,
     crDecrypt = \<lambda>k n ad c. Some (take (length c - 16) c)\<rparr>"

lemma toyCrypto_simps:
  "crRead toyCrypto n r = (Inr (replicate n (of_nat r)), r + 1)" "crSeal toyCrypto = toySeal" "crOpen toyCrypto = toyOpen"
  "crBlock toyCrypto = Inr" "crPermute toyCrypto k x = x"
  "crHandshake toyCrypto initiator priv public peer prologue seed = Inr prologue"
  "crWriteRequest toyCrypto h = Inr (replicate 96 0, h)" "crReadRequest toyCrypto h msg = Inr ([], h)"
  "crPeerStatic toyCrypto h = take 32 (drop 19 h)" "crWriteReply toyCrypto h r = (Inr (replicate 48 0, [1], [2]), r)"
  "crReadReply toyCrypto h msg = Inr ([], [1], [2])" "crEncrypt toyCrypto k c ad p = p @ replicate 16 0"
  "crDecrypt toyCrypto k c ad p = Some (take (length p - 16) p)"
  by (simp_all add: toyCrypto_def)

lemma length_toyTag [simp]: "length (toyTag k) = 16"
  by (simp add: toyTag_def)

lemma toyOpen_toySeal: "toyOpen k n (toySeal k n p ad) ad = Some p"
  by (simp add: toyOpen_def toySeal_def)

lemma toy_aead: "crOpen toyCrypto k n (crSeal toyCrypto k n p ad) ad = Some p" "aeadLength toyCrypto" "fullReads toyCrypto"
  by (auto simp: toyCrypto_def toyOpen_toySeal aeadLength_def fullReads_def) (simp add: toySeal_def)

lemma toy_inj: "inj (crPermute toyCrypto k)"
  by (simp add: toyCrypto_def)

text \<open>Two nodes with private keys 1 and 2 that know each other.\<close>

definition nodeA :: "(bytes, nat) secure" where "nodeA = newSecure toyCrypto 0 1 [102]"
definition nodeB :: "(bytes, nat) secure" where "nodeB = newSecure toyCrypto 0 2 [101]"

definition keyAB :: bytes where "keyAB = 103 # be_bytes 32 (101 :: wgkey) @ be_bytes 32 (102 :: wgkey)"
definition keyBA :: bytes where "keyBA = 103 # be_bytes 32 (102 :: wgkey) @ be_bytes 32 (101 :: wgkey)"

lemma nodeA_fields: "secEnvelopes nodeA = [(102, \<lparr>seTx = keyAB, seRx = keyBA\<rparr>)]" "secPublic nodeA = 101"
    "secPeers nodeA = [(102, zeroRate)]" "secPrivate nodeA = 1" "secSessions nodeA = []" "secOpenRate nodeA = zeroRate"
    "secGlobal nodeA = zeroRate" "secIds nodeA = None" "secSerial nodeA = 0" "secRandom nodeA = 0"
  by (simp_all add: nodeA_def newSecure_def toyCrypto_def Let_def addEnvelope_def newEnvelope_def deriveKey_def keyAB_def keyBA_def)

lemma nodeB_fields: "secEnvelopes nodeB = [(101, \<lparr>seTx = keyBA, seRx = keyAB\<rparr>)]" "secPublic nodeB = 102"
    "secPeers nodeB = [(101, zeroRate)]" "secPrivate nodeB = 2" "secSessions nodeB = []" "secOpenRate nodeB = zeroRate"
    "secGlobal nodeB = zeroRate" "secIds nodeB = None" "secSerial nodeB = 0" "secRandom nodeB = 0"
  by (simp_all add: nodeB_def newSecure_def toyCrypto_def Let_def addEnvelope_def newEnvelope_def deriveKey_def keyAB_def keyBA_def)

lemmas run_secure = returnE_def throwE_def bindE_def thenE_def tryE_def getsE_def modifyE_def failIf_def Let_def
  readRandom_def putSession_def dropSession_def handshake_def ensureIds_def nextId_def startSession_def start_def Start_def
  seal_def Seal_def wrap_def unwrap_def receive_def Receive_def receiveSession_def receiveRequest_def receiveReply_def
  receiveData_def chargeGlobal_def chargePeer_def allow_def room_def expire_def newSession_def badPacket_def markReady_def
  zeroRate_def errSecure_def

lemma toy_start: "\<exists>packet s'. Start toyCrypto 102 second nodeA = (Inr (1, packet), s')"
  by (simp add: run_secure nodeA_fields secure_sizes toyCrypto_simps)

text \<open>A request from the first node, as it arrives at the second, and the state it leads to.\<close>

definition toyRequest :: bytes where "toyRequest = secureHeader 1 101 102 5 0 @ replicate 96 0"

definition toyWire :: "bytes \<Rightarrow> bytes" where
  "toyWire inner = replicate 24 0 @ toySeal keyAB (replicate 24 0) (padded inner) secureEnvelopeDomain"

lemma length_toyRequest [simp]: "length toyRequest = 186"
  by (simp add: toyRequest_def)

lemma toyWire_size: "length inner \<le> secureInnerMaxSize \<Longrightarrow> length (toyWire inner) = 512"
  by (simp add: toyWire_def toySeal_def length_padded)

lemma header_addresses: "take 32 (drop 2 (secureHeader k a b i n @ x)) = be_bytes 32 a"
  "take 32 (drop 34 (secureHeader k a b i n @ x)) = be_bytes 32 b" "hd (secureHeader k a b i n @ x) = 2"
  by (simp_all add: secureHeader_def)

lemma toy_unwrap:
  assumes "inner = secureHeader k 101 102 i n @ x" and "length inner \<le> secureInnerMaxSize"
    and "secEnvelopes s = [(101, \<lparr>seTx = keyBA, seRx = keyAB\<rparr>)]" and "secPublic s = 102"
    and "allow (secOpenRate s) now secureEnvelopeBudget = (True, r)"
  shows "unwrap toyCrypto (toyWire inner) now s = (Inr inner, s\<lparr>secOpenRate := r\<rparr>)"
proof -
  have "checkPlain 102 101 (padded inner) = Some inner"
    using assms(1,2) header_addresses[of k 101 102 i n x] by (intro checkPlain_padded) (auto simp: secure_sizes)
  moreover have "toyOpen keyAB (take secureNonceN (toyWire inner)) (drop secureNonceN (toyWire inner)) secureEnvelopeDomain = Some (padded inner)"
    by (simp add: toyWire_def secure_sizes toyOpen_toySeal)
  ultimately show ?thesis
    using toyWire_size[OF assms(2)] assms(3-5)
    by (simp add: unwrap_def thenE_def bindE_def failIf_def getsE_def returnE_def modifyE_def toyCrypto_simps secureMaxSize_def)
qed

definition toySession :: "time \<Rightarrow> bytes secureSession" where
  "toySession t = newSession 101 (replicate 32 0) (Some [2]) (Some [1]) t"

lemma toy_receive: "receive toyCrypto toyRequest second (nodeB\<lparr>secOpenRate := r\<rparr>) =
    (Inr \<lparr>evPeer = 101, evID = 5, evBody = [], evReply = secureHeader 2 102 101 5 0 @ replicate 48 0, evReady = False\<rparr>,
     nodeB\<lparr>secOpenRate := r, secGlobal := \<lparr>srUntil = 2 * second, srUsed = 1\<rparr>,
           secPeers := [(101, \<lparr>srUntil = 2 * second, srUsed = 1\<rparr>)], secSessions := [(5, toySession (11 * second))]\<rparr>)"
proof -
  have "length secureDomain = 17" by (simp add: secureDomain_def ascii_def)
  then have "take 32 (drop 19 (secureDomain @ secureHeader k a b i n @ x)) = be_bytes 32 a" for k a b i n x
    by (simp add: secureHeader_def)
  moreover have "parseHeader toyRequest = parseHeader (secureHeader 1 101 102 5 0 @ replicate 96 0)" by (simp add: toyRequest_def)
  moreover have "hd toyRequest = 2" by (simp add: toyRequest_def header_addresses)
  ultimately show ?thesis
    by (simp add: run_secure nodeB_fields secure_sizes toyCrypto_simps toySession_def maxNonce_def)
qed

definition nodeB1 :: "(bytes, nat) secure" where
  "nodeB1 = nodeB\<lparr>secOpenRate := \<lparr>srUntil = 2 * second, srUsed = 1\<rparr>, secGlobal := \<lparr>srUntil = 2 * second, srUsed = 1\<rparr>,
     secPeers := [(101, \<lparr>srUntil = 2 * second, srUsed = 1\<rparr>)], secSessions := [(5, toySession (11 * second))], secRandom := 1\<rparr>"

lemma toy_Receive: "\<exists>reply. Receive toyCrypto (toyWire toyRequest) second nodeB =
    (Inr \<lparr>evPeer = 101, evID = 5, evBody = [], evReply = reply, evReady = False\<rparr>, nodeB1)"
proof -
  let ?r = "\<lparr>srUntil = 2 * second, srUsed = 1\<rparr>"
  have "unwrap toyCrypto (toyWire toyRequest) second nodeB = (Inr toyRequest, nodeB\<lparr>secOpenRate := ?r\<rparr>)"
    by (rule toy_unwrap[OF toyRequest_def]) (simp_all add: nodeB_fields secure_sizes allow_def zeroRate_def secureEnvelopeBudget_def)
  then show ?thesis
    using toy_receive[of ?r]
    by (simp add: Receive_def wrap_def readRandom_def bindE_def thenE_def tryE_def getsE_def failIf_def returnE_def
        nodeB_fields secure_sizes toyCrypto_simps nodeB1_def)
qed

lemma toy_run: "sec_run toyCrypto (newSecure toyCrypto 0 2 [101]) nodeB1"
proof -
  have "snd (Receive toyCrypto (toyWire toyRequest) second nodeB) = nodeB1" using toy_Receive by auto
  then show ?thesis using sec_more[OF sec_done sec_receive[of toyCrypto second nodeB "toyWire toyRequest"]] by (simp add: nodeB_def)
qed

text \<open>A data packet with counter 7 makes the session ready.\<close>

definition toyData :: bytes where "toyData = secureHeader 3 101 102 5 7 @ replicate 20 0"

definition nodeB2 :: "(bytes, nat) secure" where
  "nodeB2 = nodeB1\<lparr>secSessions := [(5, (toySession (602 * second))\<lparr>ssHighest := 7, ssWindow := 1, ssReady := True\<rparr>)]\<rparr>"

lemma toy_window: "\<not> spent (0, 0) 7" "spend (0, 0) 7 = (7, 1)"
  by (simp add: spent_bit) (simp add: spend_def)

lemma toy_data: "receive toyCrypto toyData 2000000000 (nodeB1\<lparr>secOpenRate := r\<rparr>) =
    (Inr \<lparr>evPeer = 101, evID = 5, evBody = replicate 4 0, evReply = [], evReady = True\<rparr>, nodeB2\<lparr>secOpenRate := r\<rparr>)"
proof -
  let ?p = "parseHeader toyData"
  have p: "pkKind ?p = 3" "pkSender ?p = 101" "pkRecipient ?p = 102" "pkID ?p = 5" "pkCounter ?p = 7"
    "hd toyData = 2" "length toyData = 110" "drop 90 toyData = replicate 20 0"
    by (simp_all add: toyData_def header_addresses)
  have b1: "secPrivate nodeB1 = 2" "secPublic nodeB1 = 102" "secPeers nodeB1 = [(101, \<lparr>srUntil = 2 * second, srUsed = 1\<rparr>)]"
    "secSessions nodeB1 = [(5, toySession (11 * second))]"
    by (simp_all add: nodeB1_def nodeB_fields)
  have ss: "ssExpires (toySession t) = t" "ssPeer (toySession t) = 101" "ssRx (toySession t) = Some [1]"
    "ssHighest (toySession t) = 0" "ssWindow (toySession t) = 0" "ssReady (toySession t) = False" for t
    by (simp_all add: toySession_def newSession_def)
  have expire: "expire 2000000000 (nodeB1\<lparr>secOpenRate := r\<rparr>) = nodeB1\<lparr>secOpenRate := r\<rparr>" by (simp add: expire_def b1 ss)
  have rec: "receiveSession toyCrypto toyData 2000000000 ?p (nodeB1\<lparr>secOpenRate := r\<rparr>) =
    (Inr \<lparr>evPeer = 101, evID = 5, evBody = replicate 4 0, evReply = [], evReady = True\<rparr>, nodeB2\<lparr>secOpenRate := r\<rparr>)"
    by (simp add: receiveSession_def receiveData_def p b1 ss toy_window toyCrypto_simps secure_sizes putSession_def markReady_def
        bindE_def thenE_def getsE_def modifyE_def returnE_def secureSessionLifetime_def nodeB2_def)
      (simp add: toySession_def newSession_def)
  show ?thesis
    by (simp add: receive_def chargeGlobal_def chargePeer_def badPacket_def expire p b1 rec secure_sizes maxNonce_def
        bindE_def thenE_def getsE_def modifyE_def returnE_def failIf_def)
qed

text \<open>The second node answers twice.\<close>

lemma nodeB2_session: "secSessions nodeB2 = [(5, (toySession (602 * second))\<lparr>ssHighest := 7, ssWindow := 1, ssReady := True\<rparr>)]"
  "secPublic nodeB2 = 102"
  by (simp_all add: nodeB2_def nodeB1_def nodeB_fields)

definition nodeB3 :: "(bytes, nat) secure" where
  "nodeB3 = nodeB2\<lparr>secSessions := [(5, (toySession (602 * second))\<lparr>ssHighest := 7, ssWindow := 1, ssReady := True, ssNext := 1\<rparr>)]\<rparr>"

lemma toy_seal:
  assumes "secSessions s = secSessions nodeB2" and "secPublic s = 102"
  shows "seal toyCrypto 5 [9] 3000000000 s =
    (Inr (101, secureHeader 3 102 101 5 0 @ [9] @ replicate 16 0), s\<lparr>secSessions := secSessions nodeB3\<rparr>)"
  using assms
  by (simp add: seal_def expire_def nodeB2_session nodeB3_def toySession_def newSession_def secure_sizes toyCrypto_simps maxNonce_def
      putSession_def bindE_def thenE_def getsE_def modifyE_def returnE_def)

lemma toy_seal2:
  assumes "secSessions s = secSessions nodeB3" and "secPublic s = 102"
  shows "\<exists>s'. seal toyCrypto 5 [8] 4000000000 s = (Inr (101, secureHeader 3 102 101 5 1 @ [8] @ replicate 16 0), s')"
  using assms
  by (simp add: seal_def expire_def nodeB3_def toySession_def newSession_def secure_sizes toyCrypto_simps maxNonce_def
      putSession_def bindE_def thenE_def getsE_def modifyE_def returnE_def)

definition nodeB2' :: "(bytes, nat) secure" where
  "nodeB2' = nodeB2\<lparr>secOpenRate := \<lparr>srUntil = 3000000000, srUsed = 1\<rparr>\<rparr>"

lemma nodeB2_run: "sec_run toyCrypto (newSecure toyCrypto 0 2 [101]) nodeB2'"
proof -
  have "unwrap toyCrypto (toyWire toyData) 2000000000 nodeB1 = (Inr toyData, nodeB1\<lparr>secOpenRate := \<lparr>srUntil = 3000000000, srUsed = 1\<rparr>\<rparr>)"
    by (rule toy_unwrap[OF toyData_def])
      (simp_all add: toyData_def nodeB1_def nodeB_fields secure_sizes allow_def secureEnvelopeBudget_def)
  then have "snd (Receive toyCrypto (toyWire toyData) 2000000000 nodeB1) = nodeB2'"
    by (simp add: Receive_def bindE_def toy_data returnE_def nodeB2'_def)
  with sec_more[OF toy_run sec_receive[of toyCrypto 2000000000 nodeB1 "toyWire toyData"]] show ?thesis by simp
qed

end
