(* ===== verification/MeshWitnesses.thy ===== *)
theory MeshWitnesses
  imports Calls PskProofs SecureSim
begin

text \<open>
  Concrete instances of the properties of the event loop: a node with one peer and
  no links, whose world is its clock.
\<close>

definition exSpec :: peerSpec where
  "exSpec = \<lparr>psPublicKey = ''peer'', psIP = V4 0x0a000003, psPresharedKey = [], psFile = [], psMaxAge = None,
     psSocket = [], psRekey = False, psKey = 102, psPsk = 0\<rparr>"

definition exConfig :: config where
  "exConfig = defaults\<lparr>cfAddress := V4 0x0a000002, cfPeers := [exSpec]\<rparr>"

definition exEnv :: "(bytes, bytes, nat, time) meshEnv" where
  "exEnv = \<lparr>enConfig = exConfig, enPublic = 101, enWgPort = 51820, enTunnel = noLink, enDry = False, enCrypto = toyCrypto,
     enNow = \<lambda>w. (w, w + second), enText = \<lambda>w. (''token'', w),
     enSend = \<lambda>_ _ _ w. (Inr (), w), enLinks = \<lambda>w. (Inr [], w),
     enApply = \<lambda>_ _ _ _ w. (Inr (), w), enRestore = \<lambda>_ w. (Inr (), w), enCheck = \<lambda>w. (Inr (), w), enRekey = None,
     enVerify = None, enInspect = None, enNotify = None,
     enPskFile = \<lambda>_ w. (\<lparr>pfBefore = None, pfOpens = False, pfInfo = None, pfSame = False, pfData = None, pfAfter = None\<rparr>, w),
     enEuid = 0, enEgid = 0, enGroups = None, enRosenpass = \<lambda>_ _ w. (Inl errSecure, w), enMarshal = \<lambda>_. [1],
     enUnmarshal = \<lambda>_. None, enHmac = \<lambda>k m. take 32 (k @ m), enHash = \<lambda>k. k, enParseKey = \<lambda>_. Some 7, enKeyString = \<lambda>_. replicate 44 CHR ''k'',
     enItoa = \<lambda>_. [], enPrefixText = \<lambda>_. [], enAddrPortText = \<lambda>_. [], enPathOrder = \<lambda>ns w. (ns, w), enPeerOrder = \<lambda>ks w. (ks, w)\<rparr>"

lemma exEnv_simps [simp]:
  "enConfig exEnv = exConfig" "enPublic exEnv = 101" "enDry exEnv = False" "enNow exEnv = (\<lambda>w. (w, w + second))"
  "enLinks exEnv = (\<lambda>w. (Inr [], w))" "enCheck exEnv = (\<lambda>w. (Inr (), w))" "enVerify exEnv = None" "enInspect exEnv = None"
  "enPathOrder exEnv = (\<lambda>ns w. (ns, w))" "enPeerOrder exEnv = (\<lambda>ks w. (ks, w))"
  by (simp_all add: exEnv_def)

lemmas run_mesh = meshRun_def atNow_def refresh_def tick_def forPeers_def servePeer_def servingOf_def servedBack_def refreshPeer_def
  tickPeer_def inspectMesh_def onWorld_def drawWorld_def pathNames_def pollPSK_def clock_def elapsed_def drawE_def worldE_def
  pingTunnel_def seekPath_def modPeer_def thenE_def bindE_def returnE_def getsE_def modifyE_def tryE_def Let_def

lemma exRun: "\<exists>s. meshRun exEnv [] (newMesh exEnv 0 1 0) = (Inr (), s) \<and> (\<exists>p. mePeers s = [(102, p)] \<and> rsPhase (mpRoute p) = PNone)"
  by (simp add: newMesh_def exConfig_def exSpec_def run_mesh meshPeerOf_def zeroRoute_def)

theorem run_tables_bounded_witness:
  "\<exists>s p. meshRun exEnv [] (newMesh exEnv 0 1 0) = (Inr (), s) \<and> (102, p) \<in> set (mePeers s) \<and> length (mpPaths p) \<le> 16"
proof -
  obtain s p where "meshRun exEnv [] (newMesh exEnv 0 1 0) = (Inr (), s)" "(102, p) \<in> set (mePeers s)" using exRun by fastforce
  with run_tables_bounded[OF this] show ?thesis by blast
qed

theorem run_phases_consistent_witness:
  "\<exists>s p. meshRun exEnv [] (newMesh exEnv 0 1 0) = (Inr (), s) \<and> (102, p) \<in> set (mePeers s) \<and>
    rsPhase (mpRoute p) = PNone \<and> rsSelected (mpRoute p) = None"
proof -
  obtain s p where run: "meshRun exEnv [] (newMesh exEnv 0 1 0) = (Inr (), s)" "mePeers s = [(102, p)]" "rsPhase (mpRoute p) = PNone" using exRun by blast
  then have mem: "(102, p) \<in> set (mePeers s)" by simp
  from run_phases_consistent[OF run(1) mem] run mem show ?thesis by blast
qed

definition exFile :: pskFile where
  "exFile = (let st = \<lparr>fsMode = 0x180, fsSize = 45, fsModTime = 0, fsUid = 0, fsGid = 0\<rparr> in
     \<lparr>pfBefore = Some st, pfOpens = True, pfInfo = Some st, pfSame = True, pfData = Some (replicate 44 CHR ''k'' @ [CHR 0x0a]), pfAfter = Some st\<rparr>)"

theorem readKeyFile_safe_witness: "readKeyFile exEnv exSpec second exFile = Some 7 \<and> pfAfter exFile = pfInfo exFile \<and> (7 :: wgkey) \<noteq> 0"
proof -
  have "readKeyFile exEnv exSpec second exFile = Some 7"
    by (simp add: readKeyFile_def exFile_def exEnv_def exSpec_def Let_def unsafeStatus_def isRegularMode_def permBits_def trimNewline_def
        butlast_append timeSub_def minDuration_def maxDuration_def)
  with readKeyFile_safe[OF this] show ?thesis by auto
qed

definition exMessage :: message where
  "exMessage = \<lparr>mgOp = ''prepare'', mgToken = ''t'', mgPort = 1, mgProof = pskProof exEnv 7 ''prepare'' ''t'' 102 101, mgRekey = False\<rparr>"

text \<open>
  A proof made for \<^verbatim>\<open>ready\<close> is refused for \<^verbatim>\<open>commit\<close> when the authenticator has no
  collision on the two texts.
\<close>

definition exMac :: "(bytes, bytes, nat, time) meshEnv" where
  "exMac = exEnv\<lparr>enHmac := \<lambda>k m. k @ m\<rparr>"

definition exReplayed :: message where
  "exReplayed = \<lparr>mgOp = ''commit'', mgToken = ''t'', mgPort = 1, mgProof = pskProof exMac 7 ''ready'' ''t'' 102 101, mgRekey = False\<rparr>"

theorem pskProof_binds_witness: "\<not> checkPSKProof exMac 7 exReplayed 102 101 \<and> checkPSKProof exMac 7 (exReplayed\<lparr>mgOp := ''ready''\<rparr>) 102 101"
proof
  show "\<not> checkPSKProof exMac 7 exReplayed 102 101"
  proof
    assume "checkPSKProof exMac 7 exReplayed 102 101"
    from pskProof_binds[OF this, of 7 "''ready''" "''t''" 102 101] show False
      by (simp add: exReplayed_def exMac_def)
  qed
  show "checkPSKProof exMac 7 (exReplayed\<lparr>mgOp := ''ready''\<rparr>) 102 101" by (simp add: checkPSKProof_def exReplayed_def)
qed

definition exServing :: "(bytes, nat, time) serving" where
  "exServing = \<lparr>cxPeer = retired ''u'' second (retired ''t'' 0 (meshPeerOf exSpec)), cxCrypto = nodeA, cxStarts = [], cxLinks = [], cxPanic = False, cxWorld = 0\<rparr>"

theorem retired_token_refused_witness:
  "\<exists>u. coordinate exEnv 0 exMessage minute exServing =
    (Inr (), exServing\<lparr>cxWorld := second, cxPeer := (cxPeer exServing)\<lparr>mpRetiredUntil := u\<rparr>\<rparr>)"
  using retired_token_refused[of "''t''" exServing "[(''u'', second)]" 0 "meshPeerOf exSpec" exMessage minute exEnv 0]
  by (simp add: exServing_def exMessage_def retiredTokenLifetime_def secureSessionLifetime_def)

end
