(* ===== verification/Simulation.thy ===== *)
theory Simulation
  imports ControlWal
begin

text \<open>
  A simulated world for the controller: an in-memory WireGuard interface that
  moves an allowed IP from peer to peer as the kernel does, and a directory
  with one journal file.  It shows that the hypotheses \<open>observes\<close> and \<open>durable\<close>
  can hold together, and the witnesses run the controller on it.
\<close>

record sim =
  simDev :: wgDevice
  simFiles :: "(string \<times> bytes) list"

definition simFile :: "sim \<Rightarrow> string \<Rightarrow> bytes option" where
  "simFile w = map_of (simFiles w)"

section \<open>The interface\<close>

definition newPeer :: "wgkey \<Rightarrow> wgPeer" where
  "newPeer key = \<lparr>PublicKey = key, PresharedKey = 0, Endpoint = None, KeepaliveInterval = 0,
     LastHandshakeTime = 0, AllowedIPs = [], ProtocolVersion = 1\<rparr>"

definition setFields :: "peerConfig \<Rightarrow> wgPeer \<Rightarrow> wgPeer" where
  "setFields pc p = p\<lparr>
     PresharedKey := (case pcPSK pc of None \<Rightarrow> PresharedKey p | Some k \<Rightarrow> k),
     Endpoint := (case pcEndpoint pc of None \<Rightarrow> Endpoint p | Some e \<Rightarrow> Some e)\<rparr>"

definition grantTo :: "wgkey \<Rightarrow> ipnet list \<Rightarrow> wgPeer \<Rightarrow> wgPeer" where
  "grantTo key ns p = (let rest = filter (\<lambda>n. n \<notin> set ns) (AllowedIPs p)
     in p\<lparr>AllowedIPs := (if PublicKey p = key then rest @ ns else rest)\<rparr>)"

definition simPeer :: "wgPeer list \<Rightarrow> peerConfig \<Rightarrow> wgPeer list" where
  "simPeer ps pc =
    (if pcRemove pc then filter (\<lambda>p. PublicKey p \<noteq> pcKey pc) ps
     else let known = (\<exists>p \<in> set ps. PublicKey p = pcKey pc) in
       if \<not> known \<and> pcUpdateOnly pc then ps
       else map (grantTo (pcKey pc) (pcAllowed pc) \<circ> (\<lambda>p. if PublicKey p = pcKey pc then setFields pc p else p))
              (if known then ps else ps @ [newPeer (pcKey pc)]))"

definition simConfigure :: "string \<Rightarrow> peerConfig list \<Rightarrow> (sim, unit) eff" where
  "simConfigure n pcs w = (Inr (), w\<lparr>simDev := (simDev w)\<lparr>devPeers := foldl simPeer (devPeers (simDev w)) pcs\<rparr>\<rparr>)"

section \<open>Directory and journal file\<close>

definition simDirInfo :: fileInfo where
  "simDirInfo = \<lparr>fiDir = True, fiRegular = False, fiPerm = 448, fiUid = 0, fiSize = 0\<rparr>"

definition simFileInfo :: fileInfo where
  "simFileInfo = \<lparr>fiDir = False, fiRegular = True, fiPerm = 384, fiUid = 0, fiSize = 64\<rparr>"

definition simLstat :: "string \<Rightarrow> sim \<Rightarrow> (fsError + fileInfo) \<times> sim" where
  "simLstat p w = (if p = ''dir'' then Inr simDirInfo
     else case simFile w p of None \<Rightarrow> Inl NotExist | Some _ \<Rightarrow> Inr simFileInfo, w)"

definition simRename :: "string \<Rightarrow> string \<Rightarrow> (sim, unit) eff" where
  "simRename f p w = (case simFile w f of
     None \<Rightarrow> (Inl (Msg ''file does not exist''), w)
   | Some d \<Rightarrow> (Inr (), w\<lparr>simFiles := AList.update p d (AList.delete f (simFiles w))\<rparr>))"

fun phaseByte :: "cphase \<Rightarrow> byte" where
  "phaseByte Planning = 0" | "phaseByte Adding = 1" | "phaseByte Active = 2" | "phaseByte Rekeying = 3"
| "phaseByte Restoring = 4" | "phaseByte Aborting = 5" | "phaseByte (UnknownPhase _) = 6"

text \<open>The text of a journal, cut down to the last byte of each key and the phase.\<close>

definition simMarshal :: "controlJournal \<Rightarrow> error + bytes" where
  "simMarshal j = Inr (concat (map (\<lambda>(k, r). [ucast k, phaseByte (cpPhase r)]) (jPeers j)))"

definition simKeyString :: "wgkey \<Rightarrow> string" where
  "simKeyString k = replicate (unat k) (CHR ''k'')"

definition simParseKey :: "string \<Rightarrow> wgkey option" where
  "simParseKey s = Some (of_nat (length s))"

definition simIO :: "sim controlIO" where
  "simIO = \<lparr>
     ioDevice = \<lambda>n w. (Inr (simDev w), w), ioConfigure = simConfigure,
     ioHash = (\<lambda>k. if k = 0 then 1 else k), ioParseKey = simParseKey, ioKeyString = simKeyString,
     ioMarshal = simMarshal, ioUid = 0, ioDir = (\<lambda>_. ''dir''),
     ioLstat = simLstat, ioMkdir = (\<lambda>_ w. (Some Exists, w)),
     ioReadJournal = (\<lambda>_ w. (JMissing, w)),
     ioOpenDir = (\<lambda>_ w. (Inr (), w)), ioCreateTemp = (\<lambda>_ w. (Inr ''tmp'', w)), ioChmod = (\<lambda>_ w. (Inr (), w)),
     ioWrite = (\<lambda>f d w. (Inr (), w\<lparr>simFiles := AList.update f d (simFiles w)\<rparr>)),
     ioSync = (\<lambda>_ w. (Inr (), w)), ioClose = (\<lambda>_ w. (Inr (), w)),
     ioRename = simRename, ioRemove = (\<lambda>f w. w\<lparr>simFiles := AList.delete f (simFiles w)\<rparr>)\<rparr>"

section \<open>The hypotheses hold\<close>

lemma simIO_observes: "observes simIO simDev"
  by (simp add: observes_def fileOps_def keeps_def simIO_def simLstat_def simRename_def split: option.split)

lemma simIO_durable: "durable simIO simFile ''journal''"
proof -
  have read: "keeps simFile (\<lambda>w. (a, w))" for a :: 'a by (simp add: keeps_def)
  have "keeps simFile (simConfigure n c)" "keeps simFile (simLstat p)" for n c p
    by (auto simp: keeps_def simConfigure_def simLstat_def simFile_def)
  then show ?thesis
    by (simp add: durable_def simIO_def keeps_def)
      (auto simp: simFile_def simRename_def AList.update_conv' AList.delete_conv' split: option.split)
qed

lemma simIO_hash: "ioHash simIO k \<noteq> 0"
  by (simp add: simIO_def)

lemma simIO_keyText: "keyText simIO"
  by (simp add: keyText_def simIO_def simKeyString_def simParseKey_def)

section \<open>A stable interface\<close>

text \<open>
  The node has key 1; the hub, key 2, carries \<open>10.0.0.0/24\<close>; the direct peer to
  come has key 3 and the host address \<open>10.0.0.3\<close>.
\<close>

definition simHub :: wgPeer where
  "simHub = (newPeer 2)\<lparr>AllowedIPs := [Net (Prefix (V4 0x0a000000) 24)]\<rparr>"

definition simStart :: "sim controller" where
  "simStart = \<lparr>ctlPath = ''journal'', ctlJournal = \<lparr>jVersion = 1, jName = ''wg0'', jPublic = 1, jPeers = []\<rparr>,
     ctlPrivate = 9, ctlPort = 51820,
     ctlWorld = \<lparr>simDev = \<lparr>devType = LinuxKernel, devPrivate = 9, devPublic = 1, devPort = 51820, devPeers = [simHub]\<rparr>,
                 simFiles = []\<rparr>\<rparr>"

definition simHost :: addr where "simHost = V4 0x0a000003"
definition simEndpoint :: addrPort where "simEndpoint = (V4 0xc0a80103, 51820)"

definition simRecord :: "cphase \<Rightarrow> controlPeer" where
  "simRecord phase = \<lparr>cpIP = simHost, cpOwner = 2, cpPrefix = Prefix (V4 0x0a000000) 24, cpPSKHash = 7,
     cpPhase = phase, cpNextHash = None\<rparr>"

definition simDirect :: wgPeer where
  "simDirect = (newPeer 3)\<lparr>PresharedKey := 7, Endpoint := Some simEndpoint, AllowedIPs := [Net (Prefix simHost 32)]\<rparr>"

text \<open>The state after the direct peer has been applied.\<close>

definition simActive :: "sim controller" where
  "simActive = simStart\<lparr>ctlJournal := (ctlJournal simStart)\<lparr>jPeers := [(3, simRecord Active)]\<rparr>,
     ctlWorld := \<lparr>simDev = (simDev (ctlWorld simStart))\<lparr>devPeers := [simHub, simDirect]\<rparr>,
                  simFiles = [(''journal'', [3, 2])]\<rparr>\<rparr>"

section \<open>Evaluation\<close>

lemmas run_eff = returnE_def throwE_def bindE_def thenE_def tryE_def getsE_def modifyE_def failIf_def bothE_def
  inWorld_def setPeer_def dropPeer_def getPeer_def liftErr_def Let_def

lemmas run_control = device_def configure_def save_def saveTo_def writeTemp_def checkOldJournal_def
  controlSyncDir_def controlCheckDir_def checkedDevice_def checkPeer_def badPeer_def controlOwner_def noPrefix_def
  exact_def controlFindPeer_def controlHost_def controlHostNet_def peerUpdate_def invalidTarget_def

lemmas run_apply = Apply_def applyPlan_def applyRecheck_def applyAdding_def applyConfig_def applyInstall_def
  applyCommit_def applyConflict_def

lemmas run_restore = Restore_def restore_def restoreIntent_def restoreExpected_def restoringPhase_def
  restoreMove_def restoreRemove_def restoreFinish_def

lemmas run_sim = simStart_def simActive_def simRecord_def simDirect_def simHub_def simHost_def simEndpoint_def
  simIO_def simLstat_def simRename_def simFile_def simMarshal_def simConfigure_def simPeer_def grantTo_def
  setFields_def newPeer_def simDirInfo_def simFileInfo_def

lemmas run_netip = isGlobalUnicast_def isLinkLocalUnicast_def isLoopback_def isMulticast_def hostPrefix_def prefixFrom_def

lemma simApply: "Apply simIO 3 simHost 7 simEndpoint simStart = (Inr (), simActive)"
  by (simp add: run_apply run_eff run_control run_sim run_netip)

lemma simRestore: "Restore simIO 3 simActive = (Inr (), simStart\<lparr>ctlWorld := (ctlWorld simStart)\<lparr>simFiles := [(''journal'', [])]\<rparr>\<rparr>)"
  by (simp add: run_restore run_eff run_control run_sim run_netip)

lemma simActive_ok: "journalOK (ctlJournal simActive)"
  by (simp add: journalOK_def peersOK_def recordOK_def run_sim controlHost_def run_netip pValid_def)

lemma simRekey: "Rekey simIO 3 7 8 simActive = (Inr (), snd (Rekey simIO 3 7 8 simActive))"
  by (simp add: Rekey_def rekeyCheck_def rekeyConflict_def run_eff run_control run_sim run_netip)

lemma simCheck: "Check simIO simActive = (Inr (), simActive)"
  by (simp add: Check_def checkDevice_def managedConflict_def run_eff run_control run_sim run_netip)

lemma simNew: "newController simIO ''wg0'' ''journal'' (ctlWorld simStart) = (Inr simStart, ctlWorld simStart)"
  by (simp add: newController_def prepareDir_def loadJournal_def validateJournal_def recoverController_def
      startController_def RestoreAll_def run_eff run_control run_sim)

end
