(* ===== verification/Witnesses.thy ===== *)
theory Witnesses
  imports Simulation SecureSim
begin

text \<open>
  Concrete runs on which the hypotheses of the properties hold: each theorem
  here applies one property to the simulated world, or to a concrete value.
\<close>

section \<open>The controller\<close>

theorem Apply_routes_direct_witness:
  "observes simIO simDev \<and> Apply simIO 3 simHost 7 simEndpoint simStart = (Inr (), simActive) \<and>
   routedTo (simDev (ctlWorld simActive)) simHost 3"
  using Apply_routes_direct[OF simIO_observes simApply] simIO_observes simApply by simp

theorem Restore_reinstates_owner_witness:
  "map_of (jPeers (ctlJournal simActive)) 3 = Some (simRecord Active) \<and>
   routedTo (simDev (ctlWorld (snd (Restore simIO 3 simActive)))) simHost 2"
proof -
  have r: "map_of (jPeers (ctlJournal simActive)) 3 = Some (simRecord Active)" by (simp add: simActive_def)
  have "cpOwner (simRecord Active) \<noteq> 0" "pValid (cpPrefix (simRecord Active))" "cpIP (simRecord Active) = simHost"
    "cpOwner (simRecord Active) = 2"
    by (simp_all add: simRecord_def pValid_def)
  with Restore_reinstates_owner[OF simIO_observes r _ _ simRestore] r show ?thesis by (simp add: simRestore)
qed

theorem save_atomic_witness:
  "durable simIO simFile ''journal'' \<and>
   (case saveTo simIO ''journal'' (ctlJournal simActive) (ctlWorld simStart) of
      (Inr _, w') \<Rightarrow> \<exists>data. ioMarshal simIO (ctlJournal simActive) = Inr data \<and> simFile w' ''journal'' = Some data
    | (Inl _, w') \<Rightarrow> simFile w' ''journal'' = simFile (ctlWorld simStart) ''journal'' \<or>
        (\<exists>data. ioMarshal simIO (ctlJournal simActive) = Inr data \<and> simFile w' ''journal'' = Some data))"
  by (rule conjI[OF simIO_durable save_atomic[OF simIO_durable]])

theorem validateJournal_roundtrip_witness:
  "journalOK (ctlJournal simActive) \<and>
   validateJournal simIO ''wg0'' (simDev (ctlWorld simActive)) (Some (rawOf simIO (ctlJournal simActive))) =
     Inr (ctlJournal simActive)"
  using validateJournal_roundtrip[OF simIO_keyText simActive_ok, of "simDev (ctlWorld simActive)"] simActive_ok
  by (simp add: simActive_def simStart_def)

theorem validateJournal_sound_witness:
  "validateJournal simIO ''wg0'' (simDev (ctlWorld simStart)) None = Inr (ctlJournal simStart) \<and>
   journalOK (ctlJournal simStart)"
proof -
  have v: "validateJournal simIO ''wg0'' (simDev (ctlWorld simStart)) None = Inr (ctlJournal simStart)"
    by (simp add: validateJournal_def simStart_def)
  with validateJournal_sound[OF simIO_keyText _ v] show ?thesis by simp
qed

text \<open>A traced run: the journal is on disk and empty, then the direct peer is applied.\<close>

definition tracedStart :: "(sim \<times> wlog) controller" where
  "tracedStart = \<lparr>ctlPath = ''journal'', ctlJournal = ctlJournal simStart, ctlPrivate = 9, ctlPort = 51820,
     ctlWorld = ((ctlWorld simStart)\<lparr>simFiles := [(''journal'', [])]\<rparr>, [])\<rparr>"

definition tracedEnd :: "(sim \<times> wlog) controller" where
  "tracedEnd = snd (Apply (traced simIO simFile ''journal'') 3 simHost 7 simEndpoint tracedStart)"

lemma tracedStart_facts:
  "ctlPath tracedStart = ''journal''" "snd (ctlWorld tracedStart) = []" "journalOK (ctlJournal tracedStart)"
  "ioMarshal simIO (ctlJournal tracedStart) = Inr []" "simFile (fst (ctlWorld tracedStart)) ''journal'' = Some []"
  by (simp_all add: tracedStart_def simStart_def journalOK_def peersOK_def simIO_def simMarshal_def simFile_def)

lemma traced_sim_run:
  "ctl_run (traced simIO simFile ''journal'') (\<lambda>w w'. False \<and> snd w' = snd w) tracedStart tracedEnd"
  unfolding tracedEnd_def by (rule run_step[OF run_done step_apply])

theorem kernel_writes_announced_witness:
  "length (snd (ctlWorld tracedEnd)) = 1 \<and> announced simIO (hd (snd (ctlWorld tracedEnd)))"
proof -
  have one: "length (snd (ctlWorld tracedEnd)) = 1"
    by (simp add: tracedEnd_def tracedStart_def traced_def through_def putFst_def run_apply run_eff run_control run_sim run_netip)
  then have "hd (snd (ctlWorld tracedEnd)) \<in> set (snd (ctlWorld tracedEnd))" by (cases "snd (ctlWorld tracedEnd)") auto
  moreover have "\<forall>(changes, content) \<in> set (snd (ctlWorld tracedEnd)). \<exists>j. journalOK j \<and>
      (\<exists>data. ioMarshal simIO j = Inr data \<and> content = Some data) \<and> (\<forall>pc \<in> set changes. permitted simIO j pc)"
    by (rule kernel_writes_announced[where env = "\<lambda>_ _. False",
          OF simIO_durable simIO_hash _ tracedStart_facts traced_sim_run]) simp
  ultimately have "announced simIO (hd (snd (ctlWorld tracedEnd)))" by (fastforce simp: announced_def onDisk_def)
  with one show ?thesis by simp
qed

theorem journal_stays_wellformed_witness:
  "map_of (jPeers (ctlJournal tracedEnd)) 3 = Some (simRecord Active) \<and> journalOK (ctlJournal tracedEnd)"
proof
  show "map_of (jPeers (ctlJournal tracedEnd)) 3 = Some (simRecord Active)"
    by (simp add: tracedEnd_def tracedStart_def traced_def through_def putFst_def run_apply run_eff run_control run_sim run_netip)
  show "journalOK (ctlJournal tracedEnd)"
    using journal_stays_wellformed[where env = "\<lambda>_ _. False",
          OF simIO_durable simIO_hash _ tracedStart_facts traced_sim_run] by simp
qed

theorem controlOwner_longest_match_witness:
  "controlOwner (simDev (ctlWorld simActive)) simHost 0 = Inr (3, Prefix simHost 32) \<and>
   best (matching (simDev (ctlWorld simActive)) simHost 0) (3, Prefix simHost 32)"
proof -
  have own: "controlOwner (simDev (ctlWorld simActive)) simHost 0 = Inr (3, Prefix simHost 32)"
    by (simp add: run_control run_sim run_netip)
  have "parses (simDev (ctlWorld simActive))" by (simp add: parses_def run_sim)
  moreover have "noTies (matching (simDev (ctlWorld simActive)) simHost 0)"
    by (auto simp: noTies_def matching_def run_sim)
  ultimately show ?thesis using controlOwner_longest_match own by blast
qed

theorem Rekey_installs_key_witness:
  "\<exists>p. controlFindPeer (simDev (ctlWorld (snd (Rekey simIO 3 7 8 simActive)))) 3 = Some p \<and>
     ioHash simIO (PresharedKey p) = ioHash simIO 8"
proof -
  have r: "map_of (jPeers (ctlJournal simActive)) 3 = Some (simRecord Active)" by (simp add: simActive_def)
  have "cpNextHash (simRecord Active) = None" "controlHost (cpIP (simRecord Active))"
    by (simp_all add: simRecord_def simHost_def controlHost_def run_netip)
  from Rekey_installs_key[OF simIO_observes r this(1) _ this(2) simRekey] show ?thesis by auto
qed

theorem Check_sound_witness:
  "(3, simRecord Active) \<in> set (jPeers (ctlJournal simActive)) \<and> routedTo (simDev (ctlWorld simActive)) simHost 3"
proof -
  have "k \<noteq> 0 \<and> controlHost (cpIP r)" if "(k, r) \<in> set (jPeers (ctlJournal simActive))" for k r
    using that by (auto simp: run_sim controlHost_def run_netip)
  from Check_sound[OF simIO_observes simCheck this] show ?thesis by (auto simp: simActive_def simRecord_def)
qed

theorem newController_clean_witness:
  "newController simIO ''wg0'' ''journal'' (ctlWorld simStart) = (Inr simStart, ctlWorld simStart) \<and>
   jPeers (ctlJournal simStart) = []"
  using newController_clean[OF simIO_observes simNew] simNew by blast

section \<open>The control channel\<close>

theorem sessions_bounded_witness:
  "length (secSessions nodeB1) \<le> 512 \<and> map fst (secSessions nodeB1) = [5]"
  using sessions_bounded[OF toy_run] by (simp add: nodeB1_def)

theorem no_replay_witness:
  "fst (receive toyCrypto toyData 2000000000 nodeB1) =
     Inr \<lparr>evPeer = 101, evID = 5, evBody = replicate 4 0, evReply = [], evReady = True\<rparr> \<and>
   (\<exists>e. fst (receive toyCrypto toyData 2000000000 nodeB2) = Inl e)"
proof -
  have "nodeB1\<lparr>secOpenRate := secOpenRate nodeB1\<rparr> = nodeB1" "nodeB2\<lparr>secOpenRate := secOpenRate nodeB1\<rparr> = nodeB2"
    by (simp_all add: nodeB1_def nodeB2_def)
  then have r: "receive toyCrypto toyData 2000000000 nodeB1 =
      (Inr \<lparr>evPeer = 101, evID = 5, evBody = replicate 4 0, evReply = [], evReady = True\<rparr>, nodeB2)"
    using toy_data[of "secOpenRate nodeB1"] by simp
  have "pkKind (parseHeader toyData) = 3" by (simp add: toyData_def)
  with no_replay[OF toy_run r this life_done this refl refl] r show ?thesis by simp
qed

theorem seal_counters_increase_witness:
  "pkCounter (parseHeader (secureHeader 3 102 101 5 0 @ [9] @ replicate 16 0)) <
   pkCounter (parseHeader (secureHeader 3 102 101 5 1 @ [8] @ replicate 16 0))"
proof -
  let ?inner = "secureHeader 3 102 101 5 0 @ [9] @ replicate 16 0"
  have b2: "secSessions nodeB2' = secSessions nodeB2" "secPublic nodeB2' = 102" by (simp_all add: nodeB2'_def nodeB2_session)
  define s1 where "s1 = nodeB2'\<lparr>secSessions := secSessions nodeB3\<rparr>"
  define s2 where "s2 = snd (wrap toyCrypto 101 ?inner s1)"
  have one: "seal toyCrypto 5 [9] 3000000000 nodeB2' = (Inr (101, ?inner), s1)" using toy_seal[OF b2] by (simp add: s1_def)
  have "frame s1 s2"
    using wrap_frame[of toyCrypto 101 ?inner s1] by (auto simp: s2_def wpE_def split: prod.splits sum.splits)
  then have s2: "secSessions s2 = secSessions nodeB3" "secPublic s2 = 102" using b2 by (simp_all add: frame_def s1_def)
  obtain s3 where two: "seal toyCrypto 5 [8] 4000000000 s2 = (Inr (101, secureHeader 3 102 101 5 1 @ [8] @ replicate 16 0), s3)"
    using toy_seal2[OF s2] by blast
  have "alive 5 4000000000 s2" by (simp add: alive_def s2 nodeB3_def toySession_def newSession_def)
  from seal_counters_increase[OF nodeB2_run one _ this two] show ?thesis by (simp add: s2_def life_done)
qed

theorem local_ids_unique_witness:
  "\<exists>i j p q s1 s2. Start toyCrypto 102 second nodeA = (Inr (i, p), s1) \<and> Start toyCrypto 102 second s1 = (Inr (j, q), s2) \<and> i \<noteq> j"
proof -
  obtain i p s1 where a: "Start toyCrypto 102 second nodeA = (Inr (i, p), s1)" using toy_start by blast
  have "\<exists>j q s2. Start toyCrypto 102 second (snd (Start toyCrypto 102 second nodeA)) = (Inr (j, q), s2)"
    by (simp add: run_secure nodeA_fields secure_sizes toyCrypto_simps)
  with a obtain j q s2 where b: "Start toyCrypto 102 second s1 = (Inr (j, q), s2)" by auto
  have "sec_run toyCrypto (newSecure toyCrypto 0 1 [102]) nodeA" by (simp add: nodeA_def sec_done)
  from local_ids_unique[OF this toy_inj a sec_done b] a b show ?thesis by blast
qed

theorem Receive_refused_witness:
  "\<exists>e s. Receive toyCrypto [] 0 nodeB1 = (Inl e, s) \<and> secSessions s = secSessions nodeB1"
proof -
  have r: "Receive toyCrypto [] 0 nodeB1 = (Inl errSecure, nodeB1)"
    by (simp add: Receive_def unwrap_def bindE_def thenE_def failIf_def throwE_def secure_sizes)
  have "filter (\<lambda>(_, ss). 0 < ssExpires ss) (secSessions nodeB1) = secSessions nodeB1"
    by (simp add: nodeB1_def toySession_def newSession_def)
  with Receive_refused[OF toy_run r] r show ?thesis by auto
qed

theorem packets_512_witness:
  "\<exists>p s. Start toyCrypto 102 second nodeA = (Inr (1, p), s) \<and> length p = 512"
proof -
  obtain p s where "Start toyCrypto 102 second nodeA = (Inr (1, p), s)" using toy_start by blast
  with packets_512[OF toy_aead(2,3)] show ?thesis by blast
qed

theorem Receive_authentic_witness:
  "\<exists>ev. Receive toyCrypto (toyWire toyRequest) second nodeB = (Inr ev, nodeB1) \<and> length (toyWire toyRequest) = 512"
proof -
  obtain ev where r: "Receive toyCrypto (toyWire toyRequest) second nodeB = (Inr ev, nodeB1)" using toy_Receive by blast
  with Receive_authentic[OF r] show ?thesis by blast
qed

theorem unwrap_wrap_witness:
  "\<exists>data s. wrap toyCrypto 102 toyRequest nodeA = (Inr data, s) \<and> fst (unwrap toyCrypto data second nodeB) = Inr toyRequest"
proof -
  obtain data s where w: "wrap toyCrypto (secPublic nodeB) toyRequest nodeA = (Inr data, s)"
    by (simp add: wrap_def readRandom_def bindE_def thenE_def getsE_def failIf_def returnE_def nodeA_fields nodeB_fields
        secure_sizes toyCrypto_simps)
  have "fst (unwrap toyCrypto data second nodeB) = Inr toyRequest"
    by (rule unwrap_wrap[OF toy_aead _ _ _ _ _ _ _ _ _ w, where ea = "\<lparr>seTx = keyAB, seRx = keyBA\<rparr>" and eb = "\<lparr>seTx = keyBA, seRx = keyAB\<rparr>"])
      (simp_all add: nodeA_fields nodeB_fields toyRequest_def secureHeader_def zeroRate_def secureEnvelopeBudget_def)
  with w show ?thesis by (auto simp: nodeB_fields)
qed

theorem newEnvelope_agree_witness:
  "\<exists>ea eb. newEnvelope toyCrypto 1 101 102 = Some ea \<and> newEnvelope toyCrypto 2 102 101 = Some eb \<and> seTx ea = seRx eb"
proof -
  have pub: "crPublic toyCrypto 1 = 101" "crPublic toyCrypto 2 = 102" by (simp_all add: toyCrypto_def)
  have "crShared toyCrypto 1 (crPublic toyCrypto 2) = crShared toyCrypto 2 (crPublic toyCrypto 1)"
    by (simp add: toyCrypto_def)
  moreover obtain ea eb where e: "newEnvelope toyCrypto 1 101 102 = Some ea" "newEnvelope toyCrypto 2 102 101 = Some eb"
    by (simp add: newEnvelope_def toyCrypto_def deriveKey_def)
  ultimately have "seTx ea = seRx eb" using newEnvelope_agree[of toyCrypto 1 2 ea eb] pub by simp
  with e show ?thesis by blast
qed

theorem rate_limited_witness: "grants zeroRate 1 [5, 7] \<le> 2 \<and> grants zeroRate 1 [5, 7] = 1"
  using rate_limited[of "[5, 7]" 0 1 zeroRate] by (simp add: zeroRate_def allow_def)

end
