(* ===== verification/DaemonWitnesses.thy ===== *)
theory DaemonWitnesses
  imports DaemonRuns MeshWitnesses Witnesses
begin

text \<open>
  Concrete instances of the properties of whole runs: the simulated interface and
  journal, and a host with one tunnel and no other interface.
\<close>

definition simTunnel :: interfaceState where
  "simTunnel = \<lparr>isIface = \<lparr>ifIndex = 5, ifName = ''wg0'', ifUp = True, ifBroadcast = False, ifLoopback = False, ifPointToPoint = True, ifMulticast = False\<rparr>,
     isPrefixes = [Prefix (V4 0x0a000002) 24]\<rparr>"

definition simLink :: linkAddr where
  "simLink = addressedLink (isIface simTunnel) (Prefix (V4 0x0a000002) 24)"

definition calmHost :: "(bytes, bytes, nat, sim) host" where
  "calmHost = \<lparr>hsEnv = mapEnv (\<lambda>_. 0) (\<lambda>_ s. s) exEnv, hsLinux = True, hsClient = \<lambda>s. (Inr (), s), hsCloseClient = \<lambda>s. s,
     hsStat = \<lambda>_ s. (Some NotExist, s), hsEvalSymlinks = \<lambda>p s. (Inr p, s), hsBase = \<lambda>p. p, hsJoin = \<lambda>_ p. p,
     hsOpenLock = \<lambda>_ s. (Inr (), s), hsLockStat = \<lambda>_ s. (Inr simFileInfo, s), hsFlock = \<lambda>_ s. (Inr (), s), hsCloseLock = \<lambda>_ s. s,
     hsOpenConfig = \<lambda>_ s. (Inr (Some []), s), hsDecode = \<lambda>_ _. Some (exConfig, True),
     hsInterface = \<lambda>_ s. (Inr simTunnel, s), hsInterfaces = \<lambda>s. (Inr [], s), hsInterfaceIndex = \<lambda>_ s. (Inr 5, s),
     hsRouteGet = \<lambda>_ _ s. (Inr [\<lparr>reLink = 5, reMultiPath = 0\<rparr>], s), hsListen = \<lambda>_ p s. (Inr p, s), hsShut = \<lambda>_ s. (None, s),
     hsWatch = \<lambda>s. (None, s), hsPhysical = \<lambda>_. False, hsOrder = \<lambda>ms. ms, hsLeave = \<lambda>_ s. s, hsGroupJoin = \<lambda>_ s. (None, s),
     hsWrite = \<lambda>_ _ _ _ _ s. (None, s), hsNotify = \<lambda>_ s. s, hsAdapter = \<lambda>_ s. (Inr (), s)\<rparr>"

definition calmMesh :: "(bytes, bytes, nat, sim controller \<times> udpNetwork) meshEnv" where
  "calmMesh = daemonMesh (mapHost ctlWorld putWorld calmHost) ''wg0'' exConfig (controllerRoutes simIO) 9 51820 simLink False"

definition calmVerify :: "(sim controller, unit) eff" where
  "calmVerify = checkRuntime (mapHost ctlWorld putWorld calmHost) ''wg0'' exConfig simLink 51820 (checkDevice simIO)"

definition calmNet :: udpNetwork where
  "calmNet = initialNetwork [] [] [] ''wg0''"

lemma calmHost_simps [simp]:
  "hsEnv (mapHost get put calmHost) = mapEnv get put (mapEnv (\<lambda>_. 0) (\<lambda>_ s. s) exEnv)"
  "hsInterface (mapHost ctlWorld putWorld calmHost) = (\<lambda>_ s. (Inr simTunnel, s))"
  "hsInterfaces (mapHost ctlWorld putWorld calmHost) = (\<lambda>s. (Inr [], s))"
  "hsRouteGet (mapHost ctlWorld putWorld calmHost) = (\<lambda>_ _ s. (Inr [\<lparr>reLink = 5, reMultiPath = 0\<rparr>], s))"
  "hsOrder (mapHost ctlWorld putWorld calmHost) = (\<lambda>ms. ms)"
  by (simp_all add: mapHost_def calmHost_def through_def[abs_def])

lemma calmEnv [simp]:
  "enConfig calmMesh = exConfig" "enDry calmMesh = False" "enNow calmMesh = (\<lambda>w. (0, w))"
  "enPathOrder calmMesh = (\<lambda>ns w. (ns, w))" "enPeerOrder calmMesh = (\<lambda>ks w. (ks, w))" "enLinks calmMesh = underlayLinks (mapHost ctlWorld putWorld calmHost)"
  "enInspect calmMesh = Some (inFst calmVerify)"
  by (simp_all add: calmMesh_def calmVerify_def daemonMesh_def Let_def mapEnv_def through_def[abs_def] putFst_def exEnv_def controllerRoutes_def)

lemma calmVerified: "calmVerify simStart = (Inr (), simStart)"
proof -
  have "checkDevice simIO simStart = (Inr (simDev (ctlWorld simStart)), simStart)"
    by (simp add: checkDevice_def device_def run_eff run_sim)
  then show ?thesis
    by (simp add: calmVerify_def checkRuntime_def readTunnel_def simTunnel_def simLink_def tunnelLink_def liftSum_def usableLinkAddress_def
      exConfig_def exSpec_def defaults_def run_eff run_netip addressedLink_def simStart_def mapEnv_def exEnv_def)
qed

lemma calmLinks: "underlayLinks (mapHost ctlWorld putWorld calmHost) (s, calmNet) = (Inr [], (s, calmNet))"
  by (simp add: underlayLinks_def scanLinks_def refreshLinks_def Links_def calmNet_def initialNetwork_def)

lemma simStart_unmanaged: "jPeers (ctlJournal simStart) = []"
  by (simp add: simStart_def)

lemma calmRun: "\<exists>m. meshRun calmMesh [] (newMesh calmMesh 0 9 (simStart, calmNet)) = (Inr (), m) \<and> managed (fst (meWorld m)) = {}"
  by (simp add: newMesh_def exConfig_def exSpec_def run_mesh meshPeerOf_def zeroRoute_def calmLinks calmVerified through_def putFst_def managed_def simStart_unmanaged)

theorem loop_manages_direct_witness:
  "\<exists>m. meshRun calmMesh [] (newMesh calmMesh 0 9 (simStart, calmNet)) = (Inr (), m) \<and>
    managed (fst (meWorld m)) = {key. \<exists>p. (key, p) \<in> set (mePeers m) \<and> rsPhase (mpRoute p) \<in> {PTrial, PActive}}"
proof -
  have start: "managed simStart = {}" by (simp add: managed_def simStart_unmanaged)
  obtain m where run: "meshRun calmMesh [] (newMesh calmMesh 0 9 (simStart, calmNet)) = (Inr (), m)" using calmRun by blast
  from loop_manages_direct[OF start run[unfolded calmMesh_def]] run show ?thesis by blast
qed

theorem service_ends_restored_witness:
  "\<exists>t. ctl_run simIO (outside calmHost simIO) simStart t \<and>
    snd (controlService calmHost simIO ''wg0'' ''config'' False [] 0 simStart) = snd (RestoreAll simIO t)"
proof -
  have start: "managed simStart = {}" by (simp add: managed_def simStart_unmanaged)
  obtain r s' where run: "controlService calmHost simIO ''wg0'' ''config'' False [] 0 simStart = (r, s')"
    by (cases "controlService calmHost simIO ''wg0'' ''config'' False [] 0 simStart")
  from service_ends_restored[OF simIO_observes start run] run show ?thesis by simp
qed

lemma calmHost_calls:
  "hsEnv calmHost = mapEnv (\<lambda>_. 0) (\<lambda>_ s. s) exEnv" "hsClient calmHost = (\<lambda>s. (Inr (), s))" "hsCloseClient calmHost = (\<lambda>s. s)"
  "hsStat calmHost = (\<lambda>_ s. (Some NotExist, s))" "hsOpenConfig calmHost = (\<lambda>_ s. (Inr (Some []), s))"
  "hsInterface calmHost = (\<lambda>_ s. (Inr simTunnel, s))" "hsInterfaces calmHost = (\<lambda>s. (Inr [], s))" "hsInterfaceIndex calmHost = (\<lambda>_ s. (Inr 5, s))"
  "hsRouteGet calmHost = (\<lambda>_ _ s. (Inr [\<lparr>reLink = 5, reMultiPath = 0\<rparr>], s))" "hsListen calmHost = (\<lambda>_ p s. (Inr p, s))"
  "hsShut calmHost = (\<lambda>_ s. (None, s))" "hsWatch calmHost = (\<lambda>s. (None, s))" "hsLeave calmHost = (\<lambda>_ s. s)"
  "hsGroupJoin calmHost = (\<lambda>_ s. (None, s))" "hsWrite calmHost = (\<lambda>_ _ _ _ _ s. (None, s))" "hsNotify calmHost = (\<lambda>_ s. s)"
  by (simp_all add: calmHost_def)

lemma calmHost_files: "hostKeeps (\<lambda>w. simFile w path = content) calmHost"
proof -
  have "envKeeps I (mapEnv (\<lambda>_. 0) (\<lambda>_ s. s) exEnv)" for I :: "sim \<Rightarrow> bool"
    by (simp add: envKeeps_def mapEnv_def preserves_def snd_through)
  then show ?thesis by (simp add: hostKeeps_def calmHost_calls preserves_def)
qed

theorem service_writes_announced_witness:
  "\<exists>s'. snd (controlService (mapHost fst putFst calmHost) (traced simIO simFile ''journal'') ''wg0'' ''config'' False [] 0 tracedStart) = s' \<and>
    list_all (announced simIO) (snd (ctlWorld s'))"
proof -
  obtain s' where run: "snd (controlService (mapHost fst putFst calmHost) (traced simIO simFile ''journal'') ''wg0'' ''config'' False [] 0 tracedStart) = s'"
    by simp
  have world: "ctlWorld tracedStart = (fst (ctlWorld tracedStart), [])" by (simp add: tracedStart_def)
  have none: "managed tracedStart = {}" by (simp add: tracedStart_def simStart_def managed_def)
  from service_writes_announced[OF simIO_durable simIO_hash calmHost_files tracedStart_facts(1) world none tracedStart_facts(3-5) run]
  have "list_all (announced simIO) (snd (ctlWorld s'))" by (fastforce simp: list_all_iff announced_def onDisk_def)
  with run show ?thesis by blast
qed

definition dryOptions :: options where
  "dryOptions = \<lparr>opWireguard = ''wg0'', opConfig = [], opState = [], opRestore = False, opDry = True, opAdapter = [], opNArg = 0\<rparr>"

theorem dry_run_reads_only_witness:
  "snd (snd (daemonRun (mapHost fst putFst calmHost) (traced simIO simFile ''journal'') dryOptions [] 0 (ctlWorld simStart, []))) = []"
  by (rule dry_run_reads_only) (simp_all add: dryOptions_def)

end
