(* ===== verification/Interfaces.thy ===== *)
theory Interfaces
  imports Control Network
begin

text \<open>
  Reading the interface table on Linux, \<^verbatim>\<open>network_linux.go\<close>.  A netlink handle is a
  parameter: it dumps links and addresses or looks one link up, and every call may
  fail.
\<close>

section \<open>What netlink reports\<close>

datatype operState = OperUnknown | OperNotPresent | OperDown | OperLowerLayerDown | OperTesting | OperDormant | OperUp

record linkAttrs =
  laIndex :: int
  laName :: string
  laFlags :: "64 word"
  laOperState :: operState

record netAddr =
  naLinkIndex :: int
  naFlags :: "64 word"
  naNet :: ipnet

datatype linkError = LinkNotFound | LinkFailed error

record 'w netlinkIO =
  nlNew :: "('w, unit) eff"
  nlClose :: "'w \<Rightarrow> 'w"
  nlLinkList :: "('w, linkAttrs list) eff"
  nlAddrList :: "linkAttrs option \<Rightarrow> ('w, netAddr list) eff"
  nlByName :: "string \<Rightarrow> ('w, linkAttrs) eff"
  nlByIndex :: "int \<Rightarrow> 'w \<Rightarrow> (linkError + linkAttrs) \<times> 'w"

section \<open>Reading it\<close>

text \<open>\<open>exists_file\<close> says which paths \<^verbatim>\<open>os.Stat\<close> finds; an interface name has no slash in it.\<close>

definition physicalInterface :: "(string \<Rightarrow> bool) \<Rightarrow> string \<Rightarrow> bool" where
  "physicalInterface exists_file name = exists_file (''/sys/class/net/'' @ name @ ''/device'')"

text \<open>The bits of \<^verbatim>\<open>net.Flags\<close>; an \<^verbatim>\<open>MTU\<close> and a hardware address are copied but never read.\<close>

definition linkInterface :: "linkAttrs \<Rightarrow> iface" where
  "linkInterface l = \<lparr>ifIndex = laIndex l, ifName = laName l, ifUp = bit (laFlags l) 0, ifBroadcast = bit (laFlags l) 1,
     ifLoopback = bit (laFlags l) 2, ifPointToPoint = bit (laFlags l) 3, ifMulticast = bit (laFlags l) 4\<rparr>"

text \<open>Tentative addresses and those that failed duplicate detection are left out, as are masks that do not parse.\<close>

fun addrPrefixes :: "netAddr list \<Rightarrow> prefix list" where
  "addrPrefixes [] = []"
| "addrPrefixes (a # as) =
    (if naFlags a AND (0x40 OR 0x08) \<noteq> 0 then addrPrefixes as
     else (case naNet a of Net p \<Rightarrow> p # addrPrefixes as | BadNet _ \<Rightarrow> addrPrefixes as))"

definition linkPrefixes :: "linkAttrs \<Rightarrow> netAddr list \<Rightarrow> prefix list" where
  "linkPrefixes l as =
    (if \<not> bit (laFlags l) 0 then []
     else if laOperState l \<in> {OperDown, OperLowerLayerDown, OperNotPresent} then []
     else addrPrefixes as)"

definition linkState :: "linkAttrs \<Rightarrow> netAddr list \<Rightarrow> interfaceState" where
  "linkState l as = \<lparr>isIface = linkInterface l, isPrefixes = linkPrefixes l as\<rparr>"

text \<open>The map from an interface index to its addresses, in the order of the dump.\<close>

definition indexed :: "netAddr \<Rightarrow> (int \<Rightarrow> netAddr list) \<Rightarrow> int \<Rightarrow> netAddr list" where
  "indexed a m = m(naLinkIndex a := m (naLinkIndex a) @ [a])"

definition byIndex :: "netAddr list \<Rightarrow> int \<Rightarrow> netAddr list" where
  "byIndex as = fold indexed as (\<lambda>_. [])"

definition readInterfaceStates :: "'w netlinkIO \<Rightarrow> ('w, interfaceState list) eff" where
  "readInterfaceStates nl = bindE (nlLinkList nl) (\<lambda>links. bindE (nlAddrList nl None) (\<lambda>addresses.
     returnE (map (\<lambda>l. linkState l (byIndex addresses (laIndex l))) links)))"

definition withHandle :: "'w netlinkIO \<Rightarrow> ('w, 'a) eff \<Rightarrow> ('w, 'a) eff" where
  "withHandle nl m = thenE (nlNew nl) (\<lambda>w. case m w of (r, w') \<Rightarrow> (r, nlClose nl w'))"

definition readInterfaces :: "'w netlinkIO \<Rightarrow> ('w, interfaceState list) eff" where
  "readInterfaces nl = withHandle nl (readInterfaceStates nl)"

definition readInterface :: "'w netlinkIO \<Rightarrow> string \<Rightarrow> ('w, interfaceState) eff" where
  "readInterface nl name = withHandle nl (bindE (nlByName nl name) (\<lambda>l. bindE (nlAddrList nl (Some l)) (\<lambda>addresses.
     returnE (linkState l addresses))))"

text \<open>An interface that has gone, or whose index now belongs to another name, has no prefixes.\<close>

definition interfacePrefixes :: "'w netlinkIO \<Rightarrow> iface \<Rightarrow> ('w, prefix list) eff" where
  "interfacePrefixes nl i = withHandle nl (\<lambda>w. case nlByIndex nl (ifIndex i) w of
      (Inl LinkNotFound, w') \<Rightarrow> (Inr [], w')
    | (Inl (LinkFailed e), w') \<Rightarrow> (Inl e, w')
    | (Inr l, w') \<Rightarrow>
        if laName l \<noteq> ifName i then (Inr [], w')
        else bindE (nlAddrList nl (Some l)) (\<lambda>addresses. returnE (linkPrefixes l addresses)) w')"

section \<open>Other systems\<close>

text \<open>
  \<^verbatim>\<open>network_other.go\<close> asks package \<^verbatim>\<open>net\<close>, one interface at a time; no interface counts
  as physical there and nothing is watched.
\<close>

record 'w netIO =
  niInterfaces :: "('w, iface list) eff"
  niByName :: "string \<Rightarrow> ('w, iface) eff"
  niAddrs :: "iface \<Rightarrow> ('w, ipnet list) eff"

fun parsedPrefixes :: "ipnet list \<Rightarrow> prefix list" where
  "parsedPrefixes [] = []"
| "parsedPrefixes (a # as) = (case a of Net p \<Rightarrow> p # parsedPrefixes as | BadNet _ \<Rightarrow> parsedPrefixes as)"

definition otherPrefixes :: "'w netIO \<Rightarrow> iface \<Rightarrow> ('w, prefix list) eff" where
  "otherPrefixes ni i = bindE (niAddrs ni i) (\<lambda>addresses. returnE (parsedPrefixes addresses))"

fun otherStates :: "'w netIO \<Rightarrow> iface list \<Rightarrow> ('w, interfaceState list) eff" where
  "otherStates ni [] = returnE []"
| "otherStates ni (i # is) = bindE (otherPrefixes ni i) (\<lambda>prefixes. bindE (otherStates ni is) (\<lambda>states.
     returnE (\<lparr>isIface = i, isPrefixes = prefixes\<rparr> # states)))"

definition otherReadInterfaces :: "'w netIO \<Rightarrow> ('w, interfaceState list) eff" where
  "otherReadInterfaces ni = bindE (niInterfaces ni) (otherStates ni)"

definition otherReadInterface :: "'w netIO \<Rightarrow> string \<Rightarrow> ('w, interfaceState) eff" where
  "otherReadInterface ni name = bindE (niByName ni name) (\<lambda>i. bindE (otherPrefixes ni i) (\<lambda>prefixes.
     returnE \<lparr>isIface = i, isPrefixes = prefixes\<rparr>))"

section \<open>Group membership\<close>

text \<open>
  Joining and leaving goes to the socket of the group's family; the first argument of
  the two calls tells which.  \<open>Links\<close> only asks for groups whose socket is open.
\<close>

record 'w groupIO =
  gmJoin :: "bool \<Rightarrow> int \<Rightarrow> string \<Rightarrow> addr \<Rightarrow> 'w \<Rightarrow> error option \<times> 'w"
  gmLeave :: "bool \<Rightarrow> int \<Rightarrow> string \<Rightarrow> addr \<Rightarrow> 'w \<Rightarrow> error option \<times> 'w"

definition groupMembership :: "'w groupIO \<Rightarrow> membership \<Rightarrow> bool \<Rightarrow> 'w \<Rightarrow> error option \<times> 'w" where
  "groupMembership g key join =
    (if join then gmJoin g (is4 (mbGroup key)) (mbIndex key) (mbName key) (mbGroup key)
     else gmLeave g (is4 (mbGroup key)) (mbIndex key) (mbName key) (mbGroup key))"

section \<open>Two dumps and one query per interface\<close>

lemma byIndex_filter: "byIndex as i = filter (\<lambda>a. naLinkIndex a = i) as"
proof -
  have "fold indexed as m i = m i @ filter (\<lambda>a. naLinkIndex a = i) as" for m
    by (induction as arbitrary: m) (simp_all add: indexed_def)
  then show ?thesis by (simp add: byIndex_def)
qed

lemma addrPrefixes_mem: "p \<in> set (addrPrefixes as) \<longleftrightarrow> (\<exists>a \<in> set as. naFlags a AND 0x48 = 0 \<and> naNet a = Net p)"
  by (induction as) (auto split: ipnet.split)

text \<open>
  Where every address is settled and its interface up and operational, both
  implementations report the same prefixes.
\<close>

lemma settled_prefixes:
  assumes "bit (laFlags l) 0" and "laOperState l \<notin> {OperDown, OperLowerLayerDown, OperNotPresent}" and "\<forall>a \<in> set as. naFlags a AND 0x48 = 0"
  shows "linkPrefixes l as = parsedPrefixes (map naNet as)"
proof -
  have "addrPrefixes as = parsedPrefixes (map naNet as)" using assms(3) by (induction as) (auto split: ipnet.split)
  with assms show ?thesis by (auto simp: linkPrefixes_def)
qed

text \<open>
  What a kernel that answers truthfully returns: the links and addresses of its
  table, and for one link the addresses with its index.
\<close>

definition truthful :: "'w netlinkIO \<Rightarrow> linkAttrs list \<Rightarrow> netAddr list \<Rightarrow> bool" where
  "truthful nl links addresses \<longleftrightarrow>
     (\<forall>w ls. fst (nlLinkList nl w) = Inr ls \<longrightarrow> ls = links) \<and>
     (\<forall>w as. fst (nlAddrList nl None w) = Inr as \<longrightarrow> as = addresses) \<and>
     (\<forall>w l as. fst (nlAddrList nl (Some l) w) = Inr as \<longrightarrow> as = filter (\<lambda>a. naLinkIndex a = laIndex l) addresses) \<and>
     (\<forall>w n l. fst (nlByName nl n w) = Inr l \<longrightarrow> l \<in> set links \<and> laName l = n) \<and>
     (\<forall>w i l. fst (nlByIndex nl i w) = Inr l \<longrightarrow> l \<in> set links \<and> laIndex l = i)"

lemma withHandle_result: "fst (withHandle nl m w) = Inr a \<Longrightarrow> \<exists>w'. fst (m w') = Inr a"
  by (auto simp: withHandle_def thenE_def bindE_def split: prod.splits sum.splits) (metis fst_conv)

lemma bindE_Inr: "fst (bindE m f w) = Inr b \<Longrightarrow> \<exists>a w'. fst (m w) = Inr a \<and> fst (f a w') = Inr b"
  by (auto simp: bindE_def split: prod.splits sum.splits)

text \<open>
  C40: One pair of dumps serves all interfaces.  On a kernel that answers truthfully, reading all
  interfaces gives one entry per link in the order of the dump, and the entry of an interface is
  the one that reading it alone, by name, returns: grouping the addresses of the single dump by
  interface index neither loses, adds nor reorders an address.  An address is reported exactly
  when its interface is up and operational and it is not tentative or a duplicate.
\<close>

theorem dumps_match_queries:
  assumes "truthful nl links addresses" and "fst (readInterfaces nl w) = Inr states"
  shows "length states = length links \<and>
    (\<forall>name v st. fst (readInterface nl name v) = Inr st \<longrightarrow> st \<in> set states \<and> ifName (isIface st) = name) \<and>
    (\<forall>i < length links. ifIndex (isIface (states ! i)) = laIndex (links ! i) \<and>
       (\<forall>p. p \<in> set (isPrefixes (states ! i)) \<longleftrightarrow>
          bit (laFlags (links ! i)) 0 \<and> laOperState (links ! i) \<notin> {OperDown, OperLowerLayerDown, OperNotPresent} \<and>
          (\<exists>a \<in> set addresses. naLinkIndex a = laIndex (links ! i) \<and> naFlags a AND 0x48 = 0 \<and> naNet a = Net p)))"
proof -
  have states: "states = map (\<lambda>l. linkState l (filter (\<lambda>a. naLinkIndex a = laIndex l) addresses)) links"
    using assms unfolding readInterfaces_def readInterfaceStates_def truthful_def
    by (auto dest!: withHandle_result bindE_Inr simp: returnE_def byIndex_filter)
  have "st \<in> set states \<and> ifName (isIface st) = name" if read: "fst (readInterface nl name v) = Inr st" for name v st
  proof -
    obtain u where "fst (bindE (nlByName nl name) (\<lambda>l. bindE (nlAddrList nl (Some l)) (\<lambda>as. returnE (linkState l as))) u) = Inr st"
      using withHandle_result[OF read[unfolded readInterface_def]] by blast
    then obtain l u1 u2 as where "fst (nlByName nl name u) = Inr l" "fst (nlAddrList nl (Some l) u1) = Inr as" "st = linkState l as"
      by (auto dest!: bindE_Inr simp: returnE_def)
    with assms(1) show ?thesis by (auto simp: truthful_def states linkState_def linkInterface_def)
  qed
  moreover have "ifIndex (isIface (states ! i)) = laIndex (links ! i)" if "i < length links" for i
    using that by (simp add: states linkState_def linkInterface_def)
  moreover have "p \<in> set (isPrefixes (states ! i)) \<longleftrightarrow>
          bit (laFlags (links ! i)) 0 \<and> laOperState (links ! i) \<notin> {OperDown, OperLowerLayerDown, OperNotPresent} \<and>
          (\<exists>a \<in> set addresses. naLinkIndex a = laIndex (links ! i) \<and> naFlags a AND 0x48 = 0 \<and> naNet a = Net p)" if "i < length links" for i p
    using that by (auto simp: states linkState_def linkPrefixes_def addrPrefixes_mem)
  ultimately show ?thesis by (simp add: states)
qed

end
