(* ===== verification/Rosenpass.thy ===== *)
theory Rosenpass
  imports Psk Interfaces
begin

text \<open>
  The Rosenpass adapter, \<^verbatim>\<open>rosenpass_linux.go\<close> and \<^verbatim>\<open>rosenpass.go\<close>: an unprivileged
  process that runs one Rosenpass child for one peer, publishes the key the child
  negotiates in a file, and answers the daemon's questions about it over a socket.

  All handlers of the adapter hold its mutex while they run, so an execution is a
  sequence of them: a request, a tick, a line of the child's output, its end.
\<close>

section \<open>Configuration\<close>

record rosenpassConfig =
  rpExecutable :: string
  rpPeer :: string
  rpPublicKeyFile :: string
  rpSecretKeyFile :: string
  rpPeerPublicKeyFile :: string
  rpListenPort :: "16 word"
  rpRemotePort :: "16 word"
  rpPSKFile :: string
  rpRuntimeDir :: string
  rpSocket :: string
  rpDaemonUID :: "32 word option"

abbreviation slash :: char where "slash \<equiv> CHR ''/''"

definition isAbs :: "string \<Rightarrow> bool" where
  "isAbs p \<longleftrightarrow> p \<noteq> [] \<and> hd p = slash"

fun splitSlash :: "string \<Rightarrow> string list" where
  "splitSlash [] = [[]]"
| "splitSlash (ch # s) = (if ch = slash then [] # splitSlash s else (ch # hd (splitSlash s)) # tl (splitSlash s))"

text \<open>
  \<^verbatim>\<open>filepath.Clean\<close> leaves an absolute path as it is exactly when it is the root or
  its elements are neither empty nor \<^verbatim>\<open>.\<close> nor \<^verbatim>\<open>..\<close>; and \<^verbatim>\<open>filepath.Join\<close> of such a
  path and a name appends the name.
\<close>

definition cleanAbs :: "string \<Rightarrow> bool" where
  "cleanAbs p \<longleftrightarrow> p = [slash] \<or> (isAbs p \<and> list_all (\<lambda>e. e \<noteq> [] \<and> e \<noteq> ''.'' \<and> e \<noteq> ''..'') (splitSlash (tl p)))"

definition joinPath :: "string \<Rightarrow> string \<Rightarrow> string" where
  "joinPath dir name = (if dir = [slash] then slash # name else dir @ slash # name)"

text \<open>\<^verbatim>\<open>filepath.Dir\<close> of a clean path.\<close>

definition dirOf :: "string \<Rightarrow> string" where
  "dirOf p = (if slash \<notin> set p then ''.'' else
     let d = rev (tl (dropWhile (\<lambda>ch. ch \<noteq> slash) (rev p))) in if d = [] then [slash] else d)"

definition pathsOf :: "rosenpassConfig \<Rightarrow> string list" where
  "pathsOf c = [rpExecutable c, rpPublicKeyFile c, rpSecretKeyFile c, rpPeerPublicKeyFile c, rpPSKFile c, rpRuntimeDir c, rpSocket c]"

fun badPaths :: "string \<Rightarrow> string list \<Rightarrow> string list \<Rightarrow> bool" where
  "badPaths lock before [] = False"
| "badPaths lock before (p # ps) =
    (\<not> cleanAbs p \<or> CHR 0x00 \<in> set p \<or> CHR 0x0d \<in> set p \<or> CHR 0x0a \<in> set p \<or> p \<in> set before \<or> p = lock \<or>
     badPaths lock (before @ [p]) ps)"

text \<open>\<open>body\<close> is the configuration as far as it was read; \<open>decode\<close> also tells whether nothing follows the value.\<close>

definition readRosenpassConfig :: "(bytes \<Rightarrow> (rosenpassConfig \<times> bool) option) \<Rightarrow> (string \<Rightarrow> wgkey option) \<Rightarrow> (wgkey \<Rightarrow> string) \<Rightarrow>
    bytes option \<Rightarrow> error + rosenpassConfig" where
  "readRosenpassConfig decode parseKey keyString body =
    (case body of
       None \<Rightarrow> Inl (Msg ''Rosenpass configuration exceeds 16 KiB or is unreadable'')
     | Some b \<Rightarrow>
         if length b > 16384 then Inl (Msg ''Rosenpass configuration exceeds 16 KiB or is unreadable'')
         else (case decode b of
             None \<Rightarrow> Inl (Msg ''invalid Rosenpass configuration JSON'')
           | Some (c, ended) \<Rightarrow>
               if \<not> ended then Inl (Msg ''invalid Rosenpass configuration JSON'')
               else if (case parseKey (rpPeer c) of None \<Rightarrow> True | Some key \<Rightarrow> key = 0 \<or> keyString key \<noteq> rpPeer c) \<or>
                   rpListenPort c < 1024 \<or> rpRemotePort c < 1024 \<or> rpDaemonUID c = None
               then Inl (Msg ''set a fixed WireGuard peer, unprivileged ports, and daemon_uid'')
               else if badPaths (joinPath (rpRuntimeDir c) ''adapter.lock'') [] (pathsOf c)
               then Inl (Msg ''Rosenpass paths must be distinct, clean, and absolute'')
               else Inr c))"

section \<open>State\<close>

text \<open>A child is known by the identity of its process, the pointer of the source.\<close>

record rosenpassChild =
  chId :: nat
  chGeneration :: "64 word"
  chDir :: string
  chRaw :: string
  chStopEvent :: string

record 'w rosenpassAdapter =
  raStatus :: rosenpassResponse
  raEndpoint :: rosenpassRequest
  raChild :: "rosenpassChild option"
  raErr :: "error option"
  raLastHash :: hash
  raRetryAfter :: time
  raWorld :: 'w

text \<open>
  What the adapter calls: the code of \<^verbatim>\<open>psk.go\<close> and its text forms through \<open>apEnv\<close>,
  netlink, files, and processes.  \<open>apDone\<close> polls the child's \<^verbatim>\<open>done\<close> channel and
  \<open>apWait\<close> waits for it for a second; \<open>apExec\<close> opens the pipe and starts the command
  in its directory with its output on that pipe.
\<close>

record ('k, 'h, 'r, 'w) adapterIO =
  apEnv :: "('k, 'h, 'r, 'w) meshEnv"
  apNetlink :: "'w netlinkIO"
  apInterface :: "int \<Rightarrow> ('w, iface) eff"
  apRemove :: "string \<Rightarrow> 'w \<Rightarrow> fsError option \<times> 'w"
  apRemoveAll :: "string \<Rightarrow> ('w, unit) eff"
  apLstat :: "string \<Rightarrow> 'w \<Rightarrow> (fsError + fileStatus) \<times> 'w"
  apMkdirTemp :: "string \<Rightarrow> string \<Rightarrow> ('w, string) eff"
  apWriteEmpty :: "string \<Rightarrow> ('w, unit) eff"
  apCreateTemp :: "string \<Rightarrow> string \<Rightarrow> ('w, string) eff"
  apChmod :: "string \<Rightarrow> nat \<Rightarrow> ('w, unit) eff"
  apWrite :: "string \<Rightarrow> string \<Rightarrow> ('w, unit) eff"
  apSync :: "string \<Rightarrow> ('w, unit) eff"
  apClose :: "string \<Rightarrow> ('w, unit) eff"
  apRename :: "string \<Rightarrow> string \<Rightarrow> ('w, unit) eff"
  apExec :: "string \<Rightarrow> string list \<Rightarrow> string \<Rightarrow> ('w, nat) eff"
  apKill :: "nat \<Rightarrow> 'w \<Rightarrow> 'w"
  apDone :: "nat \<Rightarrow> 'w \<Rightarrow> bool \<times> 'w"
  apWait :: "nat \<Rightarrow> 'w \<Rightarrow> bool \<times> 'w"
  apBase64 :: "string \<Rightarrow> bytes option"
  apUid :: "32 word"
  apOpenConfig :: "string \<Rightarrow> ('w, bytes option) eff"
  apDecodeConfig :: "bytes \<Rightarrow> (rosenpassConfig \<times> bool) option"
  apOpenLock :: "string \<Rightarrow> ('w, unit) eff"
  apFlock :: "string \<Rightarrow> ('w, unit) eff"
  apCloseLock :: "string \<Rightarrow> 'w \<Rightarrow> 'w"
  apRandomId :: "('w, string) eff"
  apListen :: "string \<Rightarrow> ('w, unit) eff"
  apCloseListener :: "'w \<Rightarrow> 'w"
  apDecodeRequest :: "bytes \<Rightarrow> (rosenpassRequest \<times> bool) option"

definition zeroRequest :: rosenpassRequest where
  "zeroRequest = \<lparr>rqPeer = [], rqAddress = NoAddr, rqLink = noLink\<rparr>"

definition rosenpassLifetime :: duration where "rosenpassLifetime = 3 * minute"
definition rosenpassTimeout :: duration where "rosenpassTimeout = 2 * second"
definition rosenpassRPCSize :: nat where "rosenpassRPCSize = 4096"

definition onFiles :: "('w, 'a) eff \<Rightarrow> ('w rosenpassAdapter, 'a) eff" where
  "onFiles m s = (case m (raWorld s) of (r, w) \<Rightarrow> (r, s\<lparr>raWorld := w\<rparr>))"

definition pollFiles :: "('w \<Rightarrow> 'a \<times> 'w) \<Rightarrow> ('w rosenpassAdapter, 'a) eff" where
  "pollFiles m = onFiles (\<lambda>w. case m w of (a, w') \<Rightarrow> (Inr a, w'))"

definition setErr :: "string \<Rightarrow> ('w rosenpassAdapter, unit) eff" where
  "setErr msg = modifyE (\<lambda>s. s\<lparr>raErr := Some (Msg msg)\<rparr>)"

text \<open>Return the error the adapter has recorded, if any.\<close>

definition recordedErr :: "('w rosenpassAdapter, unit) eff" where
  "recordedErr = bindE (getsE raErr) liftErr"

section \<open>Withdrawing the key and stopping the child\<close>

definition invalidate :: "('k, 'h, 'r, 'w) adapterIO \<Rightarrow> rosenpassConfig \<Rightarrow> ('w rosenpassAdapter, unit) eff" where
  "invalidate io c =
     thenE (modifyE (\<lambda>s. s\<lparr>raStatus := (raStatus s)\<lparr>rrValid := False, rrHash := 0, rrExpires := 0\<rparr>\<rparr>))
    (thenE (bindE (pollFiles (apRemove io (rpPSKFile c))) (\<lambda>r.
              if r = None \<or> r = Some NotExist then returnE () else setErr ''cannot invalidate Rosenpass output''))
           recordedErr)"

definition stopChild :: "('k, 'h, 'r, 'w) adapterIO \<Rightarrow> rosenpassChild \<Rightarrow> ('w rosenpassAdapter, unit) eff" where
  "stopChild io child =
     thenE (modifyE (\<lambda>s. s\<lparr>raWorld := apKill io (chId child) (raWorld s)\<rparr>))
    (bindE (pollFiles (apWait io (chId child))) (\<lambda>ended.
       if ended then bindE (tryE (onFiles (apRemoveAll io (chDir child)))) (\<lambda>r. case r of
           Inr _ \<Rightarrow> returnE () | Inl _ \<Rightarrow> setErr ''cannot remove Rosenpass child files'')
       else setErr ''Rosenpass child did not stop; refusing to start another''))"

text \<open>
  The current child is forgotten before it is killed: that none is current does not say that the
  process has ended.  That is the subject of \<^verbatim>\<open>RosenpassChildren\<close>.
\<close>

definition stop :: "('k, 'h, 'r, 'w) adapterIO \<Rightarrow> rosenpassConfig \<Rightarrow> ('w rosenpassAdapter, unit) eff" where
  "stop io c =
     bindE (tryE (invalidate io c)) (\<lambda>_. bindE (getsE raChild) (\<lambda>child.
     thenE (modifyE (\<lambda>s. s\<lparr>raChild := None\<rparr>))
    (thenE (case child of None \<Rightarrow> returnE () | Some ch \<Rightarrow> stopChild io ch) recordedErr)))"

definition refreshAdapter :: "('k, 'h, 'r, 'w) adapterIO \<Rightarrow> rosenpassConfig \<Rightarrow> time \<Rightarrow> ('w rosenpassAdapter, unit) eff" where
  "refreshAdapter io c now = bindE (getsE raChild) (\<lambda>child.
     bindE (case child of None \<Rightarrow> returnE False | Some ch \<Rightarrow> pollFiles (apDone io (chId ch))) (\<lambda>ended.
     if ended then stop io c
     else bindE (getsE raStatus) (\<lambda>status.
       if rrValid status \<and> (child = None \<or> \<not> now < rrExpires status) then invalidate io c else recordedErr)))"

section \<open>Starting a child\<close>

definition childCommand :: "('k, 'h, 'r, 'w) adapterIO \<Rightarrow> rosenpassConfig \<Rightarrow> rosenpassRequest \<Rightarrow> string list" where
  "childCommand io c r =
    (let local = pAddr (lkPrefix (rqLink r));
         source = (if is6 local \<and> isLinkLocalUnicast local then withZone (enItoa (apEnv io) (lkIndex (rqLink r))) local else local)
     in [''exchange'', ''public-key'', rpPublicKeyFile c, ''secret-key'', rpSecretKeyFile c,
         ''listen'', enAddrPortText (apEnv io) (source, rpListenPort c),
         ''peer'', ''public-key'', rpPeerPublicKeyFile c, ''endpoint'', enAddrPortText (apEnv io) (rqAddress r, rpRemotePort c),
         ''outfile'', ''psk.raw''])"

text \<open>A failure after the directory was made removes it again.\<close>

definition startProcess :: "('k, 'h, 'r, 'w) adapterIO \<Rightarrow> rosenpassConfig \<Rightarrow> rosenpassRequest \<Rightarrow> 64 word \<Rightarrow> ('w, rosenpassChild) eff" where
  "startProcess io c r generation = bindE (apMkdirTemp io (rpRuntimeDir c) ''child-'') (\<lambda>dir.
     bindE (tryE (thenE (apWriteEmpty io (joinPath dir ''psk.raw'')) (apExec io (rpExecutable c) (childCommand io c r) dir))) (\<lambda>res. case res of
       Inl e \<Rightarrow> bindE (tryE (apRemoveAll io dir)) (\<lambda>_. throwE e)
     | Inr pid \<Rightarrow> returnE \<lparr>chId = pid, chGeneration = generation, chDir = dir, chRaw = joinPath dir ''psk.raw'', chStopEvent = []\<rparr>))"

section \<open>Requests\<close>

definition badEndpoint :: "(int \<Rightarrow> string) \<Rightarrow> rosenpassRequest \<Rightarrow> iface \<Rightarrow> prefix list \<Rightarrow> bool" where
  "badEndpoint itoa r i prefixes \<longleftrightarrow>
    (let p = lkPrefix (rqLink r); remote = withZone [] (rqAddress r); z = zone (rqAddress r) in
     ifIndex i \<le> 0 \<or> lkIndex (rqLink r) \<noteq> ifIndex i \<or> lkName (rqLink r) \<noteq> ifName i \<or>
     \<not> ifUp i \<or> ifLoopback i \<or> ifPointToPoint i \<or>
     \<not> pValid p \<or> pBits p = 0 \<or> p \<notin> set prefixes \<or>
     \<not> usableLinkAddress (pAddr p) \<or> isLoopback (pAddr p) \<or> \<not> usableLinkAddress remote \<or> isLoopback remote \<or>
     \<not> contains p remote \<or> remote = pAddr p \<or> remote = broadcastAddress p \<or>
     (is4 (pAddr p) \<and> pBits p \<le> 30 \<and> remote = pAddr (masked p)) \<or>
     (z \<noteq> [] \<and> (is4 remote \<or> (z \<noteq> ifName i \<and> z \<noteq> itoa (ifIndex i)))))"

definition rosenpassOnLink :: "(int \<Rightarrow> string) \<Rightarrow> rosenpassRequest \<Rightarrow> iface \<Rightarrow> prefix list \<Rightarrow> error + rosenpassRequest" where
  "rosenpassOnLink itoa r i prefixes =
    (if badEndpoint itoa r i prefixes
     then Inl (Msg ''Rosenpass endpoint must use an assigned interface address and an on-link unicast peer'')
     else let remote = withZone [] (rqAddress r) in
       Inr (r\<lparr>rqAddress := (if is6 remote \<and> isLinkLocalUnicast remote then withZone (itoa (ifIndex i)) remote else remote),
              rqLink := \<lparr>lkIndex = ifIndex i, lkName = ifName i, lkPrefix = lkPrefix (rqLink r), lkBroadcast = NoAddr, lkMulticast = False\<rparr>\<rparr>))"

definition validateRosenpassRequest :: "('k, 'h, 'r, 'w) adapterIO \<Rightarrow> rosenpassRequest \<Rightarrow> ('w, rosenpassRequest) eff" where
  "validateRosenpassRequest io r = bindE (tryE (apInterface io (lkIndex (rqLink r)))) (\<lambda>found. case found of
      Inl _ \<Rightarrow> throwE (Msg ''Rosenpass interface is unavailable'')
    | Inr i \<Rightarrow> bindE (tryE (interfacePrefixes (apNetlink io) i)) (\<lambda>read. case read of
        Inl _ \<Rightarrow> throwE (Msg ''Rosenpass interface addresses are unavailable'')
      | Inr prefixes \<Rightarrow> (case rosenpassOnLink (enItoa (apEnv io)) r i prefixes of Inl e \<Rightarrow> throwE e | Inr r' \<Rightarrow> returnE r')))"

text \<open>A new child, at most one a second; a failed start leaves no child.\<close>

definition startChild :: "('k, 'h, 'r, 'w) adapterIO \<Rightarrow> rosenpassConfig \<Rightarrow> rosenpassRequest \<Rightarrow> time \<Rightarrow> ('w rosenpassAdapter, unit) eff" where
  "startChild io c r now = bindE (getsE (\<lambda>s. rrGeneration (raStatus s) + 1)) (\<lambda>generation.
     thenE (modifyE (\<lambda>s. s\<lparr>raStatus := (raStatus s)\<lparr>rrGeneration := generation\<rparr>, raLastHash := 0, raRetryAfter := now + second\<rparr>))
    (bindE (tryE (onFiles (startProcess io c r generation))) (\<lambda>res. case res of
        Inl _ \<Rightarrow> thenE (modifyE (\<lambda>s. s\<lparr>raChild := None\<rparr>)) (throwE (Msg ''cannot start Rosenpass child''))
      | Inr child \<Rightarrow> modifyE (\<lambda>s. s\<lparr>raChild := Some child\<rparr>))))"

definition changeEndpoint :: "('k, 'h, 'r, 'w) adapterIO \<Rightarrow> rosenpassConfig \<Rightarrow> rosenpassRequest \<Rightarrow> ('w rosenpassAdapter, unit) eff" where
  "changeEndpoint io c r = bindE (getsE raEndpoint) (\<lambda>endpoint.
     if r \<noteq> endpoint then thenE (stop io c) (modifyE (\<lambda>s. s\<lparr>raEndpoint := r, raRetryAfter := 0\<rparr>)) else returnE ())"

definition withdraw :: "('k, 'h, 'r, 'w) adapterIO \<Rightarrow> rosenpassConfig \<Rightarrow> ('w rosenpassAdapter, rosenpassResponse) eff" where
  "withdraw io c = thenE (modifyE (\<lambda>s. s\<lparr>raEndpoint := zeroRequest\<rparr>)) (thenE (stop io c) (getsE raStatus))"

definition request :: "('k, 'h, 'r, 'w) adapterIO \<Rightarrow> rosenpassConfig \<Rightarrow> rosenpassRequest \<Rightarrow> time \<Rightarrow> ('w rosenpassAdapter, rosenpassResponse) eff" where
  "request io c r now =
    (if rqPeer r \<noteq> rpPeer c then throwE (Msg ''unknown Rosenpass WireGuard peer'')
     else if rqAddress r = NoAddr then withdraw io c
     else bindE (tryE (onFiles (validateRosenpassRequest io r))) (\<lambda>valid. case valid of
         Inl e \<Rightarrow> bindE (tryE (stop io c)) (\<lambda>res. throwE (case res of Inl e' \<Rightarrow> Joined e e' | Inr _ \<Rightarrow> e))
       | Inr r' \<Rightarrow>
           thenE (refreshAdapter io c now)
          (thenE (changeEndpoint io c r')
          (bindE (getsE (\<lambda>s. raChild s = None \<and> \<not> now < raRetryAfter s)) (\<lambda>due.
           thenE (if due then startChild io c r' now else returnE ()) (getsE raStatus))))))"

section \<open>The output of the child\<close>

text \<open>The leading white space of a UTF-8 string.\<close>

definition spaceRunes :: "string list" where
  "spaceRunes = [[CHR 0x09], [CHR 0x0a], [CHR 0x0b], [CHR 0x0c], [CHR 0x0d], [CHR 0x20], [CHR 0xc2, CHR 0x85], [CHR 0xc2, CHR 0xa0],
     [CHR 0xe1, CHR 0x9a, CHR 0x80], [CHR 0xe2, CHR 0x80, CHR 0xa8], [CHR 0xe2, CHR 0x80, CHR 0xa9], [CHR 0xe2, CHR 0x80, CHR 0xaf],
     [CHR 0xe2, CHR 0x81, CHR 0x9f], [CHR 0xe3, CHR 0x80, CHR 0x80]] @
     map (\<lambda>b. [CHR 0xe2, CHR 0x80, b]) [CHR 0x80, CHR 0x81, CHR 0x82, CHR 0x83, CHR 0x84, CHR 0x85, CHR 0x86, CHR 0x87, CHR 0x88, CHR 0x89, CHR 0x8a]"

definition leadingSpace :: "string \<Rightarrow> string option" where
  "leadingSpace s = find (\<lambda>sp. take (length sp) s = sp) spaceRunes"

lemma spaceRunes_nonempty: "[] \<notin> set spaceRunes"
  by (simp add: spaceRunes_def)

lemma leadingSpace_shorter:
  assumes "leadingSpace s = Some sp"
  shows "0 < length sp \<and> length sp \<le> length s"
proof -
  have "sp \<in> set spaceRunes" and eq: "take (length sp) s = sp"
    using assms by (auto simp: leadingSpace_def find_Some_iff)
  moreover have "length sp \<le> length s" using arg_cong[OF eq, of length] by simp
  ultimately show ?thesis using spaceRunes_nonempty by (metis length_greater_0_conv)
qed

function trimLeft :: "string \<Rightarrow> string" where
  "trimLeft s = (case leadingSpace s of None \<Rightarrow> s | Some sp \<Rightarrow> trimLeft (drop (length sp) s))"
  by auto
termination
proof (relation "measure length")
  fix s sp assume "leadingSpace s = Some sp"
  from leadingSpace_shorter[OF this] show "(drop (length sp) s, s) \<in> measure length" by (cases s) auto
qed simp

definition hasPrefix :: "string \<Rightarrow> string \<Rightarrow> bool" where
  "hasPrefix s p \<longleftrightarrow> take (length p) s = p"

datatype outputEvent = NoEvent | InvalidEvent | Exchanged | Stale

definition outputPrefix :: string where
  "outputPrefix = ''output-key peer ''"

definition parseRosenpassEvent :: "(string \<Rightarrow> bytes option) \<Rightarrow> string \<Rightarrow> outputEvent" where
  "parseRosenpassEvent base64 line =
    (if \<not> hasPrefix (trimLeft line) ''output-key'' then NoEvent
     else if \<not> hasPrefix line outputPrefix \<or> length line < length outputPrefix + 44 then InvalidEvent
     else (case base64 (take 44 (drop (length outputPrefix) line)) of
         None \<Rightarrow> InvalidEvent
       | Some decoded \<Rightarrow>
           if length decoded \<noteq> 32 then InvalidEvent
           else let rest = drop (length outputPrefix + 44) line in
             if rest = '' key-file '' @ [CHR 0x22] @ ''psk.raw'' @ [CHR 0x22] @ '' exchanged'' then Exchanged
             else if rest = '' key-file '' @ [CHR 0x22] @ ''psk.raw'' @ [CHR 0x22] @ '' stale'' then Stale
             else InvalidEvent))"

text \<open>The temporary file is closed and removed when the function returns; both have no effect after the rename.\<close>

definition publishRosenpassPSK :: "('k, 'h, 'r, 'w) adapterIO \<Rightarrow> string \<Rightarrow> wgkey \<Rightarrow> ('w, unit) eff" where
  "publishRosenpassPSK io path key = bindE (apCreateTemp io (dirOf path) ''.rosenpass-psk-'') (\<lambda>f.
     bindE (tryE (thenE (apChmod io f 416)
                 (thenE (apWrite io f (enKeyString (apEnv io) key @ [CHR 0x0a]))
                 (thenE (apSync io f) (thenE (apClose io f) (apRename io f path)))))) (\<lambda>r.
     bindE (tryE (apClose io f)) (\<lambda>_.
     thenE (modifyE (\<lambda>w. snd (apRemove io f w))) (case r of Inl e \<Rightarrow> throwE e | Inr _ \<Rightarrow> returnE ()))))"

definition rawSpec :: "string \<Rightarrow> peerSpec" where
  "rawSpec raw = \<lparr>psPublicKey = [], psIP = NoAddr, psPresharedKey = [], psFile = raw, psMaxAge = None, psSocket = [], psRekey = False, psKey = 0, psPsk = 0\<rparr>"

definition readRaw :: "('k, 'h, 'r, 'w) adapterIO \<Rightarrow> string \<Rightarrow> time \<Rightarrow> 'w \<Rightarrow> wgkey option \<times> 'w" where
  "readRaw io raw seen w = (case enPskFile (apEnv io) raw w of (f, w') \<Rightarrow> (readKeyFile (apEnv io) (rawSpec raw) seen f, w'))"

text \<open>A raw file written before the event is not given a new lifetime by it.\<close>

definition keyExpires :: "time \<Rightarrow> time \<Rightarrow> time" where
  "keyExpires seen modified =
    (let bound = modified + rosenpassLifetime in
     if bound < seen + rosenpassLifetime then seen + timeSub bound seen else seen + rosenpassLifetime)"

definition acceptKey :: "('k, 'h, 'r, 'w) adapterIO \<Rightarrow> rosenpassConfig \<Rightarrow> string \<Rightarrow> wgkey \<Rightarrow> time \<Rightarrow> ('w rosenpassAdapter, unit) eff" where
  "acceptKey io c raw key seen = bindE (pollFiles (apLstat io raw)) (\<lambda>info. case info of
      Inl _ \<Rightarrow> invalidate io c
    | Inr st \<Rightarrow>
        if \<not> seen < keyExpires seen (fsModTime st) then invalidate io c
        else bindE (tryE (onFiles (publishRosenpassPSK io (rpPSKFile c) key))) (\<lambda>res. case res of
            Inl _ \<Rightarrow> invalidate io c
          | Inr _ \<Rightarrow> modifyE (\<lambda>s. s\<lparr>raLastHash := enHash (apEnv io) key,
              raStatus := (raStatus s)\<lparr>rrKeyGeneration := rrKeyGeneration (raStatus s) + 1, rrHash := enHash (apEnv io) key,
                rrExpires := keyExpires seen (fsModTime st), rrValid := True\<rparr>\<rparr>)))"

definition exchanged :: "('k, 'h, 'r, 'w) adapterIO \<Rightarrow> rosenpassConfig \<Rightarrow> string \<Rightarrow> time \<Rightarrow> ('w rosenpassAdapter, unit) eff" where
  "exchanged io c raw seen = bindE (pollFiles (readRaw io raw seen)) (\<lambda>res. case res of
      None \<Rightarrow> invalidate io c
    | Some key \<Rightarrow> bindE (getsE raLastHash) (\<lambda>last.
        if enHash (apEnv io) key = last then returnE () else acceptKey io c raw key seen))"

definition isCurrent :: "nat \<Rightarrow> 'w rosenpassAdapter \<Rightarrow> bool" where
  "isCurrent pid s \<longleftrightarrow> (case raChild s of None \<Rightarrow> False | Some ch \<Rightarrow> chId ch = pid)"

text \<open>
  One event of a child.  Errors stay in the state; \<open>child\<close> is the child the event
  belongs to, whose generation never changes.
\<close>

definition childEvent :: "('k, 'h, 'r, 'w) adapterIO \<Rightarrow> rosenpassConfig \<Rightarrow> rosenpassChild \<Rightarrow> outputEvent \<Rightarrow> time \<Rightarrow> ('w rosenpassAdapter, unit) eff" where
  "childEvent io c child e seen = bindE (getsE (\<lambda>s. isCurrent (chId child) s \<and> chGeneration child = rrGeneration (raStatus s))) (\<lambda>current.
     if \<not> current then returnE ()
     else bindE (tryE (refreshAdapter io c seen)) (\<lambda>res. bindE (getsE (isCurrent (chId child))) (\<lambda>still.
       if res \<noteq> Inr () \<or> \<not> still then returnE ()
       else if e = InvalidEvent \<or> e = Stale then
         thenE (modifyE (\<lambda>s. s\<lparr>raChild := map_option (\<lambda>ch. ch\<lparr>chStopEvent := (if e = Stale then ''stale'' else ''invalid'')\<rparr>) (raChild s)\<rparr>)) (stop io c)
       else if e = Exchanged then exchanged io c (chRaw child) seen
       else returnE ())))"

section \<open>One connection\<close>

text \<open>
  What a client's connection gives: whether its deadline can be set, the credentials
  the kernel reports for it, and the bytes that arrive before the deadline.
\<close>

record connection =
  coDeadline :: bool
  coSyscallConn :: bool
  coControl :: bool
  coUcred :: "32 word option"
  coInput :: bytes

definition rosenpassAuthorized :: "connection \<Rightarrow> 32 word \<Rightarrow> bool" where
  "rosenpassAuthorized co uid \<longleftrightarrow> coSyscallConn co \<and> coControl co \<and> coUcred co = Some uid"

text \<open>\<^verbatim>\<open>ReadSlice\<close> with a buffer of 4096 bytes, and the one JSON value on the line.\<close>

definition readLine :: "bytes \<Rightarrow> bytes option" where
  "readLine input = (let n = length (takeWhile (\<lambda>b. b \<noteq> 10) input) in
     if n < length input \<and> n < rosenpassRPCSize then Some (take (Suc n) input) else None)"

definition readRosenpassJSON :: "(bytes \<Rightarrow> ('a \<times> bool) option) \<Rightarrow> bytes \<Rightarrow> error + 'a" where
  "readRosenpassJSON decode input = (case readLine input of
      None \<Rightarrow> Inl (Msg ''incomplete or oversized Rosenpass RPC'')
    | Some line \<Rightarrow> (case decode line of
        Some (a, True) \<Rightarrow> Inr a
      | _ \<Rightarrow> Inl (Msg ''invalid Rosenpass RPC JSON'')))"

text \<open>The answer that is sent, if any.  A configuration that was read has a daemon's user id.\<close>

definition handleConnection :: "('k, 'h, 'r, 'w) adapterIO \<Rightarrow> rosenpassConfig \<Rightarrow> connection \<Rightarrow> time \<Rightarrow>
    'w rosenpassAdapter \<Rightarrow> rosenpassResponse option \<times> 'w rosenpassAdapter" where
  "handleConnection io c co now s =
    (if \<not> coDeadline co \<or> (case rpDaemonUID c of None \<Rightarrow> True | Some uid \<Rightarrow> \<not> rosenpassAuthorized co uid) then (None, s)
     else (case readRosenpassJSON (apDecodeRequest io) (coInput co) of
         Inl _ \<Rightarrow> (None, s)
       | Inr r \<Rightarrow> (case request io c r now s of
           (Inl _, s') \<Rightarrow> (None, s')
         | (Inr response, s') \<Rightarrow> (Some response, s'))))"

section \<open>Trusted directories\<close>

definition untrusted :: "32 word \<Rightarrow> string \<Rightarrow> bool \<Rightarrow> string \<Rightarrow> fileStatus \<Rightarrow> bool" where
  "untrusted euid path private_dir current info \<longleftrightarrow>
     \<not> bit (fsMode info) 31 \<or> (fsUid info \<noteq> 0 \<and> fsUid info \<noteq> euid) \<or>
     (permBits (fsMode info) AND 0x12 \<noteq> 0 \<and> \<not> (current \<noteq> path \<and> bit (fsMode info) 20)) \<or>
     (current = path \<and> (fsUid info \<noteq> euid \<or> (private_dir \<and> permBits (fsMode info) AND 0x3f \<noteq> 0)))"

text \<open>From a directory up to the root.  The loop of a relative path need not end, which is the result \<open>None\<close>.\<close>

partial_function (option) trustedDirs :: "(string \<Rightarrow> 'w \<Rightarrow> (fsError + fileStatus) \<times> 'w) \<Rightarrow> 32 word \<Rightarrow> string \<Rightarrow> bool \<Rightarrow> string \<Rightarrow> 'w \<Rightarrow>
    ((error + unit) \<times> 'w) option" where
  "trustedDirs lstat euid path private_dir current w =
    (case lstat current w of (r, w') \<Rightarrow> (case r of
       Inl _ \<Rightarrow> Some (Inl (Msg ''Rosenpass directory is missing or unsafe''), w')
     | Inr info \<Rightarrow>
         if untrusted euid path private_dir current info
         then Some (Inl (Msg ''Rosenpass directory must have a trusted owner and protected write permissions''), w')
         else if current = [slash] then Some (Inr (), w')
         else trustedDirs lstat euid path private_dir (dirOf current) w'))"

definition rosenpassTrustedDir :: "('k, 'h, 'r, 'w) adapterIO \<Rightarrow> string \<Rightarrow> bool \<Rightarrow> 'w \<Rightarrow> ((error + unit) \<times> 'w) option" where
  "rosenpassTrustedDir io path private_dir = trustedDirs (apLstat io) (enEuid (apEnv io)) path private_dir path"

section \<open>The server\<close>

datatype adapterEvent =
    Accepted
  | Served connection time
  | AcceptFailed error
  | ListenerClosed
  | Ticked time
  | Output nat string time
  | Ended nat

text \<open>
  \<open>svSlots\<close> counts the connections that have been accepted and not yet served, \<open>svOpen\<close> says
  that the loop of the server still accepts connections, \<open>svTicking\<close> that the ticker has not
  met an error.
\<close>

record 'w rosenpassServer =
  svAdapter :: "'w rosenpassAdapter"
  svSlots :: nat
  svOpen :: bool
  svTicking :: bool
  svResult :: "error option"

text \<open>A line of the output of the child \<open>pid\<close>, and the end of that output or of the process.\<close>

definition outputLine :: "('k, 'h, 'r, 'w) adapterIO \<Rightarrow> rosenpassConfig \<Rightarrow> nat \<Rightarrow> string \<Rightarrow> time \<Rightarrow> 'w rosenpassAdapter \<Rightarrow> 'w rosenpassAdapter" where
  "outputLine io c pid line seen s = (case raChild s of
      None \<Rightarrow> s
    | Some child \<Rightarrow> if chId child = pid then snd (childEvent io c child (parseRosenpassEvent (apBase64 io) line) seen s) else s)"

definition childEnded :: "('k, 'h, 'r, 'w) adapterIO \<Rightarrow> rosenpassConfig \<Rightarrow> nat \<Rightarrow> 'w rosenpassAdapter \<Rightarrow> 'w rosenpassAdapter" where
  "childEnded io c pid s = (if isCurrent pid s then snd (stop io c s) else s)"

text \<open>
  The handlers of the server one by one, in the order in which they get the mutex.  The
  listener is closed some time after the context has been cancelled, and accepted
  connections are still served then.  How the goroutines come to an end, and that
  every interleaving of them is such a sequence, is in \<^verbatim>\<open>RosenpassServer\<close>.
\<close>

fun serverStep :: "('k, 'h, 'r, 'w) adapterIO \<Rightarrow> rosenpassConfig \<Rightarrow> adapterEvent \<Rightarrow> 'w rosenpassServer \<Rightarrow> 'w rosenpassServer" where
  "serverStep io c Accepted v = (if svOpen v \<and> svSlots v < 8 then v\<lparr>svSlots := svSlots v + 1\<rparr> else v)"
| "serverStep io c (Served co now) v =
    (if svSlots v = 0 then v
     else v\<lparr>svAdapter := snd (handleConnection io c co now (svAdapter v)), svSlots := svSlots v - 1\<rparr>)"
| "serverStep io c (AcceptFailed e) v = (if svOpen v then v\<lparr>svOpen := False, svResult := Some e\<rparr> else v)"
| "serverStep io c ListenerClosed v = v\<lparr>svOpen := False\<rparr>"
| "serverStep io c (Ticked now) v =
    (if svTicking v then (case refreshAdapter io c now (svAdapter v) of
        (Inl _, s) \<Rightarrow> v\<lparr>svAdapter := s, svTicking := False\<rparr>
      | (Inr _, s) \<Rightarrow> v\<lparr>svAdapter := s\<rparr>)
     else v)"
| "serverStep io c (Output pid line seen) v = v\<lparr>svAdapter := outputLine io c pid line seen (svAdapter v)\<rparr>"
| "serverStep io c (Ended pid) v = v\<lparr>svAdapter := childEnded io c pid (svAdapter v)\<rparr>"

definition newAdapter :: "string \<Rightarrow> 'w \<Rightarrow> 'w rosenpassAdapter" where
  "newAdapter ident w = \<lparr>raStatus = zeroResponse\<lparr>rrInstance := ident\<rparr>, raEndpoint = zeroRequest, raChild = None, raErr = None,
     raLastHash = 0, raRetryAfter = 0, raWorld = w\<rparr>"

definition serverLoop :: "('k, 'h, 'r, 'w) adapterIO \<Rightarrow> rosenpassConfig \<Rightarrow> adapterEvent list \<Rightarrow> 'w rosenpassAdapter \<Rightarrow> 'w rosenpassServer" where
  "serverLoop io c es s = fold (serverStep io c) es \<lparr>svAdapter = s, svSlots = 0, svOpen = True, svTicking = True, svResult = None\<rparr>"

text \<open>The socket of an earlier process is removed, anything else in its place is refused.\<close>

definition replaceSocket :: "('k, 'h, 'r, 'w) adapterIO \<Rightarrow> string \<Rightarrow> ('w, unit) eff" where
  "replaceSocket io socket w = (case apLstat io socket w of
      (Inl NotExist, w') \<Rightarrow> (Inr (), w')
    | (Inl Exists, w') \<Rightarrow> (Inl (Msg ''file already exists''), w')
    | (Inl (FsError e), w') \<Rightarrow> (Inl e, w')
    | (Inr info, w') \<Rightarrow>
        if \<not> bit (fsMode info) 24 then (Inl (Msg ''Rosenpass socket path is not a socket''), w')
        else (case apRemove io socket w' of
            (None, w2) \<Rightarrow> (Inr (), w2)
          | (Some NotExist, w2) \<Rightarrow> (Inl (Msg ''file does not exist''), w2)
          | (Some Exists, w2) \<Rightarrow> (Inl (Msg ''file already exists''), w2)
          | (Some (FsError e), w2) \<Rightarrow> (Inl e, w2)))"

text \<open>From the first invalidation to the end: whatever ends it, the child is stopped and the key withdrawn.\<close>

definition listenAndServe :: "('k, 'h, 'r, 'w) adapterIO \<Rightarrow> rosenpassConfig \<Rightarrow> adapterEvent list \<Rightarrow> 'w rosenpassAdapter \<Rightarrow> error option \<times> 'w rosenpassAdapter" where
  "listenAndServe io c es s = (case onFiles (thenE (replaceSocket io (rpSocket c)) (apListen io (rpSocket c))) s of
      (Inl e, s1) \<Rightarrow> (Some e, s1)
    | (Inr _, s1) \<Rightarrow> (case onFiles (apChmod io (rpSocket c) 432) s1 of
        (Inl e, s2) \<Rightarrow> (Some e, s2\<lparr>raWorld := apCloseListener io (raWorld s2)\<rparr>)
      | (Inr _, s2) \<Rightarrow> (let v = serverLoop io c es s2 in
          (svResult v, (svAdapter v)\<lparr>raWorld := apCloseListener io (raWorld (svAdapter v))\<rparr>))))"

definition adapterService :: "('k, 'h, 'r, 'w) adapterIO \<Rightarrow> rosenpassConfig \<Rightarrow> adapterEvent list \<Rightarrow> ('w rosenpassAdapter, unit) eff" where
  "adapterService io c es = thenE (invalidate io c) (\<lambda>s. case listenAndServe io c es s of
     (result, s1) \<Rightarrow> (case stop io c s1 of (r, s2) \<Rightarrow>
       liftErr (joinErr (joinErr result (case r of Inl e \<Rightarrow> Some e | Inr _ \<Rightarrow> None)) (raErr s2)) s2))"

definition serveLocked :: "('k, 'h, 'r, 'w) adapterIO \<Rightarrow> rosenpassConfig \<Rightarrow> adapterEvent list \<Rightarrow> ('w, unit) eff" where
  "serveLocked io c es = bindE (tryE (apFlock io (joinPath (rpRuntimeDir c) ''adapter.lock''))) (\<lambda>locked. case locked of
      Inl _ \<Rightarrow> throwE (Msg ''Rosenpass adapter runtime is already in use'')
    | Inr _ \<Rightarrow> bindE (apRandomId io) (\<lambda>ident w. case adapterService io c es (newAdapter ident w) of (r, s) \<Rightarrow> (r, raWorld s)))"

fun trustAll :: "('k, 'h, 'r, 'w) adapterIO \<Rightarrow> rosenpassConfig \<Rightarrow> string list \<Rightarrow> 'w \<Rightarrow> ((error + unit) \<times> 'w) option" where
  "trustAll io c [] w = Some (Inr (), w)"
| "trustAll io c (d # ds) w = (case rosenpassTrustedDir io d (d = rpRuntimeDir c) w of
      None \<Rightarrow> None
    | Some (Inl e, w') \<Rightarrow> Some (Inl e, w')
    | Some (Inr _, w') \<Rightarrow> trustAll io c ds w')"

definition serveRosenpassAdapter :: "('k, 'h, 'r, 'w) adapterIO \<Rightarrow> rosenpassConfig \<Rightarrow> adapterEvent list \<Rightarrow> 'w \<Rightarrow> ((error + unit) \<times> 'w) option" where
  "serveRosenpassAdapter io c es w =
    (let lock = joinPath (rpRuntimeDir c) ''adapter.lock'' in
     case trustAll io c [rpRuntimeDir c, dirOf (rpSocket c), dirOf (rpPSKFile c)] w of
       None \<Rightarrow> None
     | Some (Inl e, w') \<Rightarrow> Some (Inl e, w')
     | Some (Inr _, w') \<Rightarrow> Some (case apOpenLock io lock w' of
         (Inl e, w2) \<Rightarrow> (Inl e, w2)
       | (Inr _, w2) \<Rightarrow> (case serveLocked io c es w2 of (r, w3) \<Rightarrow> (r, apCloseLock io lock w3))))"

definition runRosenpassAdapter :: "('k, 'h, 'r, 'w) adapterIO \<Rightarrow> string \<Rightarrow> adapterEvent list \<Rightarrow> 'w \<Rightarrow> ((error + unit) \<times> 'w) option" where
  "runRosenpassAdapter io path es w =
    (if enEuid (apEnv io) = 0 \<or> apUid io = 0 then Some (Inl (Msg ''Rosenpass adapter must not run as root''), w)
     else case apOpenConfig io path w of
         (Inl e, w') \<Rightarrow> Some (Inl e, w')
       | (Inr body, w') \<Rightarrow> (case readRosenpassConfig (apDecodeConfig io) (enParseKey (apEnv io)) (enKeyString (apEnv io)) body of
           Inl e \<Rightarrow> Some (Inl e, w')
         | Inr c \<Rightarrow> serveRosenpassAdapter io c es w'))"

section \<open>The daemon's question\<close>

record 'w queryIO =
  qrNow :: "'w \<Rightarrow> time \<times> 'w"
  qrDial :: "string \<Rightarrow> ('w, unit) eff"
  qrDeadline :: "time \<Rightarrow> ('w, unit) eff"
  qrMarshal :: "rosenpassRequest \<Rightarrow> bytes option"
  qrWrite :: "bytes \<Rightarrow> ('w, unit) eff"
  qrRead :: "'w \<Rightarrow> bytes \<times> 'w"
  qrDecode :: "bytes \<Rightarrow> (rosenpassResponse \<times> bool) option"
  qrClose :: "'w \<Rightarrow> 'w"

text \<open>The clock is only read when the tests before it have passed.\<close>

definition badStatus :: "'w queryIO \<Rightarrow> rosenpassResponse \<Rightarrow> 'w \<Rightarrow> bool \<times> 'w" where
  "badStatus io resp w =
    (if rrInstance resp = [] then (True, w)
     else if \<not> rrValid resp then (False, w)
     else if rrGeneration resp = 0 \<or> rrKeyGeneration resp = 0 \<or> rrHash resp = 0 then (True, w)
     else (case qrNow io w of (now, w1) \<Rightarrow>
       if \<not> now < rrExpires resp then (True, w1)
       else (case qrNow io w1 of (now', w2) \<Rightarrow> (rrExpires resp > now' + rosenpassLifetime, w2))))"

definition exchangeLines :: "'w queryIO \<Rightarrow> rosenpassRequest \<Rightarrow> time \<Rightarrow> ('w, rosenpassResponse) eff" where
  "exchangeLines io r deadline =
     thenE (qrDeadline io deadline)
    (case qrMarshal io r of
       None \<Rightarrow> throwE (Msg ''invalid Rosenpass request'')
     | Some data \<Rightarrow>
         if length data + 1 > rosenpassRPCSize then throwE (Msg ''invalid Rosenpass request'')
         else thenE (qrWrite io (data @ [10]))
             (\<lambda>w. case qrRead io w of (input, w1) \<Rightarrow> (case readRosenpassJSON (qrDecode io) input of
                Inl e \<Rightarrow> (Inl e, w1)
              | Inr resp \<Rightarrow> (case badStatus io resp w1 of
                  (True, w2) \<Rightarrow> (Inl (Msg ''invalid Rosenpass status''), w2)
                | (False, w2) \<Rightarrow> (Inr resp, w2)))))"

definition queryRosenpass :: "'w queryIO \<Rightarrow> string \<Rightarrow> rosenpassRequest \<Rightarrow> ('w, rosenpassResponse) eff" where
  "queryRosenpass io socket r w = (case qrNow io w of (now, w1) \<Rightarrow> (case qrDial io socket w1 of
      (Inl e, w2) \<Rightarrow> (Inl e, w2)
    | (Inr _, w2) \<Rightarrow> (case exchangeLines io r (now + rosenpassTimeout) w2 of (res, w3) \<Rightarrow> (res, qrClose io w3))))"

end
