(* ===== verification/RosenpassSafety.thy ===== *)
theory RosenpassSafety
  imports Rosenpass DaemonSafety
begin

text \<open>
  The checks of the directories at the start of the Rosenpass adapter: that they end,
  and what holds of a directory that passes.
\<close>

section \<open>Directories\<close>

lemma dirOf_split: "slash \<notin> set b \<Longrightarrow> dirOf (a @ slash # b) = (if a = [] then [slash] else a)"
  by (simp add: dirOf_def Let_def dropWhile_append)

lemma abs_split: "isAbs p \<Longrightarrow> \<exists>a b. p = a @ slash # b \<and> slash \<notin> set b"
  using split_list_last[of slash p] by (cases p) (auto simp: isAbs_def)

lemma dirOf_abs: "isAbs p \<Longrightarrow> isAbs (dirOf p) \<and> (p = [slash] \<or> length (dirOf p) < length p)"
proof -
  assume abs: "isAbs p"
  then obtain a b where p: "p = a @ slash # b" "slash \<notin> set b" using abs_split by blast
  then show ?thesis using abs by (cases b) (auto simp: dirOf_split isAbs_def)
qed

text \<open>The directories between a path and the root, both included.\<close>

definition ancestors :: "string \<Rightarrow> string set" where
  "ancestors p = {p, [slash]} \<union> {a. a \<noteq> [] \<and> (\<exists>b. p = a @ slash # b)}"

lemma ancestors_step: "isAbs p \<Longrightarrow> p \<noteq> [slash] \<Longrightarrow> ancestors p \<subseteq> insert p (ancestors (dirOf p))"
proof -
  assume abs: "isAbs p" and "p \<noteq> [slash]"
  then obtain a b where p: "p = a @ slash # b" "slash \<notin> set b" using abs_split by blast
  have "a' \<in> ancestors (dirOf p)" if split: "p = a' @ slash # b'" "a' \<noteq> []" for a' b'
  proof -
    have "a = a' \<or> (\<exists>us. a = a' @ slash # us)"
      using split(1) p by (auto simp: append_eq_append_conv2 append_eq_Cons_conv Cons_eq_append_conv)
    then show ?thesis
    proof (elim disjE exE)
      assume "a = a'"
      with p split(2) show ?thesis by (simp add: dirOf_split ancestors_def)
    next
      fix us assume "a = a' @ slash # us"
      with dirOf_split[OF p(2), of a] p(1) have "dirOf p = a' @ slash # us" by simp
      with split(2) show ?thesis unfolding ancestors_def by blast
    qed
  qed
  then show ?thesis by (auto simp: ancestors_def)
qed

lemma trustedDirs_ends:
  assumes "isAbs current"
  shows "\<exists>r w'. trustedDirs lstat euid path priv current w = Some (r, w') \<and>
    (r = Inr () \<longrightarrow> (\<forall>d \<in> ancestors current. \<exists>v info. fst (lstat d v) = Inr info \<and> \<not> untrusted euid path priv d info))"
  using assms
proof (induction "length current" arbitrary: current w rule: less_induct)
  case less
  obtain r w' where l: "lstat current w = (r, w')" by (cases "lstat current w")
  show ?case
  proof (cases "\<exists>info. r = Inr info \<and> \<not> untrusted euid path priv current info \<and> current \<noteq> [slash]")
    case True
    then obtain info where info: "r = Inr info" "\<not> untrusted euid path priv current info" "current \<noteq> [slash]" by blast
    with less.hyps[of "dirOf current" w'] dirOf_abs[OF less.prems] obtain r2 w2 where
      "trustedDirs lstat euid path priv (dirOf current) w' = Some (r2, w2)"
      "r2 = Inr () \<longrightarrow> (\<forall>d \<in> ancestors (dirOf current). \<exists>v info. fst (lstat d v) = Inr info \<and> \<not> untrusted euid path priv d info)"
      by blast
    moreover have "fst (lstat current w) = Inr info" using l info by simp
    ultimately show ?thesis
      using info l ancestors_step[OF less.prems] by (subst trustedDirs.simps) (fastforce simp: l)
  next
    case False
    then show ?thesis
      by (subst trustedDirs.simps) (use l in \<open>auto simp: ancestors_def Cons_eq_append_conv split: sum.split intro: exI[of _ w]\<close>)
  qed
qed

lemma cleanAbs_isAbs: "cleanAbs p \<Longrightarrow> isAbs p"
  by (auto simp: cleanAbs_def isAbs_def)

lemma badPaths_abs: "\<not> badPaths lock before ps \<Longrightarrow> p \<in> set ps \<Longrightarrow> cleanAbs p"
  by (induction ps arbitrary: before) auto

lemma readRosenpassConfig_abs:
  assumes "readRosenpassConfig decode parseKey keyString body = Inr c"
  shows "isAbs (rpRuntimeDir c)" "isAbs (rpSocket c)" "isAbs (rpPSKFile c)"
proof -
  have "\<not> badPaths (joinPath (rpRuntimeDir c) ''adapter.lock'') [] (pathsOf c)"
    using assms by (auto simp: readRosenpassConfig_def split: option.splits if_splits)
  from badPaths_abs[OF this] show "isAbs (rpRuntimeDir c)" "isAbs (rpSocket c)" "isAbs (rpPSKFile c)"
    by (auto simp: pathsOf_def intro: cleanAbs_isAbs)
qed

lemma trustAll_ends:
  assumes "list_all isAbs ds"
  shows "\<exists>r w'. trustAll io c ds w = Some (r, w') \<and>
    (r = Inr () \<longrightarrow> (\<forall>p \<in> set ds. \<forall>d \<in> ancestors p. \<exists>v info. fst (apLstat io d v) = Inr info \<and>
       \<not> untrusted (enEuid (apEnv io)) p (p = rpRuntimeDir c) d info))"
  using assms
proof (induction ds arbitrary: w)
  case (Cons p ds)
  obtain r w' where r: "rosenpassTrustedDir io p (p = rpRuntimeDir c) w = Some (r, w')"
    "r = Inr () \<longrightarrow> (\<forall>d \<in> ancestors p. \<exists>v info. fst (apLstat io d v) = Inr info \<and> \<not> untrusted (enEuid (apEnv io)) p (p = rpRuntimeDir c) d info)"
    unfolding rosenpassTrustedDir_def using trustedDirs_ends[of p] Cons.prems by fastforce
  with Cons.IH[of w'] Cons.prems show ?case by (cases r) fastforce+
qed simp

text \<open>
  The walk from a configured directory to the root is a loop without a bound in the code.  It
  reaches the root because the configuration only lets clean absolute paths through; so the checks
  before the server starts always come to an end.  How the server itself comes to its end is in
  \<^verbatim>\<open>RosenpassServer\<close>.
\<close>

lemma adapter_ends: "\<exists>r. runRosenpassAdapter io path es w = Some r"
proof -
  have "\<exists>r. serveRosenpassAdapter io c es v = Some r"
    if "readRosenpassConfig (apDecodeConfig io) (enParseKey (apEnv io)) (enKeyString (apEnv io)) body = Inr c" for body c v
  proof -
    have "list_all isAbs [rpRuntimeDir c, dirOf (rpSocket c), dirOf (rpPSKFile c)]"
      using readRosenpassConfig_abs[OF that] dirOf_abs by simp
    from trustAll_ends[OF this, of io c v] obtain r w' where
      "trustAll io c [rpRuntimeDir c, dirOf (rpSocket c), dirOf (rpPSKFile c)] v = Some (r, w')" by blast
    then show ?thesis
      unfolding serveRosenpassAdapter_def Let_def by (auto split: sum.split prod.split)
  qed
  then show ?thesis
    unfolding runRosenpassAdapter_def by (auto split: prod.split sum.split)
qed

text \<open>
  Nobody else can replace the adapter's files.  When the checks at the start let a configured
  directory pass, the directory and every directory above it up to the root was found to be a
  directory owned by root or by the adapter's user and not writable by anyone else, except for
  sticky directories above it; the directory itself belongs to the adapter's user, and the runtime
  directory is closed to everyone else.
\<close>

theorem trusted_directories:
  assumes "isAbs path" and "rosenpassTrustedDir io path private_dir w = Some (Inr (), w')" and "d \<in> ancestors path"
  shows "\<exists>v info. fst (apLstat io d v) = Inr info \<and> bit (fsMode info) 31 \<and> fsUid info \<in> {0, enEuid (apEnv io)} \<and>
    (fsMode info AND 0x12 = 0 \<or> (d \<noteq> path \<and> bit (fsMode info) 20)) \<and>
    (d = path \<longrightarrow> fsUid info = enEuid (apEnv io) \<and> (private_dir \<longrightarrow> fsMode info AND 0x3f = 0))"
proof -
  have bits: "permBits m AND 0x12 = m AND 0x12" "permBits m AND 0x3f = m AND 0x3f" for m :: "32 word"
    by (simp_all add: permBits_def and.assoc)
  from assms trustedDirs_ends[OF assms(1), of "apLstat io" "enEuid (apEnv io)" path private_dir w]
  obtain v info where "fst (apLstat io d v) = Inr info" "\<not> untrusted (enEuid (apEnv io)) path private_dir d info"
    by (auto simp: rosenpassTrustedDir_def)
  then show ?thesis unfolding untrusted_def bits by blast
qed

end
