(* ===== verification/RosenpassRuns.thy ===== *)
theory RosenpassRuns
  imports RosenpassSafety DaemonRuns
begin

text \<open>
  The state of the adapter along its executions.  The hypothesis \<open>exclusive\<close> says that
  the file system does what the calls ask and that nobody else writes the output
  file; nothing is assumed about the child, the clock or the clients.
\<close>

section \<open>The output file\<close>

definition exclusive :: "('k, 'h, 'r, 'w) adapterIO \<Rightarrow> string \<Rightarrow> ('w \<Rightarrow> string \<Rightarrow> string option) \<Rightarrow> bool" where
  "exclusive io psk files \<longleftrightarrow> (let out = (\<lambda>w. files w psk) in
     (\<forall>p. keeps out (enPskFile (apEnv io) p) \<and> keeps out (apRemoveAll io p) \<and> keeps out (apLstat io p) \<and> keeps out (apWriteEmpty io p) \<and>
          (\<forall>q. keeps out (apMkdirTemp io p q)) \<and> (\<forall>q args. keeps out (apExec io p args q)) \<and> keeps out (apListen io p) \<and>
          (\<forall>m. keeps files (apChmod io p m)) \<and> keeps files (apSync io p) \<and> keeps files (apClose io p)) \<and>
     (\<forall>i. keeps out (apInterface io i) \<and> keeps out (nlByIndex (apNetlink io) i)) \<and> keeps out (nlNew (apNetlink io)) \<and>
     (\<forall>l. keeps out (nlAddrList (apNetlink io) l)) \<and> (\<forall>w. out (nlClose (apNetlink io) w) = out w) \<and>
     (\<forall>pid. keeps out (apDone io pid) \<and> keeps out (apWait io pid) \<and> (\<forall>w. out (apKill io pid w) = out w)) \<and>
     (\<forall>w. out (apCloseListener io w) = out w) \<and>
     (\<forall>d q w. out (snd (apCreateTemp io d q w)) = out w \<and> (\<forall>f. fst (apCreateTemp io d q w) = Inr f \<longrightarrow> f \<noteq> psk)) \<and>
     (\<forall>f d w. f \<noteq> psk \<longrightarrow> out (snd (apWrite io f d w)) = out w \<and>
          (fst (apWrite io f d w) = Inr () \<longrightarrow> files (snd (apWrite io f d w)) f = Some d)) \<and>
     (\<forall>f w. f \<noteq> psk \<longrightarrow> out (snd (apRename io f psk w)) = (if fst (apRename io f psk w) = Inr () then files w f else out w)) \<and>
     (\<forall>f w. f \<noteq> psk \<longrightarrow> out (snd (apRemove io f w)) = out w) \<and>
     (\<forall>w. fst (apRemove io psk w) \<in> {None, Some NotExist} \<longrightarrow> out (snd (apRemove io psk w)) = None))"

lemma exclusiveD:
  assumes "exclusive io psk files"
  shows "keeps (\<lambda>w. files w psk) (enPskFile (apEnv io) p)" "keeps (\<lambda>w. files w psk) (apRemoveAll io p)" "keeps (\<lambda>w. files w psk) (apLstat io p)"
    "keeps (\<lambda>w. files w psk) (apWriteEmpty io p)" "keeps (\<lambda>w. files w psk) (apMkdirTemp io p q)" "keeps (\<lambda>w. files w psk) (apExec io p args q)"
    "keeps files (apChmod io p m)" "keeps files (apSync io p)" "keeps files (apClose io p)"
    "keeps (\<lambda>w. files w psk) (apInterface io i)" "keeps (\<lambda>w. files w psk) (nlByIndex (apNetlink io) i)" "keeps (\<lambda>w. files w psk) (nlNew (apNetlink io))"
    "keeps (\<lambda>w. files w psk) (nlAddrList (apNetlink io) l)" "files (nlClose (apNetlink io) w) psk = files w psk"
    "keeps (\<lambda>w. files w psk) (apDone io pid)" "keeps (\<lambda>w. files w psk) (apWait io pid)" "files (apKill io pid w) psk = files w psk"
    "keeps (\<lambda>w. files w psk) (apListen io p)" "files (apCloseListener io w) psk = files w psk" "keeps (\<lambda>w. files w psk) (apCreateTemp io p q)"
    "f \<noteq> psk \<Longrightarrow> keeps (\<lambda>w. files w psk) (apWrite io f d)" "f \<noteq> psk \<Longrightarrow> keeps (\<lambda>w. files w psk) (apRemove io f)"
  using assms unfolding exclusive_def Let_def keeps_def by auto

lemma withHandle_keeps: "keeps f (nlNew nl) \<Longrightarrow> (\<And>w. f (nlClose nl w) = f w) \<Longrightarrow> keeps f m \<Longrightarrow> keeps f (withHandle nl m)"
  unfolding withHandle_def
proof (intro keep)
  assume close: "\<And>w. f (nlClose nl w) = f w" and "keeps f m"
  then show "keeps f (\<lambda>w. case m w of (r, w') \<Rightarrow> (r, nlClose nl w'))" by (simp add: keeps_def case_prod_unfold)
qed

lemma validate_keeps:
  assumes "exclusive io psk files"
  shows "keeps (\<lambda>w. files w psk) (validateRosenpassRequest io r)"
proof -
  note ex = exclusiveD[OF assms]
  have "keeps (\<lambda>w. files w psk) (interfacePrefixes (apNetlink io) i)" for i
    unfolding interfacePrefixes_def
  proof (intro withHandle_keeps ex(12) ex(14), unfold keeps_def, intro allI)
    fix w
    have "files (snd (bindE (nlAddrList (apNetlink io) (Some l)) (\<lambda>addresses. returnE (linkPrefixes l addresses)) v)) psk = files v psk" for l v
      by (rule keeps_bindE[OF ex(13) keeps_returnE, unfolded keeps_def, rule_format])
    then show "files (snd (case nlByIndex (apNetlink io) (ifIndex i) w of (Inl LinkNotFound, w') \<Rightarrow> (Inr [], w')
      | (Inl (LinkFailed e), w') \<Rightarrow> (Inl e, w') | (Inr l, w') \<Rightarrow> if laName l \<noteq> ifName i then (Inr [], w')
          else bindE (nlAddrList (apNetlink io) (Some l)) (\<lambda>addresses. returnE (linkPrefixes l addresses)) w')) psk = files w psk"
      using ex(11)[of "ifIndex i"] by (auto simp: keeps_def split: prod.split sum.split linkError.split) (metis snd_conv)+
  qed
  then show ?thesis
    unfolding validateRosenpassRequest_def by (intro keep ex) (auto intro!: keep ex split: sum.split)
qed

lemma startProcess_keeps: "exclusive io psk files \<Longrightarrow> keeps (\<lambda>w. files w psk) (startProcess io c r generation)"
  unfolding startProcess_def by (intro keep exclusiveD; assumption?) (auto intro!: keep exclusiveD split: sum.split)

text \<open>Publishing either puts the text of the key into the file or leaves the file alone.\<close>

lemma publish_wp:
  assumes "exclusive io psk files"
  shows "wpE (publishRosenpassPSK io psk key) (\<lambda>_ w'. files w' psk = Some (enKeyString (apEnv io) key @ [CHR 0x0a])) (\<lambda>_ _. True) w"
proof -
  note ex = exclusiveD[OF assms]
  let ?d = "enKeyString (apEnv io) key @ [CHR 0x0a]"
  have renamed: "wpE (apRename io f psk) (\<lambda>_ w'. files w' psk = Some ?d) (\<lambda>_ _. True) w" if "files w f = Some ?d" "f \<noteq> psk" for f w
    using assms that unfolding exclusive_def Let_def by (auto simp: wpE_def split: prod.split sum.split) (metis (no_types, lifting) fst_conv snd_conv)
  have synced: "wpE (thenE (apSync io f) (thenE (apClose io f) (apRename io f psk))) (\<lambda>_ w'. files w' psk = Some ?d) (\<lambda>_ _. True) w"
    if "files w f = Some ?d" "f \<noteq> psk" for f w
    unfolding wpE_thenE
    by (rule wpE_keeps[OF ex(8)], rule wpE_keeps[OF ex(9)]) (use that in \<open>auto intro!: renamed\<close>)
  have written: "wpE (thenE (apWrite io f ?d) (thenE (apSync io f) (thenE (apClose io f) (apRename io f psk)))) (\<lambda>_ w'. files w' psk = Some ?d) (\<lambda>_ _. True) w"
    if "f \<noteq> psk" for f w
  proof -
    have "wpE (apWrite io f ?d) (\<lambda>_ w'. files w' f = Some ?d) (\<lambda>_ _. True) w"
      using assms that unfolding exclusive_def Let_def by (auto simp: wpE_def split: prod.split sum.split) (metis fst_conv snd_conv)
    then show ?thesis unfolding wpE_thenE[of "apWrite _ _ _"] by (rule wpE_mono) (rule synced[OF _ that], simp_all)
  qed
  have body: "wpE (tryE (thenE (apChmod io f m) (thenE (apWrite io f ?d) (thenE (apSync io f) (thenE (apClose io f) (apRename io f psk))))))
      (\<lambda>r w'. r = Inr () \<longrightarrow> files w' psk = Some ?d) (\<lambda>_ _. True) w" if "f \<noteq> psk" for f m w
    unfolding wpE_tryE wpE_thenE[of "apChmod _ _ _"] by (rule wpE_keeps[OF ex(7)]) (rule wpE_mono[OF written[OF that]], auto)
  have tail: "wpE (bindE (tryE (apClose io f)) (\<lambda>_. thenE (modifyE (\<lambda>w. snd (apRemove io f w))) (case r of Inl e \<Rightarrow> throwE e | Inr _ \<Rightarrow> returnE ())))
      (\<lambda>_ w'. files w' psk = Some ?d) (\<lambda>_ _. True) w" if "f \<noteq> psk" "r = Inr () \<longrightarrow> files w psk = Some ?d" for f r w
    unfolding wpE_bindE wpE_tryE
    by (rule wpE_keeps[OF ex(9)]; cases r) (use that ex(22)[OF that(1)] in \<open>auto simp: wp keeps_def\<close>)
  have fresh: "wpE (apCreateTemp io d q) (\<lambda>f _. f \<noteq> psk) (\<lambda>_ _. True) w" for d q
    using assms unfolding exclusive_def Let_def by (auto simp: wpE_def split: prod.split sum.split) (metis fst_conv)
  show ?thesis
    unfolding publishRosenpassPSK_def wpE_bindE[of "apCreateTemp _ _ _"]
    by (rule wpE_mono[OF fresh]) (auto simp: wpE_bindE[of "tryE (thenE _ _)"] intro!: wpE_mono[OF body] tail)
qed

section \<open>The invariant\<close>

text \<open>
  A valid status means: no error, a child of the current generation, and an output
  file with the key whose hash is announced, which expires at most one lifetime after
  the latest event (\<open>T\<close> bounds the times of the child's events).  Otherwise
  nothing is announced, and there is no output file unless an error is recorded.
\<close>

definition fileText :: "('k, 'h, 'r, 'w) adapterIO \<Rightarrow> wgkey \<Rightarrow> string" where
  "fileText io key = enKeyString (apEnv io) key @ [CHR 0x0a]"

definition announcedOK :: "('k, 'h, 'r, 'w) adapterIO \<Rightarrow> rosenpassConfig \<Rightarrow> ('w \<Rightarrow> string \<Rightarrow> string option) \<Rightarrow> time \<Rightarrow> 'w rosenpassAdapter \<Rightarrow> bool" where
  "announcedOK io c files T s \<longleftrightarrow>
    (let st = raStatus s; out = files (raWorld s) (rpPSKFile c) in
     if rrValid st
     then raErr s = None \<and> raChild s \<noteq> None \<and> rrHash st = raLastHash s \<and> rrExpires st \<le> T + rosenpassLifetime \<and>
       (\<exists>key. out = Some (fileText io key) \<and> enHash (apEnv io) key = rrHash st)
     else rrHash st = 0 \<and> rrExpires st = 0 \<and> (raErr s = None \<longrightarrow> out = None))"

definition childOK :: "'w rosenpassAdapter \<Rightarrow> bool" where
  "childOK s \<longleftrightarrow> (\<forall>ch. raChild s = Some ch \<longrightarrow> chGeneration ch = rrGeneration (raStatus s))"

definition adapterOK :: "('k, 'h, 'r, 'w) adapterIO \<Rightarrow> rosenpassConfig \<Rightarrow> ('w \<Rightarrow> string \<Rightarrow> string option) \<Rightarrow> time \<Rightarrow> 'w rosenpassAdapter \<Rightarrow> bool" where
  "adapterOK io c files T s \<longleftrightarrow> announcedOK io c files T s \<and> childOK s"

lemma wpE_onFiles [wp]:
  "wpE (onFiles m) Q E s \<longleftrightarrow> wpE m (\<lambda>a w. Q a (s\<lparr>raWorld := w\<rparr>)) (\<lambda>e w. E e (s\<lparr>raWorld := w\<rparr>)) (raWorld s)"
  by (simp add: wpE_def onFiles_def split: prod.split sum.split)

lemma wpE_pollFiles [wp]: "wpE (pollFiles m) Q E s \<longleftrightarrow> (case m (raWorld s) of (a, w) \<Rightarrow> Q a (s\<lparr>raWorld := w\<rparr>))"
  by (simp add: pollFiles_def wp) (simp add: wpE_def split: prod.split)

lemma wpE_recordedErr [wp]: "wpE recordedErr Q E s \<longleftrightarrow> (case raErr s of None \<Rightarrow> Q () s | Some e \<Rightarrow> E e s)"
  by (simp add: recordedErr_def wp)

lemma wpE_setErr [wp]: "wpE (setErr m) Q E s \<longleftrightarrow> Q () (s\<lparr>raErr := Some (Msg m)\<rparr>)"
  by (simp add: setErr_def wp)

lemma adapterOK_world:
  assumes "files w (rpPSKFile c) = files (raWorld s) (rpPSKFile c)"
  shows "adapterOK io c files T (s\<lparr>raWorld := w\<rparr>) = adapterOK io c files T s"
  using assms by (simp add: adapterOK_def announcedOK_def childOK_def)

text \<open>A state in which the key has been withdrawn.\<close>

definition withdrawn :: "rosenpassConfig \<Rightarrow> ('w \<Rightarrow> string \<Rightarrow> string option) \<Rightarrow> 'w rosenpassAdapter \<Rightarrow> 'w rosenpassAdapter \<Rightarrow> bool" where
  "withdrawn c files s s' \<longleftrightarrow> raStatus s' = (raStatus s)\<lparr>rrValid := False, rrHash := 0, rrExpires := 0\<rparr> \<and>
     raEndpoint s' = raEndpoint s \<and> raLastHash s' = raLastHash s \<and> raRetryAfter s' = raRetryAfter s \<and>
     (raErr s \<noteq> None \<longrightarrow> raErr s' \<noteq> None) \<and> (raErr s' = None \<longrightarrow> files (raWorld s') (rpPSKFile c) = None)"

lemma invalidate_wp:
  assumes "exclusive io (rpPSKFile c) files"
  shows "wpE (invalidate io c) (\<lambda>_ s'. withdrawn c files s s' \<and> raChild s' = raChild s \<and> raErr s' = None)
    (\<lambda>_ s'. withdrawn c files s s' \<and> raChild s' = raChild s \<and> raErr s' \<noteq> None) s"
proof -
  obtain r w where r: "apRemove io (rpPSKFile c) (raWorld s) = (r, w)" by (cases "apRemove io (rpPSKFile c) (raWorld s)")
  have "r \<in> {None, Some NotExist} \<Longrightarrow> files w (rpPSKFile c) = None"
    using assms r unfolding exclusive_def Let_def by (metis fst_conv snd_conv)
  with r show ?thesis
    by (auto simp: invalidate_def wp withdrawn_def split: option.split)
qed

lemma stop_wp:
  assumes "exclusive io (rpPSKFile c) files"
  shows "wpE (stop io c) (\<lambda>_ s'. withdrawn c files s s' \<and> raChild s' = None \<and> raErr s' = None)
    (\<lambda>_ s'. withdrawn c files s s' \<and> raChild s' = None \<and> raErr s' \<noteq> None) s"
proof -
  note ex = exclusiveD[OF assms]
  have child: "wpE (stopChild io ch) (\<lambda>_ s'. withdrawn c files s s' \<and> raChild s' = raChild s1) (\<lambda>_ _. False) s1"
    if "withdrawn c files s s1" for ch s1
  proof -
    obtain b w where w: "apWait io (chId ch) (apKill io (chId ch) (raWorld s1)) = (b, w)" by fastforce
    have out: "files w (rpPSKFile c) = files (raWorld s1) (rpPSKFile c)"
      using ex(16)[of "chId ch"] ex(17)[of "chId ch" "raWorld s1"] w by (metis keeps_def snd_conv)
    show ?thesis
      using that w out by (auto simp: stopChild_def wp withdrawn_def intro!: wpE_keeps[OF ex(2)])
  qed
  let ?Q = "\<lambda>s'. withdrawn c files s s' \<and> raChild s' = None"
  have recorded: "wpE recordedErr (\<lambda>_ s'. withdrawn c files s s' \<and> raChild s' = None \<and> raErr s' = None)
      (\<lambda>_ s'. withdrawn c files s s' \<and> raChild s' = None \<and> raErr s' \<noteq> None) s2" if "?Q s2" for s2
    using that by (cases "raErr s2") (simp_all add: wp)
  have forget: "withdrawn c files s (s1\<lparr>raChild := None\<rparr>)" if "withdrawn c files s s1" for s1
    using that by (simp add: withdrawn_def)
  have halt: "wpE (case ch of None \<Rightarrow> returnE () | Some ch \<Rightarrow> stopChild io ch) (\<lambda>_. ?Q) (\<lambda>_ _. False) (s1\<lparr>raChild := None\<rparr>)"
    if "withdrawn c files s s1" for ch s1
    using forget[OF that] child[OF forget[OF that]] by (cases ch) (auto simp: wp intro: wpE_mono)
  have rest: "wpE (bindE (getsE raChild) (\<lambda>ch. thenE (modifyE (\<lambda>s. s\<lparr>raChild := None\<rparr>))
        (thenE (case ch of None \<Rightarrow> returnE () | Some ch \<Rightarrow> stopChild io ch) recordedErr)))
      (\<lambda>_ s'. withdrawn c files s s' \<and> raChild s' = None \<and> raErr s' = None)
      (\<lambda>_ s'. withdrawn c files s s' \<and> raChild s' = None \<and> raErr s' \<noteq> None) s1" if "withdrawn c files s s1" for s1
    unfolding wpE_bindE wpE_getsE wpE_thenE wpE_modifyE
    by (rule wpE_mono[OF halt[OF that]]) (rule recorded, assumption, simp)
  show ?thesis
    unfolding stop_def wpE_bindE[of "tryE _"] wpE_tryE
    by (rule wpE_mono[OF invalidate_wp[OF assms]]) (rule rest, simp)+
qed

text \<open>What withdrawing establishes, and what a refresh does.\<close>

lemma withdrawn_OK:
  "withdrawn c files s s' \<Longrightarrow> childOK s \<Longrightarrow> raChild s' = raChild s \<or> raChild s' = None \<Longrightarrow>
    adapterOK io c files T s' \<and> \<not> rrValid (raStatus s')"
  by (auto simp: withdrawn_def adapterOK_def announcedOK_def childOK_def)

lemma world_same [simp]: "s\<lparr>raWorld := raWorld s\<rparr> = (s :: 'w rosenpassAdapter)"
  by (cases s) simp

lemma refresh_step:
  assumes "(case raChild s of None \<Rightarrow> (False, raWorld s) | Some ch \<Rightarrow> apDone io (chId ch) (raWorld s)) = (b, w)"
  shows "wpE (refreshAdapter io c now) Q E s \<longleftrightarrow> (if b then wpE (stop io c) Q E (s\<lparr>raWorld := w\<rparr>)
      else if rrValid (raStatus s) \<and> (raChild s = None \<or> \<not> now < rrExpires (raStatus s)) then wpE (invalidate io c) Q E (s\<lparr>raWorld := w\<rparr>)
      else wpE recordedErr Q E (s\<lparr>raWorld := w\<rparr>))"
  using assms by (cases "raChild s") (auto simp: refreshAdapter_def wp split: option.split)

lemma refresh_wp:
  assumes ex: "exclusive io (rpPSKFile c) files" and ok: "adapterOK io c files T s"
  shows "wpE (refreshAdapter io c now)
    (\<lambda>_ s'. adapterOK io c files T s' \<and> raErr s' = None \<and> (rrValid (raStatus s') \<longrightarrow> now < rrExpires (raStatus s')) \<and>
       (raChild s' = raChild s \<or> raChild s' = None) \<and> raEndpoint s' = raEndpoint s)
    (\<lambda>_ s'. adapterOK io c files T s' \<and> raErr s' \<noteq> None \<and> \<not> rrValid (raStatus s') \<and> (raChild s' = raChild s \<or> raChild s' = None)) s"
proof -
  have childs: "childOK s" using ok by (simp add: adapterOK_def)
  obtain b w where poll: "(case raChild s of None \<Rightarrow> (False, raWorld s) | Some ch \<Rightarrow> apDone io (chId ch) (raWorld s)) = (b, w)"
    by fastforce
  define s1 where "s1 = s\<lparr>raWorld := w\<rparr>"
  have out: "files w (rpPSKFile c) = files (raWorld s) (rpPSKFile c)"
    using poll exclusiveD(15)[OF ex] by (auto simp: keeps_def split: option.splits) (metis snd_conv)
  have ok1: "adapterOK io c files T s1" using ok adapterOK_world[of files w c s io T, OF out] by (simp add: s1_def)
  have same: "childOK s1" "raChild s1 = raChild s" "raEndpoint s1 = raEndpoint s" "raStatus s1 = raStatus s"
    using childs by (simp_all add: s1_def childOK_def)
  let ?Q = "\<lambda>_ s'. adapterOK io c files T s' \<and> raErr s' = None \<and> (rrValid (raStatus s') \<longrightarrow> now < rrExpires (raStatus s')) \<and>
       (raChild s' = raChild s \<or> raChild s' = None) \<and> raEndpoint s' = raEndpoint s"
  let ?E = "\<lambda>_ s'. adapterOK io c files T s' \<and> raErr s' \<noteq> None \<and> \<not> rrValid (raStatus s') \<and> (raChild s' = raChild s \<or> raChild s' = None)"
  have down: "?Q u s'" if "withdrawn c files s1 s'" "raChild s' = raChild s1 \<or> raChild s' = None" "raErr s' = None" for u s'
    using withdrawn_OK[OF that(1) same(1) that(2), of io T] that same by (auto simp: withdrawn_def)
  have failed: "?E u s'" if "withdrawn c files s1 s'" "raChild s' = raChild s1 \<or> raChild s' = None" "raErr s' \<noteq> None" for u s'
    using withdrawn_OK[OF that(1) same(1) that(2), of io T] that same by auto
  have halted: "wpE (stop io c) ?Q ?E s1" by (rule wpE_mono[OF stop_wp[OF ex]]; (elim conjE)?, (rule down | rule failed); simp)
  have dropped: "wpE (invalidate io c) ?Q ?E s1" by (rule wpE_mono[OF invalidate_wp[OF ex]]; (elim conjE)?, (rule down | rule failed); simp)
  have idle: "wpE recordedErr ?Q ?E s1" if "\<not> (rrValid (raStatus s) \<and> (raChild s = None \<or> \<not> now < rrExpires (raStatus s)))"
    using ok1 same that by (cases "raErr s1") (auto simp: wp adapterOK_def announcedOK_def Let_def split: if_splits)
  show ?thesis unfolding refresh_step[OF poll] s1_def[symmetric] using halted dropped idle by (auto split: if_split)
qed

section \<open>Every handler keeps it\<close>

lemma stop_OK:
  assumes "exclusive io (rpPSKFile c) files" and "adapterOK io c files T s"
  shows "wpE (stop io c) (\<lambda>_ s'. adapterOK io c files T s' \<and> raErr s' = None \<and> \<not> rrValid (raStatus s') \<and> raChild s' = None \<and> raErr s = None)
    (\<lambda>_ s'. adapterOK io c files T s' \<and> raErr s' \<noteq> None \<and> \<not> rrValid (raStatus s') \<and> raChild s' = None) s"
proof -
  have "childOK s" using assms(2) by (simp add: adapterOK_def)
  note ok = withdrawn_OK[OF _ this, of c files _ io T]
  show ?thesis by (rule wpE_mono[OF stop_wp[OF assms(1)]]) (use ok in \<open>auto simp: withdrawn_def\<close>)
qed

lemma invalidate_OK:
  assumes "exclusive io (rpPSKFile c) files" and "adapterOK io c files T s"
  shows "wpE (invalidate io c) (\<lambda>_. adapterOK io c files T) (\<lambda>_. adapterOK io c files T) s"
proof -
  have "childOK s" using assms(2) by (simp add: adapterOK_def)
  note ok = withdrawn_OK[OF _ this, of c files _ io T]
  show ?thesis by (rule wpE_mono[OF invalidate_wp[OF assms(1)]]) (use ok in auto)
qed

lemma startChild_OK:
  assumes ex: "exclusive io (rpPSKFile c) files" and ok: "adapterOK io c files T s" and "raChild s = None" and "raErr s = None"
  shows "wpE (startChild io c r now) (\<lambda>_ s'. adapterOK io c files T s' \<and> \<not> rrValid (raStatus s') \<and> raErr s' = None) (\<lambda>_. adapterOK io c files T) s"
proof -
  have down: "\<not> rrValid (raStatus s)" "rrHash (raStatus s) = 0" "rrExpires (raStatus s) = 0" "files (raWorld s) (rpPSKFile c) = None"
    using ok assms(3,4) by (auto simp: adapterOK_def announcedOK_def Let_def split: if_splits)
  have made: "wpE (startProcess io c r g) (\<lambda>ch w. chGeneration ch = g \<and> files w (rpPSKFile c) = files v (rpPSKFile c))
      (\<lambda>_ w. files w (rpPSKFile c) = files v (rpPSKFile c)) v" for g v
  proof -
    have "wpE (startProcess io c r g) (\<lambda>ch _. chGeneration ch = g) (\<lambda>_ _. True) v"
      unfolding startProcess_def by (intro wpE_last) (auto simp: wpE_returnE wpE_throwE split: sum.split intro!: wpE_last)
    from wpE_conj[OF this wpE_keeps[OF startProcess_keeps[OF ex], where Q = "\<lambda>_ w. files w (rpPSKFile c) = files v (rpPSKFile c)"
          and E = "\<lambda>_ w. files w (rpPSKFile c) = files v (rpPSKFile c)"]]
    show ?thesis by simp
  qed
  show ?thesis
    unfolding startChild_def wpE_bindE wpE_thenE wpE_getsE wpE_modifyE wpE_tryE wpE_onFiles
    by (rule wpE_mono[OF made]) (use down assms(4) in \<open>auto simp: wp adapterOK_def announcedOK_def childOK_def\<close>)
qed

lemma request_wp:
  assumes ex: "exclusive io (rpPSKFile c) files" and ok: "adapterOK io c files T s"
  shows "wpE (request io c r now) (\<lambda>resp s'. adapterOK io c files T s' \<and> resp = raStatus s' \<and> raErr s' = None \<and>
      (rrValid resp \<longrightarrow> now < rrExpires resp)) (\<lambda>_. adapterOK io c files T) s"
proof -
  let ?live = "\<lambda>s'. adapterOK io c files T s' \<and> raErr s' = None \<and> (rrValid (raStatus s') \<longrightarrow> now < rrExpires (raStatus s'))"
  let ?Q = "\<lambda>resp s'. adapterOK io c files T s' \<and> resp = raStatus s' \<and> raErr s' = None \<and> (rrValid resp \<longrightarrow> now < rrExpires resp)"
  let ?E = "\<lambda>_. adapterOK io c files T"
  have endpoint: "adapterOK io c files T (s'\<lparr>raEndpoint := e\<rparr>) = adapterOK io c files T s'"
    "adapterOK io c files T (s'\<lparr>raEndpoint := e, raRetryAfter := t\<rparr>) = adapterOK io c files T s'" for s' e t
    by (simp_all add: adapterOK_def announcedOK_def childOK_def)
  have withdraw: "wpE (withdraw io c) ?Q ?E s"
    unfolding withdraw_def wpE_thenE wpE_modifyE wpE_getsE
    by (rule wpE_mono[OF stop_OK[OF ex, of T]]) (use ok endpoint in auto)
  have change: "wpE (changeEndpoint io c r') (\<lambda>_. ?live) ?E s1" if "?live s1" for r' s1
    unfolding changeEndpoint_def
    by (simp add: wp that, intro impI wpE_mono[OF stop_OK[OF ex, of T]]) (use that endpoint in \<open>auto simp: wpE_modifyE\<close>)
  have launch: "wpE (bindE (getsE (\<lambda>s. raChild s = None \<and> \<not> now < raRetryAfter s)) (\<lambda>due.
      thenE (if due then startChild io c r' now else returnE ()) (getsE raStatus))) ?Q ?E s1" if "?live s1" for r' s1
    using that by (auto simp: wpE_bindE wpE_getsE wpE_thenE wpE_if wpE_returnE intro!: wpE_mono[OF startChild_OK[OF ex, of T]])
  have rest: "wpE (thenE (refreshAdapter io c now) (thenE (changeEndpoint io c r') (bindE (getsE (\<lambda>s. raChild s = None \<and> \<not> now < raRetryAfter s))
      (\<lambda>due. thenE (if due then startChild io c r' now else returnE ()) (getsE raStatus))))) ?Q ?E s1" if "adapterOK io c files T s1" for r' s1
    unfolding wpE_thenE[of "refreshAdapter _ _ _"] wpE_thenE[of "changeEndpoint _ _ _"]
    by (rule wpE_mono[OF refresh_wp[OF ex that]]) (auto intro!: wpE_mono[OF change] launch)
  have refused: "wpE (bindE (tryE (stop io c)) (\<lambda>res. throwE (h res))) ?Q ?E s1" if "adapterOK io c files T s1" for h s1
    unfolding wpE_bindE wpE_tryE wpE_throwE by (rule wpE_mono[OF stop_OK[OF ex that]]) auto
  have checked: "adapterOK io c files T (s\<lparr>raWorld := w\<rparr>)" if "files w (rpPSKFile c) = files (raWorld s) (rpPSKFile c)" for w
    using adapterOK_world[of files w c s io T, OF that] ok by simp
  show ?thesis
    unfolding request_def
    by (simp add: wpE_throwE wpE_if ok withdraw, intro impI)
      (unfold wpE_bindE[of "tryE (onFiles _)"] wpE_tryE wpE_onFiles, rule wpE_keeps[OF validate_keeps[OF ex]]; simp add: rest refused checked)
qed

lemma keyExpires_bound: "keyExpires seen modified \<le> seen + rosenpassLifetime"
  by (auto simp: keyExpires_def Let_def timeSub_def minDuration_def maxDuration_def rosenpassLifetime_def)

lemma adapterOK_mono: "adapterOK io c files T s \<Longrightarrow> T \<le> T' \<Longrightarrow> adapterOK io c files T' s"
  by (auto simp: adapterOK_def announcedOK_def Let_def split: if_splits)

lemma acceptKey_OK:
  assumes ex: "exclusive io (rpPSKFile c) files" and ok: "adapterOK io c files T s" and "seen \<le> T" and "raErr s = None" and "raChild s \<noteq> None"
  shows "wpE (acceptKey io c raw key seen) (\<lambda>_. adapterOK io c files T) (\<lambda>_. adapterOK io c files T) s"
proof -
  let ?I = "\<lambda>_. adapterOK io c files T"
  obtain info w where l: "apLstat io raw (raWorld s) = (info, w)" by fastforce
  have out: "files w (rpPSKFile c) = files (raWorld s) (rpPSKFile c)"
    using exclusiveD(3)[OF ex, of raw] l by (metis keeps_def snd_conv)
  define s1 where "s1 = s\<lparr>raWorld := w\<rparr>"
  have s1: "adapterOK io c files T s1" "raErr s1 = None" "raChild s1 \<noteq> None"
    using ok assms(4,5) adapterOK_world[of files w c s io T, OF out] by (simp_all add: s1_def)
  have failed: "wpE (invalidate io c) ?I ?I (s1\<lparr>raWorld := v\<rparr>)" for v
  proof -
    have "childOK (s1\<lparr>raWorld := v\<rparr>)" using s1(1) by (simp add: adapterOK_def childOK_def)
    note down = withdrawn_OK[OF _ this, of c files _ io T]
    show ?thesis by (rule wpE_mono[OF invalidate_wp[OF ex]]) (use down in auto)
  qed
  have live: "keyExpires seen m \<le> T + rosenpassLifetime" for m using keyExpires_bound[of seen m] assms(3) by simp
  have publish: "wpE (bindE (tryE (onFiles (publishRosenpassPSK io (rpPSKFile c) key))) (\<lambda>res. case res of
            Inl _ \<Rightarrow> invalidate io c
          | Inr _ \<Rightarrow> modifyE (\<lambda>s. s\<lparr>raLastHash := enHash (apEnv io) key,
              raStatus := (raStatus s)\<lparr>rrKeyGeneration := rrKeyGeneration (raStatus s) + 1, rrHash := enHash (apEnv io) key,
                rrExpires := keyExpires seen m, rrValid := True\<rparr>\<rparr>))) ?I ?I s1" for m
    unfolding wpE_bindE wpE_tryE wpE_onFiles
    by (rule wpE_mono[OF publish_wp[OF ex]])
      (use s1 live failed in \<open>auto simp: wp adapterOK_def announcedOK_def childOK_def fileText_def\<close>)
  show ?thesis
    unfolding acceptKey_def wpE_bindE[of "pollFiles _"] wpE_pollFiles l prod.case s1_def[symmetric]
    using failed[of "raWorld s1"] publish by (cases info) (auto simp: wpE_if)
qed

lemma exchanged_OK:
  assumes ex: "exclusive io (rpPSKFile c) files" and ok: "adapterOK io c files T s" and "seen \<le> T" and "raErr s = None" and "raChild s \<noteq> None"
  shows "wpE (exchanged io c raw seen) (\<lambda>_. adapterOK io c files T) (\<lambda>_. adapterOK io c files T) s"
proof -
  obtain r w where r: "readRaw io raw seen (raWorld s) = (r, w)" by fastforce
  have out: "files w (rpPSKFile c) = files (raWorld s) (rpPSKFile c)"
    using exclusiveD(1)[OF ex, of raw] r by (auto simp: readRaw_def keeps_def split: prod.splits) (metis snd_conv)
  have s1: "adapterOK io c files T (s\<lparr>raWorld := w\<rparr>)" using ok adapterOK_world[of files w c s io T, OF out] by simp
  show ?thesis
    unfolding exchanged_def wpE_bindE[of "pollFiles _"] wpE_pollFiles r prod.case
    using s1 assms(4,5) acceptKey_OK[OF ex s1 assms(3)] invalidate_OK[OF ex s1] by (cases r) (auto simp: wp)
qed

lemma childEvent_OK:
  assumes ex: "exclusive io (rpPSKFile c) files" and ok: "adapterOK io c files T s" and "seen \<le> T"
  shows "wpE (childEvent io c child e seen) (\<lambda>_. adapterOK io c files T) (\<lambda>_. adapterOK io c files T) s"
proof -
  let ?I = "\<lambda>_. adapterOK io c files T"
  have marked: "adapterOK io c files T (s1\<lparr>raChild := Some (ch\<lparr>chStopEvent := x\<rparr>)\<rparr>)" if "adapterOK io c files T s1" "raChild s1 = Some ch" for s1 ch x
    using that by (auto simp: adapterOK_def announcedOK_def childOK_def Let_def) blast
  have halt: "wpE (stop io c) ?I ?I s1" if "adapterOK io c files T s1" for s1
    by (rule wpE_mono[OF stop_OK[OF ex that]]) auto
  show ?thesis
    unfolding childEvent_def wpE_bindE[of "getsE _"] wpE_getsE wpE_if wpE_returnE wpE_bindE[of "tryE _"] wpE_tryE
    by (auto simp: ok wpE_thenE wpE_modifyE isCurrent_def intro!: wpE_mono[OF refresh_wp[OF ex ok]] halt marked exchanged_OK[OF ex _ assms(3)]
        split: option.splits)
qed

lemma handle_OK:
  assumes ex: "exclusive io (rpPSKFile c) files" and ok: "adapterOK io c files T s" and run: "handleConnection io c co now s = (answer, s')"
  shows "adapterOK io c files T s' \<and> (\<forall>resp. answer = Some resp \<longrightarrow> resp = raStatus s' \<and> raErr s' = None \<and>
    (rrValid resp \<longrightarrow> now < rrExpires resp) \<and> (\<exists>uid. rpDaemonUID c = Some uid \<and> coUcred co = Some uid))"
  using run ok wpE_InrD[OF request_wp[OF ex ok]] wpE_InlD[OF request_wp[OF ex ok]] unfolding handleConnection_def
  by (auto simp: rosenpassAuthorized_def split: if_splits sum.splits prod.splits option.splits)

definition serverOK :: "('k, 'h, 'r, 'w) adapterIO \<Rightarrow> rosenpassConfig \<Rightarrow> ('w \<Rightarrow> string \<Rightarrow> string option) \<Rightarrow> time \<Rightarrow> 'w rosenpassServer \<Rightarrow> bool" where
  "serverOK io c files T v \<longleftrightarrow> adapterOK io c files T (svAdapter v) \<and> svSlots v \<le> 8"

lemma serverStep_OK:
  assumes ex: "exclusive io (rpPSKFile c) files" and ok: "serverOK io c files T v" and "\<And>pid line seen. e = Output pid line seen \<Longrightarrow> seen \<le> T"
  shows "serverOK io c files T (serverStep io c e v)"
proof -
  have a: "adapterOK io c files T (svAdapter v)" using ok by (simp add: serverOK_def)
  show ?thesis
  proof (cases e)
    case (Served co now)
    obtain r s' where h: "handleConnection io c co now (svAdapter v) = (r, s')" by fastforce
    from handle_OK[OF ex a h] h Served ok show ?thesis by (auto simp: serverOK_def)
  next
    case (Ticked now)
    from refresh_wp[OF ex a, of now] Ticked ok show ?thesis by (auto simp: serverOK_def wpE_def split: prod.splits sum.splits)
  next
    case (Output pid line seen)
    with assms(3) have "seen \<le> T" by blast
    from childEvent_OK[OF ex a this] Output ok show ?thesis
      by (auto simp: serverOK_def outputLine_def wpE_snd split: option.split)
  next
    case (Ended pid)
    have "adapterOK io c files T (snd (stop io c (svAdapter v)))"
      using stop_OK[OF ex a] by (auto simp: wpE_def split: prod.splits sum.splits)
    with Ended ok show ?thesis by (auto simp: serverOK_def childEnded_def)
  qed (use ok in \<open>auto simp: serverOK_def\<close>)
qed

lemma serverLoop_OK:
  assumes ex: "exclusive io (rpPSKFile c) files" and "adapterOK io c files T s" and "\<forall>pid line seen. Output pid line seen \<in> set es \<longrightarrow> seen \<le> T"
  shows "serverOK io c files T (serverLoop io c es s)"
proof -
  have "serverOK io c files T (fold (serverStep io c) es v)" if "serverOK io c files T v" "\<forall>pid line seen. Output pid line seen \<in> set es \<longrightarrow> seen \<le> T" for es v
    using that
  proof (induction es arbitrary: v)
    case (Cons e es)
    have "serverOK io c files T (serverStep io c e v)" by (rule serverStep_OK[OF ex Cons.prems(1)]) (use Cons.prems(2) in auto)
    with Cons show ?case by simp
  qed simp
  with assms(2,3) show ?thesis by (simp add: serverLoop_def serverOK_def)
qed

lemma newAdapter_OK: "files w (rpPSKFile c) = None \<Longrightarrow> adapterOK io c files T (newAdapter ident w)"
  by (simp add: newAdapter_def adapterOK_def announcedOK_def childOK_def zeroResponse_def)

text \<open>
  C11: What the adapter announces is what the output file holds.  Start the adapter with no output
  file and let it handle any events in any order: requests of clients, ticks, lines of the child's
  output, ends of children.  Whenever its status is valid, no error is recorded, the child that
  negotiated the key is the current one, the output file holds exactly the text of a key with the
  announced hash, and the key expires at most one lifetime after the latest line of output.
  Whenever its status is not valid and no error is recorded, there is no output file.
\<close>

theorem adapter_announces_output:
  assumes "exclusive io (rpPSKFile c) files" and "files w (rpPSKFile c) = None"
    and "\<forall>pid line seen. Output pid line seen \<in> set es \<longrightarrow> seen \<le> T"
    and "s = svAdapter (serverLoop io c es (newAdapter ident w))"
  shows "if rrValid (raStatus s)
    then raErr s = None \<and> (\<exists>child. raChild s = Some child \<and> chGeneration child = rrGeneration (raStatus s)) \<and>
      rrExpires (raStatus s) \<le> T + 3 * minute \<and>
      (\<exists>key. files (raWorld s) (rpPSKFile c) = Some (enKeyString (apEnv io) key @ [CHR 0x0a]) \<and> enHash (apEnv io) key = rrHash (raStatus s))
    else raErr s = None \<longrightarrow> files (raWorld s) (rpPSKFile c) = None"
proof -
  have "adapterOK io c files T s"
    using serverLoop_OK[OF assms(1) newAdapter_OK[of files w c io T ident, OF assms(2)] assms(3)] assms(4) by (simp add: serverOK_def)
  then show ?thesis
    by (auto simp: adapterOK_def announcedOK_def childOK_def fileText_def rosenpassLifetime_def Let_def split: if_splits)
qed

text \<open>
  C12: Only the daemon is answered, and never with a stale key.  In every reachable state, an answer
  to a connection means that the kernel reported the configured user for the client; and an answer
  that declares a key valid is given before that key expires, while the output file holds it.
\<close>

theorem adapter_answers_fresh:
  assumes "exclusive io (rpPSKFile c) files" and "files w (rpPSKFile c) = None"
    and "\<forall>pid line seen. Output pid line seen \<in> set es \<longrightarrow> seen \<le> T"
    and "handleConnection io c co now (svAdapter (serverLoop io c es (newAdapter ident w))) = (Some resp, s)"
  shows "coUcred co = rpDaemonUID c \<and> (rrValid resp \<longrightarrow> now < rrExpires resp \<and> rrExpires resp \<le> T + 3 * minute \<and>
    (\<exists>key. files (raWorld s) (rpPSKFile c) = Some (enKeyString (apEnv io) key @ [CHR 0x0a]) \<and> enHash (apEnv io) key = rrHash resp))"
proof -
  have "adapterOK io c files T (svAdapter (serverLoop io c es (newAdapter ident w)))"
    using serverLoop_OK[OF assms(1) newAdapter_OK[of files w c io T ident, OF assms(2)] assms(3)] by (simp add: serverOK_def)
  from handle_OK[OF assms(1) this assms(4)] show ?thesis
    by (auto simp: adapterOK_def announcedOK_def fileText_def rosenpassLifetime_def Let_def split: if_splits)
qed

end
