(* ===== verification/RosenpassKeys.thy ===== *)
theory RosenpassKeys
  imports RosenpassRuns
begin

text \<open>
  How the status of the adapter develops, with nothing assumed about files, child or
  clients: what the generation counters identify, what a recorded error means, which
  lines of output count, and which answers the daemon accepts.
\<close>

section \<open>Key generations\<close>

text \<open>
  At most \<open>n\<close> publications lead from the status \<open>a\<close> to \<open>b\<close>; without one a valid status
  is still the same status.
\<close>

definition progress :: "nat \<Rightarrow> rosenpassResponse \<Rightarrow> rosenpassResponse \<Rightarrow> bool" where
  "progress n a b \<longleftrightarrow> (\<exists>k \<le> n. rrKeyGeneration b = rrKeyGeneration a + of_nat k \<and> rrInstance b = rrInstance a \<and>
     (k = 0 \<longrightarrow> rrValid b \<longrightarrow> b = a))"

lemma progress_refl [simp]: "progress n a a"
  by (auto simp: progress_def intro: exI[of _ 0])

lemma progress_trans: "progress n a b \<Longrightarrow> progress m b d \<Longrightarrow> progress (n + m) a d"
proof -
  assume "progress n a b" "progress m b d"
  then obtain k l where "k \<le> n" "l \<le> m" "rrKeyGeneration b = rrKeyGeneration a + of_nat k" "rrKeyGeneration d = rrKeyGeneration b + of_nat l"
    "rrInstance d = rrInstance a" "k = 0 \<longrightarrow> rrValid b \<longrightarrow> b = a" "l = 0 \<longrightarrow> rrValid d \<longrightarrow> d = b"
    unfolding progress_def by auto
  then show ?thesis unfolding progress_def by (intro exI[of _ "k + l"]) auto
qed

lemma progress_none: "progress 0 a b \<Longrightarrow> rrValid b \<Longrightarrow> b = a"
  by (simp add: progress_def)

lemma progress_mono: "progress n a b \<Longrightarrow> n \<le> m \<Longrightarrow> progress m a b"
  unfolding progress_def by (meson order_trans)

definition invalidated :: "rosenpassResponse \<Rightarrow> rosenpassResponse" where
  "invalidated a = a\<lparr>rrValid := False, rrHash := 0, rrExpires := 0\<rparr>"

lemma progress_invalidated [simp]: "progress n a (invalidated a)"
  by (auto simp: progress_def invalidated_def intro: exI[of _ 0])

lemma invalidated_invalid [simp]: "\<not> rrValid (invalidated a)"
  by (simp add: invalidated_def)

lemma progress_step: "progress 0 a b \<Longrightarrow> progress 0 b d \<Longrightarrow> progress 0 a d"
  using progress_trans[of 0 a b 0 d] by simp

lemma invalidate_status:
  "wpE (invalidate io c) (\<lambda>_ s'. raStatus s' = invalidated (raStatus s) \<and> raChild s' = raChild s \<and> raErr s = None)
    (\<lambda>_ s'. raStatus s' = invalidated (raStatus s) \<and> raChild s' = raChild s \<and> raErr s' \<noteq> None) s"
  by (auto simp: invalidate_def wp invalidated_def split: prod.split option.split)

lemma stopChild_status:
  "wpE (stopChild io ch) (\<lambda>_ s'. raStatus s' = raStatus s \<and> raChild s' = raChild s \<and> (raErr s \<noteq> None \<longrightarrow> raErr s' \<noteq> None)) (\<lambda>_ _. False) s"
  by (auto simp: stopChild_def wp split: prod.split intro!: wpE_any)

lemma stop_status:
  "wpE (stop io c) (\<lambda>_ s'. raStatus s' = invalidated (raStatus s) \<and> raChild s' = None \<and> raErr s = None)
    (\<lambda>_ s'. raStatus s' = invalidated (raStatus s) \<and> raChild s' = None \<and> raErr s' \<noteq> None) s"
proof -
  let ?R = "\<lambda>s'. raStatus s' = invalidated (raStatus s) \<and> raChild s' = None \<and> (raErr s \<noteq> None \<longrightarrow> raErr s' \<noteq> None)"
  have recorded: "wpE recordedErr (\<lambda>_ s'. raStatus s' = invalidated (raStatus s) \<and> raChild s' = None \<and> raErr s = None)
      (\<lambda>_ s'. raStatus s' = invalidated (raStatus s) \<and> raChild s' = None \<and> raErr s' \<noteq> None) s2" if "?R s2" for s2
    using that by (cases "raErr s2") (auto simp: wp)
  have halt: "wpE (case ch of None \<Rightarrow> returnE () | Some ch \<Rightarrow> stopChild io ch) (\<lambda>_. ?R) (\<lambda>_ _. False) s1" if "?R s1" for ch s1
    using that by (cases ch) (auto simp: wp intro!: wpE_mono[OF stopChild_status])
  have rest: "wpE (bindE (getsE raChild) (\<lambda>ch. thenE (modifyE (\<lambda>s. s\<lparr>raChild := None\<rparr>))
        (thenE (case ch of None \<Rightarrow> returnE () | Some ch \<Rightarrow> stopChild io ch) recordedErr)))
      (\<lambda>_ s'. raStatus s' = invalidated (raStatus s) \<and> raChild s' = None \<and> raErr s = None)
      (\<lambda>_ s'. raStatus s' = invalidated (raStatus s) \<and> raChild s' = None \<and> raErr s' \<noteq> None) s1"
    if "raStatus s1 = invalidated (raStatus s)" "raErr s \<noteq> None \<longrightarrow> raErr s1 \<noteq> None" for s1
    unfolding wpE_bindE wpE_getsE wpE_thenE wpE_modifyE
    by (rule wpE_mono[OF halt]) (use that in simp, rule recorded, assumption, simp)
  show ?thesis
    unfolding stop_def wpE_bindE[of "tryE _"] wpE_tryE
    by (rule wpE_mono[OF invalidate_status]) (rule rest; simp)+
qed

lemma refresh_status:
  "wpE (refreshAdapter io c now)
    (\<lambda>_ s'. progress 0 (raStatus s) (raStatus s') \<and> (rrValid (raStatus s') \<longrightarrow> raChild s' \<noteq> None) \<and> raErr s = None)
    (\<lambda>_ s'. progress 0 (raStatus s) (raStatus s') \<and> raErr s' \<noteq> None \<and> (raChild s' = None \<or> raChild s' = raChild s)) s"
proof -
  obtain b w where poll: "(case raChild s of None \<Rightarrow> (False, raWorld s) | Some ch \<Rightarrow> apDone io (chId ch) (raWorld s)) = (b, w)"
    by fastforce
  show ?thesis
    unfolding refresh_step[OF poll]
    by (auto simp: wp intro!: wpE_mono[OF stop_status] wpE_mono[OF invalidate_status] split: option.split)
qed

lemma startChild_status:
  "\<not> rrValid (raStatus s) \<Longrightarrow> wpE (startChild io c r now) (\<lambda>_ s'. progress 0 (raStatus s) (raStatus s')) (\<lambda>_ s'. progress 0 (raStatus s) (raStatus s')) s"
  by (auto simp: startChild_def wp progress_def intro!: wpE_any)

lemma changeEndpoint_status:
  assumes "rrValid (raStatus s) \<longrightarrow> raChild s \<noteq> None"
  shows "wpE (changeEndpoint io c r) (\<lambda>_ s'. progress 0 (raStatus s) (raStatus s') \<and> (rrValid (raStatus s') \<longrightarrow> raChild s' \<noteq> None))
    (\<lambda>_ s'. progress 0 (raStatus s) (raStatus s') \<and> raErr s' \<noteq> None \<and> raChild s' = None) s"
  using assms by (auto simp: changeEndpoint_def wp intro!: wpE_mono[OF stop_status])

lemma request_status:
  "wpE (request io c r now) (\<lambda>_ s'. progress 0 (raStatus s) (raStatus s') \<and> raErr s = None)
    (\<lambda>_ s'. progress 0 (raStatus s) (raStatus s') \<and> (raErr s \<noteq> None \<longrightarrow> raErr s' \<noteq> None \<and> (raChild s' = None \<or> raChild s' = raChild s))) s"
proof -
  let ?P = "\<lambda>s'. progress 0 (raStatus s) (raStatus s')"
  let ?Q = "\<lambda>_ s'. ?P s' \<and> raErr s = None"
  let ?E = "\<lambda>_ s'. ?P s' \<and> (raErr s \<noteq> None \<longrightarrow> raErr s' \<noteq> None \<and> (raChild s' = None \<or> raChild s' = raChild s))"
  have launch: "wpE (bindE (getsE (\<lambda>s. raChild s = None \<and> \<not> now < raRetryAfter s)) (\<lambda>due.
      thenE (if due then startChild io c r' now else returnE ()) (getsE raStatus))) ?Q ?E s1"
    if "?P s1" "rrValid (raStatus s1) \<longrightarrow> raChild s1 \<noteq> None" "raErr s = None" for r' s1
    using that by (auto simp: wpE_bindE wpE_getsE wpE_thenE wpE_if wpE_returnE intro!: wpE_mono[OF startChild_status] intro: progress_step)
  have change: "wpE (changeEndpoint io c r') (\<lambda>_ s'. ?P s' \<and> (rrValid (raStatus s') \<longrightarrow> raChild s' \<noteq> None)) ?E s1"
    if "?P s1" "rrValid (raStatus s1) \<longrightarrow> raChild s1 \<noteq> None" for r' s1
    by (rule wpE_mono[OF changeEndpoint_status[OF that(2)]]) (use that in \<open>auto intro: progress_step\<close>)
  have rest: "wpE (thenE (refreshAdapter io c now) (thenE (changeEndpoint io c r') (bindE (getsE (\<lambda>s. raChild s = None \<and> \<not> now < raRetryAfter s))
      (\<lambda>due. thenE (if due then startChild io c r' now else returnE ()) (getsE raStatus))))) ?Q ?E (s\<lparr>raWorld := w\<rparr>)" for r' w
    unfolding wpE_thenE[of "refreshAdapter _ _ _"] wpE_thenE[of "changeEndpoint _ _ _"]
  proof (rule wpE_mono[OF refresh_status], goal_cases)
    case (1 u s1)
    then show ?case by (intro wpE_mono[OF change[of s1 r']] launch) auto
  qed auto
  have refused: "wpE (bindE (tryE (stop io c)) (\<lambda>res. throwE (h res))) ?Q ?E (s\<lparr>raWorld := w\<rparr>)" for h w
    unfolding wpE_bindE wpE_tryE wpE_throwE by (rule wpE_mono[OF stop_status]) auto
  have withdraw: "wpE (withdraw io c) ?Q ?E s"
    unfolding withdraw_def wpE_thenE wpE_modifyE wpE_getsE by (rule wpE_mono[OF stop_status]) auto
  have valid: "wpE (bindE (tryE (onFiles (validateRosenpassRequest io r))) (\<lambda>valid. case valid of
         Inl e \<Rightarrow> bindE (tryE (stop io c)) (\<lambda>res. throwE (case res of Inl e' \<Rightarrow> Joined e e' | Inr _ \<Rightarrow> e))
       | Inr r' \<Rightarrow> thenE (refreshAdapter io c now) (thenE (changeEndpoint io c r')
          (bindE (getsE (\<lambda>s. raChild s = None \<and> \<not> now < raRetryAfter s)) (\<lambda>due.
           thenE (if due then startChild io c r' now else returnE ()) (getsE raStatus)))))) ?Q ?E s"
    unfolding wpE_bindE[of "tryE (onFiles _)"] wpE_tryE wpE_onFiles sum.case by (rule wpE_any) (rule rest refused)+
  show ?thesis unfolding request_def wpE_if wpE_throwE using withdraw valid by auto
qed

lemma acceptKey_status:
  "wpE (acceptKey io c raw key seen) (\<lambda>_ s'. progress (Suc 0) (raStatus s) (raStatus s')) (\<lambda>_ s'. progress (Suc 0) (raStatus s) (raStatus s')) s"
proof -
  let ?I = "\<lambda>_ s'. progress (Suc 0) (raStatus s) (raStatus s')"
  have failed: "wpE (invalidate io c) ?I ?I s1" if "raStatus s1 = raStatus s" for s1
    by (rule wpE_mono[OF invalidate_status]) (use that in auto)
  have published: "progress (Suc 0) a (a\<lparr>rrKeyGeneration := rrKeyGeneration a + 1, rrHash := h, rrExpires := t, rrValid := True\<rparr>)" for a h t
    by (auto simp: progress_def intro: exI[of _ 1])
  have publish: "wpE (bindE (tryE (onFiles m)) (\<lambda>res. case res of Inl _ \<Rightarrow> invalidate io c
      | Inr _ \<Rightarrow> modifyE (\<lambda>s. s\<lparr>raLastHash := h, raStatus := (raStatus s)\<lparr>rrKeyGeneration := rrKeyGeneration (raStatus s) + 1, rrHash := h,
            rrExpires := t, rrValid := True\<rparr>\<rparr>))) ?I ?I (s\<lparr>raWorld := w\<rparr>)" for m :: "('a, unit) eff" and h t w
    unfolding wpE_bindE wpE_tryE wpE_onFiles by (rule wpE_any) (simp_all add: failed published wpE_modifyE)
  obtain info w where l: "apLstat io raw (raWorld s) = (info, w)" by fastforce
  show ?thesis
    unfolding acceptKey_def wpE_bindE[of "pollFiles _"] wpE_pollFiles l prod.case
    using failed publish by (cases info) (auto simp: wpE_if)
qed

lemma exchanged_status:
  "wpE (exchanged io c raw seen) (\<lambda>_ s'. progress (Suc 0) (raStatus s) (raStatus s')) (\<lambda>_ s'. progress (Suc 0) (raStatus s) (raStatus s')) s"
  by (auto simp: exchanged_def wp intro!: wpE_mono[OF invalidate_status] wpE_mono[OF acceptKey_status] split: prod.split option.split)

lemma childEvent_status:
  "wpE (childEvent io c child e seen) (\<lambda>_ s'. progress (Suc 0) (raStatus s) (raStatus s') \<and> (raErr s \<noteq> None \<longrightarrow> raErr s' \<noteq> None \<and> (raChild s' = None \<or> raChild s' = raChild s)))
    (\<lambda>_ s'. progress (Suc 0) (raStatus s) (raStatus s') \<and> (raErr s \<noteq> None \<longrightarrow> raErr s' \<noteq> None \<and> (raChild s' = None \<or> raChild s' = raChild s))) s"
proof -
  have one: "progress 0 a b \<Longrightarrow> progress (Suc 0) b d \<Longrightarrow> progress (Suc 0) a d" for a b d using progress_trans[of 0 a b "Suc 0" d] by simp
  have down: "progress 0 a b \<Longrightarrow> progress (Suc 0) a (invalidated b)" for a b using one[of a b "invalidated b"] by simp
  show ?thesis
    unfolding childEvent_def wpE_bindE[of "getsE _"] wpE_getsE wpE_if wpE_returnE wpE_bindE[of "tryE _"] wpE_tryE
    by (auto simp: wpE_thenE wpE_modifyE intro!: wpE_mono[OF refresh_status] wpE_mono[OF stop_status] wpE_mono[OF exchanged_status]
        intro: one down progress_mono[of 0])
qed

lemma handle_status:
  assumes "handleConnection io c co now s = (answer, s')"
  shows "progress 0 (raStatus s) (raStatus s')"
    and "raErr s \<noteq> None \<Longrightarrow> answer = None \<and> raErr s' \<noteq> None \<and> (raChild s' = None \<or> raChild s' = raChild s)"
  using assms wpE_InrD[OF request_status[of io c _ now s]] wpE_InlD[OF request_status[of io c _ now s]] unfolding handleConnection_def
  by (auto split: if_splits sum.splits prod.splits option.splits)

lemma serverStep_status:
  "progress (Suc 0) (raStatus (svAdapter v)) (raStatus (svAdapter (serverStep io c e v))) \<and>
   (raErr (svAdapter v) \<noteq> None \<longrightarrow> raErr (svAdapter (serverStep io c e v)) \<noteq> None \<and>
      (raChild (svAdapter (serverStep io c e v)) = None \<or> raChild (svAdapter (serverStep io c e v)) = raChild (svAdapter v)))"
proof (cases e)
  case (Served co now)
  obtain r s' where h: "handleConnection io c co now (svAdapter v) = (r, s')" by fastforce
  from handle_status[OF h] h Served show ?thesis by (auto intro: progress_mono[of 0])
next
  case (Ticked now)
  with refresh_status[of io c now "svAdapter v"] show ?thesis
    by (auto simp: wpE_def intro: progress_mono[of 0] split: prod.splits sum.splits)
next
  case (Output pid line seen)
  with childEvent_status[of io c _ "parseRosenpassEvent (apBase64 io) line" seen "svAdapter v"] show ?thesis
    by (cases "raChild (svAdapter v)") (simp_all add: outputLine_def wpE_snd)
next
  case (Ended pid)
  with stop_status[of io c "svAdapter v"] show ?thesis
    by (auto simp: childEnded_def wpE_def split: prod.splits sum.splits)
qed auto

section \<open>The contract of a key source\<close>

text \<open>
  What the daemon relies on when it asks, reads the file and asks again.  \<open>holds s h\<close>
  says that the key with hash \<open>h\<close> can be read in the state \<open>s\<close>.
\<close>

locale key_source =
  fixes step :: "'e \<Rightarrow> 's \<Rightarrow> 's" and status :: "'s \<Rightarrow> rosenpassResponse" and good :: "'s \<Rightarrow> bool" and holds :: "'s \<Rightarrow> hash \<Rightarrow> bool"
  assumes good_step: "good s \<Longrightarrow> good (step e s)"
    and announced: "good s \<Longrightarrow> rrValid (status s) \<Longrightarrow> holds s (rrHash (status s))"
    and counted: "progress (Suc 0) (status s) (status (step e s))"
begin

lemma good_run: "good s \<Longrightarrow> good (fold step es s)"
  by (induction es arbitrary: s) (simp_all add: good_step)

lemma counted_run: "progress (length es) (status s) (status (fold step es s))"
proof (induction es arbitrary: s)
  case (Cons e es)
  from progress_trans[OF counted Cons.IH] show ?case by simp
qed simp

lemma same_announcement:
  assumes "length es < 2 ^ 64" and "rrValid (status (fold step es s))"
    and "rrKeyGeneration (status (fold step es s)) = rrKeyGeneration (status s)"
  shows "status (fold step es s) = status s"
proof -
  obtain k where k: "k \<le> length es" "rrKeyGeneration (status (fold step es s)) = rrKeyGeneration (status s) + of_nat k"
    "k = 0 \<longrightarrow> rrValid (status (fold step es s)) \<longrightarrow> status (fold step es s) = status s"
    using counted_run[of es s] unfolding progress_def by auto
  with assms(3) have "of_nat k = (0 :: 64 word)" by simp
  then have "2 ^ 64 dvd k" by (simp add: word_of_nat_eq_0_iff)
  with k(1) assms(1) have "k = 0" using dvd_imp_le[of "2 ^ 64" k] by linarith
  with k(3) assms(2) show ?thesis by simp
qed

lemma between:
  assumes "length es1 + length es2 < 2 ^ 64" and "rrValid (status (fold step es2 (fold step es1 s)))"
    and "rrKeyGeneration (status (fold step es2 (fold step es1 s))) = rrKeyGeneration (status s)"
  shows "status (fold step es1 s) = status s"
proof -
  obtain k where k: "k \<le> length es1" "rrKeyGeneration (status (fold step es1 s)) = rrKeyGeneration (status s) + of_nat k"
    "k = 0 \<longrightarrow> rrValid (status (fold step es1 s)) \<longrightarrow> status (fold step es1 s) = status s"
    using counted_run[of es1 s] unfolding progress_def by auto
  obtain l where l: "l \<le> length es2" "rrKeyGeneration (status (fold step es2 (fold step es1 s))) = rrKeyGeneration (status (fold step es1 s)) + of_nat l"
    "l = 0 \<longrightarrow> status (fold step es2 (fold step es1 s)) = status (fold step es1 s)"
    using counted_run[of es2 "fold step es1 s"] assms(2) unfolding progress_def by auto
  from k(2) l(2) assms(3) have "of_nat (k + l) = (0 :: 64 word)" by (simp add: add.assoc)
  then have "2 ^ 64 dvd k + l" by (simp only: word_of_nat_eq_0_iff) simp
  with k(1) l(1) assms(1) have "k = 0" "l = 0" using dvd_imp_le[of "2 ^ 64" "k + l"] by linarith+
  with k(3) l(3) assms(2) show ?thesis by simp
qed

lemma handed_over:
  assumes "good s" and "length es1 + length es2 < 2 ^ 64" and "rrValid (status (fold step es2 (fold step es1 s)))"
    and "rrKeyGeneration (status (fold step es2 (fold step es1 s))) = rrKeyGeneration (status s)"
  shows "status (fold step es2 (fold step es1 s)) = status s \<and> holds (fold step es1 s) (rrHash (status s))"
proof -
  have same: "status (fold step es2 (fold step es1 s)) = status s"
    using same_announcement[of "es1 @ es2" s] assms by simp
  have "status (fold step es1 s) = status s" by (rule between[OF assms(2-4)])
  with announced[OF good_run[OF assms(1), of es1]] same assms(3) show ?thesis by simp
qed

end

text \<open>The adapter is such a source, on a file system that does what it is asked.\<close>

definition keyReadable :: "('k, 'h, 'r, 'w) adapterIO \<Rightarrow> rosenpassConfig \<Rightarrow> ('w \<Rightarrow> string \<Rightarrow> string option) \<Rightarrow> 'w rosenpassServer \<Rightarrow> hash \<Rightarrow> bool" where
  "keyReadable io c files v h \<longleftrightarrow>
     (\<exists>key. files (raWorld (svAdapter v)) (rpPSKFile c) = Some (enKeyString (apEnv io) key @ [CHR 0x0a]) \<and> enHash (apEnv io) key = h)"

definition serverGood :: "('k, 'h, 'r, 'w) adapterIO \<Rightarrow> rosenpassConfig \<Rightarrow> ('w \<Rightarrow> string \<Rightarrow> string option) \<Rightarrow> 'w rosenpassServer \<Rightarrow> bool" where
  "serverGood io c files v \<longleftrightarrow> exclusive io (rpPSKFile c) files \<and> (\<exists>T. serverOK io c files T v)"

lemma serverGood_step: "serverGood io c files v \<Longrightarrow> serverGood io c files (serverStep io c e v)"
proof -
  assume good: "serverGood io c files v"
  then obtain T where ex: "exclusive io (rpPSKFile c) files" and ok: "serverOK io c files T v" by (auto simp: serverGood_def)
  define T' where "T' = (case e of Output pid line seen \<Rightarrow> max T seen | _ \<Rightarrow> T)"
  have "T \<le> T'" by (simp add: T'_def split: adapterEvent.split)
  with ok adapterOK_mono[of io c files T "svAdapter v" T'] have "serverOK io c files T' v" by (simp add: serverOK_def)
  from serverStep_OK[OF ex this, of e] ex show ?thesis by (auto simp: serverGood_def T'_def)
qed

interpretation source: key_source "serverStep io c" "\<lambda>v. raStatus (svAdapter v)" "serverGood io c files" "keyReadable io c files"
proof
  fix v e
  show "serverGood io c files v \<Longrightarrow> serverGood io c files (serverStep io c e v)" by (rule serverGood_step)
  show "progress (Suc 0) (raStatus (svAdapter v)) (raStatus (svAdapter (serverStep io c e v)))" using serverStep_status by blast
  show "serverGood io c files v \<Longrightarrow> rrValid (raStatus (svAdapter v)) \<Longrightarrow> keyReadable io c files v (rrHash (raStatus (svAdapter v)))"
    by (auto simp: serverGood_def serverOK_def keyReadable_def adapterOK_def announcedOK_def fileText_def Let_def split: if_splits)
qed

text \<open>
  C11: A key generation identifies a key.  Take any state of the server and any further events,
  fewer than \<open>2 ^ 64\<close> of them.  If the adapter then reports a valid status with the same key
  generation as before, its whole status is the same as before: instance, process generation, hash
  and expiry.  So the daemon, which asks before and after it reads the file and compares the
  answers, has read the key that was announced all along, and a duplicate line of output never
  renews or revives a key.
\<close>

theorem key_generation_identifies:
  assumes "length es < 2 ^ 64" and "s' = svAdapter (fold (serverStep io c) es v)" and "rrValid (raStatus s')"
    and "rrKeyGeneration (raStatus s') = rrKeyGeneration (raStatus (svAdapter v))"
  shows "raStatus s' = raStatus (svAdapter v)"
  using source.same_announcement[of es io c v] assms by simp

text \<open>
  C13: The daemon reads the key that was announced.  The daemon asks the adapter, reads the output
  file and asks again, while any other events happen in between, fewer than \<open>2 ^ 64\<close> of them.  If
  both answers declare a key valid and have the same key generation, they are the same answer, and
  what the file held when it was read is the text of a key with the announced hash: a file that was
  replaced, withdrawn or republished in between cannot be taken for the announced key.
\<close>

theorem key_handed_over:
  assumes "exclusive io (rpPSKFile c) files" and "files w (rpPSKFile c) = None"
    and "v1 = serverLoop io c es0 (newAdapter ident w)" and "handleConnection io c co1 now1 (svAdapter v1) = (Some r1, a1)" and "rrValid r1"
    and "v2 = fold (serverStep io c) es1 (v1\<lparr>svAdapter := a1\<rparr>)" and "v3 = fold (serverStep io c) es2 v2"
    and "handleConnection io c co2 now2 (svAdapter v3) = (Some r2, a3)" and "rrValid r2" and "rrKeyGeneration r2 = rrKeyGeneration r1"
    and "length es1 + length es2 < 2 ^ 64"
  shows "r2 = r1 \<and> (\<exists>key. files (raWorld (svAdapter v2)) (rpPSKFile c) = Some (enKeyString (apEnv io) key @ [CHR 0x0a]) \<and>
    enHash (apEnv io) key = rrHash r1)"
proof -
  have "serverGood io c files \<lparr>svAdapter = newAdapter ident w, svSlots = 0, svOpen = True, svTicking = True, svResult = None\<rparr>"
    using assms(1) newAdapter_OK[of files w c io 0 ident, OF assms(2)] by (auto simp: serverGood_def serverOK_def)
  then have "serverGood io c files v1" unfolding assms(3) serverLoop_def by (rule source.good_run)
  then obtain T where ok: "adapterOK io c files T (svAdapter v1)" and slots: "svSlots v1 \<le> 8" by (auto simp: serverGood_def serverOK_def)
  from handle_OK[OF assms(1) ok assms(4)] have a1: "adapterOK io c files T a1" "r1 = raStatus a1" by blast+
  then have good: "serverGood io c files (v1\<lparr>svAdapter := a1\<rparr>)" using assms(1) slots by (auto simp: serverGood_def serverOK_def)
  have "serverGood io c files v3" unfolding assms(6,7) by (intro source.good_run good)
  then obtain T' where "adapterOK io c files T' (svAdapter v3)" by (auto simp: serverGood_def serverOK_def)
  from handle_OK[OF assms(1) this assms(8)] have r2: "r2 = raStatus a3" by blast
  with progress_none[OF handle_status(1)[OF assms(8)]] assms(9) have v3: "r2 = raStatus (svAdapter v3)" by blast
  have set_adapter: "svAdapter (v1\<lparr>svAdapter := a1\<rparr>) = a1" by simp
  have "raStatus (svAdapter v3) = raStatus a1 \<and> keyReadable io c files v2 (rrHash (raStatus a1))"
    using source.handed_over[OF good assms(11), folded assms(6,7), unfolded set_adapter] assms(9,10) unfolding v3 a1(2) by blast
  with v3 a1(2) show ?thesis by (simp add: keyReadable_def)
qed

section \<open>Lines of output\<close>

text \<open>The line Rosenpass 0.2.3 prints, and which lines count.\<close>

definition eventLine :: "string \<Rightarrow> string \<Rightarrow> string" where
  "eventLine ident what = outputPrefix @ ident @ '' key-file '' @ [CHR 0x22] @ ''psk.raw'' @ [CHR 0x22] @ what"

lemma trim_output: "trimLeft (CHR ''o'' # s) = CHR ''o'' # s"
proof -
  have "leadingSpace (CHR ''o'' # s) = None" by (simp add: leadingSpace_def spaceRunes_def)
  then show ?thesis by (subst trimLeft.simps) simp
qed

lemma parse_line:
  assumes "length ident = 44"
  shows "parseRosenpassEvent base64 (outputPrefix @ ident @ rest) = (case base64 ident of
      None \<Rightarrow> InvalidEvent
    | Some decoded \<Rightarrow> if length decoded \<noteq> 32 then InvalidEvent
        else if rest = '' key-file '' @ [CHR 0x22] @ ''psk.raw'' @ [CHR 0x22] @ '' exchanged'' then Exchanged
        else if rest = '' key-file '' @ [CHR 0x22] @ ''psk.raw'' @ [CHR 0x22] @ '' stale'' then Stale else InvalidEvent)"
proof -
  have "hasPrefix (trimLeft (outputPrefix @ ident @ rest)) ''output-key''" "hasPrefix (outputPrefix @ ident @ rest) outputPrefix"
    by (simp_all add: hasPrefix_def outputPrefix_def trim_output del: trimLeft.simps)
  moreover have "length outputPrefix + 44 \<le> length (outputPrefix @ ident @ rest)" "drop (length outputPrefix + 44) (outputPrefix @ ident @ rest) = rest"
    "take 44 (drop (length outputPrefix) (outputPrefix @ ident @ rest)) = ident"
    using assms by simp_all
  ultimately show ?thesis unfolding parseRosenpassEvent_def Let_def by (simp split: option.split)
qed

text \<open>
  Exactly one line counts as an exchange: the one Rosenpass prints for the adapter's file, with the
  44 characters of the identity of a peer in it.
\<close>

lemma parse_exchanged:
  "parseRosenpassEvent base64 line = Exchanged \<longleftrightarrow>
    (\<exists>ident decoded. length ident = 44 \<and> base64 ident = Some decoded \<and> length decoded = 32 \<and> line = eventLine ident '' exchanged'')"
proof
  assume ex: "parseRosenpassEvent base64 line = Exchanged"
  then have start: "take (length outputPrefix) line = outputPrefix" and long: "length outputPrefix + 44 \<le> length line"
    by (auto simp: parseRosenpassEvent_def hasPrefix_def split: if_splits)
  obtain ident rest where line: "line = outputPrefix @ ident @ rest" and len: "length ident = 44"
  proof
    show "line = outputPrefix @ take 44 (drop (length outputPrefix) line) @ drop (length outputPrefix + 44) line"
      using start by (metis append_take_drop_id drop_drop add.commute)
    show "length (take 44 (drop (length outputPrefix) line)) = 44" using long by simp
  qed
  from ex show "\<exists>ident decoded. length ident = 44 \<and> base64 ident = Some decoded \<and> length decoded = 32 \<and> line = eventLine ident '' exchanged''"
    unfolding line parse_line[OF len] eventLine_def using len by (auto split: option.splits if_splits)
next
  assume "\<exists>ident decoded. length ident = 44 \<and> base64 ident = Some decoded \<and> length decoded = 32 \<and> line = eventLine ident '' exchanged''"
  then show "parseRosenpassEvent base64 line = Exchanged" by (auto simp: eventLine_def parse_line)
qed

section \<open>What the daemon accepts\<close>

lemma query_accepts:
  assumes "queryRosenpass io socket r w = (Inr resp, w')"
  shows "rrInstance resp \<noteq> [] \<and> (rrValid resp \<longrightarrow> rrGeneration resp \<noteq> 0 \<and> rrKeyGeneration resp \<noteq> 0 \<and> rrHash resp \<noteq> 0 \<and>
    (\<exists>v. fst (qrNow io v) < rrExpires resp) \<and> (\<exists>v. rrExpires resp \<le> fst (qrNow io v) + rosenpassLifetime))"
proof -
  obtain v v' where "badStatus io resp v = (False, v')"
    using assms by (auto simp: queryRosenpass_def exchangeLines_def thenE_def bindE_def throwE_def split: prod.splits sum.splits option.splits if_splits bool.splits)
  then show ?thesis
    by (auto simp: badStatus_def not_less not_le split: if_splits prod.splits) (metis fst_conv not_le)+
qed

end
