(* ===== verification/RosenpassChildren.thy ===== *)
theory RosenpassChildren
  imports RosenpassKeys
begin

text \<open>
  What the children of the adapter leave on the machine: running processes and the
  directories they were started in.  As long as no error is recorded nothing is left but the
  process and the directory of the current child; so a child that was not stopped, or files
  that were not removed, are always a recorded error, and with an error recorded nothing is
  started any more.
\<close>

section \<open>Processes and directories\<close>

text \<open>
  \<open>remaining w\<close> is what is left of the children in the world \<open>w\<close>: a process from its start
  until it has been waited for, and the directory of a child that was started until it is removed.
  Processes may end at any time.  Only \<open>apExec\<close> starts one; a closed \<^verbatim>\<open>done\<close> channel means that
  \<^verbatim>\<open>cmd.Wait\<close> has returned, that is, that the process has ended; and \<open>apRemoveAll\<close> removes a
  directory when it reports no error.  Nothing is assumed about \<open>apKill\<close>.
\<close>

datatype remnant = Process nat | ChildDir string

definition lessens :: "('w \<Rightarrow> 'b set) \<Rightarrow> ('w \<Rightarrow> 'a \<times> 'w) \<Rightarrow> bool" where
  "lessens f m \<longleftrightarrow> (\<forall>w. f (snd (m w)) \<subseteq> f w)"

definition childProcesses :: "('k, 'h, 'r, 'w) adapterIO \<Rightarrow> ('w \<Rightarrow> remnant set) \<Rightarrow> bool" where
  "childProcesses io remaining \<longleftrightarrow>
     (\<forall>p. lessens remaining (enPskFile (apEnv io) p) \<and> lessens remaining (apRemove io p) \<and> lessens remaining (apRemoveAll io p) \<and>
          lessens remaining (apLstat io p) \<and> lessens remaining (apWriteEmpty io p) \<and> lessens remaining (apListen io p) \<and>
          lessens remaining (apSync io p) \<and> lessens remaining (apClose io p) \<and>
          (\<forall>q. lessens remaining (apMkdirTemp io p q) \<and> lessens remaining (apCreateTemp io p q) \<and>
               lessens remaining (apWrite io p q) \<and> lessens remaining (apRename io p q)) \<and>
          (\<forall>m. lessens remaining (apChmod io p m))) \<and>
     (\<forall>i. lessens remaining (apInterface io i) \<and> lessens remaining (nlByIndex (apNetlink io) i)) \<and>
     lessens remaining (nlNew (apNetlink io)) \<and> (\<forall>l. lessens remaining (nlAddrList (apNetlink io) l)) \<and>
     (\<forall>w. remaining (nlClose (apNetlink io) w) \<subseteq> remaining w \<and> remaining (apCloseListener io w) \<subseteq> remaining w) \<and>
     (\<forall>pid w. remaining (apKill io pid w) \<subseteq> remaining w) \<and>
     (\<forall>pid. lessens remaining (apDone io pid) \<and> lessens remaining (apWait io pid)) \<and>
     (\<forall>pid w. fst (apWait io pid w) \<longrightarrow> Process pid \<notin> remaining (snd (apWait io pid w))) \<and>
     (\<forall>d w. fst (apRemoveAll io d w) = Inr () \<longrightarrow> ChildDir d \<notin> remaining (snd (apRemoveAll io d w))) \<and>
     (\<forall>p args d w. remaining (snd (apExec io p args d w)) \<subseteq> remaining w \<union>
        (case fst (apExec io p args d w) of Inl _ \<Rightarrow> {} | Inr pid \<Rightarrow> {Process pid, ChildDir d}))"

named_theorems lessen \<open>closure rules for computations that start nothing\<close>

lemma lessens_returnE [lessen]: "lessens f (returnE a)"
  by (simp add: lessens_def returnE_def)

lemma lessens_throwE [lessen]: "lessens f (throwE e)"
  by (simp add: lessens_def throwE_def)

lemma lessens_bindE [lessen]:
  assumes "lessens f m" and "\<And>a. lessens f (k a)"
  shows "lessens f (bindE m k)"
  unfolding lessens_def
proof
  fix w
  obtain r v where m: "m w = (r, v)" by fastforce
  with assms(1) have v: "f v \<subseteq> f w" unfolding lessens_def by (metis snd_conv)
  have "f (snd (k a v)) \<subseteq> f v" for a using assms(2) unfolding lessens_def by blast
  with m v show "f (snd (bindE m k w)) \<subseteq> f w" by (cases r) (auto simp: bindE_def)
qed

lemma lessens_thenE [lessen]: "lessens f m \<Longrightarrow> lessens f n \<Longrightarrow> lessens f (thenE m n)"
  by (simp add: thenE_def lessen)

lemma lessens_tryE [lessen]: "lessens f m \<Longrightarrow> lessens f (tryE m)"
  by (simp add: lessens_def tryE_def split_beta)

lemma lessens_modifyE [lessen]: "(\<And>w. f (g w) \<subseteq> f w) \<Longrightarrow> lessens f (modifyE g)"
  by (simp add: lessens_def modifyE_def)

lemma wpE_lessens:
  assumes "lessens f m" and "\<And>a w'. f w' \<subseteq> f w \<Longrightarrow> Q a w'" and "\<And>e w'. f w' \<subseteq> f w \<Longrightarrow> E e w'"
  shows "wpE m Q E w"
  using assms(1)[unfolded lessens_def, rule_format, of w] assms(2,3) by (auto simp: wpE_def split: prod.split sum.split)

lemma childProcessesD:
  assumes "childProcesses io remaining"
  shows "lessens remaining (enPskFile (apEnv io) p)" "lessens remaining (apRemove io p)" "lessens remaining (apRemoveAll io p)"
    "lessens remaining (apLstat io p)" "lessens remaining (apWriteEmpty io p)" "lessens remaining (apListen io p)"
    "lessens remaining (apSync io p)" "lessens remaining (apClose io p)" "lessens remaining (apMkdirTemp io p q)"
    "lessens remaining (apCreateTemp io p q)" "lessens remaining (apWrite io p q)" "lessens remaining (apRename io p q)"
    "lessens remaining (apChmod io p m)" "lessens remaining (apInterface io i)" "lessens remaining (nlByIndex (apNetlink io) i)"
    "lessens remaining (nlNew (apNetlink io))" "lessens remaining (nlAddrList (apNetlink io) l)"
    "remaining (nlClose (apNetlink io) w) \<subseteq> remaining w" "remaining (apCloseListener io w) \<subseteq> remaining w"
    "remaining (apKill io pid w) \<subseteq> remaining w" "lessens remaining (apDone io pid)" "lessens remaining (apWait io pid)"
  using assms unfolding childProcesses_def by simp_all

lemma waited:
  "childProcesses io remaining \<Longrightarrow> apWait io pid w = (True, w') \<Longrightarrow> Process pid \<notin> remaining w'"
  unfolding childProcesses_def by (metis fst_conv snd_conv)

lemma removed:
  "childProcesses io remaining \<Longrightarrow> apRemoveAll io d w = (Inr (), w') \<Longrightarrow> ChildDir d \<notin> remaining w'"
  unfolding childProcesses_def by (metis fst_conv snd_conv)

lemma executed:
  assumes "childProcesses io remaining"
  shows "wpE (apExec io p args d) (\<lambda>pid w'. remaining w' \<subseteq> remaining w \<union> {Process pid, ChildDir d}) (\<lambda>_ w'. remaining w' \<subseteq> remaining w) w"
proof -
  have "remaining (snd (apExec io p args d w)) \<subseteq> remaining w \<union>
        (case fst (apExec io p args d w) of Inl _ \<Rightarrow> {} | Inr pid \<Rightarrow> {Process pid, ChildDir d})"
    using assms unfolding childProcesses_def by blast
  then show ?thesis by (auto simp: wpE_def split: prod.split sum.splits)
qed

section \<open>What starts nothing\<close>

lemma handle_lessens:
  assumes "lessens f (nlNew nl)" and "\<And>w. f (nlClose nl w) \<subseteq> f w" and "lessens f m"
  shows "lessens f (withHandle nl m)"
  unfolding withHandle_def
proof (intro lessen assms(1))
  have "f (nlClose nl (snd (m w))) \<subseteq> f w" for w using assms(2)[of "snd (m w)"] assms(3)[unfolded lessens_def, rule_format, of w] by (rule order_trans)
  then show "lessens f (\<lambda>w. case m w of (r, w') \<Rightarrow> (r, nlClose nl w'))" by (simp add: lessens_def case_prod_unfold)
qed

lemma prefixes_lessens:
  assumes "childProcesses io remaining"
  shows "lessens remaining (interfacePrefixes (apNetlink io) i)"
  unfolding interfacePrefixes_def
proof (intro handle_lessens childProcessesD[OF assms], unfold lessens_def, intro allI)
  fix w
  obtain r v where r: "nlByIndex (apNetlink io) (ifIndex i) w = (r, v)" by fastforce
  have v: "remaining v \<subseteq> remaining w" using childProcessesD(15)[OF assms, of "ifIndex i"] r unfolding lessens_def by (metis snd_conv)
  have "lessens remaining (bindE (nlAddrList (apNetlink io) (Some l)) (\<lambda>addresses. returnE (linkPrefixes l addresses)))" for l
    by (intro lessen childProcessesD[OF assms])
  then have "remaining (snd (bindE (nlAddrList (apNetlink io) (Some l)) (\<lambda>addresses. returnE (linkPrefixes l addresses)) v)) \<subseteq> remaining w" for l
    using v unfolding lessens_def by (meson order_trans)
  with v r show "remaining (snd (case nlByIndex (apNetlink io) (ifIndex i) w of (Inl LinkNotFound, w') \<Rightarrow> (Inr [], w')
      | (Inl (LinkFailed e), w') \<Rightarrow> (Inl e, w') | (Inr l, w') \<Rightarrow> if laName l \<noteq> ifName i then (Inr [], w')
          else bindE (nlAddrList (apNetlink io) (Some l)) (\<lambda>addresses. returnE (linkPrefixes l addresses)) w')) \<subseteq> remaining w"
    by (simp split: sum.split linkError.split)
qed

lemma validate_lessens: "childProcesses io remaining \<Longrightarrow> lessens remaining (validateRosenpassRequest io r)"
  unfolding validateRosenpassRequest_def
  by (intro lessen childProcessesD; assumption?) (auto intro!: lessen prefixes_lessens split: sum.split)

lemma publish_lessens:
  assumes "childProcesses io remaining"
  shows "lessens remaining (publishRosenpassPSK io path key)"
proof -
  have gone: "remaining (snd (apRemove io f w)) \<subseteq> remaining w" for f w
    using childProcessesD(2)[OF assms] unfolding lessens_def by blast
  show ?thesis unfolding publishRosenpassPSK_def
    by (intro lessen childProcessesD[OF assms] gone) (auto intro: lessen split: sum.split)
qed

lemma startProcess_wp:
  assumes "childProcesses io remaining"
  shows "wpE (startProcess io c r generation) (\<lambda>ch w'. remaining w' \<subseteq> remaining w \<union> {Process (chId ch), ChildDir (chDir ch)})
    (\<lambda>_ w'. remaining w' \<subseteq> remaining w) w"
proof -
  note less = childProcessesD[OF assms]
  have run: "wpE (tryE (thenE (apWriteEmpty io f) (apExec io p args d))) (\<lambda>res w'. case res of Inl _ \<Rightarrow> remaining w' \<subseteq> remaining w
      | Inr pid \<Rightarrow> remaining w' \<subseteq> remaining w \<union> {Process pid, ChildDir d}) (\<lambda>_ _. False) w1"
    if "remaining w1 \<subseteq> remaining w" for f p args d w1
    unfolding wpE_tryE wpE_thenE
    by (rule wpE_lessens[OF less(5)]) (use that in \<open>auto intro!: wpE_mono[OF executed[OF assms]]\<close>)
  have undo: "wpE (bindE (tryE (apRemoveAll io d)) (\<lambda>_. throwE e)) Q (\<lambda>_ w'. remaining w' \<subseteq> remaining w) w1"
    if "remaining w1 \<subseteq> remaining w" for d e w1 and Q :: "rosenpassChild \<Rightarrow> 'd \<Rightarrow> bool"
    unfolding wpE_bindE wpE_tryE wpE_throwE by (rule wpE_lessens[OF less(3)]) (use that in auto)
  show ?thesis
    unfolding startProcess_def wpE_bindE[of "apMkdirTemp _ _ _"]
  proof (rule wpE_lessens[OF less(9)])
    fix d w1 assume "remaining w1 \<subseteq> remaining w"
    from run[OF this] show "wpE (bindE (tryE (thenE (apWriteEmpty io (joinPath d ''psk.raw'')) (apExec io (rpExecutable c) (childCommand io c r) d)))
       (\<lambda>res. case res of Inl e \<Rightarrow> bindE (tryE (apRemoveAll io d)) (\<lambda>_. throwE e)
         | Inr pid \<Rightarrow> returnE \<lparr>chId = pid, chGeneration = generation, chDir = d, chRaw = joinPath d ''psk.raw'', chStopEvent = []\<rparr>))
       (\<lambda>ch w'. remaining w' \<subseteq> remaining w \<union> {Process (chId ch), ChildDir (chDir ch)}) (\<lambda>_ w'. remaining w' \<subseteq> remaining w) w1"
      unfolding wpE_bindE[of "tryE (thenE _ _)"] by (rule wpE_mono) (use undo in \<open>auto simp: wpE_returnE split: sum.splits\<close>)
  qed simp
qed

section \<open>The handlers\<close>

definition remnantsOf :: "rosenpassChild option \<Rightarrow> remnant set" where
  "remnantsOf child = (case child of None \<Rightarrow> {} | Some ch \<Rightarrow> {Process (chId ch), ChildDir (chDir ch)})"

text \<open>As long as no error is recorded, only the current child is left.\<close>

definition tidy :: "('w \<Rightarrow> remnant set) \<Rightarrow> 'w rosenpassAdapter \<Rightarrow> bool" where
  "tidy remaining s \<longleftrightarrow> (raErr s = None \<longrightarrow> remaining (raWorld s) \<subseteq> remnantsOf (raChild s))"

text \<open>What every handler does to a state: it keeps it tidy, and starts nothing once an error is recorded.\<close>

definition tended :: "('w \<Rightarrow> remnant set) \<Rightarrow> 'w rosenpassAdapter \<Rightarrow> 'w rosenpassAdapter \<Rightarrow> bool" where
  "tended remaining s s' \<longleftrightarrow> (tidy remaining s \<longrightarrow> tidy remaining s') \<and>
     (raErr s \<noteq> None \<longrightarrow> raErr s' \<noteq> None \<and> remaining (raWorld s') \<subseteq> remaining (raWorld s))"

lemma tended_refl [simp]: "tended remaining s s"
  by (simp add: tended_def)

lemma tended_trans: "tended remaining s t \<Longrightarrow> tended remaining t u \<Longrightarrow> tended remaining s u"
  by (auto simp: tended_def)

text \<open>A change that starts nothing, forgets no child and no error.\<close>

lemma tended_less:
  "remaining (raWorld s') \<subseteq> remaining (raWorld s) \<Longrightarrow> remnantsOf (raChild s') = remnantsOf (raChild s) \<Longrightarrow> (raErr s \<noteq> None \<Longrightarrow> raErr s' \<noteq> None) \<Longrightarrow>
    tended remaining s s'"
  by (auto simp: tended_def tidy_def)

lemma invalidate_tended:
  assumes "childProcesses io remaining"
  shows "wpE (invalidate io c) (\<lambda>_ s'. tended remaining s s' \<and> raErr s' = None \<and> raChild s' = raChild s)
    (\<lambda>_ s'. tended remaining s s' \<and> raErr s' \<noteq> None \<and> raChild s' = raChild s) s"
proof -
  obtain r w where r: "apRemove io (rpPSKFile c) (raWorld s) = (r, w)" by fastforce
  then have "remaining w \<subseteq> remaining (raWorld s)" using childProcessesD(2)[OF assms, of "rpPSKFile c"] unfolding lessens_def by (metis snd_conv)
  with r show ?thesis by (auto simp: invalidate_def wp intro!: tended_less split: option.split)
qed

text \<open>A child that is stopped has ended and its directory is gone, or an error is recorded.\<close>

lemma stopChild_wp:
  assumes "childProcesses io remaining"
  shows "wpE (stopChild io ch) (\<lambda>_ s'. raChild s' = raChild s \<and> remaining (raWorld s') \<subseteq> remaining (raWorld s) \<and> (raErr s \<noteq> None \<longrightarrow> raErr s' \<noteq> None) \<and>
    (raErr s' = None \<longrightarrow> Process (chId ch) \<notin> remaining (raWorld s') \<and> ChildDir (chDir ch) \<notin> remaining (raWorld s'))) (\<lambda>_ _. False) s"
proof -
  note less = childProcessesD[OF assms]
  obtain b w where w: "apWait io (chId ch) (apKill io (chId ch) (raWorld s)) = (b, w)" by fastforce
  have "remaining w \<subseteq> remaining (apKill io (chId ch) (raWorld s))" using less(22)[of "chId ch"] w unfolding lessens_def by (metis snd_conv)
  also have "\<dots> \<subseteq> remaining (raWorld s)" by (rule less(20))
  finally have fewer: "remaining w \<subseteq> remaining (raWorld s)" .
  obtain r w2 where r: "apRemoveAll io (chDir ch) w = (r, w2)" by fastforce
  have fewer2: "remaining w2 \<subseteq> remaining w" using less(3)[of "chDir ch"] r unfolding lessens_def by (metis snd_conv)
  show ?thesis
  proof (cases "b \<and> r = Inr ()")
    case True
    with waited[OF assms, of "chId ch" "apKill io (chId ch) (raWorld s)" w] removed[OF assms, of "chDir ch" w w2] w r fewer fewer2 show ?thesis
      by (auto simp: stopChild_def wp wpE_def[of "apRemoveAll _ _"])
  next
    case False
    with w r fewer fewer2 show ?thesis
      by (cases r) (auto simp: stopChild_def wp wpE_def[of "apRemoveAll _ _"])
  qed
qed

lemma stop_tended:
  assumes "childProcesses io remaining"
  shows "wpE (stop io c) (\<lambda>_ s'. tended remaining s s' \<and> raErr s' = None \<and> raChild s' = None)
    (\<lambda>_ s'. tended remaining s s' \<and> raErr s' \<noteq> None \<and> raChild s' = None) s"
proof -
  let ?R = "\<lambda>s'. tended remaining s s' \<and> raChild s' = None"
  have recorded: "wpE recordedErr (\<lambda>_ s'. ?R s' \<and> raErr s' = None) (\<lambda>_ s'. ?R s' \<and> raErr s' \<noteq> None) s2" if "?R s2" for s2
    using that by (cases "raErr s2") (simp_all add: wp)
  have halt: "wpE (case raChild s1 of None \<Rightarrow> returnE () | Some ch \<Rightarrow> stopChild io ch) (\<lambda>_. ?R) (\<lambda>_ _. False) (s1\<lparr>raChild := None\<rparr>)"
    if s1: "tended remaining s s1" for s1
  proof (cases "raChild s1")
    case None
    then have "s1\<lparr>raChild := None\<rparr> = s1" by (cases s1) simp
    with None s1 show ?thesis by (simp only: wpE_returnE option.case simp_thms)
  next
    case (Some ch)
    have "tended remaining s1 s'" if "raChild s' = None" "remaining (raWorld s') \<subseteq> remaining (raWorld s1)" "raErr s1 \<noteq> None \<longrightarrow> raErr s' \<noteq> None"
      "raErr s' = None \<longrightarrow> Process (chId ch) \<notin> remaining (raWorld s') \<and> ChildDir (chDir ch) \<notin> remaining (raWorld s')" for s'
      using that Some by (auto simp: tended_def tidy_def remnantsOf_def)
    with Some s1 show ?thesis by (auto intro!: wpE_mono[OF stopChild_wp[OF assms]] intro: tended_trans)
  qed
  have rest: "wpE (bindE (getsE raChild) (\<lambda>ch. thenE (modifyE (\<lambda>s. s\<lparr>raChild := None\<rparr>))
        (thenE (case ch of None \<Rightarrow> returnE () | Some ch \<Rightarrow> stopChild io ch) recordedErr)))
      (\<lambda>_ s'. ?R s' \<and> raErr s' = None) (\<lambda>_ s'. ?R s' \<and> raErr s' \<noteq> None) s1" if "tended remaining s s1" for s1
    unfolding wpE_bindE wpE_getsE wpE_thenE wpE_modifyE
    by (rule wpE_mono[OF halt[OF that]]) (rule recorded, assumption, simp)
  show ?thesis
    unfolding stop_def wpE_bindE[of "tryE _"] wpE_tryE
    by (rule wpE_mono[OF invalidate_tended[OF assms]]; rule wpE_mono[OF rest]; simp)
qed

lemma refresh_tended:
  assumes "childProcesses io remaining"
  shows "wpE (refreshAdapter io c now) (\<lambda>_ s'. tended remaining s s' \<and> raErr s' = None) (\<lambda>_ s'. tended remaining s s' \<and> raErr s' \<noteq> None) s"
proof -
  obtain b w where poll: "(case raChild s of None \<Rightarrow> (False, raWorld s) | Some ch \<Rightarrow> apDone io (chId ch) (raWorld s)) = (b, w)" by fastforce
  have "remaining w \<subseteq> remaining (raWorld s)"
    using poll childProcessesD(21)[OF assms] unfolding lessens_def by (cases "raChild s") (auto, metis (no_types) snd_conv subsetD)
  then have first: "tended remaining s (s\<lparr>raWorld := w\<rparr>)" by (intro tended_less) auto
  note trans = tended_trans[OF first]
  show ?thesis unfolding refresh_step[OF poll]
    using first trans by (auto simp: wpE_recordedErr intro!: wpE_mono[OF stop_tended[OF assms]] wpE_mono[OF invalidate_tended[OF assms]] split: option.split)
qed

lemma startChild_tended:
  assumes "childProcesses io remaining" and "raErr s = None" and "raChild s = None"
  shows "wpE (startChild io c r now) (\<lambda>_ s'. tended remaining s s') (\<lambda>_ s'. tended remaining s s') s"
  unfolding startChild_def wpE_bindE wpE_thenE wpE_getsE wpE_modifyE wpE_tryE wpE_onFiles
  by (rule wpE_mono[OF startProcess_wp[OF assms(1)]]) (use assms(2,3) in \<open>auto simp: wp tended_def tidy_def remnantsOf_def\<close>)

lemma endpoint_tended: "tended remaining s (s'\<lparr>raEndpoint := e\<rparr>) = tended remaining s s'" "tended remaining (s\<lparr>raEndpoint := e\<rparr>) s' = tended remaining s s'"
  "tended remaining s (s'\<lparr>raEndpoint := e, raRetryAfter := t\<rparr>) = tended remaining s s'"
  by (simp_all add: tended_def tidy_def)

lemma request_tended:
  assumes io: "childProcesses io remaining"
  shows "wpE (request io c r now) (\<lambda>_. tended remaining s) (\<lambda>_. tended remaining s) s"
proof -
  let ?T = "\<lambda>_. tended remaining s"
  have withdraw: "wpE (withdraw io c) ?T ?T s"
    unfolding withdraw_def wpE_thenE wpE_modifyE wpE_getsE by (rule wpE_mono[OF stop_tended[OF io]]) (simp_all add: endpoint_tended)
  have launch: "wpE (bindE (getsE (\<lambda>s. raChild s = None \<and> \<not> now < raRetryAfter s)) (\<lambda>due.
      thenE (if due then startChild io c r' now else returnE ()) (getsE raStatus))) ?T ?T s1" if "tended remaining s s1" "raErr s1 = None" for r' s1
    using that by (auto simp: wpE_bindE wpE_getsE wpE_thenE wpE_if wpE_returnE intro!: wpE_mono[OF startChild_tended[OF io]] intro: tended_trans)
  have change: "wpE (changeEndpoint io c r') (\<lambda>_ s'. tended remaining s s' \<and> raErr s' = None) ?T s1" if "tended remaining s s1" "raErr s1 = None" for r' s1
    unfolding changeEndpoint_def
    using that by (auto simp: wpE_bindE wpE_getsE wpE_thenE wpE_if wpE_returnE wpE_modifyE endpoint_tended
        intro!: wpE_mono[OF stop_tended[OF io]] intro: tended_trans)
  have rest: "wpE (thenE (refreshAdapter io c now) (thenE (changeEndpoint io c r') (bindE (getsE (\<lambda>s. raChild s = None \<and> \<not> now < raRetryAfter s))
      (\<lambda>due. thenE (if due then startChild io c r' now else returnE ()) (getsE raStatus))))) ?T ?T s1" if s1: "tended remaining s s1" for r' s1
    unfolding wpE_thenE[of "refreshAdapter _ _ _"] wpE_thenE[of "changeEndpoint _ _ _"]
  proof (rule wpE_mono[OF refresh_tended[OF io]], goal_cases)
    case (1 u s2)
    then show ?case using tended_trans[OF s1] by (intro wpE_mono[OF change[of s2 r']] launch) auto
  qed (use tended_trans[OF s1] in auto)
  have refused: "wpE (bindE (tryE (stop io c)) (\<lambda>res. throwE (h res))) ?T ?T s1" if "tended remaining s s1" for h s1
    unfolding wpE_bindE wpE_tryE wpE_throwE by (rule wpE_mono[OF stop_tended[OF io]]) (use tended_trans[OF that] in auto)
  have checked: "tended remaining s (s\<lparr>raWorld := w\<rparr>)" if "remaining w \<subseteq> remaining (raWorld s)" for w
    using that by (intro tended_less) auto
  show ?thesis
    unfolding request_def
    by (simp add: wpE_throwE wpE_if withdraw, intro impI)
      (unfold wpE_bindE[of "tryE (onFiles _)"] wpE_tryE wpE_onFiles, rule wpE_lessens[OF validate_lessens[OF io]]; simp add: rest refused checked)
qed

lemma acceptKey_tended:
  assumes io: "childProcesses io remaining"
  shows "wpE (acceptKey io c raw key seen) (\<lambda>_. tended remaining s) (\<lambda>_. tended remaining s) s"
proof -
  let ?T = "\<lambda>_. tended remaining s"
  have failed: "wpE (invalidate io c) ?T ?T s1" if "tended remaining s s1" for s1
    by (rule wpE_mono[OF invalidate_tended[OF io]]) (use tended_trans[OF that] in auto)
  obtain info w where l: "apLstat io raw (raWorld s) = (info, w)" by fastforce
  have less: "tended remaining s (s\<lparr>raWorld := v\<rparr>)" if "remaining v \<subseteq> remaining (raWorld s)" for v
    using that by (intro tended_less) auto
  have w: "remaining w \<subseteq> remaining (raWorld s)" using childProcessesD(4)[OF io, of raw] l unfolding lessens_def by (metis snd_conv)
  have announced: "tended remaining s (s\<lparr>raLastHash := h, raStatus := st, raWorld := v\<rparr>)" if "remaining v \<subseteq> remaining (raWorld s)" for v h st
    using that by (intro tended_less) auto
  have publish: "wpE (bindE (tryE (onFiles (publishRosenpassPSK io f key))) (\<lambda>res. case res of Inl _ \<Rightarrow> invalidate io c
      | Inr _ \<Rightarrow> modifyE (\<lambda>s. s\<lparr>raLastHash := h, raStatus := (raStatus s)\<lparr>rrKeyGeneration := rrKeyGeneration (raStatus s) + 1, rrHash := h,
            rrExpires := t, rrValid := True\<rparr>\<rparr>))) ?T ?T (s\<lparr>raWorld := w\<rparr>)" for f h t
    unfolding wpE_bindE wpE_tryE wpE_onFiles
    by (rule wpE_lessens[OF publish_lessens[OF io]]) (use w in \<open>auto simp: wpE_modifyE intro!: failed less tended_less\<close>)
  show ?thesis
    unfolding acceptKey_def wpE_bindE[of "pollFiles _"] wpE_pollFiles l prod.case
    using failed[OF less[OF w]] publish by (cases info) (auto simp: wpE_if)
qed

lemma exchanged_tended:
  assumes io: "childProcesses io remaining"
  shows "wpE (exchanged io c raw seen) (\<lambda>_. tended remaining s) (\<lambda>_. tended remaining s) s"
proof -
  obtain r w where r: "readRaw io raw seen (raWorld s) = (r, w)" by fastforce
  have "remaining w \<subseteq> remaining (raWorld s)"
    using childProcessesD(1)[OF io, of raw] r by (auto simp: readRaw_def lessens_def split: prod.splits) (metis snd_conv subsetD)
  then have first: "tended remaining s (s\<lparr>raWorld := w\<rparr>)" by (intro tended_less) auto
  note trans = tended_trans[OF first]
  show ?thesis
    unfolding exchanged_def wpE_bindE[of "pollFiles _"] wpE_pollFiles r prod.case
    using first trans by (cases r) (auto simp: wp intro!: wpE_mono[OF acceptKey_tended[OF io]] wpE_mono[OF invalidate_tended[OF io]])
qed

lemma childEvent_tended:
  assumes io: "childProcesses io remaining"
  shows "wpE (childEvent io c child e seen) (\<lambda>_. tended remaining s) (\<lambda>_. tended remaining s) s"
proof -
  have mark: "tended remaining s (s1\<lparr>raChild := map_option (\<lambda>ch. ch\<lparr>chStopEvent := x\<rparr>) (raChild s1)\<rparr>)" if "tended remaining s s1" for s1 x
    by (rule tended_trans[OF that], rule tended_less) (simp_all add: remnantsOf_def split: option.split)
  show ?thesis
    unfolding childEvent_def wpE_bindE[of "getsE _"] wpE_getsE wpE_if wpE_returnE wpE_bindE[of "tryE _"] wpE_tryE
    by (auto simp: wpE_thenE wpE_modifyE intro!: wpE_mono[OF refresh_tended[OF io]] wpE_mono[OF stop_tended[OF io]] wpE_mono[OF exchanged_tended[OF io]]
        intro: tended_trans mark)
qed

lemma handle_tended:
  assumes "childProcesses io remaining"
  shows "tended remaining s (snd (handleConnection io c co now s))"
  using request_tended[OF assms, of c _ now s] unfolding handleConnection_def wpE_snd
  by (auto split: sum.split prod.split) (metis snd_conv)+

lemma serverStep_tended:
  assumes io: "childProcesses io remaining"
  shows "tended remaining (svAdapter v) (svAdapter (serverStep io c e v))"
proof (cases e)
  case (Served co now)
  with handle_tended[OF io, of "svAdapter v" c co now] show ?thesis by simp
next
  case (Ticked now)
  with refresh_tended[OF io, of c now "svAdapter v"] show ?thesis by (auto simp: wpE_def split: prod.splits sum.splits)
next
  case (Output pid line seen)
  with childEvent_tended[OF io, of c _ "parseRosenpassEvent (apBase64 io) line" seen "svAdapter v"] show ?thesis
    by (cases "raChild (svAdapter v)") (simp_all add: outputLine_def wpE_snd)
next
  case (Ended pid)
  with stop_tended[OF io, of c "svAdapter v"] show ?thesis by (auto simp: childEnded_def wpE_def split: prod.splits sum.splits)
qed simp_all

lemma run_tended:
  assumes "childProcesses io remaining"
  shows "tended remaining (svAdapter v) (svAdapter (fold (serverStep io c) es v))"
proof (induction es arbitrary: v)
  case (Cons e es)
  from tended_trans[OF serverStep_tended[OF assms] Cons.IH] show ?case by simp
qed simp

lemma new_tidy: "remaining w = {} \<Longrightarrow> tidy remaining (newAdapter ident w)"
  by (simp add: tidy_def newAdapter_def)

section \<open>The end of the service\<close>

lemma replaceSocket_lessens:
  assumes "childProcesses io remaining"
  shows "lessens remaining (replaceSocket io socket)"
  unfolding lessens_def
proof
  fix w
  obtain r v where r: "apLstat io socket w = (r, v)" by fastforce
  obtain e v2 where e: "apRemove io socket v = (e, v2)" by fastforce
  have "remaining v \<subseteq> remaining w" using childProcessesD(4)[OF assms, of socket] r unfolding lessens_def by (metis snd_conv)
  moreover have "remaining v2 \<subseteq> remaining v" using childProcessesD(2)[OF assms, of socket] e unfolding lessens_def by (metis snd_conv)
  ultimately show "remaining (snd (replaceSocket io socket w)) \<subseteq> remaining w"
    by (auto simp: replaceSocket_def r e split: sum.split fsError.split option.split)
qed

lemma onFiles_tended:
  assumes "lessens remaining m" and "onFiles m s = (r, s')"
  shows "tended remaining s s'"
  using assms(1)[unfolded lessens_def, rule_format, of "raWorld s"] assms(2)
  by (intro tended_less) (auto simp: onFiles_def split: prod.splits)

lemma listener_tended: "childProcesses io remaining \<Longrightarrow> tended remaining s (s\<lparr>raWorld := apCloseListener io (raWorld s)\<rparr>)"
  by (intro tended_less) (simp_all add: childProcessesD(19))

lemma listenAndServe_tended:
  assumes io: "childProcesses io remaining" and run: "listenAndServe io c es s = (result, s')"
  shows "tended remaining s s'"
proof -
  obtain r1 s1 where bind: "onFiles (thenE (replaceSocket io (rpSocket c)) (apListen io (rpSocket c))) s = (r1, s1)" by fastforce
  have "lessens remaining (thenE (replaceSocket io (rpSocket c)) (apListen io (rpSocket c)))"
    by (intro lessen replaceSocket_lessens childProcessesD io)
  from onFiles_tended[OF this bind] have s1: "tended remaining s s1" .
  obtain r2 s2 where mode: "onFiles (apChmod io (rpSocket c) 432) s1 = (r2, s2)" by fastforce
  from tended_trans[OF s1 onFiles_tended[OF childProcessesD(13)[OF io] mode]] have s2: "tended remaining s s2" .
  have "tended remaining s2 (svAdapter (serverLoop io c es s2))"
    using run_tended[OF io, of "\<lparr>svAdapter = s2, svSlots = 0, svOpen = True, svTicking = True, svResult = None\<rparr>" c es] by (simp add: serverLoop_def)
  from tended_trans[OF s2 this] s1 s2 run bind mode listener_tended[OF io] show ?thesis
    by (auto simp: listenAndServe_def Let_def intro: tended_trans split: sum.splits)
qed

text \<open>
  C17: The adapter leaves nothing behind.  It starts on a machine without children of its own, and
  serves whatever events come.  However its server ends, if the adapter reports success then every
  process it started has ended, the directory of every child it started is removed, no child is
  current, its last status is invalid, and the output file does not exist.
\<close>

theorem adapter_leaves_nothing:
  assumes "exclusive io (rpPSKFile c) files" and "childProcesses io remaining" and "remaining w = {}"
    and "adapterService io c es (newAdapter ident w) = (Inr (), s')"
  shows "remaining (raWorld s') = {} \<and> raChild s' = None \<and> \<not> rrValid (raStatus s') \<and> files (raWorld s') (rpPSKFile c) = None"
proof -
  obtain s0 s1 result r s2 where first: "invalidate io c (newAdapter ident w) = (Inr (), s0)" and serve: "listenAndServe io c es s0 = (result, s1)"
    and stop: "stop io c s1 = (r, s2)" and "s' = s2" "r = Inr ()" "raErr s2 = None"
    using assms(4) by (auto simp: adapterService_def thenE_def bindE_def liftErr_def returnE_def throwE_def
        split: prod.splits sum.splits option.splits elim!: joinErr.elims)
  then have "tended remaining s1 s'" "raChild s' = None" "raErr s' = None" using stop_tended[OF assms(2), of c s1] by (auto simp: wpE_def)
  moreover have "tended remaining (newAdapter ident w) s0" using invalidate_tended[OF assms(2), of c "newAdapter ident w"] first by (auto simp: wpE_def)
  ultimately have "tended remaining (newAdapter ident w) s'"
    using listenAndServe_tended[OF assms(2) serve] by (blast intro: tended_trans)
  with new_tidy[of remaining w ident, OF assms(3)] \<open>raErr s' = None\<close> \<open>raChild s' = None\<close> have "remaining (raWorld s') = {}"
    by (simp add: tended_def tidy_def remnantsOf_def)
  with stop_wp[OF assms(1), of s1] stop \<open>s' = s2\<close> \<open>r = Inr ()\<close> show ?thesis by (auto simp: wpE_def withdrawn_def)
qed

lemma stays_down:
  assumes "raErr (svAdapter v) \<noteq> None"
  shows "raErr (svAdapter (fold (serverStep io c) es v)) \<noteq> None \<and>
    (raChild (svAdapter (fold (serverStep io c) es v)) = None \<or> raChild (svAdapter (fold (serverStep io c) es v)) = raChild (svAdapter v))"
  using assms
proof (induction es arbitrary: v)
  case (Cons e es)
  from serverStep_status[of v io c e] Cons.IH[of "serverStep io c e v"] Cons.prems show ?case by auto
qed simp

text \<open>
  C18: A failure is never overlooked, and a failed adapter stays down.  Start the adapter without an
  output file and without children and let it handle any events.  If then a process it started
  still runs that is not its current child, or the directory of another child is still there, or
  there is an output file although no key is announced, then an error is recorded; and whatever
  happens afterwards the error stays recorded, nothing new is started and no client is answered.
\<close>

theorem failed_adapter_stays_down:
  assumes "exclusive io (rpPSKFile c) files" and "childProcesses io remaining" and "files w (rpPSKFile c) = None" and "remaining w = {}"
    and "v = serverLoop io c es (newAdapter ident w)"
    and "\<not> remaining (raWorld (svAdapter v)) \<subseteq> remnantsOf (raChild (svAdapter v)) \<or>
      \<not> rrValid (raStatus (svAdapter v)) \<and> files (raWorld (svAdapter v)) (rpPSKFile c) \<noteq> None"
    and "s' = svAdapter (fold (serverStep io c) later v)"
  shows "raErr (svAdapter v) \<noteq> None \<and> raErr s' \<noteq> None \<and> remaining (raWorld s') \<subseteq> remaining (raWorld (svAdapter v)) \<and>
    (raChild s' = None \<or> raChild s' = raChild (svAdapter v)) \<and> fst (handleConnection io c co now s') = None"
proof -
  let ?v0 = "\<lparr>svAdapter = newAdapter ident w, svSlots = 0, svOpen = True, svTicking = True, svResult = None\<rparr>"
  have "serverGood io c files ?v0"
    using assms(1) newAdapter_OK[of files w c io 0 ident, OF assms(3)] by (auto simp: serverGood_def serverOK_def)
  then have "serverGood io c files v" unfolding assms(5) serverLoop_def by (rule source.good_run)
  then have absent: "raErr (svAdapter v) = None \<Longrightarrow> \<not> rrValid (raStatus (svAdapter v)) \<Longrightarrow> files (raWorld (svAdapter v)) (rpPSKFile c) = None"
    by (auto simp: serverGood_def serverOK_def adapterOK_def announcedOK_def Let_def)
  have "tidy remaining (svAdapter v)"
    using run_tended[OF assms(2), of ?v0 c es] new_tidy[of remaining w ident, OF assms(4)] unfolding assms(5) serverLoop_def by (simp add: tended_def)
  with absent assms(6) have err: "raErr (svAdapter v) \<noteq> None" unfolding tidy_def by blast
  have "remaining (raWorld s') \<subseteq> remaining (raWorld (svAdapter v))"
    using run_tended[OF assms(2), of v c later] err unfolding assms(7) by (simp add: tended_def)
  with err stays_down[OF err, of io c later, folded assms(7)] handle_status(2)[of io c co now s'] show ?thesis
    by (cases "handleConnection io c co now s'") auto
qed

end
