(* ===== verification/RosenpassServer.thy ===== *)
theory RosenpassServer
  imports RosenpassChildren
begin

text \<open>
  The goroutines of \<open>serveRosenpassAdapter\<close> in \<^verbatim>\<open>rosenpass_linux.go\<close> from the creation of the
  context to the return: the accept loop with its deferred calls, the ticker, the workers of
  at most eight connections, and the function that closes the listener when the context is
  cancelled.  A transition is what one goroutine does between two points where another may
  run; a handler holds the adapter's mutex and is one transition.
\<close>

section \<open>State\<close>

text \<open>
  Where the accept loop is: in \<^verbatim>\<open>AcceptUnix\<close>, with a new connection, with the error that ends the
  loop and \<^verbatim>\<open>cancel()\<close> before it, and in the deferred calls in the order in which they run.
\<close>

datatype mainStage = Accepting | Admitting | AcceptFails | WaitsForWorkers | StopsCloser | Cancels | ClosesListener | StopsAdapter | ServerReturned

datatype tickerStage = Ticking | TickFailed | TickerLeaves | TickerReturned

text \<open>The function given to \<^verbatim>\<open>context.AfterFunc\<close>: it waits for the context, is about to close the listener, has closed it, or was taken back.\<close>

datatype closerStage = Armed | Firing | Fired | Disarmed

text \<open>
  A connection's worker serves it, then gives its slot back, then counts down the wait group
  \<open>ssWorkers\<close>.  \<open>ssTick\<close> is the value in the ticker's channel, which holds one.  The error of
  \<^verbatim>\<open>AcceptUnix\<close> is \<open>None\<close> when the listener was closed, which the server does not report.
\<close>

record 'w serverState =
  ssAdapter :: "'w rosenpassAdapter"
  ssMain :: mainStage
  ssResult :: "error option"
  ssCancelled :: bool
  ssListening :: bool
  ssCloser :: closerStage
  ssTicker :: tickerStage
  ssTick :: "time option"
  ssServing :: nat
  ssReleasing :: nat
  ssFinishing :: nat
  ssSlots :: nat
  ssWorkers :: nat

definition startServer :: "'w rosenpassAdapter \<Rightarrow> 'w serverState" where
  "startServer a = \<lparr>ssAdapter = a, ssMain = Accepting, ssResult = None, ssCancelled = False, ssListening = True, ssCloser = Armed,
     ssTicker = Ticking, ssTick = None, ssServing = 0, ssReleasing = 0, ssFinishing = 0, ssSlots = 0, ssWorkers = 1\<rparr>"

section \<open>Operations\<close>

text \<open>A slot and a worker for a new connection, or the connection is closed when all slots are taken.\<close>

definition admitConnection :: "'w serverState \<Rightarrow> 'w serverState" where
  "admitConnection s = (if ssSlots s < 8
     then s\<lparr>ssMain := Accepting, ssSlots := ssSlots s + 1, ssWorkers := ssWorkers s + 1, ssServing := ssServing s + 1\<rparr>
     else s\<lparr>ssMain := Accepting\<rparr>)"

definition serveConnection :: "('k, 'h, 'r, 'w) adapterIO \<Rightarrow> rosenpassConfig \<Rightarrow> connection \<Rightarrow> time \<Rightarrow> 'w serverState \<Rightarrow> 'w serverState" where
  "serveConnection io c co now s = s\<lparr>ssAdapter := snd (handleConnection io c co now (ssAdapter s)),
     ssServing := ssServing s - 1, ssReleasing := ssReleasing s + 1\<rparr>"

definition tickerTurn :: "('k, 'h, 'r, 'w) adapterIO \<Rightarrow> rosenpassConfig \<Rightarrow> time \<Rightarrow> 'w serverState \<Rightarrow> 'w serverState" where
  "tickerTurn io c now s = (case refreshAdapter io c now (ssAdapter s) of
      (Inl _, a) \<Rightarrow> s\<lparr>ssAdapter := a, ssTick := None, ssTicker := TickFailed\<rparr>
    | (Inr _, a) \<Rightarrow> s\<lparr>ssAdapter := a, ssTick := None\<rparr>)"

text \<open>\<open>stopClose\<close> takes the function back unless it has been started.\<close>

definition stopClose :: "'w serverState \<Rightarrow> 'w serverState" where
  "stopClose s = s\<lparr>ssMain := Cancels, ssCloser := (if ssCloser s = Armed then Disarmed else ssCloser s)\<rparr>"

section \<open>Transitions\<close>

datatype serverAction =
    ParentCancelled | ClockTicks time | ClientConnects | AcceptErrs error | ChildWrites nat string time | ChildEnds nat
  | Admits | Serves connection time | SlotReleased | ConnectionDone
  | TickTaken | TickerCancels | TickerSeesDone | TickerDone
  | CloserStarts | CloserCloses
  | AcceptClosed | MainCancels | WaitEnds | CloserStopped | DeferredCancel | DeferredClose | DeferredStop

inductive serverMove :: "('k, 'h, 'r, 'w) adapterIO \<Rightarrow> rosenpassConfig \<Rightarrow> serverAction \<Rightarrow> 'w serverState \<Rightarrow> 'w serverState \<Rightarrow> bool" for io c where
  parent_cancelled: "serverMove io c ParentCancelled s (s\<lparr>ssCancelled := True\<rparr>)"
| clock_ticks: "ssTicker s = Ticking \<Longrightarrow> serverMove io c (ClockTicks now) s (s\<lparr>ssTick := Some now\<rparr>)"
| client_connects: "ssMain s = Accepting \<Longrightarrow> ssListening s \<Longrightarrow> serverMove io c ClientConnects s (s\<lparr>ssMain := Admitting\<rparr>)"
| accept_errs: "ssMain s = Accepting \<Longrightarrow> ssListening s \<Longrightarrow> serverMove io c (AcceptErrs e) s (s\<lparr>ssMain := AcceptFails, ssResult := Some e\<rparr>)"
| child_writes: "serverMove io c (ChildWrites pid line seen) s (s\<lparr>ssAdapter := outputLine io c pid line seen (ssAdapter s)\<rparr>)"
| child_ends: "serverMove io c (ChildEnds pid) s (s\<lparr>ssAdapter := childEnded io c pid (ssAdapter s)\<rparr>)"
| admits: "ssMain s = Admitting \<Longrightarrow> serverMove io c Admits s (admitConnection s)"
| serves: "0 < ssServing s \<Longrightarrow> serverMove io c (Serves co now) s (serveConnection io c co now s)"
| slot_released: "0 < ssReleasing s \<Longrightarrow>
    serverMove io c SlotReleased s (s\<lparr>ssReleasing := ssReleasing s - 1, ssSlots := ssSlots s - 1, ssFinishing := ssFinishing s + 1\<rparr>)"
| connection_done: "0 < ssFinishing s \<Longrightarrow>
    serverMove io c ConnectionDone s (s\<lparr>ssFinishing := ssFinishing s - 1, ssWorkers := ssWorkers s - 1\<rparr>)"
| tick_taken: "ssTicker s = Ticking \<Longrightarrow> ssTick s = Some now \<Longrightarrow> serverMove io c TickTaken s (tickerTurn io c now s)"
| ticker_cancels: "ssTicker s = TickFailed \<Longrightarrow> serverMove io c TickerCancels s (s\<lparr>ssCancelled := True, ssTicker := TickerLeaves\<rparr>)"
| ticker_sees_done: "ssTicker s = Ticking \<Longrightarrow> ssCancelled s \<Longrightarrow> serverMove io c TickerSeesDone s (s\<lparr>ssTicker := TickerLeaves\<rparr>)"
| ticker_done: "ssTicker s = TickerLeaves \<Longrightarrow>
    serverMove io c TickerDone s (s\<lparr>ssTicker := TickerReturned, ssWorkers := ssWorkers s - 1\<rparr>)"
| closer_starts: "ssCloser s = Armed \<Longrightarrow> ssCancelled s \<Longrightarrow> serverMove io c CloserStarts s (s\<lparr>ssCloser := Firing\<rparr>)"
| closer_closes: "ssCloser s = Firing \<Longrightarrow> serverMove io c CloserCloses s (s\<lparr>ssCloser := Fired, ssListening := False\<rparr>)"
| accept_closed: "ssMain s = Accepting \<Longrightarrow> \<not> ssListening s \<Longrightarrow> serverMove io c AcceptClosed s (s\<lparr>ssMain := AcceptFails\<rparr>)"
| main_cancels: "ssMain s = AcceptFails \<Longrightarrow> serverMove io c MainCancels s (s\<lparr>ssCancelled := True, ssMain := WaitsForWorkers\<rparr>)"
| wait_ends: "ssMain s = WaitsForWorkers \<Longrightarrow> ssWorkers s = 0 \<Longrightarrow> serverMove io c WaitEnds s (s\<lparr>ssMain := StopsCloser\<rparr>)"
| closer_stopped: "ssMain s = StopsCloser \<Longrightarrow> serverMove io c CloserStopped s (stopClose s)"
| deferred_cancel: "ssMain s = Cancels \<Longrightarrow> serverMove io c DeferredCancel s (s\<lparr>ssCancelled := True, ssMain := ClosesListener\<rparr>)"
| deferred_close: "ssMain s = ClosesListener \<Longrightarrow> serverMove io c DeferredClose s (s\<lparr>ssListening := False, ssMain := StopsAdapter\<rparr>)"
| deferred_stop: "ssMain s = StopsAdapter \<Longrightarrow>
    serverMove io c DeferredStop s (s\<lparr>ssAdapter := snd (stop io c (ssAdapter s)), ssMain := ServerReturned\<rparr>)"

inductive serverRun :: "('k, 'h, 'r, 'w) adapterIO \<Rightarrow> rosenpassConfig \<Rightarrow> 'w serverState \<Rightarrow> 'w serverState \<Rightarrow> bool" for io c s where
  server_here: "serverRun io c s s"
| server_moves: "serverRun io c s t \<Longrightarrow> serverMove io c a t u \<Longrightarrow> serverRun io c s u"

section \<open>Invariant\<close>

definition countsOK :: "'w serverState \<Rightarrow> bool" where
  "countsOK s \<longleftrightarrow> ssSlots s = ssServing s + ssReleasing s \<and> ssSlots s \<le> 8 \<and>
     ssWorkers s = (if ssTicker s = TickerReturned then 0 else 1) + ssServing s + ssReleasing s + ssFinishing s"

definition listeningOK :: "'w serverState \<Rightarrow> bool" where
  "listeningOK s \<longleftrightarrow> (ssMain s \<in> {StopsAdapter, ServerReturned} \<longrightarrow> \<not> ssListening s) \<and>
     (ssCloser s = Fired \<longrightarrow> \<not> ssListening s) \<and> (ssCloser s = Disarmed \<longrightarrow> ssMain s \<in> {Cancels, ClosesListener, StopsAdapter, ServerReturned})"

definition endingOK :: "'w serverState \<Rightarrow> bool" where
  "endingOK s \<longleftrightarrow> (ssMain s \<notin> {Accepting, Admitting, AcceptFails} \<longrightarrow> ssCancelled s) \<and>
     (ssMain s \<notin> {Accepting, Admitting, AcceptFails, WaitsForWorkers} \<longrightarrow> ssWorkers s = 0) \<and>
     (ssMain s = ServerReturned \<longrightarrow> raChild (ssAdapter s) = None)"

definition serverInv :: "'w serverState \<Rightarrow> bool" where
  "serverInv s \<longleftrightarrow> countsOK s \<and> listeningOK s \<and> endingOK s"

lemma start_inv: "serverInv (startServer a)"
  by (simp add: serverInv_def countsOK_def listeningOK_def endingOK_def startServer_def)

lemma stop_forgets: "raChild (snd (stop io c a)) = None"
  using stop_status[of io c a] by (auto simp: wpE_def split: prod.splits sum.splits)

lemma idle_output: "raChild a = None \<Longrightarrow> outputLine io c pid line seen a = a" "raChild a = None \<Longrightarrow> childEnded io c pid a = a"
  by (simp_all add: outputLine_def childEnded_def isCurrent_def)

lemma move_counts: "serverMove io c a s t \<Longrightarrow> countsOK s \<Longrightarrow> countsOK t"
  by (induction rule: serverMove.induct)
    (auto simp: countsOK_def admitConnection_def serveConnection_def tickerTurn_def stopClose_def split: if_splits prod.split sum.split)

lemma move_listening: "serverMove io c a s t \<Longrightarrow> listeningOK s \<Longrightarrow> listeningOK t"
  by (induction rule: serverMove.induct)
    (auto simp: listeningOK_def admitConnection_def serveConnection_def tickerTurn_def stopClose_def split: if_splits prod.split sum.split)

lemma workers_none: "countsOK s \<Longrightarrow> ssWorkers s = 0 \<Longrightarrow> ssServing s = 0 \<and> ssReleasing s = 0 \<and> ssFinishing s = 0 \<and> ssTicker s = TickerReturned"
  by (simp add: countsOK_def split: if_splits)

lemma move_ending: "serverMove io c a s t \<Longrightarrow> countsOK s \<Longrightarrow> endingOK s \<Longrightarrow> endingOK t"
proof (induction rule: serverMove.induct)
  case (serves s co now)
  then have "ssWorkers s \<noteq> 0" using workers_none[of s] by auto
  with serves show ?case by (auto simp: endingOK_def serveConnection_def)
next
  case (tick_taken s now)
  then have "ssWorkers s \<noteq> 0" using workers_none[of s] by auto
  with tick_taken show ?case by (auto simp: endingOK_def tickerTurn_def split: prod.split sum.split)
qed (auto simp: endingOK_def admitConnection_def stopClose_def stop_forgets idle_output)

lemma run_inv: "serverRun io c s t \<Longrightarrow> serverInv s \<Longrightarrow> serverInv t"
  by (induction rule: serverRun.induct) (auto simp: serverInv_def intro: move_counts move_listening move_ending)

section \<open>The handlers in their order\<close>

text \<open>
  Until it returns, every interleaving of the goroutines is a sequence of handlers in the sense
  of \<open>serverLoop\<close>: what is proved of those sequences holds of the goroutines.
\<close>

fun eventsOf :: "serverAction \<Rightarrow> 'w serverState \<Rightarrow> adapterEvent list" where
  "eventsOf (AcceptErrs e) s = [AcceptFailed e]"
| "eventsOf (ChildWrites pid line seen) s = [Output pid line seen]"
| "eventsOf (ChildEnds pid) s = [Ended pid]"
| "eventsOf Admits s = (if ssSlots s < 8 then [Accepted] else [])"
| "eventsOf (Serves co now) s = [Served co now]"
| "eventsOf TickTaken s = (case ssTick s of None \<Rightarrow> [] | Some now \<Rightarrow> [Ticked now])"
| "eventsOf AcceptClosed s = [ListenerClosed]"
| "eventsOf _ s = []"

definition simulated :: "'w serverState \<Rightarrow> 'w rosenpassServer \<Rightarrow> bool" where
  "simulated s v \<longleftrightarrow> svAdapter v = ssAdapter s \<and> svResult v = ssResult s \<and> svSlots v = ssServing s \<and>
     (svOpen v \<longleftrightarrow> ssMain s \<in> {Accepting, Admitting}) \<and> (ssTicker s = Ticking \<longrightarrow> svTicking v)"

lemma move_simulated:
  assumes "serverMove io c a s t" and "countsOK s" and "simulated s v" and "ssMain t \<noteq> ServerReturned"
  shows "simulated t (fold (serverStep io c) (eventsOf a s) v)"
  using assms
  by (induction rule: serverMove.induct)
    (auto simp: simulated_def countsOK_def admitConnection_def serveConnection_def tickerTurn_def stopClose_def split: prod.split sum.split)

lemma returned_stays: "serverMove io c a s t \<Longrightarrow> ssMain s = ServerReturned \<Longrightarrow> ssMain t = ServerReturned"
  by (induction rule: serverMove.induct) (auto simp: admitConnection_def serveConnection_def tickerTurn_def stopClose_def split: prod.split sum.split)

lemma server_refines:
  assumes "serverRun io c (startServer a) s" and "ssMain s \<noteq> ServerReturned"
  shows "\<exists>es. simulated s (serverLoop io c es a)"
  using assms
proof (induction rule: serverRun.induct)
  case server_here
  have "simulated (startServer a) (serverLoop io c [] a)" by (simp add: simulated_def startServer_def serverLoop_def)
  then show ?case ..
next
  case (server_moves t b u)
  then have "ssMain t \<noteq> ServerReturned" using returned_stays by blast
  with server_moves obtain es where es: "simulated t (serverLoop io c es a)" by blast
  have "countsOK t" using run_inv[OF server_moves(1) start_inv] by (simp add: serverInv_def)
  from move_simulated[OF server_moves(2) this es server_moves(4)]
  have "simulated u (serverLoop io c (es @ eventsOf b t) a)" by (simp add: serverLoop_def)
  then show ?case ..
qed

section \<open>The server returns\<close>

text \<open>
  What the goroutines do by themselves once the server is to end: a connection that was
  accepted is served, which its deadline bounds, and everything else needs nobody outside.  No new
  client, tick of the clock or output of the child is needed, and none is counted.
\<close>

fun byItself :: "serverAction \<Rightarrow> bool" where
  "byItself ParentCancelled = False"
| "byItself (ClockTicks now) = False"
| "byItself ClientConnects = False"
| "byItself (AcceptErrs e) = False"
| "byItself (ChildWrites pid line seen) = False"
| "byItself (ChildEnds pid) = False"
| "byItself _ = True"

definition windsDown :: "('k, 'h, 'r, 'w) adapterIO \<Rightarrow> rosenpassConfig \<Rightarrow> 'w serverState \<Rightarrow> 'w serverState \<Rightarrow> bool" where
  "windsDown io c s t \<longleftrightarrow> (\<exists>a. byItself a \<and> serverMove io c a s t)"

lemma windsDownI: "serverMove io c a s t \<Longrightarrow> byItself a \<Longrightarrow> \<exists>t. windsDown io c s t"
  unfolding windsDown_def by blast

text \<open>The server is to end: its context was cancelled, accepting failed, or the ticker met an error.\<close>

definition ending :: "'w serverState \<Rightarrow> bool" where
  "ending s \<longleftrightarrow> ssCancelled s \<or> ssMain s \<notin> {Accepting, Admitting} \<or> ssTicker s = TickFailed"

definition workLeft :: "'w serverState \<Rightarrow> nat" where
  "workLeft s = 3 * ssServing s + 2 * ssReleasing s + ssFinishing s +
     (case ssTicker s of Ticking \<Rightarrow> 3 | TickFailed \<Rightarrow> 2 | TickerLeaves \<Rightarrow> 1 | TickerReturned \<Rightarrow> 0) + (if ssTick s = None then 0 else 1) +
     (case ssCloser s of Armed \<Rightarrow> 2 | Firing \<Rightarrow> 1 | Fired \<Rightarrow> 0 | Disarmed \<Rightarrow> 0) +
     (case ssMain s of Admitting \<Rightarrow> 11 | Accepting \<Rightarrow> 7 | AcceptFails \<Rightarrow> 6 | WaitsForWorkers \<Rightarrow> 5 | StopsCloser \<Rightarrow> 4 | Cancels \<Rightarrow> 3 |
        ClosesListener \<Rightarrow> 2 | StopsAdapter \<Rightarrow> 1 | ServerReturned \<Rightarrow> 0)"

lemma winding_less: "serverMove io c a s t \<Longrightarrow> byItself a \<Longrightarrow> workLeft t < workLeft s"
  by (induction rule: serverMove.induct)
    (auto simp: workLeft_def admitConnection_def serveConnection_def tickerTurn_def stopClose_def split: prod.split sum.split closerStage.split)

lemma winds_less: "windsDown io c s t \<Longrightarrow> workLeft t < workLeft s"
  unfolding windsDown_def by (elim exE conjE) (rule winding_less)

lemma ending_stays: "serverMove io c a s t \<Longrightarrow> ending s \<Longrightarrow> serverInv s \<Longrightarrow> ending t"
  by (induction rule: serverMove.induct)
    (auto simp: ending_def serverInv_def endingOK_def admitConnection_def serveConnection_def tickerTurn_def stopClose_def split: prod.split sum.split)

lemma worker_goes_on:
  assumes inv: "serverInv s" and cancelled: "ssCancelled s" and "ssWorkers s \<noteq> 0"
  shows "\<exists>t. windsDown io c s t"
proof -
  from inv assms(3) consider "0 < ssServing s" | "0 < ssReleasing s" | "0 < ssFinishing s" | "ssTicker s \<noteq> TickerReturned"
    by (auto simp: serverInv_def countsOK_def split: if_splits)
  then show ?thesis
  proof cases
    case 1
    from windsDownI[OF serves[OF this]] show ?thesis by simp
  next
    case 4
    then show ?thesis
      using cancelled ticker_cancels[of s io c] ticker_sees_done[of s io c] ticker_done[of s io c] by (cases "ssTicker s") (auto intro: windsDownI)
  qed (auto intro: windsDownI slot_released connection_done)
qed

lemma winds_down:
  assumes inv: "serverInv s" and "ending s" and "ssMain s \<noteq> ServerReturned"
  shows "\<exists>t. windsDown io c s t"
proof (cases "ssMain s")
  case Accepting
  show ?thesis
  proof (cases "ssListening s")
    case True
    with inv Accepting have "ssCloser s \<in> {Armed, Firing}" by (cases "ssCloser s") (auto simp: serverInv_def listeningOK_def)
    with Accepting assms(2) closer_starts[of s io c] closer_closes[of s io c] ticker_cancels[of s io c] show ?thesis
      by (auto simp: ending_def intro: windsDownI)
  qed (use Accepting accept_closed[of s io c] in \<open>auto intro: windsDownI\<close>)
next
  case WaitsForWorkers
  with inv have "ssCancelled s" by (simp add: serverInv_def endingOK_def)
  with inv WaitsForWorkers worker_goes_on[of s io c] wait_ends[of s io c] show ?thesis by (cases "ssWorkers s = 0") (auto intro: windsDownI)
qed (use assms(3) admits[of s io c] main_cancels[of s io c] closer_stopped[of s io c] deferred_cancel[of s io c] deferred_close[of s io c]
    deferred_stop[of s io c] in \<open>auto intro: windsDownI\<close>)

lemma winding_keeps: "(windsDown io c)\<^sup>*\<^sup>* s t \<Longrightarrow> serverInv s \<Longrightarrow> ending s \<Longrightarrow> serverInv t \<and> ending t"
  by (induction rule: rtranclp_induct)
    (auto simp: windsDown_def serverInv_def intro: move_counts move_listening move_ending ending_stays[unfolded serverInv_def])

lemma no_endless_winding: "\<nexists>run. run 0 = s \<and> (\<forall>i. windsDown io c (run i) (run (Suc i)))"
proof
  assume "\<exists>run. run 0 = s \<and> (\<forall>i. windsDown io c (run i) (run (Suc i)))"
  then obtain run where steps: "\<forall>i. windsDown io c (run i) (run (Suc i))" by (elim exE conjE)
  have "(run (Suc i), run i) \<in> measure workLeft" for i using winds_less[OF spec[OF steps, of i]] by (simp add: in_measure)
  then show False using wf_no_infinite_down_chainE[OF wf_measure[of workLeft], of run] by blast
qed

lemma at_rest:
  assumes "serverInv t" and "ssMain t = ServerReturned"
  shows "ssTicker t = TickerReturned \<and> ssServing t = 0 \<and> ssSlots t = 0 \<and> ssWorkers t = 0 \<and> \<not> ssListening t \<and> raChild (ssAdapter t) = None"
proof -
  have "ssWorkers t = 0" "raChild (ssAdapter t) = None" "\<not> ssListening t" "countsOK t"
    using assms by (simp_all add: serverInv_def endingOK_def listeningOK_def)
  moreover from this have none: "ssServing t = 0" "ssReleasing t = 0" "ssTicker t = TickerReturned" by (simp_all add: workers_none)
  moreover have "ssSlots t = ssServing t + ssReleasing t" using \<open>countsOK t\<close> unfolding countsOK_def by (rule conjunct1)
  ultimately show ?thesis by simp
qed

text \<open>
  C16: The adapter's server always returns.  Take any reachable interleaving of its goroutines in
  which the server is to end: the process was told to stop, accepting a connection failed, or a
  refresh met an error.  Then the goroutines cannot go on by themselves forever, whatever the order
  in which they run, and they only come to rest when the server has returned: the ticker and the
  workers of all connections have returned, the listener is closed, and the adapter was stopped
  last of all, so that no child is current.
\<close>

theorem server_returns:
  assumes "serverRun io c (startServer a) s" and "ending s"
  shows "(\<nexists>run. run 0 = s \<and> (\<forall>i. windsDown io c (run i) (run (Suc i)))) \<and>
    (\<forall>t. (windsDown io c)\<^sup>*\<^sup>* s t \<and> (\<nexists>u. windsDown io c t u) \<longrightarrow>
      ssMain t = ServerReturned \<and> ssTicker t = TickerReturned \<and> ssServing t = 0 \<and> ssSlots t = 0 \<and> ssWorkers t = 0 \<and>
      \<not> ssListening t \<and> raChild (ssAdapter t) = None)"
proof (rule conjI[OF no_endless_winding], intro allI impI, elim conjE)
  fix t assume reach: "(windsDown io c)\<^sup>*\<^sup>* s t" and stuck: "\<nexists>u. windsDown io c t u"
  have t: "serverInv t" "ending t" using winding_keeps[OF reach run_inv[OF assms(1) start_inv] assms(2)] by simp_all
  have "ssMain t = ServerReturned" using winds_down[OF t, of io c] stuck by (rule_tac ccontr) simp
  with at_rest[OF t(1)] show "ssMain t = ServerReturned \<and> ssTicker t = TickerReturned \<and> ssServing t = 0 \<and> ssSlots t = 0 \<and> ssWorkers t = 0 \<and>
      \<not> ssListening t \<and> raChild (ssAdapter t) = None" by simp
qed

end
