(* ===== verification/RosenpassOutput.thy ===== *)
theory RosenpassOutput
  imports RosenpassServer
begin

text \<open>
  The goroutine of \<open>startProcess\<close> in \<^verbatim>\<open>rosenpass_linux.go\<close> that reads what the child
  writes: how the bytes become the lines the adapter acts on, and what is left when the
  reading ends.
\<close>

section \<open>Lines\<close>

text \<open>
  The \<^verbatim>\<open>bufio.Scanner\<close> with a buffer of at most 1024 bytes: a line ends at a newline or where
  the output ends, one carriage return before the newline is dropped, and a line that does
  not fit into the buffer together with its newline ends the scan.
\<close>

definition scanLimit :: nat where
  "scanLimit = 1024"

abbreviation newline :: char where
  "newline \<equiv> CHR 0x0a"

definition dropCR :: "string \<Rightarrow> string" where
  "dropCR l = (if l \<noteq> [] \<and> last l = CHR 0x0d then butlast l else l)"

function scanLines :: "string \<Rightarrow> string list" where
  "scanLines out =
    (let line = takeWhile (\<lambda>ch. ch \<noteq> newline) out in
     if out = [] \<or> length line \<ge> scanLimit then []
     else dropCR line # scanLines (drop (length line + 1) out))"
  by auto
termination
proof (relation "measure length")
  fix out line :: string assume "\<not> (out = [] \<or> length line \<ge> scanLimit)"
  then show "(drop (length line + 1) out, out) \<in> measure length" by (cases out) auto
qed simp

declare scanLines.simps [simp del]

text \<open>
  The events of the goroutine for the child \<open>pid\<close> that wrote \<open>out\<close> until its output was
  closed or could not be read any further; \<open>seen i\<close> is the time at which line \<open>i\<close> was read.
\<close>

definition readerEvents :: "nat \<Rightarrow> (nat \<Rightarrow> time) \<Rightarrow> string \<Rightarrow> adapterEvent list" where
  "readerEvents pid seen out = map (\<lambda>(i, line). Output pid line (seen i)) (enumerate 0 (scanLines out)) @ [Ended pid]"

section \<open>What is read\<close>

definition plainLine :: "string \<Rightarrow> bool" where
  "plainLine l \<longleftrightarrow> newline \<notin> set l \<and> length l < scanLimit"

lemma takeWhile_line: "newline \<notin> set l \<Longrightarrow> takeWhile (\<lambda>ch. ch \<noteq> newline) (l @ rest) = l @ takeWhile (\<lambda>ch. ch \<noteq> newline) rest"
  by (induction l) auto

lemma scanLines_Nil [simp]: "scanLines [] = []"
  by (simp add: scanLines.simps[of "[]"])

lemma scanLines_line: "plainLine l \<Longrightarrow> scanLines (l @ newline # rest) = dropCR l # scanLines rest"
  by (subst scanLines.simps) (simp add: plainLine_def takeWhile_line)

lemma scanLines_last:
  assumes "plainLine l" and "l \<noteq> []"
  shows "scanLines l = [dropCR l]"
proof -
  have "takeWhile (\<lambda>ch. ch \<noteq> newline) l = l" using takeWhile_line[of l "[]"] assms(1) by (simp only: plainLine_def append_Nil2 takeWhile.simps simp_thms)
  with assms show ?thesis by (subst scanLines.simps) (simp add: plainLine_def del: takeWhile_eq_all_conv)
qed

lemma scanLines_long:
  assumes "newline \<notin> set l" and "length l \<ge> scanLimit"
  shows "scanLines (l @ rest) = []"
proof -
  have "length l \<le> length (takeWhile (\<lambda>ch. ch \<noteq> newline) (l @ rest))"
    using assms(1) by (simp add: takeWhile_line)
  with assms(2) show ?thesis by (subst scanLines.simps) (simp add: Let_def)
qed

text \<open>Whatever the child writes, the adapter sees only lines shorter than the buffer, without a newline.\<close>

lemma scanLines_plain: "l \<in> set (scanLines out) \<Longrightarrow> plainLine l"
proof (induction out rule: scanLines.induct)
  case (1 out)
  let ?l = "takeWhile (\<lambda>ch. ch \<noteq> newline) out"
  have "plainLine (dropCR ?l)" if "length ?l < scanLimit"
    using that by (auto simp: plainLine_def dropCR_def dest: in_set_butlastD set_takeWhileD)
  with 1 show ?case by (subst (asm) (2) scanLines.simps) (auto simp: Let_def not_le split: if_splits)
qed

text \<open>
  Lines that are short enough and do not end in a carriage return are read as they were
  written, and all of them if no other line comes first: a line that is too long ends the
  reading, whatever follows it.
\<close>

lemma scanLines_written:
  assumes "\<forall>l \<in> set ls. plainLine l \<and> dropCR l = l"
  shows "scanLines (concat (map (\<lambda>l. l @ [newline]) ls) @ rest) = ls @ scanLines rest"
  using assms by (induction ls) (simp_all add: scanLines_line)

lemma scanLines_oversized:
  assumes "\<forall>l \<in> set ls. plainLine l \<and> dropCR l = l" and "newline \<notin> set big" and "length big \<ge> scanLimit"
  shows "scanLines (concat (map (\<lambda>l. l @ [newline]) ls) @ big @ rest) = ls"
  using assms by (simp add: scanLines_written scanLines_long)

section \<open>The end of the output\<close>

text \<open>
  When the reader has returned its child is not the current one: nothing that is announced
  afterwards comes from it.
\<close>

lemma ended_not_current: "\<not> isCurrent pid (svAdapter (serverStep io c (Ended pid) v))"
  using stop_status[of io c "svAdapter v"]
  by (auto simp: childEnded_def isCurrent_def wpE_def split: prod.splits sum.splits option.splits)

lemma reader_returns:
  assumes "v' = fold (serverStep io c) (readerEvents pid seen out) v"
  shows "\<not> isCurrent pid (svAdapter v')"
  unfolding assms readerEvents_def fold_append comp_apply fold.simps id_apply by (rule ended_not_current)

lemma reader_withdraws:
  assumes "serverGood io c files v" and "v' = fold (serverStep io c) (readerEvents pid seen out) v" and "rrValid (raStatus (svAdapter v'))"
  shows "\<exists>ch. raChild (svAdapter v') = Some ch \<and> chId ch \<noteq> pid"
proof -
  have "serverGood io c files v'" unfolding assms(2) by (rule source.good_run[OF assms(1)])
  with assms(3) have "raChild (svAdapter v') \<noteq> None"
    by (auto simp: serverGood_def serverOK_def adapterOK_def announcedOK_def Let_def split: if_splits)
  with reader_returns[OF assms(2)] show ?thesis by (auto simp: isCurrent_def)
qed

end
