(* ===== verification/Program.thy ===== *)
theory Program
  imports DaemonRuns RosenpassOutput
begin

text \<open>
  The whole program on Linux: the daemon with the interface table read over netlink
  and with its questions to the adapter, and the adapter behind its option.  What is
  proved of the daemon holds for every host, hence for this one.
\<close>

definition linuxEnv :: "'w queryIO \<Rightarrow> ('k, 'h, 'r, 'w) meshEnv \<Rightarrow> ('k, 'h, 'r, 'w) meshEnv" where
  "linuxEnv q env = env\<lparr>enRosenpass := queryRosenpass q\<rparr>"

text \<open>The adapter always returns (\<open>adapter_ends\<close>); \<open>None\<close> stands for not returning.\<close>

definition adapterMode :: "('k, 'h, 'r, 'w) adapterIO \<Rightarrow> adapterEvent list \<Rightarrow> string \<Rightarrow> ('w, unit) eff" where
  "adapterMode a aes path w = (case runRosenpassAdapter a path aes w of Some r \<Rightarrow> r | None \<Rightarrow> (Inl (Msg ''adapter does not return''), w))"

text \<open>
  What the service manager is told.  A connection is a number the system chooses; dialling and
  writing may fail, which is ignored.
\<close>

record 'w notifyIO =
  noSocket :: string
  noDial :: "string \<Rightarrow> ('w, nat) eff"
  noDeadline :: "nat \<Rightarrow> 'w \<Rightarrow> 'w"
  noWrite :: "nat \<Rightarrow> string \<Rightarrow> 'w \<Rightarrow> 'w"
  noClose :: "nat \<Rightarrow> 'w \<Rightarrow> 'w"

definition notify :: "'w notifyIO \<Rightarrow> string \<Rightarrow> 'w \<Rightarrow> 'w" where
  "notify sd message w =
    (if noSocket sd = [] then w
     else (case noDial sd (noSocket sd) w of
         (Inl _, w') \<Rightarrow> w'
       | (Inr conn, w') \<Rightarrow> noClose sd conn (noWrite sd conn message (noDeadline sd conn w'))))"

definition linuxHost :: "'w notifyIO \<Rightarrow> 'w netlinkIO \<Rightarrow> 'w groupIO \<Rightarrow> (string \<Rightarrow> bool) \<Rightarrow> 'w queryIO \<Rightarrow> ('k, 'h, 'r, 'w) adapterIO \<Rightarrow> adapterEvent list \<Rightarrow>
    ('k, 'h, 'r, 'w) host \<Rightarrow> ('k, 'h, 'r, 'w) host" where
  "linuxHost sd nl g exists_file q a aes h = h\<lparr>hsEnv := linuxEnv q (hsEnv h), hsLinux := True, hsInterface := readInterface nl, hsInterfaces := readInterfaces nl,
     hsPhysical := physicalInterface exists_file, hsLeave := \<lambda>key w. snd (groupMembership g key False w),
     hsGroupJoin := \<lambda>key. groupMembership g key True, hsAdapter := adapterMode a aes, hsNotify := notify sd\<rparr>"

definition program :: "'w notifyIO \<Rightarrow> 'w netlinkIO \<Rightarrow> 'w groupIO \<Rightarrow> (string \<Rightarrow> bool) \<Rightarrow> 'w queryIO \<Rightarrow> ('k, 'h, 'r, 'w) adapterIO \<Rightarrow> ('k, 'h, 'r, 'w) host \<Rightarrow> 'w controlIO \<Rightarrow>
    options \<Rightarrow> loopEvent list \<Rightarrow> adapterEvent list \<Rightarrow> 'r \<Rightarrow> ('w, unit) eff" where
  "program sd nl g exists_file q a h io opts es aes random = daemonRun (linuxHost sd nl g exists_file q a aes h) io opts es random"

text \<open>The exit status of the process; the error itself is only logged.\<close>

definition mainStatus :: "(error + unit) \<times> 'w \<Rightarrow> int \<times> 'w" where
  "mainStatus r = (case r of (Inl _, w) \<Rightarrow> (1, w) | (Inr _, w) \<Rightarrow> (0, w))"

text \<open>
  The adapter option stands alone: combined with any option of the daemon it is
  refused with no effect, and otherwise it is the adapter and nothing else.
\<close>

lemma program_adapter:
  assumes "opAdapter opts \<noteq> []"
  shows "program sd nl g exists_file q a h io opts es aes random w =
    (if opWireguard opts = [] \<and> opConfig opts = [] \<and> opState opts = [] \<and> \<not> opRestore opts \<and> \<not> opDry opts \<and> opNArg opts = 0
     then the (runRosenpassAdapter a (opAdapter opts) aes w)
     else (Inl (Msg ''-rosenpass-adapter cannot be combined with daemon options''), w))"
proof -
  obtain r where "runRosenpassAdapter a (opAdapter opts) aes w = Some r" using adapter_ends[of a "opAdapter opts" aes w] by blast
  with assms show ?thesis
    by (simp add: program_def daemonRun_def linuxHost_def adapterMode_def thenE_def bindE_def failIf_def throwE_def returnE_def)
qed

end
