(* ===== verification/RosenpassWitnesses.thy ===== *)
theory RosenpassWitnesses
  imports Program DaemonWitnesses
begin

text \<open>
  Concrete instances of the properties of the adapter: a machine with a disk, a map from
  paths to contents, and what is left of the children on it; one interface; and a child that
  negotiates a key.
\<close>

type_synonym disk = "(string \<Rightarrow> string option) \<times> remnant set"

abbreviation noDisk :: disk where
  "noDisk \<equiv> (Map.empty, {})"

section \<open>The interface table\<close>

definition lanLink :: linkAttrs where
  "lanLink = \<lparr>laIndex = 2, laName = ''eth0'', laFlags = 0x13, laOperState = OperUp\<rparr>"

definition lanAddrs :: "netAddr list" where
  "lanAddrs = [\<lparr>naLinkIndex = 2, naFlags = 0x80, naNet = Net (Prefix (V4 0xc0a80102) 24)\<rparr>,
     \<lparr>naLinkIndex = 1, naFlags = 0, naNet = Net (Prefix (V4 0x7f000001) 8)\<rparr>,
     \<lparr>naLinkIndex = 2, naFlags = 0x40, naNet = Net (Prefix (V4 0xc0a80103) 24)\<rparr>]"

definition lanNetlink :: "disk netlinkIO" where
  "lanNetlink = \<lparr>nlNew = \<lambda>w. (Inr (), w), nlClose = \<lambda>w. w, nlLinkList = \<lambda>w. (Inr [lanLink], w),
     nlAddrList = \<lambda>l w. (Inr (case l of None \<Rightarrow> lanAddrs | Some l \<Rightarrow> filter (\<lambda>a. naLinkIndex a = laIndex l) lanAddrs), w),
     nlByName = \<lambda>n w. (if n = ''eth0'' then Inr lanLink else Inl (Msg ''Link not found''), w),
     nlByIndex = \<lambda>i w. (if i = 2 then Inr lanLink else Inl LinkNotFound, w)\<rparr>"

lemma lanNetlink_truthful: "truthful lanNetlink [lanLink] lanAddrs"
  by (auto simp: truthful_def lanNetlink_def lanLink_def split: if_splits)

lemma lanInterfaces: "readInterfaces lanNetlink w = (Inr [linkState lanLink (byIndex lanAddrs 2)], w)"
  by (simp add: readInterfaces_def withHandle_def readInterfaceStates_def lanNetlink_def lanLink_def thenE_def bindE_def returnE_def)

lemma lanAddress: "\<exists>a \<in> set lanAddrs. naLinkIndex a = laIndex lanLink \<and> naFlags a AND 0x48 = 0 \<and> naNet a = Net (Prefix (V4 0xc0a80102) 24)"
  by (simp add: lanAddrs_def lanLink_def)

theorem dumps_match_queries_witness:
  "truthful lanNetlink [lanLink] lanAddrs \<and>
    Prefix (V4 0xc0a80102) 24 \<in> set (isPrefixes (linkState lanLink (byIndex lanAddrs 2))) \<and>
    fst (readInterface lanNetlink ''eth0'' noDisk) = Inr (linkState lanLink (byIndex lanAddrs 2))"
proof -
  have read: "fst (readInterfaces lanNetlink noDisk) = Inr [linkState lanLink (byIndex lanAddrs 2)]" by (simp add: lanInterfaces)
  have one: "fst (readInterface lanNetlink ''eth0'' noDisk) = Inr (linkState lanLink (filter (\<lambda>a. naLinkIndex a = 2) lanAddrs))"
    by (simp add: readInterface_def withHandle_def lanNetlink_def lanLink_def thenE_def bindE_def returnE_def)
  from dumps_match_queries[OF lanNetlink_truthful read] one
  have "linkState lanLink (filter (\<lambda>a. naLinkIndex a = 2) lanAddrs) = linkState lanLink (byIndex lanAddrs 2)"
    and "Prefix (V4 0xc0a80102) 24 \<in> set (isPrefixes (linkState lanLink (byIndex lanAddrs 2)))"
    using lanAddress by (auto simp: lanLink_def)
  with one lanNetlink_truthful show ?thesis by simp
qed

section \<open>The adapter\<close>

definition lanConfig :: rosenpassConfig where
  "lanConfig = \<lparr>rpExecutable = ''/rp'', rpPeer = ''peer'', rpPublicKeyFile = ''/pk'', rpSecretKeyFile = ''/sk'', rpPeerPublicKeyFile = ''/ppk'',
     rpListenPort = 9999, rpRemotePort = 9999, rpPSKFile = ''/out/psk'', rpRuntimeDir = ''/run'', rpSocket = ''/s'', rpDaemonUID = Some 0\<rparr>"

definition lanRequest :: rosenpassRequest where
  "lanRequest = \<lparr>rqPeer = ''peer'', rqAddress = V4 0xc0a80104,
     rqLink = \<lparr>lkIndex = 2, lkName = ''eth0'', lkPrefix = Prefix (V4 0xc0a80102) 24, lkBroadcast = NoAddr, lkMulticast = False\<rparr>\<rparr>"

definition lanStatus :: fileStatus where
  "lanStatus = \<lparr>fsMode = 0x180, fsSize = 45, fsModTime = 0, fsUid = 1000, fsGid = 1000\<rparr>"

definition lanFile :: pskFile where
  "lanFile = \<lparr>pfBefore = Some lanStatus, pfOpens = True, pfInfo = Some lanStatus, pfSame = True,
     pfData = Some (replicate 44 CHR ''k'' @ [CHR 0x0a]), pfAfter = Some lanStatus\<rparr>"

definition lanEnv :: "(bytes, bytes, nat, disk) meshEnv" where
  "lanEnv = (mapEnv (\<lambda>_. 0) (\<lambda>_ s. s) exEnv)\<lparr>enEuid := 1000, enPskFile := \<lambda>_ w. (lanFile, w)\<rparr>"

definition diskRemove :: "string \<Rightarrow> disk \<Rightarrow> fsError option \<times> disk" where
  "diskRemove f w = (if fst w f = None then (Some NotExist, w) else (None, (fst w)(f := None), snd w))"

text \<open>Paths under \<^verbatim>\<open>/\<close> are directories of the adapter's user, except for the raw file of the child.\<close>

definition diskLstat :: "string \<Rightarrow> disk \<Rightarrow> (fsError + fileStatus) \<times> disk" where
  "diskLstat f w = (if f = ''/s'' then (Inl NotExist, w)
     else (Inr (if f \<in> {''/'', ''/run'', ''/out''} then lanStatus\<lparr>fsMode := 0x800001c0\<rparr> else lanStatus), w))"

definition childRemnants :: "remnant set" where
  "childRemnants = {Process 1, ChildDir ''/run/child-1''}"

definition lanIO :: "(bytes, bytes, nat, disk) adapterIO" where
  "lanIO = \<lparr>apEnv = lanEnv, apNetlink = lanNetlink, apInterface = \<lambda>_ w. (Inr (linkInterface lanLink), w),
     apRemove = diskRemove, apRemoveAll = \<lambda>d w. (Inr (), fst w, snd w - {ChildDir d}), apLstat = diskLstat, apMkdirTemp = \<lambda>_ _ w. (Inr ''/run/child-1'', w),
     apWriteEmpty = \<lambda>_ w. (Inr (), w), apCreateTemp = \<lambda>_ _ w. (Inr ''/out/tmp'', w), apChmod = \<lambda>_ _ w. (Inr (), w),
     apWrite = \<lambda>f d w. (Inr (), (fst w)(f \<mapsto> d), snd w), apSync = \<lambda>_ w. (Inr (), w), apClose = \<lambda>_ w. (Inr (), w),
     apRename = \<lambda>f g w. (Inr (), (fst w)(g := fst w f, f := None), snd w), apExec = \<lambda>_ _ d w. (Inr 1, fst w, insert (Process 1) (insert (ChildDir d) (snd w))),
     apKill = \<lambda>pid w. (fst w, snd w - {Process pid}), apDone = \<lambda>pid w. (Process pid \<notin> snd w, w), apWait = \<lambda>pid w. (Process pid \<notin> snd w, w),
     apBase64 = \<lambda>_. Some (replicate 32 0), apUid = 1000,
     apOpenConfig = \<lambda>_ w. (Inr (Some []), w), apDecodeConfig = \<lambda>_. Some (lanConfig, True), apOpenLock = \<lambda>_ w. (Inr (), w),
     apFlock = \<lambda>_ w. (Inr (), w), apCloseLock = \<lambda>_ w. w, apRandomId = \<lambda>w. (Inr ''id'', w), apListen = \<lambda>_ w. (Inr (), w),
     apCloseListener = \<lambda>w. w, apDecodeRequest = \<lambda>_. Some (lanRequest, True)\<rparr>"

lemma lanIO_exclusive: "exclusive lanIO (rpPSKFile lanConfig) fst"
  by (simp add: exclusive_def lanConfig_def lanIO_def lanNetlink_def lanEnv_def keeps_def diskRemove_def diskLstat_def)

lemma noOutput: "fst noDisk (rpPSKFile c) = None"
  by simp

lemma lanIO_children: "childProcesses lanIO snd"
  by (auto simp: childProcesses_def lanIO_def lanNetlink_def lanEnv_def lessens_def diskRemove_def diskLstat_def)

definition daemonConn :: connection where
  "daemonConn = \<lparr>coDeadline = True, coSyscallConn = True, coControl = True, coUcred = Some 0, coInput = [10]\<rparr>"

definition keyLine :: string where
  "keyLine = eventLine (replicate 44 CHR ''i'') '' exchanged''"

definition lanEvents :: "adapterEvent list" where
  "lanEvents = [Accepted, Served daemonConn 0, Output 1 keyLine second]"

lemma keyLine_parse: "parseRosenpassEvent (apBase64 lanIO) keyLine = Exchanged"
  unfolding keyLine_def parse_exchanged
  by (intro exI[of _ "replicate 44 CHR ''i''"] exI[of _ "replicate 32 0"]) (simp add: lanIO_def)

lemma lanKey: "readRaw lanIO f second w = (Some 7, w)" "readRaw lanIO f minute w = (Some 7, w)"
  by (simp_all add: readRaw_def lanIO_def lanEnv_def readKeyFile_def rawSpec_def lanFile_def lanStatus_def mapEnv_def exEnv_def Let_def unsafeStatus_def
      isRegularMode_def permBits_def trimNewline_def butlast_append timeSub_def minDuration_def maxDuration_def)

lemma lanPrefixes: "interfacePrefixes lanNetlink (linkInterface lanLink) w = (Inr [Prefix (V4 0xc0a80102) 24], w)"
  by (simp add: interfacePrefixes_def withHandle_def lanNetlink_def lanLink_def linkInterface_def lanAddrs_def linkPrefixes_def thenE_def bindE_def returnE_def)

lemma lanOnLink: "rosenpassOnLink itoa lanRequest (linkInterface lanLink) [Prefix (V4 0xc0a80102) 24] = Inr lanRequest"
  by (simp add: rosenpassOnLink_def badEndpoint_def lanRequest_def lanLink_def linkInterface_def run_netip usableLinkAddress_def Let_def pValid_def mask_eq_exp_minus_1)

lemma lanValid: "validateRosenpassRequest lanIO lanRequest w = (Inr lanRequest, w)"
  by (simp add: validateRosenpassRequest_def lanIO_def lanPrefixes lanOnLink run_eff)

lemma childRunning [simp]: "Process 1 \<in> childRemnants" "Process (Suc 0) \<in> childRemnants"
  by (simp_all add: childRemnants_def)

lemmas run_adapter = request_def refreshAdapter_def changeEndpoint_def startChild_def startProcess_def stop_def invalidate_def recordedErr_def
  onFiles_def pollFiles_def liftErr_def thenE_def bindE_def returnE_def getsE_def modifyE_def tryE_def diskRemove_def

lemma lanIO_simps [simp]:
  "apEnv lanIO = lanEnv" "apRemove lanIO = diskRemove" "apLstat lanIO = diskLstat" "apMkdirTemp lanIO d p w = (Inr ''/run/child-1'', w)"
  "apWriteEmpty lanIO f w = (Inr (), w)" "apExec lanIO e args d w = (Inr 1, fst w, insert (Process 1) (insert (ChildDir d) (snd w)))" "apDone lanIO i w = (Process i \<notin> snd w, w)"
  "apWait lanIO i w = (Process i \<notin> snd w, w)" "apKill lanIO i w = (fst w, snd w - {Process i})" "apRemoveAll lanIO f w = (Inr (), fst w, snd w - {ChildDir f})" "apListen lanIO f w = (Inr (), w)" "apCloseListener lanIO w = w"
  "apChmod lanIO f m w = (Inr (), w)" "apDecodeRequest lanIO b = Some (lanRequest, True)"
  "rpPSKFile lanConfig = ''/out/psk''" "rpPeer lanConfig = ''peer''" "rpSocket lanConfig = ''/s''" "rpDaemonUID lanConfig = Some 0"
  "rqPeer lanRequest = ''peer''" "rqAddress lanRequest = V4 0xc0a80104" "lanRequest \<noteq> zeroRequest"
  by (simp_all add: lanIO_def lanConfig_def lanRequest_def zeroRequest_def)

definition lanStarted :: "disk rosenpassAdapter" where
  "lanStarted = \<lparr>raStatus = zeroResponse\<lparr>rrInstance := ''id'', rrGeneration := 1\<rparr>, raEndpoint = lanRequest,
     raChild = Some \<lparr>chId = 1, chGeneration = 1, chDir = ''/run/child-1'', chRaw = ''/run/child-1/psk.raw'', chStopEvent = []\<rparr>,
     raErr = None, raLastHash = 0, raRetryAfter = second, raWorld = (Map.empty, childRemnants)\<rparr>"

lemma lanServed: "handleConnection lanIO lanConfig daemonConn 0 (newAdapter ''id'' noDisk) = (Some (raStatus lanStarted), lanStarted)"
  by (simp add: handleConnection_def daemonConn_def rosenpassAuthorized_def readRosenpassJSON_def readLine_def rosenpassRPCSize_def
      run_adapter lanValid newAdapter_def zeroResponse_def lanStarted_def joinPath_def childRemnants_def)

text \<open>The child reports a key: the output file holds it and the status announces it for three minutes from the time of the raw file.\<close>

definition lanAnnounced :: "disk rosenpassAdapter" where
  "lanAnnounced = lanStarted\<lparr>raStatus := \<lparr>rrInstance = ''id'', rrGeneration = 1, rrKeyGeneration = 1, rrHash = 7, rrExpires = 3 * minute, rrValid = True\<rparr>,
     raLastHash := 7, raWorld := ([''/out/psk'' \<mapsto> replicate 44 CHR ''k'' @ [CHR 0x0a]], childRemnants)\<rparr>"

lemma lanPublished: "publishRosenpassPSK lanIO ''/out/psk'' 7 (Map.empty, r) = (Inr (), [''/out/psk'' \<mapsto> replicate 44 CHR ''k'' @ [CHR 0x0a]], r)"
  by (auto simp: publishRosenpassPSK_def lanIO_def lanEnv_def mapEnv_def exEnv_def diskRemove_def thenE_def bindE_def returnE_def modifyE_def tryE_def)

lemma lanOutput: "outputLine lanIO lanConfig 1 keyLine second lanStarted = lanAnnounced"
proof -
  have hash: "enHash lanEnv 7 = 7" by (simp add: lanEnv_def mapEnv_def exEnv_def)
  show ?thesis
    by (simp add: outputLine_def lanStarted_def keyLine_parse childEvent_def isCurrent_def exchanged_def acceptKey_def run_adapter lanKey diskLstat_def
        lanStatus_def hash lanPublished keyExpires_def rosenpassLifetime_def timeSub_def minDuration_def maxDuration_def lanAnnounced_def zeroResponse_def)
qed

lemma lanRun: "serverLoop lanIO lanConfig lanEvents (newAdapter ''id'' noDisk) = \<lparr>svAdapter = lanAnnounced, svSlots = 0, svOpen = True, svTicking = True, svResult = None\<rparr>"
  by (simp add: serverLoop_def lanEvents_def lanServed lanOutput[unfolded One_nat_def])

lemma lanSeen: "\<forall>pid line seen. Output pid line seen \<in> set lanEvents \<longrightarrow> seen \<le> second"
  by (simp add: lanEvents_def)

theorem adapter_announces_output_witness:
  "\<exists>s key. s = svAdapter (serverLoop lanIO lanConfig lanEvents (newAdapter ''id'' noDisk)) \<and> rrValid (raStatus s) \<and>
    rrExpires (raStatus s) \<le> second + 3 * minute \<and>
    fst (raWorld s) ''/out/psk'' = Some (enKeyString lanEnv key @ [CHR 0x0a]) \<and> enHash lanEnv key = rrHash (raStatus s)"
proof -
  have valid: "rrValid (raStatus (svAdapter (serverLoop lanIO lanConfig lanEvents (newAdapter ''id'' noDisk))))"
    by (simp add: lanRun lanAnnounced_def)
  from adapter_announces_output[where files = fst and w = noDisk and ident = "''id''", OF lanIO_exclusive noOutput lanSeen refl] valid show ?thesis by auto
qed

theorem adapter_answers_fresh_witness:
  "\<exists>resp s key. handleConnection lanIO lanConfig daemonConn minute (svAdapter (serverLoop lanIO lanConfig lanEvents (newAdapter ''id'' noDisk))) =
      (Some resp, s) \<and> rrValid resp \<and> coUcred daemonConn = Some 0 \<and> minute < rrExpires resp \<and>
    fst (raWorld s) ''/out/psk'' = Some (enKeyString lanEnv key @ [CHR 0x0a]) \<and> enHash lanEnv key = rrHash resp"
proof -
  have answer: "handleConnection lanIO lanConfig daemonConn minute (svAdapter (serverLoop lanIO lanConfig lanEvents (newAdapter ''id'' noDisk))) =
      (Some (raStatus lanAnnounced), lanAnnounced)"
    unfolding lanRun by (simp add: handleConnection_def daemonConn_def rosenpassAuthorized_def readRosenpassJSON_def readLine_def rosenpassRPCSize_def
      run_adapter lanValid lanAnnounced_def lanStarted_def)
  have "rrValid (raStatus lanAnnounced)" by (simp add: lanAnnounced_def)
  with adapter_answers_fresh[where files = fst and w = noDisk, OF lanIO_exclusive noOutput lanSeen answer] answer show ?thesis by auto
qed

theorem adapter_leaves_nothing_witness:
  "\<exists>s. adapterService lanIO lanConfig lanEvents (newAdapter ''id'' noDisk) = (Inr (), s) \<and> snd (raWorld s) = {} \<and> raChild s = None \<and>
    fst (raWorld s) ''/out/psk'' = None"
proof -
  have "invalidate lanIO lanConfig (newAdapter ''id'' noDisk) = (Inr (), newAdapter ''id'' noDisk)"
    by (simp add: run_adapter newAdapter_def zeroResponse_def)
  moreover have "listenAndServe lanIO lanConfig lanEvents (newAdapter ''id'' noDisk) = (None, lanAnnounced)"
  proof -
    have "onFiles (thenE (replaceSocket lanIO ''/s'') (apListen lanIO ''/s'')) (newAdapter ''id'' noDisk) = (Inr (), newAdapter ''id'' noDisk)"
      by (simp add: onFiles_def replaceSocket_def diskLstat_def thenE_def bindE_def newAdapter_def)
    then show ?thesis
      using lanRun by (simp add: listenAndServe_def onFiles_def)
  qed
  moreover have "\<exists>s. stop lanIO lanConfig lanAnnounced = (Inr (), s) \<and> raErr s = None"
    by (simp add: run_adapter stopChild_def lanAnnounced_def lanStarted_def)
  ultimately obtain s where run: "adapterService lanIO lanConfig lanEvents (newAdapter ''id'' noDisk) = (Inr (), s)"
    by (auto simp: adapterService_def thenE_def bindE_def liftErr_def returnE_def)
  with adapter_leaves_nothing[where remaining = snd, OF lanIO_exclusive lanIO_children _ run] show ?thesis by simp
qed

text \<open>The same line again a minute later changes nothing of the status.\<close>

theorem key_generation_identifies_witness:
  "\<exists>s. s = svAdapter (fold (serverStep lanIO lanConfig) [Output 1 keyLine minute, Ticked minute] (serverLoop lanIO lanConfig lanEvents (newAdapter ''id'' noDisk))) \<and>
    rrValid (raStatus s) \<and> raStatus s = raStatus lanAnnounced"
proof -
  define s where "s = svAdapter (fold (serverStep lanIO lanConfig) [Output 1 keyLine minute, Ticked minute]
    (serverLoop lanIO lanConfig lanEvents (newAdapter ''id'' noDisk)))"
  have hash: "enHash lanEnv 7 = 7" by (simp add: lanEnv_def mapEnv_def exEnv_def)
  have valid: "rrValid (raStatus s)"
    and same: "rrKeyGeneration (raStatus s) = rrKeyGeneration (raStatus (svAdapter (serverLoop lanIO lanConfig lanEvents (newAdapter ''id'' noDisk))))"
    by (simp_all add: s_def lanRun outputLine_def lanAnnounced_def lanStarted_def keyLine_parse childEvent_def isCurrent_def exchanged_def lanKey hash run_adapter)
  have "length [Output 1 keyLine minute, Ticked minute] < (2 :: nat) ^ 64" by simp
  from key_generation_identifies[OF this s_def valid same] have "raStatus s = raStatus lanAnnounced" by (simp add: lanRun)
  with s_def valid show ?thesis by blast
qed

text \<open>The daemon asks, reads the file after a tick, and asks again after a repeated line.\<close>

lemma lanAnswer: "t \<in> {second, minute} \<Longrightarrow> handleConnection lanIO lanConfig daemonConn t lanAnnounced = (Some (raStatus lanAnnounced), lanAnnounced)"
  by (auto simp: handleConnection_def daemonConn_def rosenpassAuthorized_def readRosenpassJSON_def readLine_def rosenpassRPCSize_def
      run_adapter lanValid lanAnnounced_def lanStarted_def)

lemma lanRepeated: "outputLine lanIO lanConfig 1 keyLine minute lanAnnounced = lanAnnounced"
proof -
  have hash: "enHash lanEnv 7 = 7" by (simp add: lanEnv_def mapEnv_def exEnv_def)
  show ?thesis
    by (simp add: outputLine_def lanAnnounced_def lanStarted_def keyLine_parse childEvent_def isCurrent_def exchanged_def lanKey hash run_adapter)
qed

lemma lanTicked: "refreshAdapter lanIO lanConfig minute lanAnnounced = (Inr (), lanAnnounced)"
  by (simp add: run_adapter lanAnnounced_def lanStarted_def)

theorem key_handed_over_witness:
  "\<exists>v key. v = fold (serverStep lanIO lanConfig) [Ticked minute] (serverLoop lanIO lanConfig lanEvents (newAdapter ''id'' noDisk)) \<and>
    fst (raWorld (svAdapter v)) ''/out/psk'' = Some (enKeyString lanEnv key @ [CHR 0x0a]) \<and> enHash lanEnv key = rrHash (raStatus lanAnnounced)"
proof -
  define v1 where "v1 = serverLoop lanIO lanConfig lanEvents (newAdapter ''id'' noDisk)"
  have v1: "v1 = \<lparr>svAdapter = lanAnnounced, svSlots = 0, svOpen = True, svTicking = True, svResult = None\<rparr>" by (simp add: v1_def lanRun)
  then have same: "v1\<lparr>svAdapter := lanAnnounced\<rparr> = v1" and ask: "handleConnection lanIO lanConfig daemonConn second (svAdapter v1) = (Some (raStatus lanAnnounced), lanAnnounced)"
    by (simp_all add: lanAnswer)
  have again: "handleConnection lanIO lanConfig daemonConn minute
      (svAdapter (fold (serverStep lanIO lanConfig) [Output 1 keyLine minute] (fold (serverStep lanIO lanConfig) [Ticked minute] (v1\<lparr>svAdapter := lanAnnounced\<rparr>)))) =
      (Some (raStatus lanAnnounced), lanAnnounced)"
    unfolding same by (simp add: v1 lanTicked lanRepeated[unfolded One_nat_def] lanAnswer)
  have valid: "rrValid (raStatus lanAnnounced)" by (simp add: lanAnnounced_def)
  have "length [Ticked minute] + length [Output 1 keyLine minute] < (2 :: nat) ^ 64" by simp
  from key_handed_over[where files = fst and w = noDisk, OF lanIO_exclusive noOutput v1_def ask valid refl refl again valid refl this]
  show ?thesis unfolding same v1_def[symmetric] lanIO_simps by blast
qed

text \<open>
  A child whose output is lost and that does not end when it is killed: the adapter records it,
  and a daemon that asks again later is not answered.
\<close>

definition stuckIO :: "(bytes, bytes, nat, disk) adapterIO" where
  "stuckIO = lanIO\<lparr>apKill := \<lambda>_ w. w\<rparr>"

lemma stuckIO_exclusive: "exclusive stuckIO (rpPSKFile lanConfig) fst"
  by (simp add: exclusive_def stuckIO_def lanConfig_def lanIO_def lanNetlink_def lanEnv_def keeps_def diskRemove_def diskLstat_def)

lemma stuckIO_children: "childProcesses stuckIO snd"
  by (auto simp: childProcesses_def stuckIO_def lanIO_def lanNetlink_def lanEnv_def lessens_def diskRemove_def diskLstat_def)

lemma stuckIO_simps [simp]:
  "apEnv stuckIO = lanEnv" "apRemove stuckIO = diskRemove" "apMkdirTemp stuckIO d p w = (Inr ''/run/child-1'', w)"
  "apWriteEmpty stuckIO f w = (Inr (), w)" "apExec stuckIO e args d w = (Inr 1, fst w, insert (Process 1) (insert (ChildDir d) (snd w)))"
  "apDone stuckIO i w = (Process i \<notin> snd w, w)" "apWait stuckIO i w = (Process i \<notin> snd w, w)" "apKill stuckIO i w = w"
  "apDecodeRequest stuckIO b = Some (lanRequest, True)"
  by (simp_all add: stuckIO_def)

lemma stuckValid: "validateRosenpassRequest stuckIO lanRequest w = (Inr lanRequest, w)"
  by (simp add: validateRosenpassRequest_def stuckIO_def lanIO_def lanPrefixes lanOnLink run_eff)

lemma stuckServed: "handleConnection stuckIO lanConfig daemonConn 0 (newAdapter ''id'' noDisk) = (Some (raStatus lanStarted), lanStarted)"
  by (simp add: handleConnection_def daemonConn_def rosenpassAuthorized_def readRosenpassJSON_def readLine_def rosenpassRPCSize_def
      run_adapter stuckValid newAdapter_def zeroResponse_def lanStarted_def joinPath_def childRemnants_def)

definition stuckServer :: "disk rosenpassServer" where
  "stuckServer = serverLoop stuckIO lanConfig [Accepted, Served daemonConn 0, Ended 1] (newAdapter ''id'' noDisk)"

lemma stuckLeft: "snd (raWorld (svAdapter stuckServer)) = childRemnants" "raChild (svAdapter stuckServer) = None"
  by (simp_all add: stuckServer_def serverLoop_def stuckServed childEnded_def isCurrent_def run_adapter throwE_def stopChild_def setErr_def lanStarted_def)

theorem failed_adapter_stays_down_witness:
  "Process 1 \<in> snd (raWorld (svAdapter stuckServer)) \<and> raErr (svAdapter stuckServer) \<noteq> None \<and>
    fst (handleConnection stuckIO lanConfig daemonConn minute
      (svAdapter (fold (serverStep stuckIO lanConfig) [Accepted, Served daemonConn second, Ticked second] stuckServer))) = None"
proof -
  have "\<not> snd (raWorld (svAdapter stuckServer)) \<subseteq> remnantsOf (raChild (svAdapter stuckServer))"
    unfolding stuckLeft remnantsOf_def by (simp add: childRemnants_def)
  then have left: "\<not> snd (raWorld (svAdapter stuckServer)) \<subseteq> remnantsOf (raChild (svAdapter stuckServer)) \<or>
      \<not> rrValid (raStatus (svAdapter stuckServer)) \<and> fst (raWorld (svAdapter stuckServer)) (rpPSKFile lanConfig) \<noteq> None" by blast
  have "Process 1 \<in> snd (raWorld (svAdapter stuckServer))" unfolding stuckLeft by (rule childRunning)
  moreover have "snd noDisk = {}" by simp
  ultimately show ?thesis
    using failed_adapter_stays_down[where remaining = snd and files = fst and w = noDisk, OF stuckIO_exclusive stuckIO_children noOutput _ stuckServer_def left refl] by blast
qed

text \<open>A client is being served when accepting fails for want of descriptors: the ticker has to be told before the workers are waited for.\<close>

lemmas serving_setup = startServer_def admitConnection_def ending_def

theorem server_returns_witness:
  "\<exists>s. serverRun lanIO lanConfig (startServer lanStarted) s \<and> ending s \<and> ssServing s = 1 \<and> ssTicker s = Ticking \<and> \<not> ssCancelled s \<and>
    (\<nexists>run. run 0 = s \<and> (\<forall>i. windsDown lanIO lanConfig (run i) (run (Suc i))))"
proof -
  define s1 where "s1 = (startServer lanStarted)\<lparr>ssMain := Admitting\<rparr>"
  define s3 where "s3 = (admitConnection s1)\<lparr>ssMain := AcceptFails, ssResult := Some (Msg ''too many open files'')\<rparr>"
  have "serverRun lanIO lanConfig (startServer lanStarted) s1" unfolding s1_def by (rule server_moves[OF server_here client_connects]) (simp_all add: serving_setup)
  then have "serverRun lanIO lanConfig (startServer lanStarted) (admitConnection s1)" by (rule server_moves[OF _ admits]) (simp add: s1_def)
  then have run: "serverRun lanIO lanConfig (startServer lanStarted) s3" unfolding s3_def by (rule server_moves[OF _ accept_errs]) (simp_all add: s1_def serving_setup)
  have s3: "ending s3" "ssServing s3 = 1" "ssTicker s3 = Ticking" "\<not> ssCancelled s3" by (simp_all add: s3_def s1_def serving_setup)
  from server_returns[OF run s3(1)] have "\<nexists>r. r 0 = s3 \<and> (\<forall>i. windsDown lanIO lanConfig (r i) (r (Suc i)))" by (rule conjunct1)
  with run s3 show ?thesis by blast
qed

theorem trusted_directories_witness:
  "rosenpassTrustedDir lanIO ''/run'' True noDisk = Some (Inr (), noDisk) \<and>
    (\<exists>v info. fst (apLstat lanIO ''/'' v) = Inr info \<and> bit (fsMode info) 31 \<and> fsUid info \<in> {0, 1000})"
proof -
  have run: "rosenpassTrustedDir lanIO ''/run'' True noDisk = Some (Inr (), noDisk)"
    by (simp add: rosenpassTrustedDir_def trustedDirs.simps diskLstat_def untrusted_def lanStatus_def lanEnv_def permBits_def dirOf_def Let_def
        bit_iff_odd_drop_bit drop_bit_eq_div)
  have "isAbs ''/run''" "''/'' \<in> ancestors ''/run''" by (simp_all add: isAbs_def ancestors_def)
  from trusted_directories[OF this(1) run this(2)] run show ?thesis by (auto simp: lanEnv_def)
qed

end
