(* ===== verification/Lease.thy ===== *)
theory Lease
  imports MeshInv ControlSafety
begin

text \<open>
  The lease of a direct path: what the timer lets live, what it promotes and what it
  takes back.  Nothing is assumed about the environment: the facts below only use
  what each operation does to the peer it serves.
\<close>

section \<open>Operations that leave the peer alone\<close>

lemma keeps_case_sum [keep]: "(\<And>a. keeps f (m a)) \<Longrightarrow> (\<And>b. keeps f (n b)) \<Longrightarrow> keeps f (case x of Inl a \<Rightarrow> m a | Inr b \<Rightarrow> n b)"
  by (cases x) auto

lemma keeps_case_option [keep]: "keeps f m \<Longrightarrow> (\<And>a. keeps f (n a)) \<Longrightarrow> keeps f (case x of None \<Rightarrow> m | Some a \<Rightarrow> n a)"
  by (cases x) auto

lemma keeps_if [keep]: "keeps f m \<Longrightarrow> keeps f n \<Longrightarrow> keeps f (if b then m else n)"
  by simp

lemma world_keeps [keep]: "keeps cxPeer (worldE m)"
  by (simp add: keeps_def worldE_def split: prod.split)

lemma crypto_keeps [keep]: "keeps cxPeer (cryptoE m)"
  by (simp add: keeps_def cryptoE_def split: prod.split)

lemma panic_keeps [keep]: "keeps cxPeer panicE"
  by (simp add: keeps_def panicE_def)

lemma draw_keeps [keep]: "keeps cxPeer (drawE f)"
  unfolding drawE_def by (rule keep)

lemma clock_keeps [keep]: "keeps cxPeer (clock env)" "keeps cxPeer (randText env)"
  unfolding clock_def randText_def by (rule keep)+

lemma elapsed_keeps [keep]: "keeps cxPeer (elapsed env now t)"
  unfolding elapsed_def by (intro keep)

lemma send_keeps [keep]: "keeps cxPeer (sendMessage env i msg addr link now)"
  unfolding sendMessage_def by (intro keep)

lemma command_keeps [keep]: "keeps cxPeer (pathCommand env c token op now)" "keeps cxPeer (command env op now)"
  unfolding command_def pathCommand_def by (intro keep)+

lemma rekeyCommand_keeps [keep]: "keeps cxPeer (rekeyCommand env r op now)"
  unfolding rekeyCommand_def by (intro keep)

lemma verify_keeps [keep]: "keeps cxPeer (verifyE env)"
  unfolding verifyE_def by (intro keep)

lemma apply_keeps [keep]: "keeps cxPeer (controlApply env c)"
  unfolding controlApply_def by (intro keep)

text \<open>The rule for such an operation inside a longer one.\<close>

lemma keeps_rule:
  assumes "keeps f m" and "\<And>a s'. f s' = f s \<Longrightarrow> Q a s'" and "\<And>e s'. f s' = f s \<Longrightarrow> E e s'"
  shows "wpE m Q E s"
  using assms(1) assms(2)[of "snd (m s)"] assms(3)[of "snd (m s)"]
  by (cases "fst (m s)") (simp_all add: keeps_def wpE_def split: prod.split sum.split, simp_all add: prod_eq_iff)

section \<open>Reading the key\<close>

abbreviation idle :: "('k, 'r, 'w) serving \<Rightarrow> bool" where
  "idle s \<equiv> rsPhase (mpRoute (cxPeer s)) = PNone"

definition rounds :: "('k, 'r, 'w) serving \<Rightarrow> routeState \<times> routeState option \<times> peerSpec \<times> routeProposal option" where
  "rounds s = (mpRoute (cxPeer s), mpPrevious (cxPeer s), mpSpec (cxPeer s), mpReplacement (cxPeer s))"

lemma modPeer_rounds: "(\<And>p. mpRoute (g p) = mpRoute p \<and> mpPrevious (g p) = mpPrevious p \<and> mpSpec (g p) = mpSpec p \<and> mpReplacement (g p) = mpReplacement p) \<Longrightarrow>
    keeps rounds (modPeer g)"
  by (simp add: keeps_def modPeer_def modifyE_def rounds_def)

lemma peer_rounds: "keeps cxPeer m \<Longrightarrow> keeps rounds m"
  unfolding rounds_def by (rule keeps_sub)

lemma readPSKFile_keeps [keep]: "keeps cxPeer (readPSKFile env now)"
  unfolding readPSKFile_def by (intro keep)

lemma askAdapter_keeps [keep]: "keeps cxPeer (askAdapter env r expected now t)"
  unfolding askAdapter_def by (intro keep)

lemma confirmKey_keeps [keep]: "keeps cxPeer (confirmKey env r now t)"
  unfolding confirmKey_def by (intro keep)

lemma selectEndpoint_keeps [keep]: "keeps cxPeer (selectEndpoint env c now)"
  unfolding selectEndpoint_def by (intro keep)

lemma chooseEndpoint_rounds: "keeps rounds (chooseEndpoint env now)"
  unfolding chooseEndpoint_def case_prod_unfold
  by (intro keep modPeer_rounds peer_rounds[OF clock_keeps(2)]) simp_all

lemma readPeerPSK_rounds: "keeps rounds (readPeerPSK env now)"
  unfolding readPeerPSK_def by (intro keep chooseEndpoint_rounds) (intro peer_rounds keep)+

text \<open>Restoring ends with no direct path.\<close>

definition stable :: "('k, 'r, 'w) serving \<Rightarrow> bool" where
  "stable s \<longleftrightarrow> idle s \<and> rsSelected (mpRoute (cxPeer s)) = None \<and> mpReplacement (cxPeer s) = None"

lemma cancelReplacement_wp: "wpE (cancelReplacement env now) (\<lambda>_ s'. cxPeer s' = cancelledPeer (enConfig env) now (cxPeer s)) (\<lambda>_ _. True) s"
  by (auto simp: cancelReplacement_def cancelledPeer_def wp intro!: keeps_rule[OF command_keeps(1)] split: option.split)

lemma restore_stable: "wpE (meshRestore env now) (\<lambda>_. stable) (\<lambda>_ _. True) s"
  unfolding meshRestore_def wpE_thenE[of "cancelReplacement _ _"]
  by (rule wpE_mono[OF cancelReplacement_wp])
    (auto simp: wp stablePeer_def stable_def intro!: keeps_rule[OF command_keeps(2)] keeps_rule[OF world_keeps])

lemma restore_idle: "wpE (meshRestore env now) (\<lambda>_. idle) (\<lambda>_ _. True) s"
  by (rule wpE_mono[OF restore_stable]) (simp_all add: stable_def)

lemma adoptKey_idle: "wpE (adoptKey env now key valid status) (\<lambda>_ s'. idle s' \<and> (idle s \<and> mpReplacement (cxPeer s') = mpReplacement (cxPeer s) \<or> stable s')) (\<lambda>_ _. True) s"
  by (auto simp: adoptKey_def wp stable_def intro!: wpE_mono[OF restore_stable])

text \<open>
  After the key was read the peer is idle (and restored, unless it was idle before), or its route and key are as before and the key can be
  used; then a pending replacement is as before or cancelled, and the saved route is as before
  too, unless the route was active.
\<close>

definition polled :: "('k, 'r, 'w) serving \<Rightarrow> bool \<Rightarrow> ('k, 'r, 'w) serving \<Rightarrow> bool" where
  "polled s ok s' \<longleftrightarrow> idle s' \<and> (idle s \<and> mpReplacement (cxPeer s') = mpReplacement (cxPeer s) \<or> stable s') \<or> ok \<and> mpRoute (cxPeer s') = mpRoute (cxPeer s) \<and> mpSpec (cxPeer s') = mpSpec (cxPeer s) \<and>
     (mpPrevious (cxPeer s') = mpPrevious (cxPeer s) \<or> rsPhase (mpRoute (cxPeer s)) = PActive) \<and>
     (mpReplacement (cxPeer s') = mpReplacement (cxPeer s) \<or> mpReplacement (cxPeer s') = None)"

lemma startRekey_wp: "wpE (startRekey env now key) (\<lambda>_ s'. mpRoute (cxPeer s') = mpRoute (cxPeer s) \<and> mpSpec (cxPeer s') = mpSpec (cxPeer s) \<and>
    (mpReplacement (cxPeer s') = mpReplacement (cxPeer s) \<or> mpReplacement (cxPeer s') = None)) (\<lambda>_ _. True) s"
  by (auto simp: startRekey_def wp intro!: wpE_mono[OF cancelReplacement_wp] keeps_rule[OF clock_keeps(2)] split: option.split)

lemma pollFile_polled: "wpE (pollFile env now res) (polled s) (\<lambda>_ _. True) s"
proof -
  have adopt: "wpE (adoptKey env now key valid status) (polled s) (\<lambda>_ _. True) t"
    if "mpRoute (cxPeer t) = mpRoute (cxPeer s)" "idle s \<longrightarrow> mpReplacement (cxPeer t) = mpReplacement (cxPeer s)" for key valid status t
    by (rule wpE_mono[OF adoptKey_idle]) (use that in \<open>auto simp: polled_def\<close>)
  show ?thesis
    unfolding pollFile_def Let_def
    by (auto simp: wp polled_def[abs_def, symmetric] intro!: wpE_mono[OF startRekey_wp] adopt split: option.split)
      (auto simp: polled_def)
qed

lemma polled_same: "rounds t = rounds s \<Longrightarrow> polled t = polled s"
  by (simp add: polled_def rounds_def fun_eq_iff)

lemma pollPSK_polled: "wpE (pollPSK env now) (polled s) (\<lambda>_ _. True) s"
proof -
  have "wpE (pollFile env t res) (polled s) (\<lambda>_ _. True) s'" if "rounds s' = rounds s" for s' t res
    using pollFile_polled[of env t res s'] polled_same[OF that] by simp
  then show ?thesis
    unfolding pollPSK_def wpE_bindE
    by (intro keeps_rule[OF clock_keeps(1)])
      (auto simp: wp polled_def rounds_def intro!: keeps_rule[OF readPeerPSK_rounds] keeps_rule[OF elapsed_keeps])
qed

section \<open>Rolling back\<close>

text \<open>A time the daemon computes while it handles an event that arrived at \<open>now\<close>: by the clock since a first reading.\<close>

definition readTime :: "('k, 'h, 'r, 'w) meshEnv \<Rightarrow> time \<Rightarrow> time \<Rightarrow> bool" where
  "readTime env now t \<longleftrightarrow> (\<exists>w0 w1. t = now + timeSub (fst (enNow env w1)) (fst (enNow env w0)))"

text \<open>The saved route is in place again, and its path was alive when it was put back.\<close>

definition resumedRoute :: "('k, 'h, 'r, 'w) meshEnv \<Rightarrow> time \<Rightarrow> meshPeer \<Rightarrow> meshPeer \<Rightarrow> bool" where
  "resumedRoute env now p p' \<longleftrightarrow> (\<exists>old i t checked. mpPrevious p = Some old \<and> mpRoute p' = old\<lparr>rsResumed := t\<rparr> \<and> readTime env now t \<and>
     rsSelected old = Some i \<and> readTime env now checked \<and> freshPath (enConfig env) (pathAt p' i) checked)"

lemma clock_reads:
  assumes "\<And>w s'. cxPeer s' = cxPeer s \<Longrightarrow> Q (fst (enNow env w)) s'"
  shows "wpE (clock env) Q E s"
  using assms by (simp add: wpE_def clock_def drawE_def worldE_def split: prod.split) (metis fst_conv serving.select_convs(1) serving.surjective serving.update_convs(6))

lemma elapsed_reads:
  assumes "\<And>w s'. cxPeer s' = cxPeer s \<Longrightarrow> Q (now + timeSub (fst (enNow env w)) t0) s'"
  shows "wpE (elapsed env now t0) Q E s"
  unfolding elapsed_def wpE_bindE by (rule clock_reads) (simp add: wpE_returnE assms)

lemma resumedI:
  "mpPrevious p = Some old \<Longrightarrow> rsSelected old = Some i \<Longrightarrow> freshPath (enConfig env) (pathAt p' i) checked \<Longrightarrow> readTime env now checked \<Longrightarrow>
    readTime env now t \<Longrightarrow> mpRoute p' = old\<lparr>rsResumed := t\<rparr> \<Longrightarrow> resumedRoute env now p p'"
  unfolding resumedRoute_def by blast

lemma rollbackTo_resumes:
  "wpE (rollbackTo env now (fst (enNow env w0)) old)
    (\<lambda>_ s'. idle s' \<or> (mpPrevious p = Some old \<longrightarrow> resumedRoute env now p (cxPeer s'))) (\<lambda>_ _. True) s"
  unfolding rollbackTo_def wpE_bindE[of "elapsed _ _ _"]
proof (rule elapsed_reads, goal_cases)
  case (1 w1 s1)
  have checked: "readTime env now (now + timeSub (fst (enNow env w)) (fst (enNow env w0)))" for w by (auto simp: readTime_def)
  have resumes: "resumedRoute env now p p'" if "mpPrevious p = Some old" "rsSelected old = Some i" "mpHeap p' = mpHeap (cxPeer s1)"
      "freshPath (enConfig env) (pathAt (cxPeer s1) i) (now + timeSub (fst (enNow env w1)) (fst (enNow env w0)))"
      "\<exists>w. mpRoute p' = old\<lparr>rsResumed := now + timeSub (fst (enNow env w)) (fst (enNow env w0))\<rparr>" for p' i
  proof -
    from that(5) obtain w where "mpRoute p' = old\<lparr>rsResumed := now + timeSub (fst (enNow env w)) (fst (enNow env w0))\<rparr>" by blast
    from resumedI[OF that(1,2) _ checked checked this] that(3,4) show ?thesis by (simp add: pathAt_def)
  qed
  show ?case
    by (auto simp: wp resumePrevious_def intro!: wpE_mono[OF restore_idle] keeps_rule[OF apply_keeps] elapsed_reads
      keeps_rule[OF command_keeps(2)] resumes split: option.split) blast+
qed

lemma rollback_ends:
  assumes "mpPrevious (cxPeer s) \<noteq> None \<longrightarrow> rsPhase (mpRoute (cxPeer s)) = PTrial"
  shows "wpE (meshRollback env now) (\<lambda>_ s'. idle s' \<or> resumedRoute env now (cxPeer s) (cxPeer s')) (\<lambda>_ _. True) s"
proof (cases "mpPrevious (cxPeer s)")
  case None
  then show ?thesis by (auto simp: meshRollback_def wp intro!: wpE_mono[OF restore_idle])
next
  case (Some old)
  with assms have trial: "rsPhase (mpRoute (cxPeer s)) = PTrial" by simp
  have go: "wpE (rollbackTo env now (fst (enNow env w0)) old) (\<lambda>_ s'. idle s' \<or> resumedRoute env now (cxPeer s) (cxPeer s')) (\<lambda>_ _. True) t" for t w0
    by (rule wpE_mono[OF rollbackTo_resumes[where p = "cxPeer s"]]) (auto simp: Some)
  have poll: "wpE (pollPSK env t) (\<lambda>ok. wpE (bindE (getsE (\<lambda>s. mpPrevious (cxPeer s))) (\<lambda>prev'.
        if \<not> ok \<or> prev' \<noteq> Some old then returnE () else rollbackTo env now (fst (enNow env w0)) old))
      (\<lambda>_ s'. idle s' \<or> resumedRoute env now (cxPeer s) (cxPeer s')) (\<lambda>_ _. True)) (\<lambda>_ _. True) u" if "cxPeer u = cxPeer s" for t w0 u
    by (rule wpE_mono[OF pollPSK_polled]) (auto simp: wp that polled_def Some trial intro!: go)
  show ?thesis
    unfolding meshRollback_def wpE_bindE[of "getsE _"] wpE_getsE Some option.case wpE_bindE[of "clock _"] wpE_thenE wpE_bindE[of "elapsed _ _ _"]
      wpE_bindE[of "pollPSK _ _"]
    by (intro clock_reads keeps_rule[OF verify_keeps] keeps_rule[OF elapsed_keeps])
      (rule poll[unfolded wpE_bindE[of "getsE _"] wpE_getsE] TrueI | simp)+
qed

section \<open>The timer\<close>

text \<open>What a trial must show to become the active route.\<close>

definition earned :: "config \<Rightarrow> time \<Rightarrow> routeState \<Rightarrow> bool" where
  "earned c now r \<longleftrightarrow> (\<exists>rtt. median (rsTunnel r) now c = Some rtt \<and> improves rtt (rsBaseline r) c) \<and>
     rsRemoteGood r \<and> timeSub now (rsRemoteAt r) < cfFailure c \<and> rsCommitted r"

text \<open>The route of a live path after the timer: as before but for the phase and the own verdict.\<close>

definition continued :: "config \<Rightarrow> time \<Rightarrow> routeState \<Rightarrow> routeState \<Rightarrow> bool" where
  "continued c now r r' \<longleftrightarrow> r' = r\<lparr>rsPhase := rsPhase r', rsLocalGood := rsLocalGood r'\<rparr> \<and>
     (rsPhase r = PActive \<longrightarrow> r' = r) \<and>
     (rsPhase r = PTrial \<longrightarrow> timeSub now (rsSince r) \<le> 2 * minute \<and> rsPhase r' \<in> {PTrial, PActive} \<and> (rsPhase r' = PActive \<longrightarrow> earned c now r))"

lemma judge_wp:
  assumes "mpPrevious (cxPeer s) \<noteq> None \<longrightarrow> rsPhase (mpRoute (cxPeer s)) = PTrial"
  shows "wpE (judgeTrial env now) (\<lambda>go s'. if go then mpPrevious (cxPeer s') = mpPrevious (cxPeer s) \<and>
       mpRoute (cxPeer s') = (mpRoute (cxPeer s))\<lparr>rsLocalGood := rsLocalGood (mpRoute (cxPeer s'))\<rparr> \<and>
       (rsLocalGood (mpRoute (cxPeer s')) \<longrightarrow> (\<exists>rtt. median (rsTunnel (mpRoute (cxPeer s))) now (enConfig env) = Some rtt \<and>
          improves rtt (rsBaseline (mpRoute (cxPeer s))) (enConfig env)))
     else idle s' \<or> resumedRoute env now (cxPeer s) (cxPeer s')) (\<lambda>_ _. True) s"
  using rollback_ends[of "s\<lparr>cxPeer := (cxPeer s)\<lparr>mpRoute := (mpRoute (cxPeer s))\<lparr>rsLocalGood := False\<rparr>\<rparr>\<rparr>" env now] assms
  by (auto simp: judgeTrial_def leaveRound_def wp resumedRoute_def elim!: wpE_mono split: option.split)

lemma settle_wp:
  assumes "mpPrevious (cxPeer s) \<noteq> None \<longrightarrow> rsPhase (mpRoute (cxPeer s)) = PTrial" and "rsPhase (mpRoute (cxPeer s)) = PTrial"
  shows "wpE (settleTrial env now) (\<lambda>go s'. if go then timeSub now (rsSince (mpRoute (cxPeer s))) \<le> 2 * minute \<and>
       (\<exists>ph. mpRoute (cxPeer s') = (mpRoute (cxPeer s))\<lparr>rsPhase := ph\<rparr> \<and> ph \<in> {PTrial, PActive} \<and>
         (ph = PActive \<longrightarrow> rsLocalGood (mpRoute (cxPeer s)) \<and> rsRemoteGood (mpRoute (cxPeer s)) \<and>
            timeSub now (rsRemoteAt (mpRoute (cxPeer s))) < cfFailure (enConfig env) \<and> rsCommitted (mpRoute (cxPeer s))))
     else idle s' \<or> resumedRoute env now (cxPeer s) (cxPeer s')) (\<lambda>_ _. True) s"
  using rollback_ends[OF assms(1), of env now] assms(2)
  by (auto simp: settleTrial_def leaveRound_def wp promotePeer_def elim!: wpE_mono intro: exI[of _ PTrial])

definition advanced :: "('k, 'h, 'r, 'w) meshEnv \<Rightarrow> time \<Rightarrow> meshPeer \<Rightarrow> bool \<Rightarrow> ('k, 'r, 'w) serving \<Rightarrow> bool" where
  "advanced env now p go s' \<longleftrightarrow> (if go then continued (enConfig env) now (mpRoute p) (mpRoute (cxPeer s')) else idle s' \<or> resumedRoute env now p (cxPeer s'))"

lemma advanceTrial_wp:
  assumes "rsPhase (mpRoute (cxPeer s)) = PTrial"
  shows "wpE (advanceTrial env now) (advanced env now (cxPeer s)) (\<lambda>_ _. True) s"
proof -
  have settle: "wpE (settleTrial env now) (advanced env now (cxPeer s)) (\<lambda>_ _. True) t"
    if prev: "mpPrevious (cxPeer t) = mpPrevious (cxPeer s)" and verdict: "mpRoute (cxPeer t) = (mpRoute (cxPeer s))\<lparr>rsLocalGood := rsLocalGood (mpRoute (cxPeer t))\<rparr>"
      and shown: "rsLocalGood (mpRoute (cxPeer t)) \<longrightarrow> (\<exists>rtt. median (rsTunnel (mpRoute (cxPeer s))) now (enConfig env) = Some rtt \<and>
          improves rtt (rsBaseline (mpRoute (cxPeer s))) (enConfig env))" for t
  proof -
    obtain g where route: "mpRoute (cxPeer t) = (mpRoute (cxPeer s))\<lparr>rsLocalGood := g\<rparr>" using verdict by blast
    with shown have good: "g \<longrightarrow> (\<exists>rtt. median (rsTunnel (mpRoute (cxPeer s))) now (enConfig env) = Some rtt \<and>
        improves rtt (rsBaseline (mpRoute (cxPeer s))) (enConfig env))" by simp
    show ?thesis
      by (rule wpE_mono[OF settle_wp]) (use prev route good assms in \<open>auto simp: advanced_def continued_def earned_def resumedRoute_def split: if_splits\<close>)
  qed
  show ?thesis
    unfolding advanceTrial_def wpE_bindE
  proof (rule wpE_mono[OF judge_wp], goal_cases)
    case (2 go t)
    then show ?case by (cases go) (simp_all add: wpE_returnE settle, simp add: advanced_def)
  qed (use assms in simp_all)
qed

lemma advanceLive_wp:
  assumes "mpPrevious (cxPeer s) \<noteq> None \<longrightarrow> rsPhase (mpRoute (cxPeer s)) = PTrial" and "rsPhase (mpRoute (cxPeer s)) \<in> {PTrial, PActive}"
  shows "wpE (advanceLive env now) (\<lambda>go s'. advanced env now (cxPeer s) go s' \<and>
     (go \<longrightarrow> timeSub now (lastAlive (mpRoute (cxPeer s))) < cfFailure (enConfig env))) (\<lambda>_ _. True) s"
proof -
  have tell: "wpE (bindE (getsE (\<lambda>s. rsLocalGood (mpRoute (cxPeer s)))) (\<lambda>good.
      thenE (command env (if good then ''keep'' else ''hold'') now) (returnE True))) (advanced env now (cxPeer s)) (\<lambda>_ _. True) t"
    if "advanced env now (cxPeer s) True t" for t
    using that by (auto simp: wp advanced_def intro!: keeps_rule[OF command_keeps(2)])
  have trial: "wpE (if rsPhase (mpRoute (cxPeer s)) = PTrial then advanceTrial env now else returnE True) (advanced env now (cxPeer s)) (\<lambda>_ _. True) t"
    if "cxPeer t = cxPeer s" for t
    using advanceTrial_wp[of t env now] that assms(2) by (auto simp: wp advanced_def continued_def)
  have live: "wpE (bindE (if rsPhase (mpRoute (cxPeer s)) = PTrial then advanceTrial env now else returnE True) (\<lambda>go. if \<not> go then returnE False
      else bindE (getsE (\<lambda>s. rsLocalGood (mpRoute (cxPeer s)))) (\<lambda>good. thenE (command env (if good then ''keep'' else ''hold'') now) (returnE True))))
      (advanced env now (cxPeer s)) (\<lambda>_ _. True) t" if "cxPeer t = cxPeer s" for t
    unfolding wpE_bindE[of "if _ then _ else _"]
  proof (rule wpE_mono[OF trial[OF that]], goal_cases)
    case (1 go u)
    then show ?case by (cases go) (simp_all add: wpE_returnE tell)
  qed simp
  show ?thesis
  proof (cases "timeSub now (lastAlive (mpRoute (cxPeer s))) \<ge> cfFailure (enConfig env)")
    case True
    with rollback_ends[OF assms(1), of env now] show ?thesis
      by (auto simp: advanceLive_def leaveRound_def wp advanced_def elim!: wpE_mono)
  next
    case False
    have kept: "keeps cxPeer (if b then command env ''commit'' now else returnE ())" for b by (intro keep)
    have "wpE (advanceLive env now) (advanced env now (cxPeer s)) (\<lambda>_ _. True) s"
      unfolding advanceLive_def wpE_bindE[of "getsE cxPeer"] wpE_getsE if_not_P[OF False] wpE_thenE
      by (rule keeps_rule[OF kept]) (simp_all add: live)
    with False show ?thesis by (auto elim!: wpE_mono)
  qed
qed

text \<open>A key change in progress: only the exchange of the new key is timed until the key is in use, then the tunnel too.\<close>

definition heardAt :: "time \<Rightarrow> routeState \<Rightarrow> routeState \<Rightarrow> bool" where
  "heardAt now r r' \<longleftrightarrow> r' \<in> {r, r\<lparr>rsRemoteAt := now\<rparr>}"

lemma heardAtI: "heardAt now r r" "heardAt now r (r\<lparr>rsRemoteAt := now\<rparr>)"
  by (simp_all add: heardAt_def)

definition rekeyLive :: "config \<Rightarrow> time \<Rightarrow> routeState \<Rightarrow> pskTransition \<Rightarrow> routeState \<Rightarrow> bool" where
  "rekeyLive c now r k r' \<longleftrightarrow> (if rkPhase k = RObserving
     then timeSub now (rkAppliedAt k) < rekeyObservationTimeout \<and> timeSub now (rsLastTunnel r) < cfFailure c \<and> heardAt now r r'
     else timeSub now (rkSince k) < cfFailure c \<and> r' = r)"

lemma observeRekey_wp: "wpE (observeRekey env now k) (\<lambda>_ s'. heardAt now (mpRoute (cxPeer s)) (mpRoute (cxPeer s'))) (\<lambda>_ _. True) s"
  unfolding observeRekey_def finishRekey_def
  by (cases "enRekey env") (simp_all add: wp keeps_rule[OF world_keeps] keeps_rule[OF rekeyCommand_keeps] heardAtI)

lemma advanceRekey_wp:
  "wpE (advanceRekey env now k) (\<lambda>_ s'. idle s' \<or> rekeyLive (enConfig env) now (mpRoute (cxPeer s)) k (mpRoute (cxPeer s'))) (\<lambda>_ _. True) s"
proof (cases "rkPhase k = RObserving")
  case True
  have "wpE (observeRekey env now k) (\<lambda>_ s'. idle s' \<or> heardAt now (mpRoute (cxPeer s)) (mpRoute (cxPeer s'))) (\<lambda>_ _. True) t"
    if "cxPeer t = cxPeer s" for t
    by (rule wpE_mono[OF observeRekey_wp]) (simp_all add: that)
  with True show ?thesis
    by (auto simp: advanceRekey_def wp rekeyLive_def not_le intro!: wpE_mono[OF restore_idle] keeps_rule[OF rekeyCommand_keeps])
next
  case False
  then show ?thesis
    by (auto simp: advanceRekey_def wp rekeyLive_def not_le intro!: wpE_mono[OF restore_idle] keeps_rule[OF rekeyCommand_keeps])
qed

text \<open>What is alive after a tick of the timer for a peer with a direct path.\<close>

definition alive :: "config \<Rightarrow> time \<Rightarrow> meshPeer \<Rightarrow> meshPeer \<Rightarrow> bool" where
  "alive c now p p' \<longleftrightarrow> (\<exists>i. rsSelected (mpRoute p) = Some i \<and> freshPath c (pathAt p i) now) \<and>
     (case mpRekey p of
        None \<Rightarrow> continued c now (mpRoute p) (mpRoute p') \<and> timeSub now (lastAlive (mpRoute p)) < cfFailure c
      | Some k \<Rightarrow> rekeyLive c now (mpRoute p) k (mpRoute p'))"

lemma meshAdvance_wp:
  assumes "mpPrevious (cxPeer s) \<noteq> None \<longrightarrow> rsPhase (mpRoute (cxPeer s)) = PTrial" and "rsPhase (mpRoute (cxPeer s)) \<in> {PTrial, PActive}"
  shows "wpE (meshAdvance env now) (\<lambda>_ s'. idle s' \<or> resumedRoute env now (cxPeer s) (cxPeer s') \<or> alive (enConfig env) now (cxPeer s) (cxPeer s')) (\<lambda>_ _. True) s"
proof (cases "rsSelected (mpRoute (cxPeer s))")
  case None
  then show ?thesis by (simp add: meshAdvance_def wp)
next
  case (Some i)
  have rep: "wpE (advanceReplacement env now) (\<lambda>_ s'. mpRoute (cxPeer s') = mpRoute (cxPeer t) \<and> mpHeap (cxPeer s') = mpHeap (cxPeer t)) (\<lambda>_ _. True) t" for t
    by (auto simp: advanceReplacement_def wp intro!: wpE_mono[OF cancelReplacement_wp] keeps_rule[OF command_keeps(1)] split: option.split)
  have phase: "advancePhase env now s = advanceLive env now s"
    using assms(2) by (auto simp: advancePhase_def bindE_def getsE_def)
  show ?thesis
  proof (cases "freshPath (enConfig env) (pathAt (cxPeer s) i) now")
    case False
    with rollback_ends[OF assms(1), of env now] Some show ?thesis
      by (auto simp: meshAdvance_def wp elim!: wpE_mono)
  next
    case True
    show ?thesis
    proof (cases "mpRekey (cxPeer s)")
      case None
      have "wpE (advancePhase env now) (\<lambda>go s'. advanced env now (cxPeer s) go s' \<and>
         (go \<longrightarrow> timeSub now (lastAlive (mpRoute (cxPeer s))) < cfFailure (enConfig env))) (\<lambda>_ _. True) s"
        using advanceLive_wp[OF assms, of env now] by (simp add: wpE_def phase)
      then show ?thesis using Some True None
        by (auto simp: meshAdvance_def wp advanced_def alive_def elim!: wpE_mono intro!: wpE_mono[OF rep] split: if_splits)
    next
      case (Some k)
      then show ?thesis using \<open>rsSelected (mpRoute (cxPeer s)) = Some i\<close> True
        by (auto simp: meshAdvance_def wp alive_def intro!: wpE_mono[OF advanceRekey_wp])
    qed
  qed
qed

text \<open>
  C9: A direct path lives on a lease.  When the timer has handled a peer with a path on trial or
  active, a path is left only if the timer found it alive.  Either the selected LAN path answered
  within the failure timeout before now; then, with no key change in progress, the tunnel showed
  life within the failure timeout too (or the trial or the resumed route is younger than that) and
  nothing of the route changed but its phase and the own verdict; while a new key is being agreed on
  the exchange is younger than the failure timeout (the tunnel is not looked at) and the route is
  unchanged; and once the new key is in use the tunnel showed life within the failure timeout and the
  handshake is waited for no longer than its limit.  Or the saved route of a failed replacement is in
  place again, and its path had answered within the failure timeout when the clock was read for it.
  A trial becomes the active route only if the median over a full window of the direct tunnel
  improves on the baseline, the other side's verdict is good and younger than the failure timeout,
  and both sides committed.  (That a route is only saved during a trial is part of the invariant of
  every run.)
\<close>

theorem route_lease:
  assumes "meshAdvance env now s = (Inr (), s')"
    and "rsPhase (mpRoute (cxPeer s)) \<in> {PTrial, PActive}" and "mpPrevious (cxPeer s) \<noteq> None \<longrightarrow> rsPhase (mpRoute (cxPeer s)) = PTrial"
    and "rsPhase (mpRoute (cxPeer s')) \<noteq> PNone"
  shows "let c = enConfig env; p = cxPeer s; r = mpRoute p; p' = cxPeer s'; r' = mpRoute p' in
    (\<exists>old i t checked. mpPrevious p = Some old \<and> r' = old\<lparr>rsResumed := t\<rparr> \<and> rsSelected old = Some i \<and>
       readTime env now t \<and> readTime env now checked \<and> freshPath c (pathAt p' i) checked) \<or>
    (\<exists>i. rsSelected r = Some i \<and> freshPath c (pathAt p i) now) \<and>
    (case mpRekey p of
       None \<Rightarrow> timeSub now (lastAlive r) < cfFailure c \<and> r' = r\<lparr>rsPhase := rsPhase r', rsLocalGood := rsLocalGood r'\<rparr> \<and>
         (rsPhase r = PTrial \<and> rsPhase r' = PActive \<longrightarrow> (\<exists>rtt. median (rsTunnel r) now c = Some rtt \<and> improves rtt (rsBaseline r) c) \<and>
            rsRemoteGood r \<and> timeSub now (rsRemoteAt r) < cfFailure c \<and> rsCommitted r)
     | Some k \<Rightarrow> if rkPhase k = RObserving
         then timeSub now (rkAppliedAt k) < rekeyObservationTimeout \<and> timeSub now (rsLastTunnel r) < cfFailure c \<and> r' \<in> {r, r\<lparr>rsRemoteAt := now\<rparr>}
         else timeSub now (rkSince k) < cfFailure c \<and> r' = r)"
proof -
  from wpE_InrD[OF meshAdvance_wp[OF assms(3,2)] assms(1)] assms(4)
  consider "resumedRoute env now (cxPeer s) (cxPeer s')" | "alive (enConfig env) now (cxPeer s) (cxPeer s')" by blast
  then show ?thesis
  proof cases
    case 1
    then show ?thesis unfolding Let_def resumedRoute_def by blast
  next
    case 2
    then show ?thesis unfolding Let_def alive_def rekeyLive_def heardAt_def continued_def earned_def by (auto split: option.splits)
  qed
qed

end
