(* ===== verification/Consent.thy ===== *)
theory Consent
  imports Lease
begin

text \<open>
  When a direct path is put on trial: only the answer that an open round waits for, with a
  proof of the pre-shared key, starts one.  As in \<open>Lease\<close> nothing is assumed about the
  environment.
\<close>

section \<open>What is put on trial\<close>

text \<open>What applying a path leaves on trial: the pending replacement, or the selected path.\<close>

definition proposedRoute :: "meshPeer \<Rightarrow> meshPeer \<Rightarrow> bool" where
  "proposedRoute p p' \<longleftrightarrow> mpSpec p' = mpSpec p \<and> (case mpReplacement p of
      None \<Rightarrow> rsSelected (mpRoute p') = rsSelected (mpRoute p) \<and> rsTrial (mpRoute p') = rsTrial (mpRoute p)
    | Some r \<Rightarrow> rsSelected (mpRoute p') = Some (rpPath r) \<and> rsTrial (mpRoute p') = rpToken r)"

definition tried :: "meshPeer \<Rightarrow> ('k, 'r, 'w) serving \<Rightarrow> bool" where
  "tried p s' \<longleftrightarrow> rsPhase (mpRoute (cxPeer s')) = PTrial \<longrightarrow> rsPhase (mpRoute p) = PTrial \<or> proposedRoute p (cxPeer s')"

lemma restore_tried: "wpE (meshRestore env now) (\<lambda>_. tried p) (\<lambda>_ _. True) s"
  by (rule wpE_mono[OF restore_idle]) (simp_all add: tried_def)

lemma installPath_tried:
  assumes "mpSpec (cxPeer s) = mpSpec p" and "mpReplacement p = rep"
    and "rep = None \<longrightarrow> rsSelected (mpRoute p) = Some c \<and> mpRoute (cxPeer s) = mpRoute p" and "\<forall>r. rep = Some r \<longrightarrow> rpPath r = c \<and> rpToken r = token"
  shows "wpE (installPath env now t0 leader c token rep) (\<lambda>_. tried p) (\<lambda>_ _. True) s"
  using assms unfolding installPath_def
  by (auto simp: wp takeReplacement_def trialPeer_def tried_def proposedRoute_def
      intro!: keeps_rule[OF apply_keeps] keeps_rule[OF elapsed_keeps] keeps_rule[OF command_keeps(1)] keeps_rule[OF command_keeps(2)] split: option.split)

lemma meshApply_tried:
  assumes "rsPhase (mpRoute (cxPeer s)) \<noteq> PNone"
  shows "wpE (meshApply env now) (\<lambda>_. tried (cxPeer s)) (\<lambda>_ _. True) s"
proof -
  have rep: "wpE (applyReplacement env now t0 leader checked r) (\<lambda>_. tried (cxPeer s)) (\<lambda>_ _. True) t"
    if "polled s True t" "mpReplacement (cxPeer s) = Some r" for t t0 leader checked r
    using that assms unfolding applyReplacement_def
    by (auto simp: wp polled_def stable_def tried_def[of _ t] intro!: installPath_tried restore_tried wpE_mono[OF cancelReplacement_wp] split: option.split)
      (auto simp: tried_def)
  have sel: "wpE (applySelected env now t0 leader checked) (\<lambda>_. tried (cxPeer s)) (\<lambda>_ _. True) t"
    if "polled s True t" "mpReplacement (cxPeer s) = None" for t t0 leader checked
    using that assms unfolding applySelected_def
    by (auto simp: wp polled_def stable_def tried_def[of _ t] intro!: installPath_tried restore_tried split: option.split)
  have poll: "wpE (pollPSK env t) (\<lambda>ok. wpE (if \<not> ok then returnE ()
       else bindE (elapsed env now t0) (\<lambda>checked. case mpReplacement (cxPeer s) of
         Some r \<Rightarrow> applyReplacement env now t0 leader checked r
       | None \<Rightarrow> applySelected env now t0 leader checked)) (\<lambda>_. tried (cxPeer s)) (\<lambda>_ _. True)) (\<lambda>_ _. True) u"
    if "cxPeer u = cxPeer s" for t t0 leader u
  proof (rule wpE_mono[OF pollPSK_polled], goal_cases)
    case (1 ok v)
    have same: "polled u = polled s" using that by (intro polled_same) (simp add: rounds_def)
    show ?case
    proof (cases ok)
      case True
      have "polled s True v'" if "cxPeer v' = cxPeer v" for v' using 1 True same that by (simp add: polled_def stable_def)
      with True show ?thesis
        by (auto simp: wp intro!: keeps_rule[OF elapsed_keeps] rep sel split: option.split)
    qed (use 1 assms that in \<open>simp add: wp tried_def polled_def\<close>)
  qed simp
  show ?thesis
    unfolding meshApply_def wpE_bindE[of "clock _"] wpE_bindE[of "getsE _"] wpE_getsE wpE_thenE wpE_bindE[of "elapsed _ _ _"] wpE_bindE[of "pollPSK _ _"]
    by (intro keeps_rule[OF clock_keeps(1)] keeps_rule[OF verify_keeps] keeps_rule[OF elapsed_keeps] TrueI)
      (rule poll[unfolded wpE_bindE[of "elapsed _ _ _"]] | simp only:)+
qed


text \<open>Key changes do not start a trial.\<close>

abbreviation untried :: "('k, 'r, 'w) serving \<Rightarrow> bool" where
  "untried s \<equiv> rsPhase (mpRoute (cxPeer s)) \<noteq> PTrial"

lemma restore_untried: "wpE (meshRestore env now) (\<lambda>_. untried) (\<lambda>_ _. True) s"
  by (rule wpE_mono[OF restore_idle]) simp_all

lemma pollPSK_untried: "untried s \<Longrightarrow> wpE (pollPSK env now) (\<lambda>_. untried) (\<lambda>_ _. True) s"
  by (rule wpE_mono[OF pollPSK_polled]) (auto simp: polled_def)

lemma installRekey_untried: "untried s \<Longrightarrow> wpE (installRekey env control now t0 r) (\<lambda>_. untried) (\<lambda>_ _. True) s"
  unfolding installRekey_def modRekey_def
  by (auto simp: wp intro!: restore_untried keeps_rule[OF elapsed_keeps] keeps_rule[OF world_keeps])

lemma applyRekey_untried: "untried s \<Longrightarrow> wpE (applyRekey env now) (\<lambda>_. untried) (\<lambda>_ _. True) s"
  unfolding applyRekey_def
  by (auto simp: wp intro!: restore_untried installRekey_untried keeps_rule[OF elapsed_keeps] keeps_rule[OF clock_keeps(1)] keeps_rule[OF verify_keeps]
      wpE_mono[OF pollPSK_untried] split: option.split)

lemma coordinateRekey_untried: "untried s \<Longrightarrow> wpE (coordinateRekey env c msg now) (\<lambda>_. untried) (\<lambda>_ _. True) s"
  unfolding coordinateRekey_def answerRekey_def rekeyMessage_def modRekey_def Let_def
  by (auto simp: wp intro!: restore_untried keeps_rule[OF rekeyCommand_keeps] wpE_mono[OF applyRekey_untried]
      wpE_mono[OF pollPSK_untried] split: option.split)

text \<open>
  A round of this side that waits for an answer: the pending replacement if there is one,
  else the selected path.  The proposing side waits for \<^verbatim>\<open>ready\<close>, the accepting one for
  \<^verbatim>\<open>commit\<close>.
\<close>

definition offered :: "meshPeer \<Rightarrow> nat \<Rightarrow> string \<Rightarrow> phase \<Rightarrow> bool" where
  "offered p c token ph \<longleftrightarrow> (case mpReplacement p of
      None \<Rightarrow> rsPhase (mpRoute p) = ph \<and> rsSelected (mpRoute p) = Some c \<and> rsTrial (mpRoute p) = token
    | Some q \<Rightarrow> rpPhase q = ph \<and> rpPath q = c \<and> rpToken q = token)"

definition agreed :: "nat \<Rightarrow> message \<Rightarrow> meshPeer \<Rightarrow> bool" where
  "agreed c msg p \<longleftrightarrow> mgOp msg = ''ready'' \<and> offered p c (mgToken msg) PPrepare \<or> mgOp msg = ''commit'' \<and> offered p c (mgToken msg) PPrepared"

definition consented :: "nat \<Rightarrow> message \<Rightarrow> meshPeer \<Rightarrow> ('k, 'r, 'w) serving \<Rightarrow> bool" where
  "consented c msg p s' \<longleftrightarrow> (rsPhase (mpRoute (cxPeer s')) = PTrial \<longrightarrow> mpSpec (cxPeer s') = mpSpec p \<and>
     rsSelected (mpRoute (cxPeer s')) = Some c \<and> rsTrial (mpRoute (cxPeer s')) = mgToken msg \<and> agreed c msg p)"

definition waiting :: "meshPeer \<Rightarrow> bool" where
  "waiting p \<longleftrightarrow> rsPhase (mpRoute p) \<noteq> PTrial \<and> (mpReplacement p \<noteq> None \<longrightarrow> rsPhase (mpRoute p) = PActive)"

lemma consented_untried: "untried s' \<Longrightarrow> consented c msg p s'"
  by (simp add: consented_def)

lemma applied_consents:
  assumes "waiting p" and "agreed c msg p" and "cxPeer t = p \<or> (\<exists>b. cxPeer t = p\<lparr>mpRoute := (mpRoute p)\<lparr>rsRemoteRekey := b\<rparr>\<rparr>) \<or>
     (\<exists>q b. mpReplacement p = Some q \<and> cxPeer t = p\<lparr>mpReplacement := Some (q\<lparr>rpRemoteRekey := b\<rparr>)\<rparr>)"
  shows "wpE (meshApply env now) (\<lambda>_. consented c msg p) (\<lambda>_ _. True) t"
proof (rule wpE_mono[OF meshApply_tried])
  show "rsPhase (mpRoute (cxPeer t)) \<noteq> PNone"
    using assms by (auto simp: waiting_def agreed_def offered_def split: option.splits)
  show "consented c msg p u" if "tried (cxPeer t) u" for u
    using that assms by (auto simp: waiting_def agreed_def offered_def tried_def proposedRoute_def consented_def split: option.splits)
qed simp

lemma consented_commit:
  assumes "consented c msg p u"
  shows "wpE (answerCommit env rcv t0) (\<lambda>_. consented c msg p) (\<lambda>_ _. True) u"
  using assms unfolding answerCommit_def
  by (auto simp: wp consented_def intro!: keeps_rule[OF elapsed_keeps] keeps_rule[OF command_keeps(2)])

lemma answerReplacement_consents:
  assumes "waiting (cxPeer s)" and "replacementFor (cxPeer s) c (mgToken msg) = Some r"
  shows "wpE (answerReplacement env c msg rcv t0 now r) (\<lambda>_. consented c msg (cxPeer s)) (\<lambda>_ _. True) s"
proof -
  have r: "mpReplacement (cxPeer s) = Some r" "rpPath r = c" "rpToken r = mgToken msg"
    using assms(2) by (auto simp: replacementFor_def split: option.splits if_splits)
  have cancel: "wpE (cancelReplacement env now) (\<lambda>_. consented c msg (cxPeer s)) (\<lambda>_ _. True) s"
    by (rule wpE_mono[OF cancelReplacement_wp]) (use assms(1) in \<open>auto intro!: consented_untried simp: waiting_def\<close>)
  have go: "agreed c msg (cxPeer s)" if "mgOp msg = ''ready'' \<and> rpPhase r = PPrepare \<or> mgOp msg = ''commit'' \<and> rpPhase r = PPrepared"
    using that r by (auto simp: agreed_def offered_def)
  have old: "consented c msg (cxPeer s) t" if "cxPeer t = cxPeer s" for t
    using that assms(1) by (auto intro!: consented_untried simp: waiting_def)
  have final: "wpE (bindE (elapsed env rcv t0) (\<lambda>t. command env ''committed'' t)) (\<lambda>_. consented c msg (cxPeer s)) (\<lambda>_ _. True)
      (u\<lparr>cxPeer := (cxPeer u)\<lparr>mpRoute := (mpRoute (cxPeer u))\<lparr>rsCommitted := True\<rparr>\<rparr>\<rparr>)" if "consented c msg (cxPeer s) u" for u
    using that by (auto simp: wp consented_def intro!: keeps_rule[OF elapsed_keeps] keeps_rule[OF command_keeps(2)])
  have ready: "wpE (meshApply env now) (\<lambda>_. consented c msg (cxPeer s)) (\<lambda>_ _. True) (s\<lparr>cxPeer := (cxPeer s)\<lparr>mpReplacement := Some (r\<lparr>rpRemoteRekey := b\<rparr>)\<rparr>\<rparr>)"
    if "mgOp msg = ''ready''" "rpPhase r = PPrepare" for b
    by (rule applied_consents[OF assms(1) go]) (use that r in auto)
  have commit: "wpE (meshApply env now) (\<lambda>_. consented c msg (cxPeer s)) (\<lambda>_ _. True) s" if "mgOp msg = ''commit''" "rpPhase r = PPrepared"
    by (rule applied_consents[OF assms(1) go]) (use that in auto)
  show ?thesis
    unfolding answerReplacement_def
    using old[of s] by (simp add: wp cancel ready keeps_rule[OF command_keeps(1)] old)
      (auto intro!: wpE_mono[OF commit] final[unfolded wpE_bindE] simp: wp)
qed

lemma answerSelected_consents:
  assumes "waiting (cxPeer s)" and "rsSelected (mpRoute (cxPeer s)) = Some c" and "rsTrial (mpRoute (cxPeer s)) = mgToken msg"
    and "mgOp msg = ''abort'' \<longrightarrow> mpPrevious (cxPeer s) = None"
  shows "wpE (answerSelected env msg rcv t0 now) (\<lambda>_. consented c msg (cxPeer s)) (\<lambda>_ _. True) s"
proof -
  have go: "agreed c msg (cxPeer s)"
    if "mgOp msg = ''ready'' \<and> rsPhase (mpRoute (cxPeer s)) = PPrepare \<or> mgOp msg = ''commit'' \<and> rsPhase (mpRoute (cxPeer s)) = PPrepared"
    using that assms(1-3) by (auto simp: waiting_def agreed_def offered_def split: option.split)
  have undo: "wpE (meshRollback env now) (\<lambda>_. consented c msg (cxPeer s)) (\<lambda>_ _. True) s" if "mgOp msg = ''abort''"
    using that assms(4) by (auto simp: meshRollback_def wp intro!: wpE_mono[OF restore_untried] consented_untried)
  have old: "consented c msg (cxPeer s) t" if "rsPhase (mpRoute (cxPeer t)) = rsPhase (mpRoute (cxPeer s))" for t
    using that assms(1) by (auto intro!: consented_untried simp: waiting_def)
  have ready: "wpE (meshApply env now) (\<lambda>_. consented c msg (cxPeer s)) (\<lambda>_ _. True)
      (s\<lparr>cxPeer := (cxPeer s)\<lparr>mpRoute := (mpRoute (cxPeer s))\<lparr>rsRemoteRekey := b\<rparr>\<rparr>\<rparr>)"
    if "mgOp msg = ''ready''" "rsPhase (mpRoute (cxPeer s)) = PPrepare" for b
    by (rule applied_consents[OF assms(1) go]) (use that in auto)
  have commit: "wpE (if rsPhase (mpRoute (cxPeer s)) = PPrepared then meshApply env now else returnE ()) (\<lambda>_. consented c msg (cxPeer s)) (\<lambda>_ _. True) s"
    if "mgOp msg = ''commit''"
    using applied_consents[OF assms(1) go, of s env now] old[of s] that by (simp add: wpE_returnE)
  have committed: "wpE (thenE (if rsPhase (mpRoute (cxPeer s)) = PPrepared then meshApply env now else returnE ()) (answerCommit env rcv t0))
      (\<lambda>_. consented c msg (cxPeer s)) (\<lambda>_ _. True) s" if "mgOp msg = ''commit''"
    unfolding wpE_thenE by (rule wpE_mono[OF commit[OF that]]) (simp_all add: consented_commit)
  show ?thesis
    by (cases "mgOp msg = ''commit''") (simp_all add: answerSelected_def wpE_bindE[of "getsE _"] wpE_getsE committed,
        simp add: wp undo ready old keeps_rule[OF command_keeps(2)])
qed

lemma answerRound_consents:
  assumes "waiting (cxPeer s)" and "mgOp msg = ''abort'' \<longrightarrow> mpPrevious (cxPeer s) = None"
  shows "wpE (answerRound env c msg rcv t0 now) (\<lambda>_. consented c msg (cxPeer s)) (\<lambda>_ _. True) s"
proof -
  have old: "consented c msg (cxPeer s) t" if "untried t" for t
    using that by (rule consented_untried)
  have start: "untried s" using assms(1) by (simp add: waiting_def)
  have accept: "wpE (acceptProposal env c msg now) (\<lambda>_. consented c msg (cxPeer s)) (\<lambda>_ _. True) s"
    unfolding acceptProposal_def using start
    by (auto simp: wp proposedPeer_def intro!: keeps_rule[OF command_keeps(1)] consented_untried split: sum.split option.split)
  have prev: "wpE (answerPrevious msg now old') (\<lambda>_. consented c msg (cxPeer s)) (\<lambda>_ _. True) s" for old'
    unfolding answerPrevious_def using start by (auto simp: wp intro!: consented_untried)
  have other: "wpE (if mgOp msg = ''prepare'' then retire (mgToken msg) now else returnE ()) (\<lambda>_. consented c msg (cxPeer s)) (\<lambda>_ _. True) s"
    using start by (auto simp: wp intro!: consented_untried)
  show ?thesis
    unfolding answerRound_def wpE_bindE[of "getsE _"] wpE_getsE
    using accept prev other by (auto intro!: answerReplacement_consents answerSelected_consents assms split: option.split)
qed

lemma agreed_polled:
  assumes "polled s ok t" and "waiting (cxPeer s)"
  shows "waiting (cxPeer t)" and "agreed c msg (cxPeer t) \<Longrightarrow> mpSpec (cxPeer t) = mpSpec (cxPeer s) \<and> agreed c msg (cxPeer s)"
  using assms by (auto simp: polled_def stable_def waiting_def agreed_def offered_def split: option.splits)

text \<open>The whole handler: a trial only starts with a proof of the key it is started with.\<close>

definition proven :: "('k, 'h, 'r, 'w) meshEnv \<Rightarrow> nat \<Rightarrow> message \<Rightarrow> meshPeer \<Rightarrow> ('k, 'r, 'w) serving \<Rightarrow> bool" where
  "proven env c msg p s' \<longleftrightarrow> consented c msg p s' \<and> (rsPhase (mpRoute (cxPeer s')) = PTrial \<longrightarrow>
     checkPSKProof env (psPsk (mpSpec p)) msg (psKey (mpSpec p)) (enPublic env))"

lemma proven_untried: "untried s' \<Longrightarrow> proven env c msg p s'"
  by (simp add: proven_def consented_untried)

lemma admitMessage_proven:
  assumes "waiting (cxPeer s)" and "mpPrevious (cxPeer s) = None"
  shows "wpE (admitMessage env c msg rcv t0) (\<lambda>_. proven env c msg (cxPeer s)) (\<lambda>_ _. True) s"
proof (cases "mgOp msg = ''prepare'' \<or> mgOp msg = ''ready'' \<or> mgOp msg = ''commit''")
  case False
  then have "\<not> agreed c msg p" for p by (simp add: agreed_def)
  with False assms answerRound_consents[of s msg env c rcv t0 rcv] show ?thesis
    by (auto simp: admitMessage_def proven_def consented_def elim!: wpE_mono)
next
  case True
  have answer: "wpE (answerRound env c msg rcv t0 now) (\<lambda>_. proven env c msg (cxPeer s)) (\<lambda>_ _. True) t"
    if "polled s ok t" and "checkPSKProof env (psPsk (mpSpec (cxPeer t))) msg (psKey (mpSpec (cxPeer t))) (enPublic env)" for ok t now
  proof (rule wpE_mono[OF answerRound_consents])
    show "waiting (cxPeer t)" using that(1) assms(1) by (rule agreed_polled)
    show "mgOp msg = ''abort'' \<longrightarrow> mpPrevious (cxPeer t) = None" using True by auto
    show "proven env c msg (cxPeer s) u" if "consented c msg (cxPeer t) u" for u
      using that agreed_polled(2)[OF \<open>polled s ok t\<close> assms(1), of c msg] \<open>checkPSKProof _ _ _ _ _\<close> by (auto simp: proven_def consented_def)
  qed simp
  show ?thesis
    unfolding admitMessage_def if_P[OF True] wpE_bindE[of "pollPSK _ _"]
  proof (rule wpE_mono[OF pollPSK_polled], goal_cases)
    case (1 ok t)
    have "untried t" using agreed_polled(1)[OF 1 assms(1)] by (simp add: waiting_def)
    moreover have "polled s ok u" if "cxPeer u = cxPeer t" for u using 1 that by (simp add: polled_def stable_def)
    ultimately show ?case by (auto simp: wp intro!: proven_untried answer keeps_rule[OF elapsed_keeps])
  qed simp
qed

lemma coordinate_proven:
  assumes "waiting (cxPeer s)" and "mpPrevious (cxPeer s) = None"
  shows "wpE (coordinate env c msg now) (\<lambda>_. proven env c msg (cxPeer s)) (\<lambda>_ _. True) s"
proof -
  have start: "untried s" using assms(1) by (simp add: waiting_def)
  have admit: "wpE (admitMessage env c msg now t0) (\<lambda>_. proven env c msg (cxPeer s)) (\<lambda>_ _. True) t" if "cxPeer t = cxPeer s" for t0 t
    using admitMessage_proven[of t env c msg now t0] assms that by simp
  have rekey: "wpE (coordinateRekey env c msg now) (\<lambda>_. proven env c msg (cxPeer s)) (\<lambda>_ _. True) t" if "cxPeer t = cxPeer s" for t
    by (rule wpE_mono[OF coordinateRekey_untried]) (use start that in \<open>simp_all add: proven_untried\<close>)
  show ?thesis
    unfolding coordinate_def wpE_bindE
    by (rule keeps_rule[OF clock_keeps(1)]) (use start in \<open>auto simp: wp intro!: admit rekey proven_untried\<close>)
qed

text \<open>
  C8: No trial without the other side's consent.  When handling a message puts a direct path on
  trial, the message is the \<^verbatim>\<open>ready\<close> this side's own proposal waited for or the
  \<^verbatim>\<open>commit\<close> the proposal it accepted waited for, it came on the very path and with the very
  token of that round, that path and token are what is on trial, and the message carried a proof of
  the pre-shared key of the peer (an empty one where the peer has no such key).  (That a route is
  only saved during a trial and a replacement only pending for an active route is part of the
  invariant of every run.)
\<close>

theorem trial_needs_consent:
  assumes "coordinate env c msg now s = (Inr (), s')" and "rsPhase (mpRoute (cxPeer s)) \<noteq> PTrial" and "mpPrevious (cxPeer s) = None"
    and "mpReplacement (cxPeer s) \<noteq> None \<longrightarrow> rsPhase (mpRoute (cxPeer s)) = PActive" and "rsPhase (mpRoute (cxPeer s')) = PTrial"
  shows "let p = cxPeer s; r' = mpRoute (cxPeer s') in
    rsSelected r' = Some c \<and> rsTrial r' = mgToken msg \<and> mpSpec (cxPeer s') = mpSpec p \<and>
    checkPSKProof env (psPsk (mpSpec p)) msg (psKey (mpSpec p)) (enPublic env) \<and>
    (\<exists>ph. (mgOp msg, ph) \<in> {(''ready'', PPrepare), (''commit'', PPrepared)} \<and>
       (case mpReplacement p of
          None \<Rightarrow> rsPhase (mpRoute p) = ph \<and> rsSelected (mpRoute p) = Some c \<and> rsTrial (mpRoute p) = mgToken msg
        | Some q \<Rightarrow> rpPhase q = ph \<and> rpPath q = c \<and> rpToken q = mgToken msg))"
  using wpE_InrD[OF coordinate_proven assms(1)] assms(2-5)
  by (auto simp: waiting_def proven_def consented_def agreed_def offered_def Let_def)

end
