(* ===== verification/LeaseWitnesses.thy ===== *)
theory LeaseWitnesses
  imports Consent MeshWitnesses NetworkWitnesses
begin

text \<open>
  Concrete instances of the properties of a direct path: a trial that the timer makes the
  active route, and a proposal that the other side's answer puts on trial.
\<close>

section \<open>Running the node of the example\<close>

lemma ex_policy: "median w now exConfig = median w now defaults" "improves a b exConfig = improves a b defaults"
  "cfFailure exConfig = 5 * second" "cfWindow exConfig = 15 * second"
  by (simp_all add: exConfig_def defaults_def median_def windowRtts_def neededSamples_def improves_def)

lemma ex_improves: "improves 7 9000000 defaults"
proof -
  have "flOfInt 7 = Fl 7 0" by (simp add: flOfInt_def flRound_exact bitCount_le)
  then show ?thesis unfolding improves_def exInts exGain exProduct by (simp add: flLe_def int64_def defaults_def)
qed

text \<open>Sending on a network that takes every datagram.\<close>

abbreviation quiet :: "('k, 'h, 'r, 'w) meshEnv \<Rightarrow> bool" where
  "quiet env \<equiv> enSend env = (\<lambda>_ _ _ w. (Inr (), w))"

lemma ex_send: "quiet env \<Longrightarrow> \<exists>b c. sendMessage env j msg addr link now s = (Inr b, s\<lparr>cxCrypto := c\<rparr>)"
  by (auto simp: sendMessage_def cryptoE_def worldE_def tryE_def bindE_def returnE_def split: prod.split sum.split)

lemma ex_pathCommand:
  assumes "quiet env"
  shows "\<exists>c. pathCommand env i token op now s = (Inr (), s\<lparr>cxCrypto := c\<rparr>)"
proof (cases i)
  case None
  then have "pathCommand env i token op now s = (Inr (), s\<lparr>cxCrypto := cxCrypto s\<rparr>)"
    by (simp add: pathCommand_def bindE_def getsE_def returnE_def)
  then show ?thesis ..
next
  case (Some k)
  let ?p = "cxPeer s"
  obtain b c where "sendMessage env (ptSession (pathAt ?p k)) \<lparr>mgOp = op, mgToken = token, mgPort = enWgPort env,
      mgProof = pskProof env (psPsk (mpSpec ?p)) op token (enPublic env) (psKey (mpSpec ?p)), mgRekey = psRekey (mpSpec ?p)\<rparr>
      (ptAddr (pathAt ?p k)) (ptLink (pathAt ?p k)) now s = (Inr b, s\<lparr>cxCrypto := c\<rparr>)" using ex_send[OF assms] by blast
  with Some have "pathCommand env i token op now s = (Inr (), s\<lparr>cxCrypto := c\<rparr>)"
    by (simp add: pathCommand_def thenE_def bindE_def getsE_def returnE_def)
  then show ?thesis ..
qed

lemma ex_command:
  assumes "quiet env"
  obtains f where "\<And>op now s. command env op now s = (Inr (), s\<lparr>cxCrypto := f op now s\<rparr>)"
proof -
  have "\<exists>c. command env op now s = (Inr (), s\<lparr>cxCrypto := c\<rparr>)" for op now s
    using ex_pathCommand[OF assms] by (simp add: command_def bindE_def getsE_def)
  with that show ?thesis by metis
qed

definition exPath :: path where
  "exPath = \<lparr>ptLink = noLink, ptAddr = (V4 0xc0a80103, 51823), ptSession = 1, ptIncoming = 0, ptPort = 51820,
     ptLastPong = 15000000000, ptStats = newMeasurements 1\<rparr>"

definition exTrial :: "(bytes, nat, time) serving" where
  "exTrial = exServing\<lparr>cxPeer := (meshPeerOf exSpec)\<lparr>mpHeap := [exPath],
     mpRoute := zeroRoute\<lparr>rsSelected := Some 0, rsPhase := PTrial, rsTrial := ''t'', rsSince := 1, rsBaseline := 9000000,
       rsRemoteGood := True, rsCommitted := True, rsTunnel := exMeasure, rsLastTunnel := 15000000000, rsRemoteAt := 15000000000\<rparr>\<rparr>\<rparr>"

lemma ex_alive: "freshPath exConfig exPath 15000000001"
  by (simp add: freshPath_def exPath_def ex_policy timeSub_def minDuration_def maxDuration_def)

lemmas run_timer = meshAdvance_def advancePhase_def advanceLive_def advanceTrial_def judgeTrial_def settleTrial_def advanceReplacement_def
  dropPrevious_def modPeer_def modRoute_def promotePeer_def bindE_def thenE_def getsE_def returnE_def modifyE_def lastAlive_def pathAt_def Let_def

lemmas ex_times = timeSub_def minDuration_def maxDuration_def

lemma exTrial_run: "\<exists>s'. meshAdvance exEnv 15000000001 exTrial = (Inr (), s') \<and> rsPhase (mpRoute (cxPeer s')) = PActive"
proof -
  have "quiet exEnv" by (simp add: exEnv_def)
  then obtain f where "\<And>op now s. command exEnv op now s = (Inr (), s\<lparr>cxCrypto := f op now s\<rparr>)" by (rule ex_command) blast
  then show ?thesis
    by (simp add: run_timer exTrial_def meshPeerOf_def zeroRoute_def ex_alive ex_policy ex_times exMedian ex_improves)
qed

theorem route_lease_witness:
  "\<exists>s'. meshAdvance exEnv 15000000001 exTrial = (Inr (), s') \<and> rsPhase (mpRoute (cxPeer s')) = PActive \<and>
    rsSelected (mpRoute (cxPeer s')) = Some 0 \<and> freshPath exConfig exPath 15000000001 \<and>
    (\<exists>rtt. median exMeasure 15000000001 exConfig = Some rtt \<and> improves rtt 9000000 exConfig)"
proof -
  obtain s' where run: "meshAdvance exEnv 15000000001 exTrial = (Inr (), s')" "rsPhase (mpRoute (cxPeer s')) = PActive" using exTrial_run by blast
  have start: "mpRekey (cxPeer exTrial) = None" "rsPhase (mpRoute (cxPeer exTrial)) = PTrial" "mpPrevious (cxPeer exTrial) = None" "pathAt (cxPeer exTrial) 0 = exPath"
    "rsTunnel (mpRoute (cxPeer exTrial)) = exMeasure" "rsBaseline (mpRoute (cxPeer exTrial)) = 9000000" "rsSelected (mpRoute (cxPeer exTrial)) = Some 0"
    by (simp_all add: exTrial_def meshPeerOf_def pathAt_def)
  have route: "mpRoute (cxPeer s') = (mpRoute (cxPeer exTrial))\<lparr>rsPhase := rsPhase (mpRoute (cxPeer s')), rsLocalGood := rsLocalGood (mpRoute (cxPeer s'))\<rparr>"
    and alive: "freshPath exConfig exPath 15000000001" "\<exists>rtt. median exMeasure 15000000001 exConfig = Some rtt \<and> improves rtt 9000000 exConfig"
    using route_lease[OF run(1)] start run(2) by (simp_all add: Let_def)
  have "rsSelected (mpRoute (cxPeer s')) = Some 0" by (subst route) (simp add: start)
  with run alive show ?thesis by blast
qed

section \<open>An answered proposal\<close>

definition exClock :: "(bytes, bytes, nat, time) meshEnv" where
  "exClock = exEnv\<lparr>enNow := \<lambda>w. (w, w + millisecond)\<rparr>"

definition exOffer :: "(bytes, nat, time) serving" where
  "exOffer = exServing\<lparr>cxPeer := (meshPeerOf (exSpec\<lparr>psPsk := 7\<rparr>))\<lparr>mpHeap := [exPath],
     mpRoute := zeroRoute\<lparr>rsSelected := Some 0, rsPhase := PPrepare, rsTrial := ''t'', rsSince := 15000000000\<rparr>\<rparr>\<rparr>"

definition exReady :: message where
  "exReady = \<lparr>mgOp = ''ready'', mgToken = ''t'', mgPort = 51820, mgProof = pskProof exClock 7 ''ready'' ''t'' 102 101, mgRekey = False\<rparr>"

lemmas run_answer = coordinate_def admitMessage_def answerRound_def opensRound_def replacementFor_def previousFor_def answerSelected_def meshApply_def
  isLeaderRound_def applySelected_def installPath_def controlApply_def trialPeer_def pollPSK_def verifyE_def clock_def elapsed_def drawE_def worldE_def
  tryE_def modPeer_def modRoute_def bindE_def thenE_def getsE_def returnE_def modifyE_def pathAt_def

lemma exOffer_run: "\<exists>s'. coordinate exClock 0 exReady 15000000001 exOffer = (Inr (), s') \<and> rsPhase (mpRoute (cxPeer s')) = PTrial"
proof -
  have "quiet exClock" by (simp add: exClock_def exEnv_def)
  then obtain f where f: "\<And>op now s. command exClock op now s = (Inr (), s\<lparr>cxCrypto := f op now s\<rparr>)" by (rule ex_command) blast
  have env: "enConfig exClock = exConfig" "enPublic exClock = 101" "\<not> enDry exClock" "enNow exClock = (\<lambda>w. (w, w + millisecond))"
    "enVerify exClock = None" "enApply exClock = (\<lambda>_ _ _ _ w. (Inr (), w))" by (simp_all add: exClock_def exEnv_def)
  have msg: "mgOp exReady = ''ready''" "mgToken exReady = ''t''" "checkPSKProof exClock 7 exReady 102 101"
    by (simp_all add: checkPSKProof_def exReady_def)
  show ?thesis
    by (simp add: f env msg run_answer exOffer_def exServing_def exSpec_def meshPeerOf_def zeroRoute_def exPath_def freshPath_def ex_policy ex_times)
qed

theorem trial_needs_consent_witness:
  "\<exists>s'. coordinate exClock 0 exReady 15000000001 exOffer = (Inr (), s') \<and> rsPhase (mpRoute (cxPeer s')) = PTrial \<and>
    rsSelected (mpRoute (cxPeer s')) = Some 0 \<and> rsTrial (mpRoute (cxPeer s')) = ''t'' \<and> checkPSKProof exClock 7 exReady 102 101"
proof -
  obtain s' where run: "coordinate exClock 0 exReady 15000000001 exOffer = (Inr (), s')" "rsPhase (mpRoute (cxPeer s')) = PTrial" using exOffer_run by blast
  have start: "rsPhase (mpRoute (cxPeer exOffer)) = PPrepare" "mpPrevious (cxPeer exOffer) = None" "mpReplacement (cxPeer exOffer) = None"
    "psPsk (mpSpec (cxPeer exOffer)) = 7" "psKey (mpSpec (cxPeer exOffer)) = 102" "enPublic exClock = 101" "mgToken exReady = ''t''"
    by (simp_all add: exOffer_def meshPeerOf_def exSpec_def exClock_def exReady_def)
  from trial_needs_consent[OF run(1)] run start show ?thesis by (auto simp: Let_def)
qed

end
