(* ===== verification/Transport.thy ===== *)
theory Transport
  imports Interfaces
begin

text \<open>
  The goroutines of the transport and its shutdown: \<open>watch\<close> of \<^verbatim>\<open>network_linux.go\<close>,
  \<open>signalChanged\<close>, \<open>receive\<close>, \<open>openNetwork\<close> and \<open>Close\<close> of \<^verbatim>\<open>network.go\<close>.  Each
  transition is what one goroutine does between two points where another may run; an
  execution is any interleaving of them.
\<close>

section \<open>State\<close>

datatype goroutine = WatchLinks | WatchAddresses | Receiver bool

text \<open>
  Where a goroutine is.  A watcher is in its \<^verbatim>\<open>range\<close> loop, has taken an update and not yet
  signalled it, or has left the loop and has the deferred \<open>signalChanged\<close> before it; a receiver
  is in its loop or has a read to handle; either has only the deferred \<^verbatim>\<open>wg.Done\<close> before it,
  or has returned.
\<close>

datatype worker = NotStarted | Running | Signalling | Leaving | Handling readResult | Finishing | Returned

text \<open>How far \<open>openNetwork\<close> is; \<open>SetupFailed\<close> when it is about to close the transport and return an error.\<close>

datatype setupStage = SocketsOpen | LinksWatched | Watched | Ready | SetupFailed

text \<open>The body of \<open>once.Do\<close> in \<open>Close\<close>: before it, in \<^verbatim>\<open>wg.Wait\<close>, with \<open>incoming\<close> closed, with both channels closed.\<close>

datatype shutdown = NotBegun | WaitingForWorkers | IncomingClosed | Finished

text \<open>
  \<open>tpWait\<close> is the counter of the wait group, \<open>tpQueue\<close> and \<open>tpEnded\<close> are the updates in a
  subscription's channel and whether netlink has closed it, \<open>tpChanged\<close> the number of values in
  the channel \<open>changed\<close>, \<open>tpClosers\<close> the calls \<open>go n.Close()\<close> that have not run yet.
  \<open>tpMissed\<close> is not in the code: an update has been taken from a subscription and the event loop
  has not been told since.
\<close>

record 'w transport =
  tpNet :: udpNetwork
  tpWorld :: 'w
  tpSetup :: setupStage
  tpWorker :: "goroutine \<Rightarrow> worker"
  tpWait :: nat
  tpQueue :: "goroutine \<Rightarrow> nat"
  tpEnded :: "goroutine \<Rightarrow> bool"
  tpChanged :: nat
  tpClosers :: nat
  tpShut :: shutdown
  tpPanic :: bool
  tpMissed :: bool

definition freshTransport :: "udpNetwork \<Rightarrow> 'w \<Rightarrow> 'w transport" where
  "freshTransport n w = \<lparr>tpNet = n, tpWorld = w, tpSetup = SocketsOpen, tpWorker = \<lambda>_. NotStarted, tpWait = 0, tpQueue = \<lambda>_. 0, tpEnded = \<lambda>_. False,
     tpChanged = 0, tpClosers = 0, tpShut = NotBegun, tpPanic = False, tpMissed = False\<rparr>"

section \<open>Operations\<close>

text \<open>A send on a closed channel panics, also in a \<^verbatim>\<open>select\<close> with a default; a full channel is left as it is.\<close>

definition signalChanged :: "'w transport \<Rightarrow> 'w transport" where
  "signalChanged s = (if tpShut s = Finished then s\<lparr>tpPanic := True\<rparr> else if tpChanged s < 1 then s\<lparr>tpChanged := tpChanged s + 1\<rparr> else s)"

definition goesTo :: "worker \<Rightarrow> goroutine \<Rightarrow> 'w transport \<Rightarrow> 'w transport" where
  "goesTo x g s = s\<lparr>tpWorker := (tpWorker s)(g := x)\<rparr>"

text \<open>\<^verbatim>\<open>wg.Add(1)\<close> before the goroutine is started, and \<^verbatim>\<open>wg.Done\<close> as the last thing it does.\<close>

definition starts :: "goroutine \<Rightarrow> 'w transport \<Rightarrow> 'w transport" where
  "starts g s = (goesTo Running g s)\<lparr>tpWait := tpWait s + 1\<rparr>"

definition wgDone :: "goroutine \<Rightarrow> 'w transport \<Rightarrow> 'w transport" where
  "wgDone g s = (goesTo Returned g s)\<lparr>tpWait := tpWait s - 1\<rparr>"

text \<open>What a receiver does with one read.  What it queues goes to \<open>incoming\<close>, whose send panics once that channel is closed.\<close>

definition receiverTurn :: "(int \<Rightarrow> string) \<Rightarrow> bool \<Rightarrow> readResult \<Rightarrow> 'w transport \<Rightarrow> 'w transport" where
  "receiverTurn itoa v4 r s = (case receiveTurn itoa (tpNet s) r of (n, next) \<Rightarrow>
     let s1 = s\<lparr>tpNet := n, tpPanic := (tpPanic s \<or> tpShut s \<in> {IncomingClosed, Finished} \<and> n \<noteq> tpNet s)\<rparr> in
     case next of
       ReceiverReads \<Rightarrow> goesTo Running (Receiver v4) s1
     | ReceiverSleeps \<Rightarrow> goesTo Running (Receiver v4) s1
     | ReceiverReturns \<Rightarrow> goesTo Finishing (Receiver v4) s1
     | ReceiverCloses \<Rightarrow> (goesTo Finishing (Receiver v4) s1)\<lparr>tpClosers := tpClosers s1 + 1\<rparr>)"

text \<open>Every caller of \<open>Close\<close> but the first finds \<open>once\<close> taken.\<close>

definition beginClose :: "(bool \<Rightarrow> 'w \<Rightarrow> error option \<times> 'w) \<Rightarrow> 'w transport \<Rightarrow> 'w transport" where
  "beginClose shut s = (if tpShut s \<noteq> NotBegun then s
     else case closeNetwork shut (tpNet s) (tpWorld s) of (_, n, w) \<Rightarrow> s\<lparr>tpNet := n, tpWorld := w, tpShut := WaitingForWorkers\<rparr>)"

definition watcher :: "goroutine \<Rightarrow> bool" where
  "watcher g \<longleftrightarrow> g = WatchLinks \<or> g = WatchAddresses"

section \<open>Transitions\<close>

datatype action =
    SetupFails | LinksSubscribed | AddressesSubscribed | ReceiversStarted
  | Updated goroutine | SubscriptionEnds goroutine
  | Taken goroutine | Signalled goroutine | LoopEnds goroutine | LastSignal goroutine
  | NoSocket bool | ReceiverRead bool readResult | ReceiverHandles bool
  | WorkerDone goroutine
  | CloseCalled | CloserRuns | WaitReturns | ChangedClosed
  | ChangeTaken | PacketTaken | Relinked "(membership \<times> prefix list) list"

inductive transportStep :: "(int \<Rightarrow> string) \<Rightarrow> (bool \<Rightarrow> 'w \<Rightarrow> error option \<times> 'w) \<Rightarrow> action \<Rightarrow> 'w transport \<Rightarrow> 'w transport \<Rightarrow> bool" for itoa shut where
  setup_fails: "tpSetup s \<in> {SocketsOpen, LinksWatched, Watched} \<Longrightarrow> transportStep itoa shut SetupFails s (s\<lparr>tpSetup := SetupFailed\<rparr>)"
| links_subscribed: "tpSetup s = SocketsOpen \<Longrightarrow> transportStep itoa shut LinksSubscribed s (starts WatchLinks (s\<lparr>tpSetup := LinksWatched\<rparr>))"
| addresses_subscribed: "tpSetup s = LinksWatched \<Longrightarrow> transportStep itoa shut AddressesSubscribed s (starts WatchAddresses (s\<lparr>tpSetup := Watched\<rparr>))"
| receivers_started: "tpSetup s = Watched \<Longrightarrow>
    transportStep itoa shut ReceiversStarted s (starts (Receiver False) (starts (Receiver True) (s\<lparr>tpSetup := Ready\<rparr>)))"
| updated: "watcher g \<Longrightarrow> tpWorker s g \<noteq> NotStarted \<Longrightarrow> \<not> tpEnded s g \<Longrightarrow> tpQueue s g < 16 \<Longrightarrow>
    transportStep itoa shut (Updated g) s (s\<lparr>tpQueue := (tpQueue s)(g := tpQueue s g + 1)\<rparr>)"
| subscription_ends: "watcher g \<Longrightarrow> tpWorker s g \<noteq> NotStarted \<Longrightarrow> \<not> tpEnded s g \<Longrightarrow>
    transportStep itoa shut (SubscriptionEnds g) s (s\<lparr>tpEnded := (tpEnded s)(g := True)\<rparr>)"
| taken: "watcher g \<Longrightarrow> tpWorker s g = Running \<Longrightarrow> 0 < tpQueue s g \<Longrightarrow>
    transportStep itoa shut (Taken g) s (goesTo Signalling g (s\<lparr>tpQueue := (tpQueue s)(g := tpQueue s g - 1), tpMissed := True\<rparr>))"
| signalled: "tpWorker s g = Signalling \<Longrightarrow> transportStep itoa shut (Signalled g) s (goesTo Running g (signalChanged s))"
| loop_ends: "watcher g \<Longrightarrow> tpWorker s g = Running \<Longrightarrow> tpQueue s g = 0 \<Longrightarrow> tpEnded s g \<Longrightarrow>
    transportStep itoa shut (LoopEnds g) s (goesTo Leaving g s)"
| last_signal: "tpWorker s g = Leaving \<Longrightarrow> transportStep itoa shut (LastSignal g) s (goesTo Finishing g (signalChanged s))"
| no_socket: "tpWorker s (Receiver v4) = Running \<Longrightarrow> \<not> (if v4 then unV4 (tpNet s) else unV6 (tpNet s)) \<Longrightarrow>
    transportStep itoa shut (NoSocket v4) s (goesTo Finishing (Receiver v4) s)"
| receiver_read: "tpWorker s (Receiver v4) = Running \<Longrightarrow> (if v4 then unV4 (tpNet s) else unV6 (tpNet s)) \<Longrightarrow>
    transportStep itoa shut (ReceiverRead v4 r) s (goesTo (Handling r) (Receiver v4) s)"
| receiver_handles: "tpWorker s (Receiver v4) = Handling r \<Longrightarrow> transportStep itoa shut (ReceiverHandles v4) s (receiverTurn itoa v4 r s)"
| worker_done: "tpWorker s g = Finishing \<Longrightarrow> transportStep itoa shut (WorkerDone g) s (wgDone g s)"
| close_called: "tpSetup s \<in> {Ready, SetupFailed} \<Longrightarrow> transportStep itoa shut CloseCalled s (beginClose shut s)"
| closer_runs: "0 < tpClosers s \<Longrightarrow> transportStep itoa shut CloserRuns s (beginClose shut (s\<lparr>tpClosers := tpClosers s - 1\<rparr>))"
| wait_returns: "tpShut s = WaitingForWorkers \<Longrightarrow> tpWait s = 0 \<Longrightarrow> transportStep itoa shut WaitReturns s (s\<lparr>tpShut := IncomingClosed\<rparr>)"
| changed_closed: "tpShut s = IncomingClosed \<Longrightarrow> transportStep itoa shut ChangedClosed s (s\<lparr>tpShut := Finished\<rparr>)"
| change_taken: "0 < tpChanged s \<Longrightarrow> transportStep itoa shut ChangeTaken s (s\<lparr>tpChanged := tpChanged s - 1, tpMissed := False\<rparr>)"
| packet_taken: "unIncoming (tpNet s) \<noteq> [] \<Longrightarrow>
    transportStep itoa shut PacketTaken s (s\<lparr>tpNet := (tpNet s)\<lparr>unIncoming := tl (unIncoming (tpNet s))\<rparr>\<rparr>)"
| relinked: "tpSetup s \<in> {Watched, Ready} \<Longrightarrow> transportStep itoa shut (Relinked js) s (s\<lparr>tpNet := (tpNet s)\<lparr>unJoined := js\<rparr>\<rparr>)"

inductive transportRun :: "(int \<Rightarrow> string) \<Rightarrow> (bool \<Rightarrow> 'w \<Rightarrow> error option \<times> 'w) \<Rightarrow> 'w transport \<Rightarrow> 'w transport \<Rightarrow> bool" for itoa shut s where
  run_here: "transportRun itoa shut s s"
| run_step: "transportRun itoa shut s t \<Longrightarrow> transportStep itoa shut a t u \<Longrightarrow> transportRun itoa shut s u"

text \<open>
  Go panics when a channel is closed twice: \<open>Close\<close> closes the channels at most once,
  however many callers it has.
\<close>

inductive_simps close_iff: "transportStep itoa shut WaitReturns s t" "transportStep itoa shut ChangedClosed s t"

lemma closed_stays: "transportStep itoa shut a s t \<Longrightarrow> tpShut s \<in> {IncomingClosed, Finished} \<Longrightarrow> tpShut t = tpShut s \<or> tpShut t = Finished"
  by (induction rule: transportStep.induct)
    (auto simp: starts_def goesTo_def wgDone_def signalChanged_def receiverTurn_def beginClose_def Let_def split: prod.split receiverNext.split)

lemma closed_run: "transportRun itoa shut s t \<Longrightarrow> tpShut s \<in> {IncomingClosed, Finished} \<Longrightarrow> tpShut t = tpShut s \<or> tpShut t = Finished"
  by (induction rule: transportRun.induct) (auto dest: closed_stays)

lemma channels_closed_once:
  assumes "transportRun itoa shut t u"
  shows "transportStep itoa shut WaitReturns s t \<Longrightarrow> \<not> transportStep itoa shut WaitReturns u v"
    and "transportStep itoa shut ChangedClosed s t \<Longrightarrow> \<not> transportStep itoa shut ChangedClosed u v"
  using closed_run[OF assms] by (auto simp: close_iff)

section \<open>Invariant\<close>

text \<open>Goroutines the wait group counts.\<close>

definition active :: "worker \<Rightarrow> nat" where
  "active x = (if x \<in> {NotStarted, Returned} then 0 else 1)"

definition actives :: "(goroutine \<Rightarrow> worker) \<Rightarrow> nat" where
  "actives f = active (f WatchLinks) + active (f WatchAddresses) + active (f (Receiver True)) + active (f (Receiver False))"

lemma goroutine_cases:
  obtains "g = WatchLinks" | "g = WatchAddresses" | "g = Receiver True" | "g = Receiver False"
  by (cases g) (metis (full_types))+

lemma actives_upd: "actives (f(g := x)) + active (f g) = actives f + active x"
  by (cases g rule: goroutine_cases) (simp_all add: actives_def)

lemma actives_0: "actives f = 0 \<longleftrightarrow> (\<forall>g. f g \<in> {NotStarted, Returned})"
proof
  assume none: "actives f = 0"
  show "\<forall>g. f g \<in> {NotStarted, Returned}"
  proof
    fix g show "f g \<in> {NotStarted, Returned}"
      using none by (cases g rule: goroutine_cases) (simp_all add: actives_def active_def split: if_splits)
  qed
qed (simp add: actives_def active_def)

text \<open>Where a goroutine can be while \<open>openNetwork\<close> is at a stage.\<close>

definition placeOK :: "setupStage \<Rightarrow> goroutine \<Rightarrow> worker \<Rightarrow> bool" where
  "placeOK st g x \<longleftrightarrow> (case g of
      WatchLinks \<Rightarrow> (\<forall>r. x \<noteq> Handling r) \<and> (st = SocketsOpen \<longrightarrow> x = NotStarted)
    | WatchAddresses \<Rightarrow> (\<forall>r. x \<noteq> Handling r) \<and> (st \<in> {SocketsOpen, LinksWatched} \<longrightarrow> x = NotStarted)
    | Receiver _ \<Rightarrow> x \<notin> {Signalling, Leaving} \<and> (st \<noteq> Ready \<longrightarrow> x = NotStarted))"

definition told :: "'w transport \<Rightarrow> bool" where
  "told s \<longleftrightarrow> (tpMissed s \<longrightarrow> tpChanged s = 1 \<or> (\<exists>g. tpWorker s g = Signalling))"

definition shutOK :: "'w transport \<Rightarrow> bool" where
  "shutOK s \<longleftrightarrow> (unDone (tpNet s) \<longleftrightarrow> tpShut s \<noteq> NotBegun) \<and> (tpShut s \<noteq> NotBegun \<longrightarrow> tpSetup s \<in> {Ready, SetupFailed}) \<and>
     (0 < tpClosers s \<longrightarrow> tpSetup s = Ready) \<and> (tpShut s \<in> {IncomingClosed, Finished} \<longrightarrow> actives (tpWorker s) = 0)"

definition transportOK :: "'w transport \<Rightarrow> bool" where
  "transportOK s \<longleftrightarrow> \<not> tpPanic s \<and> tpChanged s \<le> 1 \<and> told s \<and> length (unIncoming (tpNet s)) \<le> incomingLimit \<and>
     tpWait s = actives (tpWorker s) \<and> shutOK s \<and> (\<forall>g. placeOK (tpSetup s) g (tpWorker s g))"

lemma placed: "transportOK s \<Longrightarrow> placeOK (tpSetup s) g (tpWorker s g)"
  by (simp add: transportOK_def)

lemma closed_idle: "transportOK s \<Longrightarrow> tpShut s \<in> {IncomingClosed, Finished} \<Longrightarrow> actives (tpWorker s) = 0"
  unfolding transportOK_def shutOK_def by blast

lemma places_upd: "\<forall>h. placeOK st h (f h) \<Longrightarrow> placeOK st g x \<Longrightarrow> \<forall>h. placeOK st h ((f(g := x)) h)"
  by simp

lemma told_upd: "told s \<Longrightarrow> tpWorker s g \<noteq> Signalling \<or> x = Signalling \<or> tpChanged s = 1 \<Longrightarrow> told (goesTo x g s)"
  unfolding told_def goesTo_def by auto

lemma fresh_place: "placeOK st g NotStarted"
  by (cases g) (simp_all add: placeOK_def)

lemma fresh_OK: "\<not> unDone n \<Longrightarrow> unIncoming n = [] \<Longrightarrow> transportOK (freshTransport n w)"
  by (simp add: transportOK_def freshTransport_def actives_def active_def told_def shutOK_def fresh_place)

lemma setting_up: "transportOK s \<Longrightarrow> tpSetup s \<notin> {Ready, SetupFailed} \<Longrightarrow> tpShut s = NotBegun \<and> tpClosers s = 0"
  by (auto simp: transportOK_def shutOK_def)

lemma active_open:
  assumes "transportOK s" and "tpWorker s g \<notin> {NotStarted, Returned}"
  shows "tpShut s \<notin> {IncomingClosed, Finished}"
proof
  assume "tpShut s \<in> {IncomingClosed, Finished}"
  with assms(1) have "actives (tpWorker s) = 0" by (rule closed_idle)
  with assms(2) show False unfolding actives_0 by blast
qed

lemma signal_OK: "transportOK s \<Longrightarrow> tpShut s \<noteq> Finished \<Longrightarrow> transportOK (signalChanged s)"
  by (simp add: transportOK_def signalChanged_def told_def shutOK_def)

lemma signal_told: "transportOK s \<Longrightarrow> tpShut s \<noteq> Finished \<Longrightarrow> tpChanged (signalChanged s) = 1"
  by (simp add: transportOK_def signalChanged_def)

lemma signal_worker: "tpWorker (signalChanged s) = tpWorker s"
  by (simp add: signalChanged_def)

lemma place_on:
  assumes "placeOK st g y" and "y \<noteq> NotStarted" and "x \<in> {Running, Finishing, Returned} \<or> watcher g \<and> x \<in> {Signalling, Leaving} \<or> \<not> watcher g \<and> x \<in> range Handling"
  shows "placeOK st g x"
  using assms by (cases g) (auto simp: placeOK_def watcher_def)

text \<open>A goroutine that goes on and is still counted; one that had an update to signal has signalled it.\<close>

lemma goes_OK:
  assumes "transportOK s" and "tpWorker s g \<notin> {NotStarted, Returned}" and "x \<in> {Running, Finishing} \<or> watcher g \<and> x \<in> {Signalling, Leaving} \<or> \<not> watcher g \<and> x \<in> range Handling"
    and "tpWorker s g = Signalling \<Longrightarrow> tpChanged s = 1"
  shows "transportOK (goesTo x g s)"
proof -
  have "active x = active (tpWorker s g)" using assms(2,3) by (auto simp: active_def)
  then have count: "actives ((tpWorker s)(g := x)) = actives (tpWorker s)" using actives_upd[of "tpWorker s" g x] by simp
  have "placeOK (tpSetup s) g x" using assms(1,2,3) by (intro place_on[OF placed]) auto
  then have "\<forall>h. placeOK (tpSetup s) h (((tpWorker s)(g := x)) h)" using assms(1) places_upd by (simp add: transportOK_def)
  moreover have "told (goesTo x g s)" using assms(1,4) by (intro told_upd) (auto simp: transportOK_def)
  ultimately show ?thesis using assms(1) count by (simp add: transportOK_def goesTo_def shutOK_def)
qed

lemma start_OK:
  assumes "transportOK s" and "tpWorker s g = NotStarted" and "tpShut s = NotBegun" and place: "placeOK (tpSetup s) g Running"
  shows "transportOK (starts g s)"
proof -
  have count: "actives ((tpWorker s)(g := Running)) = actives (tpWorker s) + 1" using actives_upd[of "tpWorker s" g Running] assms(2) by (simp add: active_def)
  have "told (goesTo Running g s)" using assms(1,2) by (intro told_upd) (simp_all add: transportOK_def)
  then have "told (starts g s)" by (simp add: starts_def told_def)
  moreover have "\<forall>h. placeOK (tpSetup s) h (((tpWorker s)(g := Running)) h)" using assms(1) place places_upd by (simp add: transportOK_def)
  ultimately show ?thesis using assms(1,3) count by (simp add: transportOK_def starts_def goesTo_def shutOK_def)
qed

lemma wgDone_OK:
  assumes "transportOK s" and "tpWorker s g = Finishing"
  shows "transportOK (wgDone g s)"
proof -
  have count: "actives ((tpWorker s)(g := Returned)) = actives (tpWorker s) - 1" using actives_upd[of "tpWorker s" g Returned] assms(2) by (simp add: active_def)
  have "told (goesTo Returned g s)" using assms by (intro told_upd) (simp_all add: transportOK_def)
  then have "told (wgDone g s)" by (simp add: wgDone_def told_def)
  moreover have "placeOK (tpSetup s) g Returned" using assms by (intro place_on[OF placed]) simp_all
  then have "\<forall>h. placeOK (tpSetup s) h (((tpWorker s)(g := Returned)) h)" using assms(1) places_upd by (simp add: transportOK_def)
  ultimately show ?thesis using assms(1) count by (simp add: transportOK_def wgDone_def goesTo_def shutOK_def)
qed

lemma beginClose_OK:
  assumes "transportOK s" and "tpSetup s \<in> {Ready, SetupFailed}"
  shows "transportOK (beginClose shut s)"
proof (cases "tpShut s = NotBegun")
  case True
  obtain e n w where close: "closeNetwork shut (tpNet s) (tpWorld s) = (e, n, w)" by (cases "closeNetwork shut (tpNet s) (tpWorld s)")
  then have "unDone n" "unIncoming n = unIncoming (tpNet s)"
    by (auto simp: closeNetwork_def Let_def split: if_splits prod.splits)
  with assms True close show ?thesis by (simp add: beginClose_def transportOK_def told_def shutOK_def)
qed (use assms in \<open>simp add: beginClose_def\<close>)

lemma receiverTurn_OK:
  assumes ok: "transportOK s" and at: "tpWorker s (Receiver v4) = Handling r"
  shows "transportOK (receiverTurn itoa v4 r s)"
proof -
  obtain n nx where turn: "receiveTurn itoa (tpNet s) r = (n, nx)" by (cases "receiveTurn itoa (tpNet s) r")
  then have keeps: "unDone n = unDone (tpNet s)" "length (unIncoming (tpNet s)) \<le> incomingLimit \<longrightarrow> length (unIncoming n) \<le> incomingLimit"
    by (auto simp: receiveTurn_def split: readResult.splits option.splits if_splits)
  have opened: "tpShut s \<notin> {IncomingClosed, Finished}" using active_open[OF ok, of "Receiver v4"] at by simp
  let ?s1 = "s\<lparr>tpNet := n, tpPanic := tpPanic s\<rparr>"
  have "transportOK ?s1" using ok keeps by (simp add: transportOK_def told_def shutOK_def)
  then have go: "transportOK (goesTo x (Receiver v4) ?s1)" if "x \<in> {Running, Finishing}" for x
    using that at by (intro goes_OK) auto
  have "placeOK (tpSetup s) (Receiver v4) (Handling r)" using placed[OF ok, of "Receiver v4"] at by simp
  then have "tpSetup s = Ready" by (auto simp: placeOK_def)
  then have "transportOK ((goesTo Finishing (Receiver v4) ?s1)\<lparr>tpClosers := c\<rparr>)" for c
    using go[of Finishing] by (simp add: transportOK_def goesTo_def told_def shutOK_def)
  then show ?thesis using go opened by (cases nx) (simp_all add: receiverTurn_def turn)
qed

text \<open>\<open>openNetwork\<close> goes on: what it has not started yet may now be started.\<close>

lemma setup_OK:
  assumes "transportOK s" and "tpSetup s \<notin> {Ready, SetupFailed}"
    and "\<And>g. placeOK (tpSetup s) g (tpWorker s g) \<Longrightarrow> placeOK st g (tpWorker s g)"
  shows "transportOK (s\<lparr>tpSetup := st\<rparr>)"
  using assms(1,3) setting_up[OF assms(1,2)] by (simp add: transportOK_def told_def shutOK_def)

lemma not_started: "transportOK s \<Longrightarrow> \<not> placeOK (tpSetup s) g Running \<Longrightarrow> watcher g \<or> tpSetup s \<noteq> Ready \<Longrightarrow> tpWorker s g = NotStarted"
  using placed[of s g] by (cases g) (auto simp: placeOK_def watcher_def)

lemma step_OK: "transportStep itoa shut a s t \<Longrightarrow> transportOK s \<Longrightarrow> transportOK t"
proof (induction rule: transportStep.induct)
  case (setup_fails s) then show ?case by (intro setup_OK) (auto simp: placeOK_def split: goroutine.splits)
next
  case (links_subscribed s)
  then have "transportOK (s\<lparr>tpSetup := LinksWatched\<rparr>)" by (intro setup_OK) (simp_all add: placeOK_def split: goroutine.splits)
  with links_subscribed setting_up[of s] not_started[of s WatchLinks] show ?case
    by (intro start_OK) (simp_all add: placeOK_def watcher_def)
next
  case (addresses_subscribed s)
  then have "transportOK (s\<lparr>tpSetup := Watched\<rparr>)" by (intro setup_OK) (simp_all add: placeOK_def split: goroutine.splits)
  with addresses_subscribed setting_up[of s] not_started[of s WatchAddresses] show ?case
    by (intro start_OK) (simp_all add: placeOK_def watcher_def)
next
  case (receivers_started s)
  then have "transportOK (s\<lparr>tpSetup := Ready\<rparr>)" by (intro setup_OK) (simp_all add: placeOK_def split: goroutine.splits)
  moreover have idle: "tpWorker s (Receiver v4) = NotStarted" for v4
    using receivers_started not_started[of s "Receiver v4"] by (simp add: placeOK_def)
  ultimately have "transportOK (starts (Receiver True) (s\<lparr>tpSetup := Ready\<rparr>))"
    using receivers_started setting_up[of s] by (intro start_OK) (simp_all add: placeOK_def)
  then show ?case
    by (rule start_OK) (use idle receivers_started setting_up[of s] in \<open>simp_all add: placeOK_def starts_def goesTo_def\<close>)
next
  case (taken g s)
  let ?s = "goesTo Signalling g (s\<lparr>tpQueue := (tpQueue s)(g := tpQueue s g - 1)\<rparr>)"
  have "transportOK ?s" using taken by (intro goes_OK) (simp_all add: transportOK_def told_def shutOK_def)
  moreover have "tpWorker ?s g = Signalling" by (simp add: goesTo_def)
  moreover have "goesTo Signalling g (s\<lparr>tpQueue := (tpQueue s)(g := tpQueue s g - 1), tpMissed := True\<rparr>) = ?s\<lparr>tpMissed := True\<rparr>" by (simp add: goesTo_def)
  ultimately show ?case by (auto simp: transportOK_def told_def shutOK_def)
next
  case (signalled s g)
  with active_open[of s g] have "tpShut s \<noteq> Finished" by simp
  with signalled show ?case by (intro goes_OK) (simp_all add: signal_OK signal_told signal_worker)
next
  case (loop_ends g s) then show ?case by (intro goes_OK) simp_all
next
  case (last_signal s g)
  with active_open[of s g] have "tpShut s \<noteq> Finished" by simp
  with last_signal show ?case by (intro goes_OK) (simp_all add: signal_OK signal_worker)
next
  case (no_socket s v4) then show ?case by (intro goes_OK) simp_all
next
  case (receiver_read s v4 r) then show ?case by (intro goes_OK) (simp_all add: watcher_def)
next
  case (receiver_handles s v4 r) then show ?case by (intro receiverTurn_OK)
next
  case (worker_done s g) then show ?case by (intro wgDone_OK)
next
  case (close_called s) then show ?case by (intro beginClose_OK)
next
  case (closer_runs s)
  then have "tpSetup s = Ready" by (simp add: transportOK_def shutOK_def)
  moreover from closer_runs this have "transportOK (s\<lparr>tpClosers := tpClosers s - 1\<rparr>)" by (auto simp: transportOK_def told_def shutOK_def)
  ultimately show ?case by (intro beginClose_OK) simp_all
next
  case (packet_taken s) then show ?case by (simp add: transportOK_def told_def shutOK_def le_diff_conv)
next
  case (change_taken s) then show ?case by (simp add: transportOK_def told_def shutOK_def)
qed (simp_all add: transportOK_def told_def shutOK_def)

lemma run_OK: "transportRun itoa shut s t \<Longrightarrow> transportOK s \<Longrightarrow> transportOK t"
  by (induction rule: transportRun.induct) (auto intro: step_OK)

text \<open>
  C15: No goroutine of the transport sends on a closed channel and no change goes unnoticed.  From
  open sockets, through any interleaving of \<open>openNetwork\<close>, the two watchers, the two receivers, the
  event loop and any number of callers of \<open>Close\<close>: nothing panics; when a watcher has taken an
  update and the event loop has not been told since, a signal waits in \<open>changed\<close> or a watcher is
  just about to send one; at most 64 packets wait in \<open>incoming\<close>; and from the moment the first
  channel is closed every goroutine that was started has returned, its deferred calls included, so
  that none can use the channels or the sockets afterwards.
\<close>

theorem transport_safe:
  assumes "\<not> unDone n" and "unIncoming n = []" and "transportRun itoa shut (freshTransport n w) s"
  shows "\<not> tpPanic s \<and> (tpMissed s \<longrightarrow> tpChanged s = 1 \<or> (\<exists>g. tpWorker s g = Signalling)) \<and> length (unIncoming (tpNet s)) \<le> 64 \<and>
    (tpShut s \<in> {IncomingClosed, Finished} \<longrightarrow> unDone (tpNet s) \<and> (\<forall>g. tpWorker s g \<in> {NotStarted, Returned}))"
proof -
  have ok: "transportOK s" using run_OK[OF assms(3) fresh_OK[OF assms(1,2)]] .
  then have "tpShut s \<in> {IncomingClosed, Finished} \<longrightarrow> unDone (tpNet s) \<and> actives (tpWorker s) = 0"
    by (auto simp: transportOK_def shutOK_def)
  with ok show ?thesis unfolding actives_0 by (simp add: transportOK_def told_def incomingLimit_def)
qed

section \<open>Shutdown\<close>

text \<open>
  What happens without the event loop, other callers or new updates once the transport
  is to be closed: netlink closes the subscriptions and reads fail because \<open>done\<close> and
  the sockets are closed, and the goroutines go on.
\<close>

fun shutdownAction :: "'w transport \<Rightarrow> action \<Rightarrow> bool" where
  "shutdownAction s (SubscriptionEnds g) = True"
| "shutdownAction s (Taken g) = True"
| "shutdownAction s (Signalled g) = True"
| "shutdownAction s (LoopEnds g) = True"
| "shutdownAction s (LastSignal g) = True"
| "shutdownAction s (NoSocket v4) = True"
| "shutdownAction s (ReceiverRead v4 r) = (case r of ReadError _ \<Rightarrow> unDone (tpNet s) | Read _ _ _ _ \<Rightarrow> False)"
| "shutdownAction s (ReceiverHandles v4) = True"
| "shutdownAction s (WorkerDone g) = True"
| "shutdownAction s CloserRuns = True"
| "shutdownAction s CloseCalled = (tpShut s = NotBegun \<and> tpSetup s = SetupFailed)"
| "shutdownAction s WaitReturns = True"
| "shutdownAction s ChangedClosed = True"
| "shutdownAction s _ = False"

definition shutdownStep :: "(int \<Rightarrow> string) \<Rightarrow> (bool \<Rightarrow> 'w \<Rightarrow> error option \<times> 'w) \<Rightarrow> 'w transport \<Rightarrow> 'w transport \<Rightarrow> bool" where
  "shutdownStep itoa shut s t \<longleftrightarrow> (\<exists>a. shutdownAction s a \<and> transportStep itoa shut a s t)"

lemma shutdownStepI: "transportStep itoa shut a s t \<Longrightarrow> shutdownAction s a \<Longrightarrow> \<exists>t. shutdownStep itoa shut s t"
  unfolding shutdownStep_def by blast

text \<open>The transport is to be closed: setup has failed, a receiver has asked for it, or \<open>Close\<close> has begun.\<close>

definition closing :: "'w transport \<Rightarrow> bool" where
  "closing s \<longleftrightarrow> unDone (tpNet s) \<or> tpSetup s = SetupFailed \<or> 0 < tpClosers s"

text \<open>The steps a goroutine has before it: a failed read that finds \<open>done\<close> closed ends the receiver, any other sends it back to its loop.\<close>

fun ahead :: "bool \<Rightarrow> worker \<Rightarrow> nat" where
  "ahead closed NotStarted = 0"
| "ahead closed Returned = 0"
| "ahead closed Finishing = 2"
| "ahead closed Leaving = 3"
| "ahead closed Running = 4"
| "ahead closed Signalling = 5"
| "ahead closed (Handling r) = (case r of ReadError _ \<Rightarrow> if closed then 3 else 5 | Read _ _ _ _ \<Rightarrow> 5)"

definition left :: "'w transport \<Rightarrow> goroutine \<Rightarrow> nat" where
  "left s g = 2 * tpQueue s g + (if tpEnded s g then 0 else 1) + ahead (unDone (tpNet s)) (tpWorker s g)"

definition work :: "'w transport \<Rightarrow> nat" where
  "work s = left s WatchLinks + left s WatchAddresses + left s (Receiver True) + left s (Receiver False) + tpClosers s +
     (case tpShut s of NotBegun \<Rightarrow> 3 | WaitingForWorkers \<Rightarrow> 2 | IncomingClosed \<Rightarrow> 1 | Finished \<Rightarrow> 0)"

lemma work_less:
  assumes "\<And>h. h \<noteq> g \<Longrightarrow> left t h = left s h" and "left t g + tpClosers t < left s g + tpClosers s" and "tpShut t = tpShut s"
  shows "work t < work s"
  by (cases g rule: goroutine_cases) (use assms in \<open>simp_all add: work_def\<close>)

lemma go_work: "ahead (unDone (tpNet s)) x < ahead (unDone (tpNet s)) (tpWorker s g) \<Longrightarrow> work (goesTo x g s) < work s"
  by (rule work_less[of g]) (simp_all add: goesTo_def left_def)

lemma ahead_closed: "ahead True x \<le> ahead b x"
  by (cases x) (auto split: readResult.split)

lemma begin_work: "work (beginClose shut s) \<le> work s" "tpShut s = NotBegun \<Longrightarrow> work (beginClose shut s) < work s"
proof -
  obtain e n w where close: "closeNetwork shut (tpNet s) (tpWorld s) = (e, n, w)" by (cases "closeNetwork shut (tpNet s) (tpWorld s)")
  then have "unDone n" by (auto simp: closeNetwork_def Let_def split: if_splits prod.splits)
  then have "left (s\<lparr>tpNet := n, tpWorld := w, tpShut := WaitingForWorkers\<rparr>) g \<le> left s g" for g
    by (simp add: left_def ahead_closed)
  from this[of WatchLinks] this[of WatchAddresses] this[of "Receiver True"] this[of "Receiver False"]
  show begun: "tpShut s = NotBegun \<Longrightarrow> work (beginClose shut s) < work s" by (simp add: beginClose_def work_def close)
  show "work (beginClose shut s) \<le> work s" using begun by (cases "tpShut s = NotBegun") (simp_all add: beginClose_def)
qed

lemma signal_same: "tpShut s \<noteq> Finished \<Longrightarrow> work (signalChanged s) = work s" "tpNet (signalChanged s) = tpNet s"
  by (simp_all add: signalChanged_def work_def left_def)

lemma turn_less:
  assumes "tpNet t = tpNet s \<or> unDone (tpNet t) = unDone (tpNet s)" and "tpWorker t = (tpWorker s)(g := x)" and "tpQueue t = tpQueue s"
    and "tpEnded t = tpEnded s" and "tpShut t = tpShut s"
    and "ahead (unDone (tpNet s)) x + tpClosers t < ahead (unDone (tpNet s)) (tpWorker s g) + tpClosers s"
  shows "work t < work s"
  by (rule work_less[of g]) (use assms in \<open>auto simp: left_def\<close>)

lemma turn_work:
  assumes "tpWorker s (Receiver v4) = Handling r"
  shows "work (receiverTurn itoa v4 r s) < work s"
proof (cases r)
  case (ReadError temporary)
  then show ?thesis using assms
    by (intro turn_less[of _ _ "Receiver v4" "if unDone (tpNet s) \<or> \<not> temporary then Finishing else Running"])
      (auto simp: receiverTurn_def receiveTurn_def goesTo_def)
next
  case (Read data dst index source)
  then show ?thesis using assms
    by (intro turn_less[of _ _ "Receiver v4" Running]; cases "acceptDatagram itoa data dst index source")
      (simp_all add: receiverTurn_def receiveTurn_def goesTo_def)
qed

lemma shutdown_work:
  assumes "transportStep itoa shut a s t" and "shutdownAction s a" and "transportOK s"
  shows "work t < work s"
  using assms
proof (induction rule: transportStep.induct)
  case (subscription_ends g s) then show ?case by (intro work_less[of g]) (simp_all add: left_def)
next
  case (taken g s) then show ?case by (intro work_less[of g]) (simp_all add: left_def goesTo_def)
next
  case (signalled s g)
  with active_open[of s g] have "tpShut s \<noteq> Finished" by simp
  with signalled go_work[of "signalChanged s" Running g] show ?case by (simp add: signal_same signal_worker)
next
  case (loop_ends g s) then show ?case by (intro go_work) simp
next
  case (last_signal s g)
  with active_open[of s g] have "tpShut s \<noteq> Finished" by simp
  with last_signal go_work[of "signalChanged s" Finishing g] show ?case by (simp add: signal_same signal_worker)
next
  case (no_socket s v4) then show ?case by (intro go_work) simp
next
  case (receiver_read s v4 r) then show ?case by (intro go_work) (simp split: readResult.splits)
next
  case (receiver_handles s v4 r) then show ?case by (intro turn_work)
next
  case (worker_done s g) then show ?case by (intro work_less[of g]) (simp_all add: wgDone_def goesTo_def left_def)
next
  case (close_called s) then show ?case by (simp add: begin_work)
next
  case (closer_runs s)
  have "work (s\<lparr>tpClosers := tpClosers s - 1\<rparr>) < work s" using closer_runs by (simp add: work_def left_def)
  with begin_work(1)[of shut "s\<lparr>tpClosers := tpClosers s - 1\<rparr>"] show ?case by simp
next
  case (wait_returns s) then show ?case by (simp add: work_def left_def)
next
  case (changed_closed s) then show ?case by (simp add: work_def left_def)
qed simp_all

lemma begin_closing: "unDone (tpNet s) \<Longrightarrow> unDone (tpNet (beginClose shut s))" "tpShut s = NotBegun \<Longrightarrow> unDone (tpNet (beginClose shut s))"
  by (auto simp: beginClose_def closeNetwork_def Let_def split: prod.split)

lemma turn_closing: "closing s \<Longrightarrow> closing (receiverTurn itoa v4 r s)"
  by (auto simp: receiverTurn_def receiveTurn_def closing_def goesTo_def split: readResult.split option.split)

lemma shutdown_closing:
  assumes "transportStep itoa shut a s t" and "shutdownAction s a" and "transportOK s" and "closing s"
  shows "closing t"
  using assms
proof (induction rule: transportStep.induct)
  case (closer_runs s)
  have "tpShut s \<noteq> NotBegun \<Longrightarrow> unDone (tpNet s)" using closer_runs by (simp add: transportOK_def shutOK_def)
  with begin_closing[of "s\<lparr>tpClosers := tpClosers s - 1\<rparr>" shut] show ?case by (cases "tpShut s = NotBegun") (simp_all add: closing_def)
next
  case (close_called s) then show ?case by (simp add: closing_def begin_closing)
next
  case (receiver_handles s v4 r) then show ?case by (intro turn_closing)
qed (simp_all add: closing_def signalChanged_def goesTo_def wgDone_def)

text \<open>A goroutine that has not returned can go on once \<open>done\<close> and the sockets are closed.\<close>

lemma worker_progress:
  assumes ok: "transportOK s" and closed: "unDone (tpNet s)" and g: "tpWorker s g \<notin> {NotStarted, Returned}"
  shows "\<exists>t. shutdownStep itoa shut s t"
proof (cases "tpWorker s g")
  case Running
  show ?thesis
  proof (cases g rule: goroutine.exhaust)
    case (Receiver v4)
    have "shutdownAction s (ReceiverRead v4 (ReadError True))" using closed by simp
    with Running Receiver receiver_read[of s v4 itoa shut "ReadError True"] no_socket[of s v4 itoa shut] show ?thesis
      by (metis shutdownStepI shutdownAction.simps(6))
  qed (use Running subscription_ends[of g s itoa shut] taken[of g s itoa shut] loop_ends[of g s itoa shut] in
      \<open>(metis shutdownStepI shutdownAction.simps(1,2,4) watcher_def worker.distinct(1) gr0I)+\<close>)
next
  case (Handling r)
  with placed[OF ok, of g] obtain v4 where "g = Receiver v4" by (cases g) (auto simp: placeOK_def)
  with Handling receiver_handles[of s v4 r itoa shut] show ?thesis by (auto intro: shutdownStepI)
qed (use g signalled[of s g itoa shut] last_signal[of s g itoa shut] worker_done[of s g itoa shut] in \<open>auto intro: shutdownStepI\<close>)

text \<open>While the transport is to be closed and its channels are still open, some goroutine can go on.\<close>

lemma shutdown_progress:
  assumes "transportOK s" and "closing s" and "tpShut s \<noteq> Finished"
  shows "\<exists>t. shutdownStep itoa shut s t"
proof (cases "tpShut s")
  case NotBegun
  with assms have "tpSetup s = SetupFailed \<or> 0 < tpClosers s" by (auto simp: closing_def transportOK_def shutOK_def)
  with NotBegun close_called[of s itoa shut] closer_runs[of s itoa shut] show ?thesis by (auto intro: shutdownStepI)
next
  case WaitingForWorkers
  then have closed: "unDone (tpNet s)" and count: "tpWait s = actives (tpWorker s)" using assms by (simp_all add: transportOK_def shutOK_def)
  show ?thesis
  proof (cases "tpWait s = 0")
    case True
    with WaitingForWorkers wait_returns[of s itoa shut] show ?thesis by (auto intro: shutdownStepI)
  next
    case False
    with count obtain g where "tpWorker s g \<notin> {NotStarted, Returned}" using actives_0[of "tpWorker s"] by auto
    with assms(1) closed show ?thesis by (rule worker_progress)
  qed
next
  case IncomingClosed
  with changed_closed[of s itoa shut] show ?thesis by (auto intro: shutdownStepI)
qed (use assms in simp)

lemma shutdown_keeps: "(shutdownStep itoa shut)\<^sup>*\<^sup>* s t \<Longrightarrow> transportOK s \<Longrightarrow> closing s \<Longrightarrow> transportOK t \<and> closing t"
  by (induction rule: rtranclp_induct) (auto simp: shutdownStep_def intro: step_OK shutdown_closing)

text \<open>
  C14: Closing the transport never hangs.  Take any reachable state in which the transport is to be
  closed: setup failed, a receiver met a permanent error, or someone called \<open>Close\<close>.  Once \<open>done\<close>
  and the sockets are closed netlink ends the subscriptions and reads fail; under these reactions
  alone the goroutines cannot go on forever, whatever the order in which they run, and where they
  stop all of them have returned and the channels are closed.
\<close>

theorem shutdown_completes:
  assumes "\<not> unDone n" and "unIncoming n = []" and "transportRun itoa shut (freshTransport n w) s" and "closing s"
  shows "(\<nexists>run. run 0 = s \<and> (\<forall>i. shutdownStep itoa shut (run i) (run (Suc i)))) \<and>
    (\<forall>t. (shutdownStep itoa shut)\<^sup>*\<^sup>* s t \<and> (\<nexists>u. shutdownStep itoa shut t u) \<longrightarrow>
      tpShut t = Finished \<and> (\<forall>g. tpWorker t g \<in> {NotStarted, Returned}))"
proof (intro conjI)
  note ok = run_OK[OF assms(3) fresh_OK[OF assms(1,2)]]
  show "\<nexists>run. run 0 = s \<and> (\<forall>i. shutdownStep itoa shut (run i) (run (Suc i)))"
  proof
    assume "\<exists>run. run 0 = s \<and> (\<forall>i. shutdownStep itoa shut (run i) (run (Suc i)))"
    then obtain run where start: "run 0 = s" and steps: "\<And>i. shutdownStep itoa shut (run i) (run (Suc i))" by blast
    have reach: "transportOK (run i)" for i
      using steps ok start by (induction i) (auto simp: shutdownStep_def intro: step_OK)
    have "work (run (Suc i)) < work (run i)" for i
      using steps[of i] reach[of i] by (auto simp: shutdownStep_def intro: shutdown_work)
    then show False using wf_no_infinite_down_chainE[OF wf_measure[of work], of run] by (auto simp: in_measure)
  qed
  show "\<forall>t. (shutdownStep itoa shut)\<^sup>*\<^sup>* s t \<and> (\<nexists>u. shutdownStep itoa shut t u) \<longrightarrow>
      tpShut t = Finished \<and> (\<forall>g. tpWorker t g \<in> {NotStarted, Returned})"
  proof (intro allI impI, elim conjE)
    fix t assume reach: "(shutdownStep itoa shut)\<^sup>*\<^sup>* s t" and stuck: "\<nexists>u. shutdownStep itoa shut t u"
    from shutdown_keeps[OF reach ok assms(4)] have t: "transportOK t" "closing t" by blast+
    with shutdown_progress[of t itoa shut] stuck have "tpShut t = Finished" by blast
    with closed_idle[OF t(1)] show "tpShut t = Finished \<and> (\<forall>g. tpWorker t g \<in> {NotStarted, Returned})" unfolding actives_0 by blast
  qed
qed

section \<open>Concrete runs\<close>

abbreviation exTransport :: "unit transport" where
  "exTransport \<equiv> freshTransport (initialNetwork [] [] [] ''wg0'') ()"

abbreviation exRunTo :: "unit transport \<Rightarrow> bool" where
  "exRunTo \<equiv> transportRun (\<lambda>_. []) (\<lambda>_ w. (None, w)) exTransport"

lemmas run_setup = freshTransport_def initialNetwork_def starts_def goesTo_def watcher_def signalChanged_def closing_def

text \<open>An interface changes while the addresses are not watched yet.\<close>

theorem transport_safe_witness: "\<exists>s. exRunTo s \<and> tpMissed s \<and> tpChanged s = 1 \<and> \<not> tpPanic s"
proof -
  define s1 where "s1 = starts WatchLinks (exTransport\<lparr>tpSetup := LinksWatched\<rparr>)"
  define s2 where "s2 = s1\<lparr>tpQueue := (tpQueue s1)(WatchLinks := tpQueue s1 WatchLinks + 1)\<rparr>"
  define s3 where "s3 = goesTo Signalling WatchLinks (s2\<lparr>tpQueue := (tpQueue s2)(WatchLinks := tpQueue s2 WatchLinks - 1), tpMissed := True\<rparr>)"
  define s4 where "s4 = goesTo Running WatchLinks (signalChanged s3)"
  have "exRunTo s1" unfolding s1_def by (rule run_step[OF run_here links_subscribed]) (simp add: run_setup)
  then have "exRunTo s2" unfolding s2_def by (rule run_step[OF _ updated]) (simp_all add: s1_def run_setup)
  then have "exRunTo s3" unfolding s3_def by (rule run_step[OF _ taken]) (simp_all add: s2_def s1_def run_setup)
  then have run: "exRunTo s4" unfolding s4_def by (rule run_step[OF _ signalled]) (simp add: s3_def goesTo_def)
  have missed: "tpMissed s4" and idle: "tpWorker s4 g \<noteq> Signalling" for g by (simp_all add: s4_def s3_def s2_def s1_def run_setup)
  have "\<not> unDone (initialNetwork [] [] [] ''wg0'')" "unIncoming (initialNetwork [] [] [] ''wg0'') = []" by (simp_all add: initialNetwork_def)
  from transport_safe[OF this run] missed idle run show ?thesis by blast
qed

text \<open>The link subscription works and the address subscription fails: the one watcher that runs is waited for.\<close>

theorem shutdown_completes_witness:
  "\<exists>s. exRunTo s \<and> closing s \<and> tpWorker s WatchLinks = Running \<and>
    (\<nexists>run. run 0 = s \<and> (\<forall>i. shutdownStep (\<lambda>_. []) (\<lambda>_ w. (None, w)) (run i) (run (Suc i))))"
proof -
  define s1 where "s1 = starts WatchLinks (exTransport\<lparr>tpSetup := LinksWatched\<rparr>)"
  have "exRunTo s1" unfolding s1_def by (rule run_step[OF run_here links_subscribed]) (simp add: run_setup)
  then have run: "exRunTo (s1\<lparr>tpSetup := SetupFailed\<rparr>)" by (rule run_step[OF _ setup_fails]) (simp add: s1_def run_setup)
  have closing: "closing (s1\<lparr>tpSetup := SetupFailed\<rparr>)" by (simp add: run_setup)
  have "\<not> unDone (initialNetwork [] [] [] ''wg0'')" "unIncoming (initialNetwork [] [] [] ''wg0'') = []" by (simp_all add: initialNetwork_def)
  from shutdown_completes[OF this run closing]
  have "\<nexists>r. r 0 = s1\<lparr>tpSetup := SetupFailed\<rparr> \<and> (\<forall>i. shutdownStep (\<lambda>_. []) (\<lambda>_ w. (None, w)) (r i) (r (Suc i)))" by (rule conjunct1)
  moreover have "tpWorker (s1\<lparr>tpSetup := SetupFailed\<rparr>) WatchLinks = Running" by (simp add: s1_def run_setup)
  ultimately show ?thesis using run closing by blast
qed

end
