(* ===== verification/Spec2Isabelle.thy ===== *)
theory Spec2Isabelle
  imports NetworkWitnesses DaemonWitnesses RosenpassWitnesses LeaseWitnesses Transport
begin

text \<open>
  Verification of \<^verbatim>\<open>wireguard-meshd\<close>, the daemon that gives the peers of an existing WireGuard
  network direct paths over the local network.

  \<^bold>\<open>The program.\<close>  The daemon (\<^verbatim>\<open>src/main.go\<close>) locks a recovery journal, starts the route
  controller (\<^verbatim>\<open>src/control.go\<close>), reads the configuration (\<^verbatim>\<open>src/config.go\<close>), opens the UDP
  transport on the physical interfaces (\<^verbatim>\<open>src/network.go\<close>, \<^verbatim>\<open>src/network_linux.go\<close>,
  \<^verbatim>\<open>src/network_other.go\<close>, \<^verbatim>\<open>src/routes_linux.go\<close>) and runs the event loop
  (\<^verbatim>\<open>src/mesh.go\<close>).  The loop finds the other nodes by probes inside authenticated packets
  (\<^verbatim>\<open>src/secure.go\<close>), measures round trips, agrees with the other side on a direct path in rounds
  of the messages prepare, ready, commit, committed, keep, hold and abort, and has the controller
  install or take back the path.  Preshared keys come from files another program writes, are proved
  to the other side and replaced while a path is in use (\<^verbatim>\<open>src/psk.go\<close>); one such program is the
  adapter for Rosenpass (\<^verbatim>\<open>src/rosenpass_linux.go\<close>, \<^verbatim>\<open>src/rosenpass.go\<close>), a second mode of the
  same binary that runs a Rosenpass child per link and publishes the keys it negotiates.  Whatever
  happens, the controller ends by giving every address back to the peer that had it before.

  \<^bold>\<open>Conventions.\<close>  An operation with effects is a function from a state to a result and a state
  (\<open>eff\<close> of \<open>Prelude\<close>): \<^verbatim>\<open>Inl\<close> is a returned Go error, and what was changed before an error
  stays changed, as in Go.  A nil dereference or a failed type assertion is the error \<open>goPanic\<close>
  and sets a flag of the state.  Keys, hashes, identifiers, counters and masks are words of their
  width with the wrap-around of Go; times and durations are integers, with the saturation of
  \<^verbatim>\<open>time.Sub\<close> and the 64-bit product and quotient written out where they matter; \<open>float64\<close> is a
  binary fraction that is rounded to 53 bits after every operation.  Definitions have the names of
  the Go functions; a long function is cut into definitions at its early returns.

  \<^bold>\<open>Theories.\<close>

  \<^item> \<open>Prelude\<close>: effects, the weakest precondition \<open>wpE\<close> with the rule collection \<open>wp\<close>, byte
    encodings, association lists, the clock.  \<open>Netip\<close>: addresses and prefixes of \<^verbatim>\<open>net/netip\<close>.
    \<open>Float64\<close>: the floating-point arithmetic of the improvement policy, with error bounds.
  \<^item> \<open>Control\<close>: all of \<^verbatim>\<open>control.go\<close>.  \<open>Ownership\<close>: the nested loops that find the owner of an
    address compute the longest-prefix match.  \<open>ControlSafety\<close>: what a successful \<open>Apply\<close>,
    \<open>Restore\<close>, \<open>Rekey\<close>, \<open>Check\<close>, \<open>RestoreAll\<close> and \<open>newController\<close> guarantee of the kernel.
    \<open>ControlJournal\<close>: saving is atomic, journals survive writing and reading.  \<open>ControlWal\<close>: every
    change sent to the kernel was announced on disk before, along all runs and failures.
    \<open>Simulation\<close>, \<open>Witnesses\<close>: a simulated kernel and file system and concrete runs on them.
  \<^item> \<open>Secure\<close>: all of \<^verbatim>\<open>secure.go\<close>.  \<open>SecureSafety\<close>: the replay window refines the set of accepted
    counters, tables are well formed.  \<open>SecureRuns\<close>: runs of the exported operations: no replay,
    no reuse of counters or identifiers, bounded tables.  \<open>SecureWire\<close>: the envelope, its round
    trip, the size of packets, the rate limits.  \<open>SecureSim\<close>: concrete primitives.
  \<^item> \<open>Config\<close>: \<^verbatim>\<open>config.go\<close>; the checks are equivalent to a description of an admissible
    configuration that is written without them (\<open>networkOK\<close>, \<open>groupsOK\<close>, \<open>policyOK\<close>, \<open>specOK\<close>).
  \<^item> \<open>Network\<close>: sockets, memberships, sending and receiving of \<^verbatim>\<open>network.go\<close>; a refresh of the
    links reconciles the kernel's memberships with the interfaces.  \<open>Interfaces\<close>: the interface
    table of \<^verbatim>\<open>network_linux.go\<close> read over netlink.  \<open>Transport\<close>: the goroutines of the transport
    and its shutdown as an interleaving step relation; taking an update, signalling it, the deferred
    signal and the countdown of the wait group are separate steps, as are the two \<^verbatim>\<open>close\<close> calls.  \<open>NetworkWitnesses\<close>: concrete instances.
  \<^item> \<open>Measure\<close>, \<open>Mesh\<close>, \<open>Coordinate\<close>, \<open>Events\<close>: \<^verbatim>\<open>mesh.go\<close>, from the samples to the event loop;
    \<open>Psk\<close>: \<^verbatim>\<open>psk.go\<close>.  \<open>MeshInv\<close>, \<open>PskSafety\<close>, \<open>MeshSafety\<close>, \<open>EventSafety\<close>, \<open>MeshRuns\<close>: the
    invariant of a peer and of the table, kept by every operation and every run.  \<open>Wiring\<close>,
    \<open>Calls\<close>: runs inside a larger world, the calls a run makes and the absence of panics.
    \<open>PskProofs\<close>: key files, proofs of possession, retired tokens.  \<open>Lease\<close>: how long a direct path
    lives and what makes a trial the active route.  \<open>Consent\<close>: what puts a path on trial.
    \<open>MeshWitnesses\<close>, \<open>LeaseWitnesses\<close>: concrete runs.
  \<^item> \<open>Daemon\<close>: \<^verbatim>\<open>main.go\<close>, \<^verbatim>\<open>routes_linux.go\<close>, the opening of the transport.  \<open>DaemonSafety\<close>,
    \<open>DaemonRuns\<close>: the loop wired to the controller and to its read-only stand-in; whole runs of the
    service.  \<open>DaemonWitnesses\<close>: a concrete host.
  \<^item> \<open>Rosenpass\<close>: the adapter and the daemon's question to it.  \<open>RosenpassSafety\<close>: the checks of
    its directories end.  \<open>RosenpassRuns\<close>: the invariant of its state and of the output file.
    \<open>RosenpassKeys\<close>: what the generation counters identify, and how the daemon reads a key safely.
    \<open>RosenpassChildren\<close>: which processes and directories of children are left.  \<open>RosenpassServer\<close>: the
    goroutines of the server, that their interleavings are the sequences of handlers of \<open>serverLoop\<close>,
    and that they come to an end.  \<open>RosenpassOutput\<close>: the reader of the child's output.
    \<open>RosenpassWitnesses\<close>: a concrete machine and child.
  \<^item> \<open>Program\<close>: both modes of the binary on a Linux host, with the interface table over netlink and
    the notifications of the service manager.

  \<^bold>\<open>Interfaces.\<close>  Five locales state what one part relies on in another; each is interpreted on the
  definitions of the model.
  \<^item> \<open>replay_filter\<close> (what a session needs of its window) on \<open>spent\<close> and \<open>spend\<close>.
  \<^item> \<open>route_control\<close> (what the loop needs of the routes) and its extension \<open>served_peer\<close>, on the loop
    in an arbitrary environment (\<open>any_run\<close>, \<open>peer_run\<close>) and on a recording one (\<open>calls_made\<close>).
  \<^item> \<open>host_control\<close> (what the service needs of a controller), which gives \<open>route_control\<close> by a
    \<^verbatim>\<open>sublocale\<close>, on the controller (\<open>controlled\<close>) and on the dry run (\<open>reading\<close>).
  \<^item> \<open>key_source\<close> (what a reader of the output file needs of the adapter) on the adapter's server.

  \<^bold>\<open>What is proved.\<close>
  \<^item> The service: the controller manages exactly the peers whose route is on trial or active; every
    kernel write of a whole run is permitted by a well-formed journal already on disk; however the
    run ends its last act restores, and without an error nothing stays managed; a dry run writes
    nothing.
  \<^item> The controller: a successful \<open>Apply\<close> routes the address to the direct peer, \<open>Restore\<close> gives it
    back to the recorded owner, \<open>Rekey\<close> changes the key and nothing else; the journal is replaced
    atomically, stays well formed, and a restart works it off.
  \<^item> The control channel: no packet is accepted twice, refused packets change nothing, counters and
    identifiers are never reused, tables are bounded, the envelope opens only for its addressee.
  \<^item> The loop: no run panics, all calls are admissible, phases are consistent, tables are bounded; a
    trial starts only with the consent of the other side and a proof of the key; a path stays only
    while it is alive, also while its key is being replaced, and becomes active only when it was better
    for a full window and both sides agree; retired tokens are refused; keys are read only from safe files.
  \<^item> The adapter: a key is announced only while exactly that key is in the output file, only to the
    configured user and only until it expires; a reader that sees the same key generation before and
    after reading has read the announced key; a child that did not end, files that were not removed and
    an output file that was not withdrawn are always a recorded error, after which nothing is started
    or answered; a service that ends without an error leaves no process, no files of a child and no
    output behind; and the server, once told to stop or failed, always returns.
  \<^item> The transport: no goroutine sends on a closed channel, no change of an interface goes unnoticed,
    closing always completes.

  \<^bold>\<open>Parameters and hypotheses.\<close>  Code outside the repository is an argument: \<open>controlIO\<close> (wgctrl,
  file system, JSON, base64, SHA-256), \<open>crypto\<close> (AEAD, key agreement, Noise, randomness), \<open>meshEnv\<close>
  (clock, sockets, files, HMAC, text forms, the order in which Go visits a map), \<open>host\<close>, \<open>netIO\<close>,
  \<open>netlinkIO\<close>, \<open>groupIO\<close>, \<open>adapterIO\<close>, \<open>queryIO\<close>, \<open>notifyIO\<close>.  The named hypotheses about them are
  \<open>observes\<close> (a device that is read is the device there is, file operations do not change it),
  \<open>durable\<close> (a rename replaces a file at once, other operations leave the journal file alone),
  \<open>exclusive\<close> (only publishing and removing change the output file), \<open>childProcesses\<close> (only the start
  of a command adds a process, a closed \<^verbatim>\<open>done\<close> channel means that it has ended, a removed directory is
  gone), \<open>truthful\<close> (netlink reports one
  table) and the usual laws of the primitives where a statement names them; each is shown to hold of a
  concrete instance.  Everything else about the environment is arbitrary, and so is the sequence of
  events.

  \<^bold>\<open>Loops and bounds.\<close>  All loops are structural recursions, folds or functions with a termination
  proof, except the walk from a directory to the root (\<open>trustedDirs\<close>, a partial function), which is
  shown to return for every clean path.  The event loops are folds over arbitrary finite sequences of
  events; that the transport and the adapter's server come to an end is proved on their step relations,
  with a measure and progress, and not of the folds; no fuel is used.  The limits of the code (16 paths, 2048 probes, 1024 samples and retired
  tokens, the session limits of \<^verbatim>\<open>secure.go\<close>, 64 queued packets, 8 connections, 1024 bytes of a line)
  are the numbers of the source.  Statements about generation counters assume fewer than \<open>2 ^ 64\<close>
  steps, since the counters wrap.

  \<^bold>\<open>Not modelled.\<close>  The parsing of flags (a run starts from parsed options), JSON and duration texts
  (\<open>readConfig\<close>, \<open>validateJournal\<close> and the messages start from decoded values), logging, signals
  (the event that ends a loop), and the stubs of other systems, which only return an error: they are
  calls of the standard library or have no state.  The kernel, wgctrl, netlink, Noise and the ciphers
  are parameters.  Goroutines are interleaved where they share state (\<open>Transport\<close>, \<open>RosenpassServer\<close>); a step under a lock is one step.
\<close>

end
